(* ===== verification/Prelude.thy ===== *)
theory Prelude
  imports Complex_Main "HOL-Library.Char_ord" "HOL-Library.List_Lexorder"
begin

text \<open>
  Shared vocabulary of the development.

  \<^item> Go's \<^verbatim>\<open>float64\<close> is modelled by exact rationals (type \<open>secs\<close> where it is a time):
    rounding is not modelled, and no value of the program's arithmetic here is irrational.
  \<^item> Go's \<^verbatim>\<open>int64\<close> is modelled by \<open>int\<close> with the wrap-around written out (\<open>wrap64\<close>)
    wherever the source computes on it.
  \<^item> Go strings are byte strings, \<open>string\<close>; \<open>to_lower\<close> is \<^verbatim>\<open>strings.ToLower\<close> on the
    ASCII letters, which are the only ones a method name or a setting is compared against.
  \<^item> The decimal printer \<open>itoa\<close> (the same loop stands in \<^verbatim>\<open>rateguard/mt.go\<close> and in
    \<^verbatim>\<open>botapi/typing.go\<close>) and \<^verbatim>\<open>strconv.ParseInt\<close>, with their round trip.
\<close>

named_theorems gw_defs \<open>definitions the component proofs unfold\<close>
named_theorems gw_inv \<open>preservation lemmas of the component invariants\<close>

type_synonym secs = rat

subsection \<open>Machine integers\<close>

definition int64 :: "int \<Rightarrow> bool" where
  "int64 n \<longleftrightarrow> - (2 ^ 63) \<le> n \<and> n < 2 ^ 63"

definition wrap64 :: "int \<Rightarrow> int" where
  "wrap64 n = (n + 2 ^ 63) mod 2 ^ 64 - 2 ^ 63"

abbreviation min_int64 :: int where
  "min_int64 \<equiv> - 9223372036854775808"

abbreviation max_int64 :: int where
  "max_int64 \<equiv> 9223372036854775807"

lemma wrap64_range [simp]: "int64 (wrap64 n)"
proof -
  have "0 \<le> (n + 2 ^ 63) mod 2 ^ 64" "(n + 2 ^ 63) mod 2 ^ 64 < (2 ^ 64 :: int)"
    by (rule pos_mod_sign, simp, rule pos_mod_bound, simp)
  then show ?thesis by (simp add: int64_def wrap64_def)
qed

lemma wrap64_id [simp]: "int64 n \<Longrightarrow> wrap64 n = n"
  by (simp add: int64_def wrap64_def)

text \<open>
  A float64 becomes an int64 by truncation towards zero; a value out of range becomes the
  smallest int64, as the amd64 conversion instruction answers.
\<close>

definition trunc_rat :: "rat \<Rightarrow> int" where
  "trunc_rat r = (if 0 \<le> r then \<lfloor>r\<rfloor> else \<lceil>r\<rceil>)"

definition int64_of_float :: "rat \<Rightarrow> int" where
  "int64_of_float r = (if int64 (trunc_rat r) then trunc_rat r else min_int64)"

lemma int64_of_float_of_int [simp]: "int64 n \<Longrightarrow> int64_of_float (of_int n) = n"
  by (simp add: int64_of_float_def trunc_rat_def)

lemma int64_of_float_range [simp]: "int64 (int64_of_float r)"
  by (simp add: int64_of_float_def int64_def)

subsection \<open>Strings\<close>

definition to_lower_char :: "char \<Rightarrow> char" where
  "to_lower_char c =
     (let n = (of_char c :: nat) in if 65 \<le> n \<and> n \<le> 90 then char_of (n + 32) else c)"

definition to_lower :: "string \<Rightarrow> string" where
  "to_lower s = map to_lower_char s"

lemma to_lower_char_idem [simp]: "to_lower_char (to_lower_char c) = to_lower_char c"
proof (cases "65 \<le> (of_char c :: nat) \<and> (of_char c :: nat) \<le> 90")
  case True
  then have "(of_char (char_of (of_char c + 32 :: nat)) :: nat) = of_char c + 32"
    by simp
  with True show ?thesis by (simp add: to_lower_char_def Let_def)
next
  case False
  then show ?thesis by (auto simp: to_lower_char_def Let_def)
qed

lemma to_lower_idem [simp]: "to_lower (to_lower s) = to_lower s"
  by (simp add: to_lower_def)

lemma length_to_lower [simp]: "length (to_lower s) = length s"
  by (simp add: to_lower_def)

fun has_prefix :: "string \<Rightarrow> string \<Rightarrow> bool" where
  "has_prefix s [] = True"
| "has_prefix [] (p # ps) = False"
| "has_prefix (c # cs) (p # ps) = (c = p \<and> has_prefix cs ps)"

lemma has_prefix_iff: "has_prefix s p \<longleftrightarrow> (\<exists>r. s = p @ r)"
  by (induction s p rule: has_prefix.induct) auto

lemma has_prefix_append [simp]: "has_prefix (p @ r) p"
  by (simp add: has_prefix_iff)

text \<open>\<^verbatim>\<open>strings.TrimPrefix\<close>.\<close>

definition trim_prefix :: "string \<Rightarrow> string \<Rightarrow> string" where
  "trim_prefix s p = (if has_prefix s p then drop (length p) s else s)"

text \<open>\<^verbatim>\<open>strings.TrimSpace\<close> on the ASCII white space.\<close>

lemma trim_prefix_eq_iff: "trim_prefix s p = x \<longleftrightarrow> (if has_prefix s p then s = p @ x else s = x)"
  by (auto simp: trim_prefix_def has_prefix_iff)

definition is_space :: "char \<Rightarrow> bool" where
  "is_space c \<longleftrightarrow> (of_char c :: nat) \<in> {9, 10, 11, 12, 13, 32}"

definition trim_space :: "string \<Rightarrow> string" where
  "trim_space s = rev (dropWhile is_space (rev (dropWhile is_space s)))"

subsection \<open>Decimal numbers\<close>

definition is_digit :: "char \<Rightarrow> bool" where
  "is_digit c \<longleftrightarrow> 48 \<le> (of_char c :: nat) \<and> (of_char c :: nat) \<le> 57"

definition digit_val :: "char \<Rightarrow> int" where
  "digit_val c = int (of_char c) - 48"

definition digit_char :: "int \<Rightarrow> char" where
  "digit_char d = char_of (nat (48 + d))"

lemma of_char_digit_char: "0 \<le> d \<Longrightarrow> d < 10 \<Longrightarrow> (of_char (digit_char d) :: nat) = nat (48 + d)"
  by (simp add: digit_char_def)

lemma digit_char_simps [simp]:
  assumes "0 \<le> d" "d < 10"
  shows "is_digit (digit_char d)" and "digit_val (digit_char d) = d"
  using assms by (auto simp: is_digit_def digit_val_def of_char_digit_char)

text \<open>The buffer loop \<^verbatim>\<open>for n > 0 { i--; buf[i] = '0' + n%10; n /= 10 }\<close>.\<close>

function itoa_loop :: "int \<Rightarrow> string \<Rightarrow> string" where
  "itoa_loop n buf = (if n > 0 then itoa_loop (n div 10) (digit_char (n mod 10) # buf) else buf)"
  by pat_completeness auto
termination
  by (relation "measure (\<lambda>(n, buf). nat n)") auto

declare itoa_loop.simps [simp del]

definition itoa :: "int \<Rightarrow> string" where
  "itoa n =
     (if n = 0 then ''0''
      else
        let neg = n < 0;
            m = (if neg then wrap64 (- n) else n);
            digits = itoa_loop m []
        in if neg then CHR ''-'' # digits else digits)"

fun digits_val :: "int \<Rightarrow> string \<Rightarrow> int" where
  "digits_val acc [] = acc"
| "digits_val acc (c # cs) = digits_val (10 * acc + digit_val c) cs"

lemma itoa_loop_append: "itoa_loop n (buf @ buf') = itoa_loop n buf @ buf'"
proof (induction n buf rule: itoa_loop.induct)
  case (1 n buf)
  then show ?case
    by (simp add: itoa_loop.simps [of n "buf @ buf'"] itoa_loop.simps [of n buf])
qed

lemma digits_val_append: "digits_val acc (s @ t) = digits_val (digits_val acc s) t"
  by (induction s arbitrary: acc) auto

lemma itoa_loop_nonpos [simp]: "n \<le> 0 \<Longrightarrow> itoa_loop n buf = buf"
  by (simp add: itoa_loop.simps [of n buf])

lemma itoa_loop_pos:
  "n > 0 \<Longrightarrow> itoa_loop n [] = itoa_loop (n div 10) [] @ [digit_char (n mod 10)]"
  using itoa_loop_append [of "n div 10" "[]" "[digit_char (n mod 10)]"]
  by (simp add: itoa_loop.simps [of n "[]"])

lemma itoa_loop_digits:
  assumes "0 \<le> n"
  shows "digits_val 0 (itoa_loop n []) = n \<and> list_all is_digit (itoa_loop n [])"
  using assms
proof (induction "nat n" arbitrary: n rule: less_induct)
  case less
  show ?case
  proof (cases "n = 0")
    case True
    then show ?thesis by simp
  next
    case False
    with less.prems have n: "n > 0" by simp
    then have "digits_val 0 (itoa_loop (n div 10) []) = n div 10
        \<and> list_all is_digit (itoa_loop (n div 10) [])"
      by (intro less.hyps) auto
    with n show ?thesis
      by (simp add: itoa_loop_pos digits_val_append)
  qed
qed

lemma itoa_loop_length:
  assumes "0 \<le> n" "n < 10 ^ k"
  shows "length (itoa_loop n []) \<le> k"
  using assms
proof (induction k arbitrary: n)
  case 0
  then show ?case by simp
next
  case (Suc k)
  show ?case
  proof (cases "n = 0")
    case True
    then show ?thesis by simp
  next
    case False
    with Suc.prems have "length (itoa_loop (n div 10) []) \<le> k"
      by (intro Suc.IH) auto
    with False Suc.prems show ?thesis by (simp add: itoa_loop_pos)
  qed
qed

lemma itoa_loop_nonempty: "n > 0 \<Longrightarrow> itoa_loop n [] \<noteq> []"
  by (simp add: itoa_loop_pos)

text \<open>\<^verbatim>\<open>strconv.ParseInt(s, 10, 64)\<close>: an optional sign, digits, the range check.\<close>

definition parse_digits :: "string \<Rightarrow> int option" where
  "parse_digits s = (if s \<noteq> [] \<and> list_all is_digit s then Some (digits_val 0 s) else None)"

definition parse_int :: "string \<Rightarrow> int option" where
  "parse_int s =
     (let r = (case s of
                 [] \<Rightarrow> None
               | c # cs \<Rightarrow>
                   if c = CHR ''-'' then map_option uminus (parse_digits cs)
                   else if c = CHR ''+'' then parse_digits cs
                   else parse_digits s)
      in case r of None \<Rightarrow> None | Some n \<Rightarrow> if int64 n then Some n else None)"

lemma digit_not_sign:
  assumes "is_digit c"
  shows "c \<noteq> CHR ''-''" "c \<noteq> CHR ''+''"
  using assms by (auto simp: is_digit_def)

lemma parse_digits_itoa_loop: "n > 0 \<Longrightarrow> parse_digits (itoa_loop n []) = Some n"
  using itoa_loop_digits [of n] by (simp add: parse_digits_def itoa_loop_nonempty)

lemma parse_int_unsigned:
  assumes "parse_digits s = Some n" "int64 n"
  shows "parse_int s = Some n"
proof -
  from assms obtain c cs where s: "s = c # cs" and "is_digit c"
    by (cases s) (auto simp: parse_digits_def split: if_splits)
  then have "c \<noteq> CHR ''-''" "c \<noteq> CHR ''+''" by (auto dest: digit_not_sign)
  with s assms show ?thesis by (simp add: parse_int_def Let_def)
qed

lemma parse_int_itoa:
  assumes "int64 n" "n \<noteq> min_int64"
  shows "parse_int (itoa n) = Some n"
proof -
  consider "n = 0" | "n > 0" | "n < 0" by linarith
  then show ?thesis
  proof cases
    case 1
    have "parse_digits ''0'' = Some 0"
      by (simp add: parse_digits_def is_digit_def digit_val_def)
    then have "parse_int ''0'' = Some 0"
      by (rule parse_int_unsigned) (simp add: int64_def)
    with 1 show ?thesis by (simp add: itoa_def)
  next
    case 2
    then show ?thesis
      using assms parse_int_unsigned [OF parse_digits_itoa_loop] by (simp add: itoa_def)
  next
    case 3
    with assms have "wrap64 (- n) = - n" by (intro wrap64_id) (auto simp: int64_def)
    with 3 have "itoa n = CHR ''-'' # itoa_loop (- n) []" by (simp add: itoa_def Let_def)
    with 3 assms show ?thesis
      using parse_digits_itoa_loop [of "- n"] by (simp add: parse_int_def)
  qed
qed

end
