(* ===== verification/Config.thy ===== *)
theory Config
  imports Prelude
begin

text \<open>
  \<^verbatim>\<open>internal/config/config.go\<close>: the environment-driven configuration of both planes.
  The environment is a map from names to values (\<^verbatim>\<open>os.LookupEnv\<close>). The float parser
  \<^verbatim>\<open>strconv.ParseFloat\<close> is the argument \<open>pf\<close> of the definitions that read floats, so that
  every statement holds whatever literals it accepts.
\<close>

type_synonym environ = "string \<Rightarrow> string option"
type_synonym float_parser = "string \<Rightarrow> rat option"

definition envStr :: "environ \<Rightarrow> string \<Rightarrow> string \<Rightarrow> string" where
  "envStr env name def = (case env name of Some v \<Rightarrow> v | None \<Rightarrow> def)"

definition envInt :: "environ \<Rightarrow> string \<Rightarrow> int \<Rightarrow> int" where
  "envInt env name def =
     (case env name of
        Some v \<Rightarrow> (case parse_int (trim_space v) of Some n \<Rightarrow> n | None \<Rightarrow> def)
      | None \<Rightarrow> def)"

definition envFloat :: "float_parser \<Rightarrow> environ \<Rightarrow> string \<Rightarrow> rat \<Rightarrow> rat" where
  "envFloat pf env name def =
     (case env name of
        Some v \<Rightarrow> (case pf (trim_space v) of Some f \<Rightarrow> f | None \<Rightarrow> def)
      | None \<Rightarrow> def)"

definition envBool :: "environ \<Rightarrow> string \<Rightarrow> bool \<Rightarrow> bool" where
  "envBool env name def =
     (case env name of
        Some v \<Rightarrow> to_lower (trim_space v) \<in> {''1'', ''true'', ''yes''}
      | None \<Rightarrow> def)"

subsection \<open>The configuration records\<close>

record RateConfig =
  PrivateRate :: rat
  PrivateBurst :: int
  GroupRate :: rat
  GroupBurst :: int
  GlobalRate :: rat
  GlobalBurst :: int
  ReadRate :: rat
  PaidRate :: rat

definition DefaultRate :: "float_parser \<Rightarrow> environ \<Rightarrow> RateConfig" where
  "DefaultRate pf env = \<lparr>
     PrivateRate = envFloat pf env ''GW_PRIVATE_RATE'' 1,
     PrivateBurst = envInt env ''GW_PRIVATE_BURST'' 3,
     GroupRate = envFloat pf env ''GW_GROUP_RATE'' (20 / 60),
     GroupBurst = envInt env ''GW_GROUP_BURST'' 2,
     GlobalRate = envFloat pf env ''GW_GLOBAL_RATE'' 30,
     GlobalBurst = envInt env ''GW_GLOBAL_BURST'' 30,
     ReadRate = envFloat pf env ''GW_READ_RATE'' 20,
     PaidRate = envFloat pf env ''GW_PAID_RATE'' 1000\<rparr>"

record PolicyConfig =
  OnLimit :: string
  QueueWaitTimeout :: rat
  UpdateQueueMax :: int
  UpdateTTLS :: rat
  PaidBroadcastsEnabled :: bool

definition DefaultPolicy :: "float_parser \<Rightarrow> environ \<Rightarrow> PolicyConfig" where
  "DefaultPolicy pf env = \<lparr>
     OnLimit = envStr env ''GW_ON_LIMIT'' ''queue'',
     QueueWaitTimeout = envFloat pf env ''GW_QUEUE_WAIT_TIMEOUT'' 25,
     UpdateQueueMax = envInt env ''GW_UPDATE_QUEUE_MAX'' 5000,
     UpdateTTLS = envFloat pf env ''GW_UPDATE_TTL_S'' 3600,
     PaidBroadcastsEnabled = envBool env ''GW_PAID_BROADCASTS'' False\<rparr>"

record StorageConfig =
  Durability :: string
  MaintenanceInterval :: rat
  BackupInterval :: rat
  BackupKeep :: int
  AuditRetentionDays :: int

definition DefaultStorage :: "float_parser \<Rightarrow> environ \<Rightarrow> StorageConfig" where
  "DefaultStorage pf env = \<lparr>
     Durability = envStr env ''GW_DURABILITY'' ''normal'',
     MaintenanceInterval = envFloat pf env ''GW_MAINTENANCE_INTERVAL_S'' 3600,
     BackupInterval = envFloat pf env ''GW_BACKUP_INTERVAL_S'' 86400,
     BackupKeep = envInt env ''GW_BACKUP_KEEP'' 5,
     AuditRetentionDays = envInt env ''GW_AUDIT_RETENTION_DAYS'' 30\<rparr>"

record TypingConfig =
  tcEnabled :: bool
  tcPrivateOnly :: bool
  tcIntervalS :: rat
  tcTimeoutS :: rat
  tcTimeoutText :: string

definition DefaultTypingTimeoutText :: string where
  "DefaultTypingTimeoutText =
     ''Sorry, this bot is temporarily unavailable due to a problem on the provider side. '' @
     ''Please try again later.''"

definition DefaultTyping :: "float_parser \<Rightarrow> environ \<Rightarrow> TypingConfig" where
  "DefaultTyping pf env = \<lparr>
     tcEnabled = envBool env ''GW_TYPING_ENABLED'' True,
     tcPrivateOnly = envBool env ''GW_TYPING_PRIVATE_ONLY'' True,
     tcIntervalS = envFloat pf env ''GW_TYPING_INTERVAL'' (9 / 2),
     tcTimeoutS = envFloat pf env ''GW_TYPING_TIMEOUT'' 30,
     tcTimeoutText = envStr env ''GW_TYPING_TIMEOUT_TEXT'' DefaultTypingTimeoutText\<rparr>"

record MTProtoRate =
  FloodBackoffBase :: rat
  SlowmodeRespect :: bool
  PeerFloodCooldown :: rat
  SilentRate :: rat

definition DefaultMTProtoRate :: "float_parser \<Rightarrow> environ \<Rightarrow> MTProtoRate" where
  "DefaultMTProtoRate pf env = \<lparr>
     FloodBackoffBase = envFloat pf env ''GW_FLOOD_BACKOFF_BASE'' (3 / 2),
     SlowmodeRespect = envBool env ''GW_SLOWMODE_RESPECT'' True,
     PeerFloodCooldown = envFloat pf env ''GW_PEER_FLOOD_COOLDOWN'' 300,
     SilentRate = envFloat pf env ''GW_SILENT_RATE'' 5\<rparr>"

record BotAPI =
  baHost :: string
  baPort :: int
  baUpstream :: string
  baPprof :: bool
  baOTELEndpoint :: string
  baAdminPort :: int
  baAdminSecret :: string
  baAppSecret :: string
  baDataDir :: string
  baFernetKey :: string
  PollTimeout :: int
  PollBackoffMax :: rat
  PushHealthInterval :: rat
  baRate :: RateConfig
  baPolicy :: PolicyConfig
  baTyping :: TypingConfig
  baStorage :: StorageConfig

definition BotAPIFromEnv :: "float_parser \<Rightarrow> environ \<Rightarrow> BotAPI" where
  "BotAPIFromEnv pf env = \<lparr>
     baHost = envStr env ''GW_HOST'' ''0.0.0.0'',
     baPort = envInt env ''GW_PORT'' 8080,
     baUpstream = envStr env ''GW_UPSTREAM'' ''https://api.telegram.org'',
     baPprof = envBool env ''GW_PPROF'' False,
     baOTELEndpoint = envStr env ''GW_OTEL_ENDPOINT'' [],
     baAdminPort = envInt env ''GW_ADMIN_PORT'' 0,
     baAdminSecret = envStr env ''GW_ADMIN_SECRET'' [],
     baAppSecret = envStr env ''GW_APP_SECRET'' [],
     baDataDir = envStr env ''GW_DATA_DIR'' ''/data'',
     baFernetKey = envStr env ''GW_FERNET_KEY'' [],
     PollTimeout = envInt env ''GW_POLL_TIMEOUT'' 25,
     PollBackoffMax = envFloat pf env ''GW_POLL_BACKOFF_MAX'' 30,
     PushHealthInterval = envFloat pf env ''GW_PUSH_HEALTH_INTERVAL'' 60,
     baRate = DefaultRate pf env,
     baPolicy = DefaultPolicy pf env,
     baTyping = DefaultTyping pf env,
     baStorage = DefaultStorage pf env\<rparr>"

record MTProto =
  mtHost :: string
  mtPort :: int
  mtPprof :: bool
  mtOTELEndpoint :: string
  mtAdminPort :: int
  mtAdminSecret :: string
  mtAppSecret :: string
  mtDataDir :: string
  mtFernetKey :: string
  APIID :: int
  APIHash :: string
  SessionDir :: string
  mtBackupsDir :: string
  LockBackend :: string
  MaxSessions :: int
  ConsumerTimeout :: rat
  MetricsEnabled :: bool
  mtRate :: RateConfig
  MTRate :: MTProtoRate
  mtPolicy :: PolicyConfig
  mtStorage :: StorageConfig

definition MTProtoFromEnv :: "float_parser \<Rightarrow> environ \<Rightarrow> MTProto" where
  "MTProtoFromEnv pf env =
     (let dataDir = envStr env ''GW_DATA_DIR'' ''/data'' in \<lparr>
     mtHost = envStr env ''GW_HOST'' ''0.0.0.0'',
     mtPort = envInt env ''GW_PORT'' 8080,
     mtPprof = envBool env ''GW_PPROF'' False,
     mtOTELEndpoint = envStr env ''GW_OTEL_ENDPOINT'' [],
     mtAdminPort = envInt env ''GW_ADMIN_PORT'' 0,
     mtAdminSecret = envStr env ''GW_ADMIN_SECRET'' [],
     mtAppSecret = envStr env ''GW_APP_SECRET'' [],
     mtDataDir = dataDir,
     mtFernetKey = envStr env ''GW_FERNET_KEY'' [],
     APIID = envInt env ''GW_API_ID'' 0,
     APIHash = envStr env ''GW_API_HASH'' [],
     SessionDir = dataDir @ ''/sessions'',
     mtBackupsDir = dataDir @ ''/backups'',
     LockBackend = envStr env ''GW_LOCK_BACKEND'' ''file'',
     MaxSessions = envInt env ''GW_MAX_SESSIONS'' 50,
     ConsumerTimeout = envFloat pf env ''GW_CONSUMER_TIMEOUT'' 120,
     MetricsEnabled = envBool env ''GW_METRICS'' True,
     mtRate = DefaultRate pf env,
     MTRate = DefaultMTProtoRate pf env,
     mtPolicy = DefaultPolicy pf env,
     mtStorage = DefaultStorage pf env\<rparr>)"

definition BackupsDir :: "BotAPI \<Rightarrow> string" where
  "BackupsDir c = baDataDir c @ ''/backups''"

subsection \<open>Validation\<close>

datatype config_error =
    MissingEnv "string list"
  | BadOnLimit
  | BadDurability

definition validatePolicyStorage :: "PolicyConfig \<Rightarrow> StorageConfig \<Rightarrow> config_error option" where
  "validatePolicyStorage p s =
     (if OnLimit p \<noteq> ''queue'' \<and> OnLimit p \<noteq> ''reject'' then Some BadOnLimit
      else if Durability s \<noteq> ''normal'' \<and> Durability s \<noteq> ''full'' then Some BadDurability
      else None)"

definition BotAPI_Validate :: "BotAPI \<Rightarrow> config_error option" where
  "BotAPI_Validate c =
     (let missing = (if baAdminSecret c = [] then [''GW_ADMIN_SECRET''] else []) @
                    (if baAppSecret c = [] then [''GW_APP_SECRET''] else [])
      in if missing \<noteq> [] then Some (MissingEnv missing)
         else validatePolicyStorage (baPolicy c) (baStorage c))"

definition MTProto_Validate :: "MTProto \<Rightarrow> config_error option" where
  "MTProto_Validate c =
     (let missing = (if mtAdminSecret c = [] then [''GW_ADMIN_SECRET''] else []) @
                    (if mtAppSecret c = [] then [''GW_APP_SECRET''] else []) @
                    (if APIID c = 0 then [''GW_API_ID''] else []) @
                    (if APIHash c = [] then [''GW_API_HASH''] else [])
      in if missing \<noteq> [] then Some (MissingEnv missing)
         else validatePolicyStorage (mtPolicy c) (mtStorage c))"

lemmas config_defs =
  BotAPIFromEnv_def MTProtoFromEnv_def DefaultRate_def DefaultPolicy_def DefaultStorage_def
  DefaultTyping_def DefaultMTProtoRate_def envStr_def envInt_def envFloat_def envBool_def

lemma validatePolicyStorage_None_iff:
  "validatePolicyStorage p s = None \<longleftrightarrow>
     OnLimit p \<in> {''queue'', ''reject''} \<and> Durability s \<in> {''normal'', ''full''}"
  by (auto simp: validatePolicyStorage_def)

lemma BotAPI_Validate_None_iff:
  "BotAPI_Validate c = None \<longleftrightarrow>
     baAdminSecret c \<noteq> [] \<and> baAppSecret c \<noteq> [] \<and>
     validatePolicyStorage (baPolicy c) (baStorage c) = None"
  by (auto simp: BotAPI_Validate_def Let_def)

lemma MTProto_Validate_None_iff:
  "MTProto_Validate c = None \<longleftrightarrow>
     mtAdminSecret c \<noteq> [] \<and> mtAppSecret c \<noteq> [] \<and> APIID c \<noteq> 0 \<and> APIHash c \<noteq> [] \<and>
     validatePolicyStorage (mtPolicy c) (mtStorage c) = None"
  by (auto simp: MTProto_Validate_def Let_def)

text \<open>
  The rate configuration is sane when every rate is positive and every burst is at least one
  message; the defaults are, in an environment that sets none of the knobs.
\<close>

definition sane_rate :: "RateConfig \<Rightarrow> bool" where
  "sane_rate c \<longleftrightarrow> PrivateRate c > 0 \<and> GroupRate c > 0 \<and> GlobalRate c > 0 \<and> ReadRate c > 0 \<and>
     PaidRate c \<ge> 1 \<and> PrivateBurst c \<ge> 1 \<and> GroupBurst c \<ge> 1 \<and> GlobalBurst c \<ge> 1"

lemma sane_rate_default: "sane_rate (DefaultRate pf (\<lambda>_. None))"
  by (simp add: sane_rate_def config_defs)

end
