(* ===== verification/Bucket.thy ===== *)
theory Bucket
  imports Config
begin

text \<open>
  \<^verbatim>\<open>internal/rateguard/rateguard.go\<close>, the token bucket: refill, take, pause, and the time until
  the next token. Every clock read of the source is an argument (\<open>now\<close>).

  The interface \<open>metered\<close> is what a pacing component promises a client that counts admissions:
  a potential that each admission lowers by one and that only pauses raise, so that the
  number of admissions of a whole run is bounded by the potential it started with. The bucket
  is its first instance; the two rate guards are the others.
\<close>

subsection \<open>Classification of methods\<close>

definition fastPath :: "string set" where
  "fastPath = {''answercallbackquery'', ''answerinlinequery'', ''answershippingquery'',
     ''answerprecheckoutquery'', ''setmessageeffect''}"

definition readMethods :: "string set" where
  "readMethods = {''getme'', ''getchat'', ''getchatmember'', ''getchatadministrators'',
     ''getuser'', ''getmycommands'', ''getmyname'', ''getmydescription'',
     ''getmyshortdescription'', ''getwebhookinfo'', ''getchatmenubutton'',
     ''getmydefaultadministratorrights'', ''getfile'', ''getchatmembercount'',
     ''getforumtopiciconstickers'', ''getstickerset''}"

datatype kind = Fast | Read | Write

definition MethodKind :: "string \<Rightarrow> kind" where
  "MethodKind method =
     (let m = to_lower method in
      if m \<in> fastPath then Fast
      else if m \<in> readMethods \<or> has_prefix m ''get'' then Read
      else Write)"

lemma MethodKind_to_lower [simp]: "MethodKind (to_lower m) = MethodKind m"
  by (simp add: MethodKind_def)

lemma readMethods_get: "m \<in> readMethods \<Longrightarrow> has_prefix m ''get''"
  by (auto simp: readMethods_def)

subsection \<open>The bucket\<close>

record bucket =
  Rate :: rat
  Capacity :: int
  Tokens :: rat
  Updated :: secs
  PausedUntil :: secs

definition NewBucket :: "rat \<Rightarrow> int \<Rightarrow> secs \<Rightarrow> bucket" where
  "NewBucket rate capacity now =
     \<lparr>Rate = rate, Capacity = capacity, Tokens = of_int capacity, Updated = now, PausedUntil = 0\<rparr>"

definition Refill :: "secs \<Rightarrow> bucket \<Rightarrow> bucket" where
  "Refill now b =
     (let b1 = (if PausedUntil b \<noteq> 0 \<and> now \<ge> PausedUntil b
                then b\<lparr>PausedUntil := 0, Tokens := max (Tokens b) 1\<rparr> else b);
          elapsed = now - Updated b1
      in b1\<lparr>Tokens := min (of_int (Capacity b1)) (Tokens b1 + elapsed * Rate b1),
            Updated := now\<rparr>)"

definition TryTake :: "secs \<Rightarrow> bucket \<Rightarrow> bucket \<times> bool" where
  "TryTake now b =
     (let b1 = Refill now b in
      if PausedUntil b1 > now then (b1, False)
      else if Tokens b1 \<ge> 1 then (b1\<lparr>Tokens := Tokens b1 - 1\<rparr>, True)
      else (b1, False))"

text \<open>A division by a zero rate is \<^verbatim>\<open>+Inf\<close> in Go; that wait is \<open>None\<close> here.\<close>

definition NextAvailable :: "secs \<Rightarrow> bucket \<Rightarrow> bucket \<times> secs option" where
  "NextAvailable now b =
     (let b1 = Refill now b in
      if PausedUntil b1 > now then (b1, Some (PausedUntil b1 - now))
      else
        let deficit = 1 - Tokens b1 in
        if deficit > 0
        then (b1, if Rate b1 = 0 then None else Some (deficit / Rate b1))
        else (b1, Some 0))"

definition Pause :: "secs \<Rightarrow> secs \<Rightarrow> bucket \<Rightarrow> bucket" where
  "Pause seconds now b = b\<lparr>PausedUntil := max (PausedUntil b) (now + seconds), Tokens := 0\<rparr>"

subsection \<open>Field equations\<close>

lemma Refill_fields [simp]:
  "Rate (Refill now b) = Rate b" "Capacity (Refill now b) = Capacity b"
  "Updated (Refill now b) = now"
  "PausedUntil (Refill now b) = (if PausedUntil b \<noteq> 0 \<and> now \<ge> PausedUntil b then 0 else PausedUntil b)"
  by (simp_all add: Refill_def Let_def)

lemma Refill_Tokens:
  "Tokens (Refill now b) =
     min (of_int (Capacity b))
       ((if PausedUntil b \<noteq> 0 \<and> now \<ge> PausedUntil b then max (Tokens b) 1 else Tokens b)
        + (now - Updated b) * Rate b)"
  by (simp add: Refill_def Let_def)

lemma TryTake_fields [simp]:
  "Rate (fst (TryTake now b)) = Rate b" "Capacity (fst (TryTake now b)) = Capacity b"
  "Updated (fst (TryTake now b)) = now"
  "PausedUntil (fst (TryTake now b)) = PausedUntil (Refill now b)"
  by (simp_all add: TryTake_def Let_def)

lemma TryTake_Tokens:
  "Tokens (fst (TryTake now b)) = Tokens (Refill now b) - (if snd (TryTake now b) then 1 else 0)"
  by (simp add: TryTake_def Let_def)

lemma TryTake_iff:
  "snd (TryTake now b) \<longleftrightarrow> PausedUntil (Refill now b) \<le> now \<and> Tokens (Refill now b) \<ge> 1"
  by (auto simp: TryTake_def Let_def)

lemma fst_NextAvailable [simp]: "fst (NextAvailable now b) = Refill now b"
  by (simp add: NextAvailable_def Let_def)

lemma Pause_fields [simp]:
  "Rate (Pause s now b) = Rate b" "Capacity (Pause s now b) = Capacity b"
  "Updated (Pause s now b) = Updated b" "Tokens (Pause s now b) = 0"
  "PausedUntil (Pause s now b) = max (PausedUntil b) (now + s)"
  by (simp_all add: Pause_def)

subsection \<open>The invariant\<close>

definition bucket_inv :: "bucket \<Rightarrow> bool" where
  "bucket_inv b \<longleftrightarrow> Rate b \<ge> 0 \<and> Capacity b \<ge> 0 \<and> 0 \<le> Tokens b \<and> Tokens b \<le> of_int (Capacity b)"

lemma bucket_inv_NewBucket [gw_inv]:
  "rate \<ge> 0 \<Longrightarrow> capacity \<ge> 0 \<Longrightarrow> bucket_inv (NewBucket rate capacity now)"
  by (simp add: bucket_inv_def NewBucket_def)

lemma bucket_inv_Refill [gw_inv]:
  assumes "bucket_inv b" "Updated b \<le> now"
  shows "bucket_inv (Refill now b)"
proof -
  have "0 \<le> (now - Updated b) * Rate b"
    using assms by (intro mult_nonneg_nonneg) (auto simp: bucket_inv_def)
  with assms show ?thesis by (auto simp: bucket_inv_def Refill_Tokens)
qed

lemma bucket_inv_TryTake [gw_inv]:
  assumes "bucket_inv b" "Updated b \<le> now"
  shows "bucket_inv (fst (TryTake now b))"
  using bucket_inv_Refill [OF assms] by (auto simp: bucket_inv_def TryTake_Tokens TryTake_iff)

lemma bucket_inv_Pause [gw_inv]: "bucket_inv b \<Longrightarrow> bucket_inv (Pause s now b)"
  by (simp add: bucket_inv_def)

lemma Refill_Refill [simp]: "Refill now (Refill now b) = Refill now b"
proof -
  have "Tokens (Refill now b) \<le> of_int (Capacity b)" by (simp add: Refill_Tokens)
  then show ?thesis
    by (auto simp: bucket.equality Refill_def Let_def)
qed

subsection \<open>Counting admissions: the interface\<close>

text \<open>
  \<open>step\<close> performs one event and says whether it admitted a request; \<open>pot\<close> is the potential,
  \<open>grace\<close> what an event may add to it, \<open>floor\<close> a lower bound of the potential in terms of
  the state. A client counts the admissions of a run.
\<close>

fun run :: "('s \<Rightarrow> 'e \<Rightarrow> 's \<times> bool) \<Rightarrow> 's \<Rightarrow> 'e list \<Rightarrow> 's" where
  "run step s [] = s"
| "run step s (e # es) = run step (fst (step s e)) es"

fun admitted :: "('s \<Rightarrow> 'e \<Rightarrow> 's \<times> bool) \<Rightarrow> 's \<Rightarrow> 'e list \<Rightarrow> nat" where
  "admitted step s [] = 0"
| "admitted step s (e # es) =
     (if snd (step s e) then 1 else 0) + admitted step (fst (step s e)) es"

lemma run_cong: "(\<And>s e. fst (step s e) = fst (step' s e)) \<Longrightarrow> run step s es = run step' s es"
  by (induction es arbitrary: s) auto

fun run_ok :: "('s \<Rightarrow> 'e \<Rightarrow> 's \<times> bool) \<Rightarrow> ('s \<Rightarrow> 'e \<Rightarrow> bool) \<Rightarrow> 's \<Rightarrow> 'e list \<Rightarrow> bool" where
  "run_ok step ok s [] = True"
| "run_ok step ok s (e # es) = (ok s e \<and> run_ok step ok (fst (step s e)) es)"

lemma run_ok_cong:
  "(\<And>s e. fst (step s e) = fst (step' s e)) \<Longrightarrow> run_ok step ok s es = run_ok step' ok s es"
  by (induction es arbitrary: s) auto

locale metered =
  fixes step :: "'s \<Rightarrow> 'e \<Rightarrow> 's \<times> bool"
    and ok :: "'s \<Rightarrow> 'e \<Rightarrow> bool"
    and inv :: "'s \<Rightarrow> bool"
    and pot :: "'s \<Rightarrow> rat"
    and grace :: "'e \<Rightarrow> rat"
  assumes inv_step: "inv s \<Longrightarrow> ok s e \<Longrightarrow> inv (fst (step s e))"
    and pot_step: "inv s \<Longrightarrow> ok s e \<Longrightarrow>
      pot (fst (step s e)) + (if snd (step s e) then 1 else 0) \<le> pot s + grace e"
begin

lemma inv_run: "inv s \<Longrightarrow> run_ok step ok s es \<Longrightarrow> inv (run step s es)"
  by (induction es arbitrary: s) (auto intro: inv_step)

lemma admitted_le:
  "inv s \<Longrightarrow> run_ok step ok s es \<Longrightarrow>
     of_nat (admitted step s es) \<le> pot s - pot (run step s es) + (\<Sum>e\<leftarrow>es. grace e)"
proof (induction es arbitrary: s)
  case Nil
  then show ?case by simp
next
  case (Cons e es)
  then have "ok s e" and "run_ok step ok (fst (step s e)) es" by auto
  moreover from this have "inv (fst (step s e))" using Cons.prems inv_step by blast
  ultimately have
    "of_nat (admitted step (fst (step s e)) es) \<le> pot (fst (step s e))
       - pot (run step (fst (step s e)) es) + (\<Sum>e\<leftarrow>es. grace e)"
    using Cons.IH by blast
  with pot_step [OF Cons.prems(1) \<open>ok s e\<close>] show ?case by auto
qed

end

subsection \<open>The bucket is metered\<close>

datatype bucket_event = Take secs | PauseFor secs secs

fun bucket_step :: "bucket \<Rightarrow> bucket_event \<Rightarrow> bucket \<times> bool" where
  "bucket_step b (Take now) = TryTake now b"
| "bucket_step b (PauseFor seconds now) = (Pause seconds now b, False)"

text \<open>The events of a window that opens at \<open>T0\<close>, with a clock that does not go back.\<close>

fun bucket_ok :: "secs \<Rightarrow> bucket \<Rightarrow> bucket_event \<Rightarrow> bool" where
  "bucket_ok T0 b (Take now) = (Updated b \<le> now \<and> T0 \<le> now)"
| "bucket_ok T0 b (PauseFor seconds now) = True"

definition paused_flag :: "bucket \<Rightarrow> rat" where
  "paused_flag b = (if PausedUntil b \<noteq> 0 then 1 else 0)"

definition bucket_pot :: "bucket \<Rightarrow> rat" where
  "bucket_pot b = Tokens b - Rate b * Updated b + paused_flag b"

text \<open>
  What the bucket can still admit from \<open>T0\<close> on, less what it earns with the time: a bucket
  last touched before the window opened may have filled up meanwhile, but never beyond its
  capacity.
\<close>

definition window_pot :: "secs \<Rightarrow> bucket \<Rightarrow> rat" where
  "window_pot T0 b =
     (if Updated b < T0 then of_int (Capacity b) - Rate b * T0 + paused_flag b else bucket_pot b)"

fun bucket_grace :: "bucket_event \<Rightarrow> rat" where
  "bucket_grace (Take now) = 0"
| "bucket_grace (PauseFor seconds now) = 1"

lemma bucket_pot_Refill:
  assumes "bucket_inv b"
  shows "bucket_pot (Refill now b) \<le> bucket_pot b"
proof -
  have "Tokens (Refill now b) \<le>
      (if PausedUntil b \<noteq> 0 \<and> now \<ge> PausedUntil b then max (Tokens b) 1 else Tokens b)
        + (now - Updated b) * Rate b"
    by (simp add: Refill_Tokens)
  moreover have "max (Tokens b) 1 \<le> Tokens b + 1" using assms by (simp add: bucket_inv_def)
  ultimately show ?thesis
    by (auto simp: bucket_pot_def paused_flag_def algebra_simps split: if_splits)
qed

lemma paused_flag_Refill: "paused_flag (Refill now b) \<le> paused_flag b"
  by (simp add: paused_flag_def)

lemma window_pot_Refill:
  assumes "bucket_inv b" "T0 \<le> now"
  shows "window_pot T0 (Refill now b) \<le> window_pot T0 b"
proof (cases "Updated b < T0")
  case True
  have "Rate b * T0 \<le> Rate b * now" using assms by (simp add: bucket_inv_def mult_left_mono)
  moreover have "Tokens (Refill now b) \<le> of_int (Capacity b)" by (simp add: Refill_Tokens)
  ultimately show ?thesis
    using True assms paused_flag_Refill [of now b] by (simp add: window_pot_def bucket_pot_def)
next
  case False
  then show ?thesis using assms bucket_pot_Refill [OF assms(1)] by (simp add: window_pot_def)
qed

lemma window_pot_TryTake:
  assumes "bucket_inv b" "T0 \<le> now"
  shows "window_pot T0 (fst (TryTake now b)) + (if snd (TryTake now b) then 1 else 0)
      \<le> window_pot T0 b"
proof -
  have "window_pot T0 (fst (TryTake now b)) + (if snd (TryTake now b) then 1 else 0)
      = window_pot T0 (Refill now b)"
    using assms by (simp add: window_pot_def bucket_pot_def paused_flag_def TryTake_Tokens)
  then show ?thesis using window_pot_Refill [OF assms] by simp
qed

lemma window_pot_Pause: "bucket_inv b \<Longrightarrow> window_pot T0 (Pause s now b) \<le> window_pot T0 b + 1"
  by (auto simp: window_pot_def bucket_pot_def paused_flag_def bucket_inv_def)

lemma window_pot_upper:
  assumes "bucket_inv b"
  shows "window_pot T0 b \<le> of_int (Capacity b) - Rate b * T0 + paused_flag b"
proof (cases "Updated b < T0")
  case True
  then show ?thesis by (simp add: window_pot_def)
next
  case False
  then have "Rate b * T0 \<le> Rate b * Updated b"
    using assms by (simp add: bucket_inv_def mult_left_mono)
  with False assms show ?thesis by (simp add: window_pot_def bucket_pot_def bucket_inv_def)
qed

lemma window_pot_lower:
  assumes "bucket_inv b" "Updated b \<le> T1" "T0 \<le> T1"
  shows "- (Rate b * T1) \<le> window_pot T0 b"
proof (cases "Updated b < T0")
  case True
  have "Rate b * T0 \<le> Rate b * T1" using assms by (simp add: bucket_inv_def mult_left_mono)
  with True assms show ?thesis by (simp add: window_pot_def bucket_inv_def paused_flag_def)
next
  case False
  have "Rate b * Updated b \<le> Rate b * T1" using assms by (simp add: bucket_inv_def mult_left_mono)
  with False assms show ?thesis
    by (simp add: window_pot_def bucket_pot_def bucket_inv_def paused_flag_def)
qed

interpretation bk: metered bucket_step "bucket_ok T0" bucket_inv "window_pot T0" bucket_grace
  for T0
proof
  fix b e
  assume "bucket_inv b" and ok: "bucket_ok T0 b e"
  then show "bucket_inv (fst (bucket_step b e))"
    by (cases e) (auto intro: gw_inv)
  show "window_pot T0 (fst (bucket_step b e)) + (if snd (bucket_step b e) then 1 else 0)
      \<le> window_pot T0 b + bucket_grace e"
    using \<open>bucket_inv b\<close> ok
    by (cases e) (use window_pot_TryTake window_pot_Pause in auto)
qed

lemma Rate_run_bucket [simp]: "Rate (run bucket_step b es) = Rate b"
proof (induction es arbitrary: b)
  case (Cons e es)
  then show ?case by (cases e) auto
qed simp

lemma paused_flag_nonneg [simp]: "0 \<le> paused_flag b"
  by (simp add: paused_flag_def)

subsection \<open>The wait of NextAvailable is enough\<close>

lemma TryTake_after_NextAvailable:
  assumes now: "0 \<le> now"
    and rate: "Rate b > 0" and cap: "Capacity b \<ge> 1"
    and w: "snd (NextAvailable now b) = Some w"
  shows "0 \<le> w" and "snd (TryTake (now + w) (fst (NextAvailable now b)))"
proof -
  let ?b = "Refill now b"
  consider (paused) "PausedUntil ?b > now" "w = PausedUntil ?b - now"
    | (short) "PausedUntil ?b \<le> now" "Tokens ?b < 1" "w = (1 - Tokens ?b) / Rate b"
    | (free) "PausedUntil ?b \<le> now" "Tokens ?b \<ge> 1" "w = 0"
    using w rate by (auto simp: NextAvailable_def Let_def not_less split: if_splits)
  then have "0 \<le> w \<and> snd (TryTake (now + w) ?b)"
  proof cases
    case paused
    then have "now < PausedUntil b" "PausedUntil ?b = PausedUntil b" "PausedUntil b \<noteq> 0"
      using now by (auto split: if_splits)
    then have "w \<ge> 0" "now + w = PausedUntil b" using paused by auto
    moreover have "Tokens (Refill (PausedUntil b) ?b) \<ge> 1"
    proof -
      have "0 \<le> (PausedUntil b - now) * Rate b" using \<open>now < PausedUntil b\<close> rate by simp
      moreover have "1 \<le> (of_int (Capacity b) :: rat)" using cap by simp
      ultimately show ?thesis
        using \<open>PausedUntil ?b = PausedUntil b\<close> \<open>PausedUntil b \<noteq> 0\<close>
        by (simp add: Refill_Tokens [of "PausedUntil b" ?b])
    qed
    ultimately show ?thesis using \<open>PausedUntil b \<noteq> 0\<close> \<open>now < PausedUntil b\<close> now
      by (auto simp: TryTake_iff)
  next
    case short
    then have "w > 0" using rate by simp
    have "PausedUntil (Refill (now + w) ?b) \<le> now + w"
      using short \<open>w > 0\<close> by (auto split: if_splits)
    moreover have "Tokens (Refill (now + w) ?b) \<ge> 1"
    proof -
      have "(now + w - now) * Rate b = 1 - Tokens ?b" using short rate by simp
      moreover have "1 \<le> (of_int (Capacity b) :: rat)" using cap by simp
      ultimately show ?thesis by (subst Refill_Tokens) auto
    qed
    ultimately show ?thesis using \<open>w > 0\<close> by (simp add: TryTake_iff)
  next
    case free
    then show ?thesis by (simp add: TryTake_iff)
  qed
  then show "0 \<le> w" and "snd (TryTake (now + w) (fst (NextAvailable now b)))" by auto
qed

lemma TryTake_mono:
  assumes "Updated b \<le> u" "u \<le> v" "Rate b \<ge> 0" "snd (TryTake u b)"
  shows "snd (TryTake v b)"
proof -
  have "(u - Updated b) * Rate b \<le> (v - Updated b) * Rate b"
    using assms by (intro mult_right_mono) auto
  with assms show ?thesis by (auto simp: TryTake_iff Refill_Tokens split: if_splits)
qed

lemma NextAvailable_zero_iff:
  assumes "Rate b > 0"
  shows "snd (NextAvailable now b) = Some 0 \<longleftrightarrow> snd (TryTake now b)"
  using assms by (auto simp: NextAvailable_def TryTake_def Let_def)

end
