(* ===== verification/Guard.thy ===== *)
theory Guard
  imports Bucket "HOL-Library.AList"
begin

text \<open>
  \<^verbatim>\<open>internal/rateguard/rateguard.go\<close>, the pacing state of one bot: per-chat buckets (private
  and group tables as association lists), the bot-wide write, paid and read buckets, the
  bot-wide egress pause. Each operation reads the clock once on entry (\<open>now\<close>); a chat bucket
  created on the way is stamped by a second, later clock read (\<open>t\<close>), as in the source.
\<close>

subsection \<open>State\<close>

record guard =
  gcfg :: RateConfig
  Private :: "(int \<times> bucket) list"
  Groups :: "(int \<times> bucket) list"
  globalWrites :: bucket
  paidB :: bucket
  readsB :: bucket
  PaidEnabled :: bool
  egressPausedUntil :: secs
  paidLane :: bool

definition NewGuard :: "RateConfig \<Rightarrow> secs \<Rightarrow> secs \<Rightarrow> secs \<Rightarrow> guard" where
  "NewGuard c t1 t2 t3 = \<lparr>
     gcfg = c, Private = [], Groups = [],
     globalWrites = NewBucket (GlobalRate c) (GlobalBurst c) t1,
     paidB = NewBucket (PaidRate c) (trunc_rat (PaidRate c)) t2,
     readsB = NewBucket (ReadRate c) (max 10 (trunc_rat (ReadRate c))) t3,
     PaidEnabled = False, egressPausedUntil = 0, paidLane = False\<rparr>"

definition chat_rate :: "RateConfig \<Rightarrow> int \<Rightarrow> rat" where
  "chat_rate c chatID = (if chatID \<ge> 0 then PrivateRate c else GroupRate c)"

definition chat_burst :: "RateConfig \<Rightarrow> int \<Rightarrow> int" where
  "chat_burst c chatID = (if chatID \<ge> 0 then PrivateBurst c else GroupBurst c)"

definition chatTable :: "int \<Rightarrow> 'a guard_scheme \<Rightarrow> bucket option" where
  "chatTable chatID g = map_of (if chatID \<ge> 0 then Private g else Groups g) chatID"

definition setChat :: "int \<Rightarrow> bucket \<Rightarrow> 'a guard_scheme \<Rightarrow> 'a guard_scheme" where
  "setChat chatID b g =
     (if chatID \<ge> 0 then g\<lparr>Private := AList.update chatID b (Private g)\<rparr>
      else g\<lparr>Groups := AList.update chatID b (Groups g)\<rparr>)"

definition chatBucket :: "secs \<Rightarrow> int \<Rightarrow> 'a guard_scheme \<Rightarrow> 'a guard_scheme \<times> bucket" where
  "chatBucket t chatID g =
     (case chatTable chatID g of
        Some b \<Rightarrow> (g, b)
      | None \<Rightarrow>
          let b = NewBucket (chat_rate (gcfg g) chatID) (chat_burst (gcfg g) chatID) t
          in (setChat chatID b g, b))"

definition EnterPaidLane :: "bool \<Rightarrow> 'a guard_scheme \<Rightarrow> 'a guard_scheme" where
  "EnterPaidLane allowed g = g\<lparr>paidLane := allowed \<and> PaidEnabled g\<rparr>"

definition ExitPaidLane :: "'a guard_scheme \<Rightarrow> 'a guard_scheme" where
  "ExitPaidLane g = g\<lparr>paidLane := False\<rparr>"

subsection \<open>Admission\<close>

definition blocked :: "secs \<Rightarrow> bucket \<Rightarrow> bool" where
  "blocked now b \<longleftrightarrow> PausedUntil b > now \<or> Tokens b < 1"

definition charge :: "bucket \<Rightarrow> bucket" where
  "charge b = b\<lparr>Tokens := Tokens b - 1\<rparr>"

text \<open>The write branch with a chat, after \<open>chatB\<close> was fetched: refill, check, lane, charge.\<close>

definition acquireChat :: "secs \<Rightarrow> int \<Rightarrow> bucket \<Rightarrow> guard \<Rightarrow> guard \<times> bool" where
  "acquireChat now c b0 g =
     (let b1 = Refill now b0 in
      if blocked now b1 then (setChat c b1 g, False)
      else if paidLane g then
        let (p, ok) = TryTake now (paidB g) in
        if \<not> ok then (setChat c b1 (g\<lparr>paidB := p\<rparr>), False)
        else (setChat c (charge b1) (g\<lparr>paidB := p\<rparr>), True)
      else
        let b2 = Refill now b1 in
        if blocked now b2 then (setChat c b2 g, False)
        else
          let (w, ok) = TryTake now (globalWrites g) in
          if \<not> ok then (setChat c b2 (g\<lparr>globalWrites := w\<rparr>), False)
          else
            let b3 = Refill now b2 in
            if blocked now b3
            then (setChat c b3 (g\<lparr>globalWrites := w\<lparr>Tokens := Tokens w + 1\<rparr>\<rparr>), False)
            else (setChat c (charge b3) (g\<lparr>globalWrites := w\<rparr>), True))"

definition TryAcquire :: "secs \<Rightarrow> secs \<Rightarrow> string \<Rightarrow> int option \<Rightarrow> guard \<Rightarrow> guard \<times> bool" where
  "TryAcquire now t method chatID g =
     (if now < egressPausedUntil g then (g, False)
      else case MethodKind method of
        Fast \<Rightarrow> (g, True)
      | Read \<Rightarrow> (let (r, ok) = TryTake now (readsB g) in (g\<lparr>readsB := r\<rparr>, ok))
      | Write \<Rightarrow>
          (case chatID of
             Some c \<Rightarrow> (let (g1, b0) = chatBucket t c g in acquireChat now c b0 g1)
           | None \<Rightarrow>
               if paidLane g
               then (let (p, ok) = TryTake now (paidB g) in (g\<lparr>paidB := p\<rparr>, ok))
               else (let (w, ok) = TryTake now (globalWrites g) in (g\<lparr>globalWrites := w\<rparr>, ok))))"

subsection \<open>Waiting, learning, probing\<close>

definition max_wait :: "secs option \<Rightarrow> secs option \<Rightarrow> secs option" where
  "max_wait a b = (case a of None \<Rightarrow> None | Some x \<Rightarrow>
     (case b of None \<Rightarrow> None | Some y \<Rightarrow> Some (max x y)))"

definition WaitTime :: "secs \<Rightarrow> secs \<Rightarrow> string \<Rightarrow> int option \<Rightarrow> guard \<Rightarrow> guard \<times> secs option" where
  "WaitTime now t method chatID g =
     (let wait = Some (max 0 (egressPausedUntil g - now)) in
      case MethodKind method of
        Fast \<Rightarrow> (g, wait)
      | Read \<Rightarrow>
          (let (r, w) = NextAvailable now (readsB g) in (g\<lparr>readsB := r\<rparr>, max_wait wait w))
      | Write \<Rightarrow>
          (let (gw, w) = NextAvailable now (globalWrites g);
               g1 = g\<lparr>globalWrites := gw\<rparr>;
               wait1 = max_wait wait w
           in case chatID of
                None \<Rightarrow> (g1, wait1)
              | Some c \<Rightarrow>
                  (let (g2, b) = chatBucket t c g1; (b', w') = NextAvailable now b
                   in (setChat c b' g2, max_wait wait1 w'))))"

definition Report429 :: "secs \<Rightarrow> secs \<Rightarrow> int option \<Rightarrow> secs \<Rightarrow> guard \<Rightarrow> guard" where
  "Report429 now t chatID retryAfter g =
     (case chatID of
        Some c \<Rightarrow> (let (g1, b) = chatBucket t c g in setChat c (Pause retryAfter now b) g1)
      | None \<Rightarrow>
          g\<lparr>egressPausedUntil := max (egressPausedUntil g) (now + retryAfter),
            globalWrites := Pause retryAfter now (globalWrites g)\<rparr>)"

datatype send_state = SendPaused | SendEmpty | SendOk

definition ChatSendState :: "secs \<Rightarrow> secs \<Rightarrow> int option \<Rightarrow> guard \<Rightarrow> guard \<times> send_state" where
  "ChatSendState now t chatID g =
     (if now < egressPausedUntil g then (g, SendPaused)
      else
        let (gw, wait) = NextAvailable now (globalWrites g); g1 = g\<lparr>globalWrites := gw\<rparr>
        in case chatID of
             None \<Rightarrow> (g1, if wait \<noteq> Some 0 then SendEmpty else SendOk)
           | Some c \<Rightarrow>
               (let (g2, b) = chatBucket t c g1 in
                if PausedUntil b > now then (g2, SendPaused)
                else
                  let (b', w') = NextAvailable now b
                  in (setChat c b' g2, if max_wait wait w' \<noteq> Some 0 then SendEmpty else SendOk)))"

text \<open>\<^verbatim>\<open>math.Round\<close>: half away from zero.\<close>

definition round_half_away :: "rat \<Rightarrow> rat" where
  "round_half_away x = (if 0 \<le> x then of_int \<lfloor>x + 1 / 2\<rfloor> else of_int \<lceil>x - 1 / 2\<rceil>)"

record guard_snapshot =
  private_empty :: nat
  groups_empty :: nat
  egress_paused_for_s :: rat

definition refill_all :: "secs \<Rightarrow> (int \<times> bucket) list \<Rightarrow> (int \<times> bucket) list" where
  "refill_all now t = map (\<lambda>(c, b). (c, fst (NextAvailable now b))) t"

definition count_empty :: "secs \<Rightarrow> (int \<times> bucket) list \<Rightarrow> nat" where
  "count_empty now t = length (filter (\<lambda>(c, b). snd (NextAvailable now b) \<noteq> Some 0) t)"

definition Snapshot :: "secs \<Rightarrow> guard \<Rightarrow> guard \<times> guard_snapshot" where
  "Snapshot now g =
     (g\<lparr>Private := refill_all now (Private g), Groups := refill_all now (Groups g)\<rparr>,
      \<lparr>private_empty = count_empty now (Private g),
       groups_empty = count_empty now (Groups g),
       egress_paused_for_s = round_half_away (max 0 (egressPausedUntil g - now) * 10) / 10\<rparr>)"

definition RestoreBackoff :: "secs \<Rightarrow> secs \<Rightarrow> int option \<Rightarrow> secs \<Rightarrow> guard \<Rightarrow> guard" where
  "RestoreBackoff now t chatID remaining g =
     (if remaining \<le> 0 then g else Report429 now t chatID remaining g)"

text \<open>\<^verbatim>\<open>rand.Float64()\<close> is the argument \<open>r\<close>, a number in [0, 1).\<close>

definition Jittered :: "rat \<Rightarrow> rat \<Rightarrow> rat \<Rightarrow> rat" where
  "Jittered r base capExtra = base + r * min capExtra (base * (1 / 10))"

lemma Jittered_bounds:
  assumes "0 \<le> r" "r < 1" "0 \<le> base" "0 \<le> capExtra"
  shows "base \<le> Jittered r base capExtra" "Jittered r base capExtra \<le> base + capExtra"
proof -
  let ?m = "min capExtra (base * (1 / 10))"
  have m: "0 \<le> ?m" "?m \<le> capExtra" using assms by auto
  have "r * ?m \<le> 1 * ?m" using assms m by (intro mult_right_mono) auto
  moreover have "0 \<le> r * ?m" using assms m by simp
  ultimately show "base \<le> Jittered r base capExtra" "Jittered r base capExtra \<le> base + capExtra"
    using m by (auto simp: Jittered_def)
qed

subsection \<open>Table laws\<close>

lemma chatTable_setChat:
  "chatTable d (setChat c b g) = (if d = c then Some b else chatTable d g)"
  by (auto simp: chatTable_def setChat_def AList.update_conv')

lemma setChat_fields [simp]:
  "gcfg (setChat c b g) = gcfg g" "globalWrites (setChat c b g) = globalWrites g"
  "paidB (setChat c b g) = paidB g" "readsB (setChat c b g) = readsB g"
  "PaidEnabled (setChat c b g) = PaidEnabled g"
  "egressPausedUntil (setChat c b g) = egressPausedUntil g" "paidLane (setChat c b g) = paidLane g"
  by (simp_all add: setChat_def)

lemma chatTable_field_update [simp]:
  "chatTable c (g\<lparr>globalWrites := x\<rparr>) = chatTable c g"
  "chatTable c (g\<lparr>paidB := x\<rparr>) = chatTable c g"
  "chatTable c (g\<lparr>readsB := x\<rparr>) = chatTable c g"
  "chatTable c (g\<lparr>paidLane := l\<rparr>) = chatTable c g"
  "chatTable c (g\<lparr>egressPausedUntil := u\<rparr>) = chatTable c g"
  by (simp_all add: chatTable_def)

text \<open>The bucket a chat operation works on: the stored one, or a fresh full one.\<close>

definition chat_bucket_at :: "secs \<Rightarrow> int \<Rightarrow> 'a guard_scheme \<Rightarrow> bucket" where
  "chat_bucket_at t c g =
     (case chatTable c g of Some b \<Rightarrow> b
      | None \<Rightarrow> NewBucket (chat_rate (gcfg g) c) (chat_burst (gcfg g) c) t)"

lemma snd_chatBucket [simp]: "snd (chatBucket t c g) = chat_bucket_at t c g"
  by (simp add: chatBucket_def chat_bucket_at_def Let_def split: option.split)

lemma fst_chatBucket_fields [simp]:
  "gcfg (fst (chatBucket t c g)) = gcfg g" "globalWrites (fst (chatBucket t c g)) = globalWrites g"
  "paidB (fst (chatBucket t c g)) = paidB g" "readsB (fst (chatBucket t c g)) = readsB g"
  "PaidEnabled (fst (chatBucket t c g)) = PaidEnabled g"
  "egressPausedUntil (fst (chatBucket t c g)) = egressPausedUntil g"
  "paidLane (fst (chatBucket t c g)) = paidLane g"
  by (simp_all add: chatBucket_def Let_def split: option.split)

lemma chatTable_chatBucket [simp]:
  "chatTable d (fst (chatBucket t c g)) = (if d = c then Some (chat_bucket_at t c g) else chatTable d g)"
  by (auto simp: chatBucket_def chat_bucket_at_def Let_def chatTable_setChat split: option.split)

end
