(* ===== verification/Guard_Pacing.thy ===== *)
theory Guard_Pacing
  imports Guard
begin

text \<open>
  What the Bot API rate guard guarantees over whole runs of its operations: the pacing bounds
  (bot-wide and per chat), the pauses learnt from real 429 answers, their isolation, and that
  the advertised wait is enough.
\<close>

subsection \<open>Runs of the guard\<close>

datatype guard_event =
    Acquire secs secs string "int option"
  | AskWait secs secs string "int option"
  | Report secs secs "int option" secs
  | Probe secs secs "int option"
  | Status secs
  | Restore secs secs "int option" secs
  | EnterPaid bool
  | ExitPaid

fun guard_exec :: "guard \<Rightarrow> guard_event \<Rightarrow> guard \<times> bool" where
  "guard_exec g (Acquire now t m c) = TryAcquire now t m c g"
| "guard_exec g (AskWait now t m c) = (fst (WaitTime now t m c g), False)"
| "guard_exec g (Report now t c r) = (Report429 now t c r g, False)"
| "guard_exec g (Probe now t c) = (fst (ChatSendState now t c g), False)"
| "guard_exec g (Status now) = (fst (Snapshot now g), False)"
| "guard_exec g (Restore now t c r) = (RestoreBackoff now t c r g, False)"
| "guard_exec g (EnterPaid a) = (EnterPaidLane a g, False)"
| "guard_exec g ExitPaid = (ExitPaidLane g, False)"

fun entry_clock :: "guard_event \<Rightarrow> secs option" where
  "entry_clock (Acquire now t m c) = Some now"
| "entry_clock (AskWait now t m c) = Some now"
| "entry_clock (Report now t c r) = Some now"
| "entry_clock (Probe now t c) = Some now"
| "entry_clock (Status now) = Some now"
| "entry_clock (Restore now t c r) = Some now"
| "entry_clock (EnterPaid a) = None"
| "entry_clock ExitPaid = None"

fun second_clock :: "guard_event \<Rightarrow> secs option" where
  "second_clock (Acquire now t m c) = Some t"
| "second_clock (AskWait now t m c) = Some t"
| "second_clock (Report now t c r) = Some t"
| "second_clock (Probe now t c) = Some t"
| "second_clock (Status now) = Some now"
| "second_clock (Restore now t c r) = Some t"
| "second_clock (EnterPaid a) = None"
| "second_clock ExitPaid = None"

subsection \<open>How one operation changes the buckets\<close>

text \<open>
  Every bucket of the guard moves by refills, charges and pauses only. \<open>bucket_moved now b b'\<close>
  is one such move at clock \<open>now\<close> (several refills at one clock are one).
\<close>

definition same_shape :: "bucket \<Rightarrow> bucket \<Rightarrow> bool" where
  "same_shape b b' \<longleftrightarrow> Rate b' = Rate b \<and> Capacity b' = Capacity b"

lemma blocked_Refill_iff: "\<not> blocked now (Refill now b) \<longleftrightarrow> snd (TryTake now b)"
  by (auto simp: blocked_def TryTake_iff not_less)

lemma charge_Refill: "snd (TryTake now b) \<Longrightarrow> charge (Refill now b) = fst (TryTake now b)"
  by (auto simp: charge_def TryTake_def Let_def split: if_splits)

text \<open>
  The write branch in closed form: the second and third refill change nothing, so the refund
  branch is never taken, and the chat bucket behaves as under one \<open>TryTake\<close>.
\<close>

lemma acquireChat_closed:
  "acquireChat now c b0 g =
     (if \<not> snd (TryTake now b0) then (setChat c (Refill now b0) g, False)
      else if paidLane g then
        (if snd (TryTake now (paidB g))
         then (setChat c (fst (TryTake now b0)) (g\<lparr>paidB := fst (TryTake now (paidB g))\<rparr>), True)
         else (setChat c (Refill now b0) (g\<lparr>paidB := fst (TryTake now (paidB g))\<rparr>), False))
      else if snd (TryTake now (globalWrites g))
        then (setChat c (fst (TryTake now b0))
               (g\<lparr>globalWrites := fst (TryTake now (globalWrites g))\<rparr>), True)
        else (setChat c (Refill now b0)
               (g\<lparr>globalWrites := fst (TryTake now (globalWrites g))\<rparr>), False))"
proof -
  have "blocked now (Refill now b0) \<longleftrightarrow> \<not> snd (TryTake now b0)"
    using blocked_Refill_iff by blast
  then show ?thesis
    by (simp add: acquireChat_def Let_def case_prod_unfold charge_Refill)
qed

definition write_admitted :: "secs \<Rightarrow> secs \<Rightarrow> int option \<Rightarrow> guard \<Rightarrow> bool" where
  "write_admitted now t chatID g \<longleftrightarrow>
     egressPausedUntil g \<le> now \<and>
     (case chatID of None \<Rightarrow> True | Some c \<Rightarrow> snd (TryTake now (chat_bucket_at t c g))) \<and>
     snd (TryTake now (if paidLane g then paidB g else globalWrites g))"

lemma TryAcquire_verdict:
  "snd (TryAcquire now t m c g) \<longleftrightarrow>
     (case MethodKind m of
        Fast \<Rightarrow> egressPausedUntil g \<le> now
      | Read \<Rightarrow> egressPausedUntil g \<le> now \<and> snd (TryTake now (readsB g))
      | Write \<Rightarrow> write_admitted now t c g)"
  by (auto simp: TryAcquire_def write_admitted_def acquireChat_closed
      case_prod_unfold Let_def split: kind.split option.split)

definition counts_global :: "guard \<Rightarrow> guard_event \<Rightarrow> bool" where
  "counts_global g e =
     (case e of Acquire now t m c \<Rightarrow> MethodKind m = Write \<and> \<not> paidLane g | _ \<Rightarrow> False)"

definition counts_chat :: "int \<Rightarrow> guard_event \<Rightarrow> bool" where
  "counts_chat d e = (case e of Acquire now t m c \<Rightarrow> MethodKind m = Write \<and> c = Some d | _ \<Rightarrow> False)"

lemma globalWrites_TryAcquire:
  "globalWrites (fst (TryAcquire now t m c g)) \<in>
     {globalWrites g, fst (TryTake now (globalWrites g))} \<and>
   (MethodKind m = Write \<and> \<not> paidLane g \<and> snd (TryAcquire now t m c g) \<longrightarrow>
      globalWrites (fst (TryAcquire now t m c g)) = fst (TryTake now (globalWrites g)) \<and>
      snd (TryTake now (globalWrites g)))"
  by (auto simp: TryAcquire_def acquireChat_closed
      case_prod_unfold Let_def split: kind.split option.split)

text \<open>A refused admission charges nobody: the global bucket is at most refilled.\<close>

lemma TryTake_refused: "\<not> snd (TryTake now b) \<Longrightarrow> fst (TryTake now b) = Refill now b"
  by (auto simp: TryTake_def Let_def split: if_splits)

lemma TryAcquire_refused:
  assumes "\<not> snd (TryAcquire now t m c g)"
  shows "globalWrites (fst (TryAcquire now t m c g)) \<in> {globalWrites g, Refill now (globalWrites g)}"
    and "paidB (fst (TryAcquire now t m c g)) \<in> {paidB g, Refill now (paidB g)}"
    and "readsB (fst (TryAcquire now t m c g)) \<in> {readsB g, Refill now (readsB g)}"
    and "chatTable d (fst (TryAcquire now t m c g)) \<in>
           {chatTable d g, Some (Refill now (chat_bucket_at t d g))}"
  using assms
  by (auto simp: TryAcquire_def acquireChat_closed TryTake_refused
      case_prod_unfold Let_def chatTable_setChat split: kind.split option.split if_splits)

subsection \<open>The moves of each bucket\<close>

lemma chatTable_refill_all:
  "chatTable c (fst (Snapshot now g)) = map_option (Refill now) (chatTable c g)"
  by (simp add: Snapshot_def chatTable_def refill_all_def map_of_map)

lemma Snapshot_fields [simp]:
  "gcfg (fst (Snapshot now g)) = gcfg g" "globalWrites (fst (Snapshot now g)) = globalWrites g"
  "paidB (fst (Snapshot now g)) = paidB g" "readsB (fst (Snapshot now g)) = readsB g"
  "egressPausedUntil (fst (Snapshot now g)) = egressPausedUntil g"
  "paidLane (fst (Snapshot now g)) = paidLane g"
  by (simp_all add: Snapshot_def)

lemmas guard_op_defs =
  TryAcquire_def WaitTime_def Report429_def ChatSendState_def RestoreBackoff_def
  EnterPaidLane_def ExitPaidLane_def acquireChat_closed case_prod_unfold Let_def
  chatTable_setChat

definition moves :: "secs \<Rightarrow> bucket \<Rightarrow> bucket set" where
  "moves now b = {b, Refill now b, fst (TryTake now b)} \<union> (\<lambda>r. Pause r now b) ` UNIV"

lemma movesI [simp, intro]:
  "b \<in> moves now b" "Refill now b \<in> moves now b" "fst (TryTake now b) \<in> moves now b"
  "Pause r now b \<in> moves now b"
  by (auto simp: moves_def)

lemma gcfg_exec [simp]: "gcfg (fst (guard_exec g e)) = gcfg g"
  by (cases e) (auto simp: guard_op_defs split: kind.split option.split)

lemma globalWrites_exec:
  "(case entry_clock e of None \<Rightarrow> globalWrites (fst (guard_exec g e)) = globalWrites g
    | Some now \<Rightarrow> globalWrites (fst (guard_exec g e)) \<in> moves now (globalWrites g))"
  by (cases e) (auto simp: guard_op_defs split: kind.split option.split)

lemma paidB_exec:
  "(case entry_clock e of None \<Rightarrow> paidB (fst (guard_exec g e)) = paidB g
    | Some now \<Rightarrow> paidB (fst (guard_exec g e)) \<in> moves now (paidB g))"
  by (cases e) (auto simp: guard_op_defs split: kind.split option.split)

lemma readsB_exec:
  "(case entry_clock e of None \<Rightarrow> readsB (fst (guard_exec g e)) = readsB g
    | Some now \<Rightarrow> readsB (fst (guard_exec g e)) \<in> moves now (readsB g))"
  by (cases e) (auto simp: guard_op_defs split: kind.split option.split)

lemma chatTable_exec_None:
  "entry_clock e = None \<Longrightarrow> chatTable d (fst (guard_exec g e)) = chatTable d g"
  by (cases e) (auto simp: guard_op_defs)

lemma chat_bucket_at_globalWrites [simp]:
  "chat_bucket_at t c (g\<lparr>globalWrites := x\<rparr>) = chat_bucket_at t c g"
  by (simp add: chat_bucket_at_def split: option.split)

lemma chatTable_exec:
  assumes "entry_clock e = Some now" "second_clock e = Some t"
  shows "chatTable d (fst (guard_exec g e)) = chatTable d g \<or>
         (\<exists>b' \<in> moves now (chat_bucket_at t d g). chatTable d (fst (guard_exec g e)) = Some b')"
proof (cases e)
  case (Status x)
  then show ?thesis using assms
    by (cases "chatTable d g") (auto simp: chatTable_refill_all chat_bucket_at_def)
qed (use assms in \<open>auto simp: guard_op_defs split: kind.split option.split\<close>)

text \<open>A counted admission took a token of the bucket that counts it.\<close>

lemma globalWrites_counted:
  assumes "counts_global g e" "snd (guard_exec g e)" "entry_clock e = Some now"
  shows "globalWrites (fst (guard_exec g e)) = fst (TryTake now (globalWrites g))"
    and "snd (TryTake now (globalWrites g))"
  using assms globalWrites_TryAcquire [of now]
  by (cases e; force simp: counts_global_def)+

lemma chatTable_counted:
  assumes "counts_chat d e" "snd (guard_exec g e)" "entry_clock e = Some now" "second_clock e = Some t"
  shows "chatTable d (fst (guard_exec g e)) = Some (fst (TryTake now (chat_bucket_at t d g)))"
    and "snd (TryTake now (chat_bucket_at t d g))"
  using assms
  by (cases e; auto simp: counts_chat_def guard_op_defs split: if_splits)+

subsection \<open>The invariant of the guard\<close>

definition guard_inv :: "guard \<Rightarrow> bool" where
  "guard_inv g \<longleftrightarrow>
     bucket_inv (globalWrites g) \<and> bucket_inv (paidB g) \<and> bucket_inv (readsB g) \<and>
     (\<forall>c. chat_rate (gcfg g) c \<ge> 0 \<and> chat_burst (gcfg g) c \<ge> 0) \<and>
     (\<forall>c b. chatTable c g = Some b \<longrightarrow> bucket_inv b \<and>
        Rate b = chat_rate (gcfg g) c \<and> Capacity b = chat_burst (gcfg g) c)"

definition stamped :: "secs \<Rightarrow> guard \<Rightarrow> bool" where
  "stamped now g \<longleftrightarrow>
     Updated (globalWrites g) \<le> now \<and> Updated (paidB g) \<le> now \<and> Updated (readsB g) \<le> now \<and>
     (\<forall>c b. chatTable c g = Some b \<longrightarrow> Updated b \<le> now)"

text \<open>
  An event fits a state when the clock has not gone back behind the buckets' stamps and the
  second clock read comes so soon after the first that a fresh bucket loses at most its burst.
\<close>

definition event_fits :: "guard \<Rightarrow> guard_event \<Rightarrow> bool" where
  "event_fits g e \<longleftrightarrow>
     (\<forall>now t. entry_clock e = Some now \<and> second_clock e = Some t \<longrightarrow>
        stamped now g \<and> now \<le> t \<and>
        (\<forall>c. (t - now) * chat_rate (gcfg g) c \<le> of_int (chat_burst (gcfg g) c)))"

lemma clocks_together: "entry_clock e = None \<longleftrightarrow> second_clock e = None"
  by (cases e) auto

lemma moves_shape: "b' \<in> moves now b \<Longrightarrow> Rate b' = Rate b \<and> Capacity b' = Capacity b"
  by (auto simp: moves_def)

lemma moves_inv: "bucket_inv b \<Longrightarrow> Updated b \<le> now \<Longrightarrow> b' \<in> moves now b \<Longrightarrow> bucket_inv b'"
  by (auto simp: moves_def intro: gw_inv)

lemma fresh_Refill_inv:
  assumes "rate \<ge> 0" "burst \<ge> 0" "now \<le> t" "(t - now) * rate \<le> of_int burst" 
  shows "bucket_inv (Refill now (NewBucket rate burst t))"
  using assms by (auto simp: bucket_inv_def Refill_Tokens NewBucket_def algebra_simps)

lemma fresh_moves_inv:
  assumes "rate \<ge> 0" "burst \<ge> 0" "now \<le> t" "(t - now) * rate \<le> of_int burst"
    and "b' \<in> moves now (NewBucket rate burst t)"
  shows "bucket_inv b'"
proof -
  have r: "bucket_inv (Refill now (NewBucket rate burst t))" by (rule fresh_Refill_inv) fact+
  then have "bucket_inv (fst (TryTake now (NewBucket rate burst t)))"
    by (auto simp: bucket_inv_def TryTake_Tokens TryTake_iff NewBucket_def)
  with r assms show ?thesis by (auto simp: moves_def intro: gw_inv)
qed

lemma chat_moves_inv:
  assumes "guard_inv g" "stamped now g" "now \<le> t"
    "(t - now) * chat_rate (gcfg g) c \<le> of_int (chat_burst (gcfg g) c)"
    and b': "b' \<in> moves now (chat_bucket_at t c g)"
  shows "bucket_inv b' \<and> Rate b' = chat_rate (gcfg g) c \<and> Capacity b' = chat_burst (gcfg g) c"
proof (cases "chatTable c g")
  case None
  then have "b' \<in> moves now (NewBucket (chat_rate (gcfg g) c) (chat_burst (gcfg g) c) t)"
    using b' by (simp add: chat_bucket_at_def)
  then have "bucket_inv b'"
    using assms(1,3,4) by (intro fresh_moves_inv) (auto simp: guard_inv_def)
  with None moves_shape [OF b'] show ?thesis by (simp add: chat_bucket_at_def NewBucket_def)
next
  case (Some b)
  with assms have "bucket_inv b" "Updated b \<le> now" "Rate b = chat_rate (gcfg g) c"
    "Capacity b = chat_burst (gcfg g) c"
    by (auto simp: guard_inv_def stamped_def)
  with Some b' moves_shape [OF b'] show ?thesis by (auto simp: chat_bucket_at_def intro: moves_inv)
qed

lemma guard_inv_exec [gw_inv]:
  assumes inv: "guard_inv g" and fits: "event_fits g e"
  shows "guard_inv (fst (guard_exec g e))"
proof (cases "entry_clock e")
  case None
  then show ?thesis using inv globalWrites_exec [of g e] paidB_exec [of g e] readsB_exec [of g e]
    by (simp add: guard_inv_def chatTable_exec_None)
next
  case (Some now)
  then obtain t where t: "second_clock e = Some t" using clocks_together [of e] by fastforce
  with fits Some have st: "stamped now g" "now \<le> t"
    "\<And>c. (t - now) * chat_rate (gcfg g) c \<le> of_int (chat_burst (gcfg g) c)"
    by (auto simp: event_fits_def)
  have "bucket_inv (globalWrites (fst (guard_exec g e)))" "bucket_inv (paidB (fst (guard_exec g e)))"
    "bucket_inv (readsB (fst (guard_exec g e)))"
    using Some inv st globalWrites_exec [of g e] paidB_exec [of g e] readsB_exec [of g e]
    by (auto simp: guard_inv_def stamped_def intro: moves_inv)
  moreover have "bucket_inv b \<and> Rate b = chat_rate (gcfg g) c \<and> Capacity b = chat_burst (gcfg g) c"
    if "chatTable c (fst (guard_exec g e)) = Some b" for c b
    using chatTable_exec [OF Some t, of c g] that chat_moves_inv [OF inv st] inv
    by (auto simp: guard_inv_def)
  ultimately show ?thesis using inv by (simp add: guard_inv_def)
qed

lemma guard_inv_NewGuard:
  assumes "sane_rate c"
  shows "guard_inv (NewGuard c t1 t2 t3)"
proof -
  have "0 \<le> trunc_rat (PaidRate c)" using assms by (simp add: sane_rate_def trunc_rat_def)
  with assms show ?thesis
    by (auto simp: guard_inv_def NewGuard_def sane_rate_def chatTable_def chat_rate_def
        chat_burst_def intro!: bucket_inv_NewBucket)
qed

subsection \<open>Pacing bounds over a window\<close>

definition global_step :: "guard \<Rightarrow> guard_event \<Rightarrow> guard \<times> bool" where
  "global_step g e = (fst (guard_exec g e), counts_global g e \<and> snd (guard_exec g e))"

definition chat_step :: "int \<Rightarrow> guard \<Rightarrow> guard_event \<Rightarrow> guard \<times> bool" where
  "chat_step d g e = (fst (guard_exec g e), counts_chat d e \<and> snd (guard_exec g e))"

text \<open>The pauses an event can impose: on the bot, or on one chat.\<close>

fun pauses :: "int option \<Rightarrow> guard_event \<Rightarrow> nat" where
  "pauses tgt (Report now t c r) = (if c = tgt then 1 else 0)"
| "pauses tgt (Restore now t c r) = (if c = tgt then 1 else 0)"
| "pauses tgt _ = 0"

definition in_window :: "secs \<Rightarrow> guard \<Rightarrow> guard_event \<Rightarrow> bool" where
  "in_window T0 g e \<longleftrightarrow> event_fits g e \<and> (\<forall>now. entry_clock e = Some now \<longrightarrow> T0 \<le> now)"

definition chat_pot :: "secs \<Rightarrow> int \<Rightarrow> guard \<Rightarrow> rat" where
  "chat_pot T0 d g = (case chatTable d g of Some b \<Rightarrow> window_pot T0 b
     | None \<Rightarrow> of_int (chat_burst (gcfg g) d) - chat_rate (gcfg g) d * T0)"

lemma globalWrites_exec_unpaused:
  assumes "pauses None e = 0" "entry_clock e = Some now"
  shows "globalWrites (fst (guard_exec g e)) \<in>
     {globalWrites g, Refill now (globalWrites g), fst (TryTake now (globalWrites g))}"
  using assms
  by (cases e) (auto simp: guard_op_defs split: kind.split option.split if_splits)

lemma chatTable_exec_unpaused:
  assumes "pauses (Some d) e = 0" "entry_clock e = Some now" "second_clock e = Some t"
  shows "chatTable d (fst (guard_exec g e)) \<in> {chatTable d g} \<union> Some `
     {chat_bucket_at t d g, Refill now (chat_bucket_at t d g), fst (TryTake now (chat_bucket_at t d g))}"
proof (cases e)
  case (Status x)
  then show ?thesis using assms
    by (cases "chatTable d g") (auto simp: chatTable_refill_all chat_bucket_at_def)
qed (use assms in \<open>auto simp: guard_op_defs split: kind.split option.split if_splits\<close>)

lemma pauses_le_1: "pauses tgt e \<le> 1"
  by (cases e) auto

lemma window_pot_moves:
  assumes "bucket_inv b" "T0 \<le> now" "b' \<in> moves now b"
  shows "window_pot T0 b' \<le> window_pot T0 b + 1"
  using assms window_pot_Pause [of b T0] window_pot_Refill [of b T0 now]
    window_pot_TryTake [of b T0 now]
  by (auto simp: moves_def split: if_splits)

interpretation gl: metered global_step "in_window T0" guard_inv
  "\<lambda>g. window_pot T0 (globalWrites g)" "\<lambda>e. of_nat (pauses None e)" for T0
proof
  fix g e
  assume inv: "guard_inv g" and ok: "in_window T0 g e"
  then show "guard_inv (fst (global_step g e))"
    by (simp add: global_step_def in_window_def guard_inv_exec)
  from inv have b: "bucket_inv (globalWrites g)" by (simp add: guard_inv_def)
  show "window_pot T0 (globalWrites (fst (global_step g e))) + (if snd (global_step g e) then 1 else 0)
      \<le> window_pot T0 (globalWrites g) + of_nat (pauses None e)"
  proof (cases "entry_clock e")
    case None
    then show ?thesis using globalWrites_exec [of g e]
      by (cases e) (auto simp: global_step_def counts_global_def)
  next
    case (Some now)
    with ok have now: "T0 \<le> now" by (auto simp: in_window_def)
    show ?thesis
    proof (cases "counts_global g e \<and> snd (guard_exec g e)")
      case True
      then show ?thesis
        using window_pot_TryTake [OF b now] globalWrites_counted [of g e now] Some
        by (auto simp: global_step_def)
    next
      case False
      then show ?thesis
      proof (cases "pauses None e = 0")
        case True
        with False show ?thesis
          using globalWrites_exec_unpaused [OF True Some, of g] window_pot_Refill [OF b now]
            window_pot_TryTake [OF b now] by (auto simp: global_step_def split: if_splits)
      next
        case False2: False
        then have "pauses None e = 1" using pauses_le_1 [of None e] by linarith
        with False show ?thesis
          using globalWrites_exec [of g e] Some window_pot_moves [OF b now]
          by (auto simp: global_step_def)
      qed
    qed
  qed
qed

lemma chat_bucket_at_inv:
  assumes "guard_inv g"
  shows "bucket_inv (chat_bucket_at t d g)"
  using assms
  by (auto simp: chat_bucket_at_def guard_inv_def intro!: bucket_inv_NewBucket split: option.split)

lemma window_pot_chat_bucket_at:
  assumes "guard_inv g" "T0 \<le> t"
  shows "window_pot T0 (chat_bucket_at t d g) \<le> chat_pot T0 d g"
proof (cases "chatTable d g")
  case None
  have "chat_rate (gcfg g) d * T0 \<le> chat_rate (gcfg g) d * t"
    using assms by (simp add: guard_inv_def mult_left_mono)
  with None assms show ?thesis
    by (simp add: chat_bucket_at_def chat_pot_def window_pot_def bucket_pot_def NewBucket_def
        paused_flag_def)
next
  case (Some b)
  then show ?thesis by (simp add: chat_bucket_at_def chat_pot_def)
qed

lemma chat_pot_exec_None:
  "entry_clock e = None \<Longrightarrow> chat_pot T0 d (fst (guard_exec g e)) = chat_pot T0 d g"
  by (simp add: chat_pot_def chatTable_exec_None split: option.split)

lemma counts_chat_clock: "counts_chat d e \<Longrightarrow> entry_clock e \<noteq> None"
  by (cases e) (auto simp: counts_chat_def)

interpretation ch: metered "chat_step d" "in_window T0" guard_inv
  "chat_pot T0 d" "\<lambda>e. of_nat (pauses (Some d) e)" for T0 d
proof
  fix g e
  assume inv: "guard_inv g" and ok: "in_window T0 g e"
  then show "guard_inv (fst (chat_step d g e))"
    by (simp add: chat_step_def in_window_def guard_inv_exec)
  show "chat_pot T0 d (fst (chat_step d g e)) + (if snd (chat_step d g e) then 1 else 0)
      \<le> chat_pot T0 d g + of_nat (pauses (Some d) e)"
  proof (cases "entry_clock e")
    case None
    then show ?thesis
      using counts_chat_clock [of d e] by (auto simp: chat_step_def chat_pot_exec_None)
  next
    case (Some now)
    then obtain t where t: "second_clock e = Some t" using clocks_together [of e] by fastforce
    with ok Some have now: "T0 \<le> now" "now \<le> t" by (auto simp: in_window_def event_fits_def)
    let ?B = "chat_bucket_at t d g"
    have B: "bucket_inv ?B" by (rule chat_bucket_at_inv [OF inv])
    have le: "window_pot T0 ?B \<le> chat_pot T0 d g"
      using window_pot_chat_bucket_at [OF inv] now by simp
    have new: "chat_pot T0 d (fst (guard_exec g e)) = window_pot T0 b"
      if "chatTable d (fst (guard_exec g e)) = Some b" for b
      using that by (simp add: chat_pot_def)
    have old: "chat_pot T0 d (fst (guard_exec g e)) = chat_pot T0 d g"
      if "chatTable d (fst (guard_exec g e)) = chatTable d g"
      using that by (simp add: chat_pot_def split: option.split)
    show ?thesis
    proof (cases "counts_chat d e \<and> snd (guard_exec g e)")
      case True
      then show ?thesis
        using window_pot_TryTake [OF B now(1)] chatTable_counted [of d e g now t] Some t new le
        by (auto simp: chat_step_def)
    next
      case False
      show ?thesis
      proof (cases "pauses (Some d) e = 0")
        case True
        with False show ?thesis
          using chatTable_exec_unpaused [OF True Some t, of g] window_pot_Refill [OF B now(1)]
            window_pot_TryTake [OF B now(1)] old new le
          by (auto simp: chat_step_def split: if_splits)
      next
        case paused: False
        then have "pauses (Some d) e = 1" using pauses_le_1 [of "Some d" e] by linarith
        with False show ?thesis
          using chatTable_exec [OF Some t, of d g] window_pot_moves [OF B now(1)] old new le
          by (force simp: chat_step_def)
      qed
    qed
  qed
qed

lemma moves_Updated: "b' \<in> moves now b \<Longrightarrow> Updated b' = now \<or> Updated b' = Updated b"
  by (auto simp: moves_def)

lemma stamped_exec:
  assumes "stamped T g" "\<And>now t. entry_clock e = Some now \<Longrightarrow> second_clock e = Some t \<Longrightarrow> now \<le> T \<and> t \<le> T"
  shows "stamped T (fst (guard_exec g e))"
proof (cases "entry_clock e")
  case None
  then show ?thesis using assms(1) globalWrites_exec [of g e] paidB_exec [of g e] readsB_exec [of g e]
    by (simp add: stamped_def chatTable_exec_None)
next
  case (Some now)
  then obtain t where t: "second_clock e = Some t" using clocks_together [of e] by fastforce
  with assms(2) Some have le: "now \<le> T" "t \<le> T" by auto
  have "Updated (chat_bucket_at t c g) \<le> T" for c
    using assms(1) le by (auto simp: chat_bucket_at_def stamped_def NewBucket_def split: option.split)
  then have "Updated b \<le> T" if "chatTable c (fst (guard_exec g e)) = Some b" for c b
    using chatTable_exec [OF Some t, of c g] that assms(1) le moves_Updated
    by (fastforce simp: stamped_def)
  then show ?thesis
    using Some assms(1) le globalWrites_exec [of g e] paidB_exec [of g e] readsB_exec [of g e]
    by (auto simp: stamped_def dest!: moves_Updated)
qed

text \<open>All clocks of a run up to \<open>T1\<close>.\<close>

definition ends_by :: "secs \<Rightarrow> guard_event list \<Rightarrow> bool" where
  "ends_by T1 es \<longleftrightarrow> (\<forall>e \<in> set es. \<forall>now t.
     entry_clock e = Some now \<and> second_clock e = Some t \<longrightarrow> now \<le> T1 \<and> t \<le> T1)"

lemma stamped_run: "stamped T g \<Longrightarrow> ends_by T es \<Longrightarrow> stamped T (run guard_exec g es)"
  by (induction es arbitrary: g) (auto simp: ends_by_def intro!: stamped_exec)

lemma gcfg_run [simp]: "gcfg (run guard_exec g es) = gcfg g"
  by (induction es arbitrary: g) auto

lemma Rate_globalWrites_run: 
  "Rate (globalWrites (run guard_exec g es)) = Rate (globalWrites g)"
proof (induction es arbitrary: g)
  case (Cons e es)
  have "Rate (globalWrites (fst (guard_exec g e))) = Rate (globalWrites g)"
    using globalWrites_exec [of g e] by (auto dest: moves_shape split: option.splits)
  with Cons show ?case by simp
qed simp

lemma sum_pauses: "(\<Sum>e\<leftarrow>es. of_nat (pauses tgt e) :: rat) = of_nat (\<Sum>e\<leftarrow>es. pauses tgt e)"
  by (induction es) auto

text \<open>The runs of \<open>global_step\<close> and \<open>chat_step\<close> are the runs of the guard itself.\<close>

lemma global_run: "run global_step g es = run guard_exec g es"
  by (rule run_cong) (simp add: global_step_def)

lemma chat_run: "run (chat_step d) g es = run guard_exec g es"
  by (rule run_cong) (simp add: chat_step_def)

lemma global_run_ok: "run_ok global_step ok g es = run_ok guard_exec ok g es"
  by (rule run_ok_cong) (simp add: global_step_def)

lemma chat_run_ok: "run_ok (chat_step d) ok g es = run_ok guard_exec ok g es"
  by (rule run_ok_cong) (simp add: chat_step_def)

lemma guard_inv_run: 
  assumes "guard_inv g" "run_ok guard_exec (in_window T0) g es"
  shows "guard_inv (run guard_exec g es)"
  using gl.inv_run [of g T0 es] assms by (simp add: global_run global_run_ok)

text \<open>A guard with the default configuration and two sends in the window from 1 to 2.\<close>

definition fresh_guard :: guard where
  "fresh_guard = NewGuard (DefaultRate (\<lambda>_. None) (\<lambda>_. None)) 0 0 0"

definition two_sends :: "guard_event list" where
  "two_sends = [Acquire 1 1 ''sendMessage'' (Some 7), Acquire 1 1 ''sendMessage'' (Some 8)]"

lemma fresh_guard_inv: "guard_inv fresh_guard"
  unfolding fresh_guard_def by (rule guard_inv_NewGuard [OF sane_rate_default])

lemma fresh_guard_stamped: "0 \<le> T \<Longrightarrow> stamped T fresh_guard"
  by (simp add: fresh_guard_def stamped_def NewGuard_def NewBucket_def chatTable_def)

lemma fresh_guard_fields:
  "Rate (globalWrites fresh_guard) = 30" "Capacity (globalWrites fresh_guard) = 30"
  "PausedUntil (globalWrites fresh_guard) = 0" "chat_rate (gcfg fresh_guard) 7 = 1"
  "chat_burst (gcfg fresh_guard) 7 = 3" "0 \<le> chat_burst (gcfg fresh_guard) d"
  by (simp_all add: fresh_guard_def NewGuard_def NewBucket_def chat_rate_def chat_burst_def
      config_defs)

lemma two_sends_ok: "run_ok guard_exec (in_window 1) fresh_guard two_sends"
proof -
  have fits: "in_window 1 h (Acquire 1 1 m d)"
    if "stamped 1 h" "gcfg h = gcfg fresh_guard" for h m d
    using that fresh_guard_fields(6) by (simp add: in_window_def event_fits_def)
  let ?g = "fst (guard_exec fresh_guard (Acquire 1 1 ''sendMessage'' (Some 7)))"
  have "stamped 1 ?g" by (rule stamped_exec) (auto simp: fresh_guard_stamped)
  then have "in_window 1 ?g (Acquire 1 1 ''sendMessage'' (Some 8))"
    by (rule fits) (simp del: guard_exec.simps)
  moreover have "in_window 1 fresh_guard (Acquire 1 1 ''sendMessage'' (Some 7))"
    by (rule fits) (auto simp: fresh_guard_stamped)
  ultimately show ?thesis by (simp add: two_sends_def del: guard_exec.simps)
qed

lemma two_sends_end: "ends_by 2 two_sends"
  by (simp add: ends_by_def two_sends_def)





subsection \<open>Pauses learnt from a real 429\<close>

definition chat_paused :: "secs \<Rightarrow> int \<Rightarrow> 'a guard_scheme \<Rightarrow> bool" where
  "chat_paused P d g \<longleftrightarrow> (\<exists>b. chatTable d g = Some b \<and> P \<le> PausedUntil b)"

lemma moves_keep_pause:
  "b' \<in> moves now b \<Longrightarrow> now < P \<Longrightarrow> P \<le> PausedUntil b \<Longrightarrow> P \<le> PausedUntil b'"
  by (auto simp: moves_def)

lemma chat_paused_exec:
  assumes "chat_paused P d g" "\<And>now. entry_clock e = Some now \<Longrightarrow> now < P"
  shows "chat_paused P d (fst (guard_exec g e))"
proof (cases "entry_clock e")
  case None
  then show ?thesis using assms(1) by (simp add: chat_paused_def chatTable_exec_None)
next
  case (Some now)
  then obtain t where t: "second_clock e = Some t" using clocks_together [of e] by fastforce
  from assms(1) obtain b where b: "chatTable d g = Some b" "P \<le> PausedUntil b"
    by (auto simp: chat_paused_def)
  then have "chat_bucket_at t d g = b" by (simp add: chat_bucket_at_def)
  with chatTable_exec [OF Some t, of d g] b assms(2) [OF Some] show ?thesis
    by (auto simp: chat_paused_def intro: moves_keep_pause)
qed

lemma chat_paused_refuses:
  assumes "chat_paused P d g" "now < P" "MethodKind m = Write"
  shows "\<not> snd (TryAcquire now t m (Some d) g)"
proof -
  from assms(1) obtain b where "chatTable d g = Some b" "P \<le> PausedUntil b"
    by (auto simp: chat_paused_def)
  then have "\<not> snd (TryTake now (chat_bucket_at t d g))"
    using assms(2) by (auto simp: TryTake_iff chat_bucket_at_def)
  with assms(3) show ?thesis by (simp add: TryAcquire_verdict write_admitted_def)
qed

lemma chat_paused_run:
  assumes "chat_paused P d g" "\<forall>e \<in> set es. \<forall>u. entry_clock e = Some u \<longrightarrow> u < P"
  shows "admitted (chat_step d) g es = 0"
  using assms
proof (induction es arbitrary: g)
  case Nil
  then show ?case by simp
next
  case (Cons e es)
  have "\<not> snd (chat_step d g e)"
    using chat_paused_refuses [OF Cons.prems(1)] Cons.prems(2)
    by (cases e) (auto simp: chat_step_def counts_chat_def)
  moreover have "chat_paused P d (fst (chat_step d g e))"
    unfolding chat_step_def fst_conv
    by (rule chat_paused_exec [OF Cons.prems(1)]) (use Cons.prems(2) in auto)
  ultimately show ?case using Cons.IH Cons.prems(2) by simp
qed

text \<open>
  C2. After a real 429 for a chat with \<open>retry_after\<close> r, learnt at time now, no write to that
  chat is admitted before now + r, whatever operations run in between (paid lane included).
\<close>

theorem report429_silences_chat:
  assumes "\<forall>e \<in> set es. \<forall>u. entry_clock e = Some u \<longrightarrow> u < now + r"
  shows "admitted (chat_step d) (Report429 now t (Some d) r g) es = 0"
proof (rule chat_paused_run)
  show "chat_paused (now + r) d (Report429 now t (Some d) r g)"
    by (simp add: chat_paused_def Report429_def case_prod_unfold chatTable_setChat)
  show "\<forall>e \<in> set es. \<forall>u. entry_clock e = Some u \<longrightarrow> u < now + r" by (rule assms)
qed

theorem report429_silences_chat_witness:
  "admitted (chat_step 7) (Report429 0 0 (Some 7) 5 fresh_guard) two_sends = 0"
  by (rule report429_silences_chat) (simp add: two_sends_def)

text \<open>
  A 429 for one chat is isolated: it changes nothing the admission of any other request
  depends on. Requests for another chat, or without a chat, get the same verdict and leave the
  other buckets as they would have.
\<close>

lemma report429_isolated:
  assumes "c \<noteq> Some d"
  shows "snd (TryAcquire now' t' m c (Report429 now t (Some d) r g)) = snd (TryAcquire now' t' m c g)"
proof -
  let ?h = "Report429 now t (Some d) r g"
  have "chatTable e ?h = chatTable e g" if "e \<noteq> d" for e
    using that by (simp add: Report429_def case_prod_unfold chatTable_setChat)
  then have "chat_bucket_at t' e ?h = chat_bucket_at t' e g" if "e \<noteq> d" for e
    using that by (simp add: chat_bucket_at_def Report429_def case_prod_unfold split: option.split)
  with assms show ?thesis
    by (auto simp: TryAcquire_verdict write_admitted_def Report429_def case_prod_unfold
        split: kind.split option.split)
qed

subsection \<open>The bot-wide pause\<close>

lemma egress_exec:
  "egressPausedUntil g \<le> egressPausedUntil (fst (guard_exec g e))"
  by (cases e) (auto simp: guard_op_defs split: kind.split option.split)

lemma egress_paused_run:
  assumes "P \<le> egressPausedUntil g" "\<forall>e \<in> set es. \<forall>u. entry_clock e = Some u \<longrightarrow> u < P"
  shows "admitted guard_exec g es = 0"
  using assms
proof (induction es arbitrary: g)
  case Nil
  then show ?case by simp
next
  case (Cons e es)
  have "\<not> snd (guard_exec g e)"
    using Cons.prems(1) Cons.prems(2)
    by (cases e) (force simp: TryAcquire_def)+
  moreover have "P \<le> egressPausedUntil (fst (guard_exec g e))"
    using Cons.prems(1) egress_exec [of g e] by (rule order_trans)
  ultimately show ?case using Cons.IH Cons.prems(2) by simp
qed

text \<open>
  After a real 429 without a chat, nothing at all leaves the bot before the retry time is
  over: neither writes nor reads nor the fast path.
\<close>

lemma report429_silences_bot:
  assumes "\<forall>e \<in> set es. \<forall>u. entry_clock e = Some u \<longrightarrow> u < now + r"
  shows "admitted guard_exec (Report429 now t None r g) es = 0"
  by (rule egress_paused_run [of "now + r"]) (use assms in \<open>auto simp: Report429_def\<close>)

text \<open>
  Outside the bot-wide pause the fast-path methods are always admitted and cost nothing:
  the state of the guard does not change.
\<close>

lemma fast_path_never_starves:
  assumes "to_lower m \<in> fastPath" "egressPausedUntil g \<le> now"
  shows "TryAcquire now t m c g = (g, True)"
  using assms by (simp add: TryAcquire_def MethodKind_def)

text \<open>
  A refused attempt is free: it leaves the bot-wide, paid and read buckets and every chat
  bucket either untouched or merely refilled to the time of the attempt. (The refund branch of
  the source is therefore never needed.)
\<close>

lemma refused_attempt_is_free:
  assumes "\<not> snd (TryAcquire now t m c g)"
  shows "globalWrites (fst (TryAcquire now t m c g)) \<in> {globalWrites g, Refill now (globalWrites g)} \<and>
    paidB (fst (TryAcquire now t m c g)) \<in> {paidB g, Refill now (paidB g)} \<and>
    readsB (fst (TryAcquire now t m c g)) \<in> {readsB g, Refill now (readsB g)} \<and>
    chatTable d (fst (TryAcquire now t m c g)) \<in>
      {chatTable d g, Some (Refill now (chat_bucket_at t d g))}"
  using TryAcquire_refused [OF assms] by blast

subsection \<open>The advertised wait is enough\<close>

definition usable :: "bucket \<Rightarrow> bool" where
  "usable b \<longleftrightarrow> Rate b > 0 \<and> Capacity b \<ge> 1"

lemma max_wait_Some:
  "max_wait a b = Some w \<longleftrightarrow> (\<exists>x y. a = Some x \<and> b = Some y \<and> w = max x y)"
  by (auto simp: max_wait_def split: option.splits)

lemma usable_wait_enough:
  assumes "0 \<le> now" "usable b" "snd (NextAvailable now b) = Some w" "w \<le> v"
  shows "snd (TryTake (now + v) (Refill now b))"
proof -
  have "0 \<le> w" "snd (TryTake (now + w) (Refill now b))"
    using TryTake_after_NextAvailable [of now b w] assms by (auto simp: usable_def)
  then show ?thesis
    using TryTake_mono [of "Refill now b" "now + w" "now + v"] assms by (auto simp: usable_def)
qed

lemma usable_chat_bucket_at:
  assumes "guard_inv g" "chat_rate (gcfg g) c > 0" "chat_burst (gcfg g) c \<ge> 1"
  shows "usable (chat_bucket_at t c g)"
  using assms
  by (auto simp: chat_bucket_at_def usable_def guard_inv_def NewBucket_def split: option.split)

text \<open>
  \<open>WaitTime\<close> is sound: outside the paid lane, when it answers a wait w, the same request made
  again w seconds later is admitted if nothing else ran in between. So the queueing loop of the
  proxy that sleeps for the answer makes progress.
\<close>

lemma wait_time_is_enough:
  assumes inv: "guard_inv g" and now: "0 \<le> now"
    and usable: "usable (globalWrites g)" "usable (readsB g)"
    and chat: "\<And>c. chat_rate (gcfg g) c > 0 \<and> chat_burst (gcfg g) c \<ge> 1"
    and unpaid: "\<not> paidLane g"
    and w: "WaitTime now t m c g = (g', Some w)"
  shows "snd (TryAcquire (now + w) t' m c g')"
proof (cases "MethodKind m")
  case Fast
  with w show ?thesis by (auto simp: WaitTime_def TryAcquire_def Let_def)
next
  case Read
  with w obtain v where v: "snd (NextAvailable now (readsB g)) = Some v"
      "w = max (max 0 (egressPausedUntil g - now)) v" "g' = g\<lparr>readsB := Refill now (readsB g)\<rparr>"
    by (auto simp: WaitTime_def Let_def case_prod_unfold max_wait_Some)
  then have "snd (TryTake (now + w) (Refill now (readsB g)))"
    using usable_wait_enough [OF now usable(2) v(1), of w] by simp
  with Read v show ?thesis by (auto simp: TryAcquire_verdict)
next
  case Write
  have global: "snd (TryTake (now + w) (Refill now (globalWrites g)))"
    if "snd (NextAvailable now (globalWrites g)) = Some v" "v \<le> w" for v
    using usable_wait_enough [OF now usable(1) that] .
  show ?thesis
  proof (cases c)
    case None
    with Write w obtain v where "snd (NextAvailable now (globalWrites g)) = Some v"
        "w = max (max 0 (egressPausedUntil g - now)) v"
        "g' = g\<lparr>globalWrites := Refill now (globalWrites g)\<rparr>"
      by (auto simp: WaitTime_def Let_def case_prod_unfold max_wait_Some)
    with Write None global [of v] unpaid show ?thesis
      by (auto simp: TryAcquire_verdict write_admitted_def)
  next
    case (Some d)
    let ?b = "chat_bucket_at t d g"
    from Some Write w obtain v u where
        v: "snd (NextAvailable now (globalWrites g)) = Some v"
      and u: "snd (NextAvailable now ?b) = Some u"
      and ww: "w = max (max (max 0 (egressPausedUntil g - now)) v) u"
      and g': "g' = setChat d (Refill now ?b)
          (fst (chatBucket t d (g\<lparr>globalWrites := Refill now (globalWrites g)\<rparr>)))"
      by (auto simp: WaitTime_def Let_def case_prod_unfold max_wait_Some)
    have "snd (TryTake (now + w) (Refill now ?b))"
      using usable_wait_enough [OF now usable_chat_bucket_at u, of w] inv chat ww by simp
    moreover have "chat_bucket_at t' d g' = Refill now ?b"
      by (simp add: g' chat_bucket_at_def [of t'] chatTable_setChat)
    ultimately show ?thesis
      using Write Some global [OF v] unpaid ww g'
      by (auto simp: TryAcquire_verdict write_admitted_def)
  qed
qed

lemma fresh_guard_usable: "usable (globalWrites fresh_guard)" "usable (readsB fresh_guard)"
  "chat_rate (gcfg fresh_guard) c > 0 \<and> chat_burst (gcfg fresh_guard) c \<ge> 1"
  by (simp_all add: fresh_guard_def NewGuard_def NewBucket_def usable_def config_defs
      chat_rate_def chat_burst_def)

end
