(* ===== verification/FloodParse.thy ===== *)
theory FloodParse
  imports Prelude
begin

text \<open>
  \<^verbatim>\<open>internal/rateguard/mt.go\<close>, the parsing of rate-limit errors. The six regular expressions
  are written out as matchers with the leftmost-first semantics of Go's \<^verbatim>\<open>regexp\<close>: \<open>search\<close>
  tries a matcher at each position, \<open>nonspace_greedy\<close> is \<^verbatim>\<open>\S*\<close> (longest first, backing off),
  \<open>search\<close> inside a pattern is the lazy \<^verbatim>\<open>.*?\<close>. A matcher returns the captured digits.
  Literals match without regard to ASCII case (flag \<^verbatim>\<open>(?i)\<close>).
\<close>

subsection \<open>Matchers\<close>

fun lit_ci :: "string \<Rightarrow> string \<Rightarrow> string option" where
  "lit_ci [] s = Some s"
| "lit_ci (p # ps) [] = None"
| "lit_ci (p # ps) (c # cs) =
     (if to_lower_char p = to_lower_char c then lit_ci ps cs else None)"

fun search :: "(string \<Rightarrow> 'a option) \<Rightarrow> string \<Rightarrow> 'a option" where
  "search p [] = p []"
| "search p (c # cs) = (case p (c # cs) of Some x \<Rightarrow> Some x | None \<Rightarrow> search p cs)"

definition re_nonspace :: "char \<Rightarrow> bool" where
  "re_nonspace c \<longleftrightarrow> (of_char c :: nat) \<notin> {9, 10, 12, 13, 32}"

fun nonspace_greedy :: "(string \<Rightarrow> 'a option) \<Rightarrow> string \<Rightarrow> 'a option" where
  "nonspace_greedy p [] = p []"
| "nonspace_greedy p (c # cs) =
     (if re_nonspace c
      then (case nonspace_greedy p cs of Some x \<Rightarrow> Some x | None \<Rightarrow> p (c # cs))
      else p (c # cs))"

text \<open>\<^verbatim>\<open>pre(\d+)post\<close>; a digit never starts \<open>post\<close>, so the longest run of digits is the only one.\<close>

definition num_between :: "string \<Rightarrow> string \<Rightarrow> string \<Rightarrow> string option" where
  "num_between pre post s =
     (case lit_ci pre s of
        None \<Rightarrow> None
      | Some r \<Rightarrow>
          let ds = takeWhile is_digit r in
          if ds = [] then None
          else (case lit_ci post (dropWhile is_digit r) of None \<Rightarrow> None | Some _ \<Rightarrow> Some ds))"

definition floodWaitRe :: "string \<Rightarrow> string option" where
  "floodWaitRe = search (num_between ''FloodWait('' '')'')"

definition floodPremiumRe :: "string \<Rightarrow> string option" where
  "floodPremiumRe = search (num_between ''FloodPremiumWait('' '')'')"

definition slowmodeWaitRe :: "string \<Rightarrow> string option" where
  "slowmodeWaitRe = search (num_between ''SlowmodeWait('' '')'')"

definition peerFloodRe :: "string \<Rightarrow> bool" where
  "peerFloodRe s = (search (lit_ci ''PeerFloodInvalid'') s \<noteq> None)"

definition tagged_wait :: "string \<Rightarrow> string \<Rightarrow> string option" where
  "tagged_wait tag s =
     (case lit_ci tag s of
        None \<Rightarrow> None
      | Some r \<Rightarrow> nonspace_greedy (search (num_between ''wait of '' '' seconds'')) r)"

definition tgFloodWaitRe :: "string \<Rightarrow> string option" where
  "tgFloodWaitRe = search (tagged_wait ''FLOOD_WAIT'')"

definition tgSlowmodeRe :: "string \<Rightarrow> string option" where
  "tgSlowmodeRe = search (tagged_wait ''SLOWMODE_WAIT'')"

fun atoi_loop :: "int \<Rightarrow> string \<Rightarrow> int" where
  "atoi_loop n [] = n"
| "atoi_loop n (c # cs) =
     (if \<not> is_digit c then n else atoi_loop (wrap64 (n * 10 + digit_val c)) cs)"

definition atoi :: "string \<Rightarrow> int" where
  "atoi s = atoi_loop 0 s"

subsection \<open>ParseFloodWait\<close>

datatype flood_type = Flood_wait | Flood_premium | Slowmode | Peer_flood

record FloodInfo =
  Type :: flood_type
  Wait :: int

definition ParseFloodWait :: "string \<Rightarrow> FloodInfo option" where
  "ParseFloodWait s =
     (case floodWaitRe s of Some ds \<Rightarrow> Some \<lparr>Type = Flood_wait, Wait = atoi ds\<rparr> | None \<Rightarrow>
     (case floodPremiumRe s of Some ds \<Rightarrow> Some \<lparr>Type = Flood_premium, Wait = atoi ds\<rparr> | None \<Rightarrow>
     (case slowmodeWaitRe s of Some ds \<Rightarrow> Some \<lparr>Type = Slowmode, Wait = atoi ds\<rparr> | None \<Rightarrow>
     (if peerFloodRe s then Some \<lparr>Type = Peer_flood, Wait = 300\<rparr> else
     (case tgFloodWaitRe s of Some ds \<Rightarrow> Some \<lparr>Type = Flood_wait, Wait = atoi ds\<rparr> | None \<Rightarrow>
     (case tgSlowmodeRe s of Some ds \<Rightarrow> Some \<lparr>Type = Slowmode, Wait = atoi ds\<rparr> | None \<Rightarrow>
      None))))))"

subsection \<open>Numbers in the text\<close>

lemma itoa_digits:
  assumes "0 \<le> n"
  shows "list_all is_digit (itoa n)" "itoa n \<noteq> []" "digits_val 0 (itoa n) = n"
  using assms itoa_loop_digits [of n] itoa_loop_nonempty [of n]
  by (auto simp: itoa_def is_digit_def digit_val_def)

lemma digit_val_nonneg: "is_digit c \<Longrightarrow> 0 \<le> digit_val c"
  by (simp add: is_digit_def digit_val_def)

lemma digits_val_mono: "list_all is_digit ds \<Longrightarrow> 0 \<le> acc \<Longrightarrow> acc \<le> digits_val acc ds"
proof (induction ds arbitrary: acc)
  case (Cons c cs)
  then have "0 \<le> digit_val c" by (simp add: digit_val_nonneg)
  with Cons have "10 * acc + digit_val c \<le> digits_val (10 * acc + digit_val c) cs" by simp
  with \<open>0 \<le> digit_val c\<close> Cons.prems show ?case by simp
qed simp

lemma atoi_loop_exact:
  "list_all is_digit ds \<Longrightarrow> 0 \<le> acc \<Longrightarrow> digits_val acc ds < 2 ^ 63 \<Longrightarrow>
     atoi_loop acc ds = digits_val acc ds"
proof (induction ds arbitrary: acc)
  case (Cons c cs)
  then have c: "0 \<le> digit_val c" by (simp add: digit_val_nonneg)
  with Cons have "10 * acc + digit_val c \<le> digits_val (10 * acc + digit_val c) cs"
    by (intro digits_val_mono) auto
  with Cons c have "wrap64 (acc * 10 + digit_val c) = 10 * acc + digit_val c"
    by (subst wrap64_id) (auto simp: int64_def algebra_simps)
  with Cons c show ?case by simp
qed simp

lemma atoi_itoa: "0 \<le> n \<Longrightarrow> int64 n \<Longrightarrow> atoi (itoa n) = n"
  using atoi_loop_exact [of "itoa n" 0] itoa_digits [of n] by (simp add: atoi_def int64_def)

lemma takeWhile_itoa:
  assumes "0 \<le> n" "\<not> is_digit c"
  shows "takeWhile is_digit (itoa n @ c # r) = itoa n" "dropWhile is_digit (itoa n @ c # r) = c # r"
  using itoa_digits [OF assms(1)] assms(2)
  by (simp_all add: takeWhile_append2 dropWhile_append2 list_all_iff)

lemma lit_ci_self [simp]: "lit_ci p (p @ r) = Some r"
  by (induction p) auto

lemma num_between_exact:
  assumes "0 \<le> n" "post = c # cs" "\<not> is_digit c"
  shows "num_between pre post (pre @ itoa n @ post @ r) = Some (itoa n)"
  using assms takeWhile_itoa [of n c "cs @ r"] itoa_digits [of n] lit_ci_self [of post r]
  by (simp add: num_between_def del: lit_ci_self)
     (simp add: lit_ci_self)

text \<open>A search skips text none of whose suffixes matches.\<close>

definition no_start :: "(string \<Rightarrow> 'a option) \<Rightarrow> char \<Rightarrow> bool" where
  "no_start p c \<longleftrightarrow> (\<forall>r. p (c # r) = None)"

lemma search_skip: "list_all (no_start p) s \<Longrightarrow> search p (s @ r) = search p r"
  by (induction s) (auto simp: no_start_def)

lemma no_start_num_between:
  "to_lower_char x \<noteq> to_lower_char c \<Longrightarrow> no_start (num_between (x # xs) post) c"
  by (simp add: no_start_def num_between_def)

lemma search_hit: "p s = Some x \<Longrightarrow> search p s = Some x"
  by (cases s) auto

lemma no_start_digits:
  assumes "0 \<le> n" "\<not> is_digit (to_lower_char x)"
  shows "list_all (no_start (num_between (x # xs) post)) (itoa n)"
proof -
  have "to_lower_char x \<noteq> to_lower_char c" if "is_digit c" for c
    using assms(2) that by (auto simp: to_lower_char_def is_digit_def Let_def)
  then show ?thesis
    using itoa_digits(1) [OF assms(1)] by (auto simp: list_all_iff intro: no_start_num_between)
qed

lemma nonspace_greedy_hit:
  "list_all re_nonspace tag \<Longrightarrow> \<not> re_nonspace c \<Longrightarrow> p (c # s) = Some x \<Longrightarrow>
     nonspace_greedy p (tag @ c # s) = Some x"
  by (induction tag) auto

lemma nonspace_greedy_hit':
  "list_all re_nonspace tag \<Longrightarrow> m \<noteq> [] \<Longrightarrow> \<not> re_nonspace (hd m) \<Longrightarrow> p (m @ s) = Some x \<Longrightarrow>
     nonspace_greedy p (tag @ m @ s) = Some x"
  using nonspace_greedy_hit [of tag "hd m" p "tl m @ s" x] by (cases m) auto



text \<open>
  A raw Telegram error \<^verbatim>\<open>... FLOOD_WAIT_X] - A wait of n seconds ...\<close> that matches none of
  the Pyrogram forms is read back as a flood wait of n seconds: the tag may have any suffix
  without white space, then comes white space, and the text up to the number has no other W.
\<close>

lemma ParseFloodWait_raw:
  assumes n: "0 \<le> n" "int64 n"
    and u: "list_all (\<lambda>c. to_lower_char c \<noteq> CHR ''f'') u"
    and tag: "list_all re_nonspace tag"
    and mid: "mid \<noteq> []" "\<not> re_nonspace (hd mid)" "list_all (\<lambda>c. to_lower_char c \<noteq> CHR ''w'') mid"
    and s: "s = u @ ''FLOOD_WAIT'' @ tag @ mid @ ''wait of '' @ itoa n @ '' seconds'' @ r"
    and other: "floodWaitRe s = None" "floodPremiumRe s = None" "slowmodeWaitRe s = None"
      "\<not> peerFloodRe s"
  shows "ParseFloodWait s = Some \<lparr>Type = Flood_wait, Wait = n\<rparr>"
proof -
  let ?p = "num_between ''wait of '' '' seconds''"
  let ?rest = "''wait of '' @ itoa n @ '' seconds'' @ r"
  have f: "to_lower_char (CHR ''F'') = CHR ''f''" "to_lower_char (CHR ''w'') = CHR ''w''"
    by code_simp+
  have "list_all (no_start ?p) mid"
    using mid(3) by (auto simp: list_all_iff f intro!: no_start_num_between)
  then have "search ?p (mid @ ?rest) = search ?p ?rest" by (rule search_skip)
  also have "\<dots> = Some (itoa n)"
  proof (rule search_hit)
    have "\<not> is_digit (CHR '' '')" by code_simp
    then show "?p ?rest = Some (itoa n)" by (intro num_between_exact [OF n(1)]) auto
  qed
  finally have "nonspace_greedy (search ?p) (tag @ mid @ ?rest) = Some (itoa n)"
    by (rule nonspace_greedy_hit' [OF tag mid(1,2)])
  then have "tagged_wait ''FLOOD_WAIT'' (''FLOOD_WAIT'' @ tag @ mid @ ?rest) = Some (itoa n)"
    unfolding tagged_wait_def lit_ci_self by simp
  moreover have "list_all (no_start (tagged_wait ''FLOOD_WAIT'')) u"
    using u by (auto simp: list_all_iff no_start_def tagged_wait_def f)
  ultimately have "tgFloodWaitRe s = Some (itoa n)"
    unfolding tgFloodWaitRe_def s by (simp add: search_skip search_hit del: append_Cons)
  with other show ?thesis using atoi_itoa [OF n] by (simp add: ParseFloodWait_def)
qed

end
