(* ===== verification/MTGuard.thy ===== *)
theory MTGuard
  imports Guard_Pacing FloodParse
begin

text \<open>
  \<^verbatim>\<open>internal/rateguard/mt.go\<close>: the pacing state of one MTProto session. The record extends the
  Bot API guard's (the struct repeats its fields, and \<^verbatim>\<open>chatBucket\<close>, \<^verbatim>\<open>EnterPaidLane\<close>,
  \<^verbatim>\<open>ExitPaidLane\<close> are the same code), adding the silent bucket and the per-peer backoff.
\<close>

record peerBackoff =
  offences :: int
  lastWait :: rat
  pausedUntil :: secs

record mtguard = guard +
  MT :: MTProtoRate
  silentB :: bucket
  peerBackoffs :: "(int \<times> peerBackoff) list"

definition NewMTGuard ::
  "RateConfig \<Rightarrow> MTProtoRate \<Rightarrow> secs \<Rightarrow> secs \<Rightarrow> secs \<Rightarrow> secs \<Rightarrow> mtguard" where
  "NewMTGuard c mt t1 t2 t3 t4 = \<lparr>
     gcfg = c, Private = [], Groups = [],
     globalWrites = NewBucket (GlobalRate c) (GlobalBurst c) t1,
     paidB = NewBucket (PaidRate c) (trunc_rat (PaidRate c)) t4,
     readsB = NewBucket (ReadRate c) (max 10 (trunc_rat (ReadRate c))) t2,
     PaidEnabled = False, egressPausedUntil = 0, paidLane = False,
     MT = mt,
     silentB = NewBucket (SilentRate mt) (max 5 (trunc_rat (SilentRate mt))) t3,
     peerBackoffs = []\<rparr>"

definition peerState :: "int \<Rightarrow> mtguard \<Rightarrow> mtguard \<times> peerBackoff" where
  "peerState peerID g =
     (case map_of (peerBackoffs g) peerID of
        Some pb \<Rightarrow> (g, pb)
      | None \<Rightarrow>
          let pb = \<lparr>offences = 0, lastWait = 0, pausedUntil = 0\<rparr>
          in (g\<lparr>peerBackoffs := AList.update peerID pb (peerBackoffs g)\<rparr>, pb))"

definition setPeer :: "int \<Rightarrow> peerBackoff \<Rightarrow> mtguard \<Rightarrow> mtguard" where
  "setPeer peerID pb g = g\<lparr>peerBackoffs := AList.update peerID pb (peerBackoffs g)\<rparr>"

definition silentMethods :: "string set" where
  "silentMethods = {''resolve_username'', ''get_participants'', ''join_channel'', ''leave_chat''}"

text \<open>The write branch with a chat; unlike the Bot API guard it checks the chat bucket once
  before the lane and once after the global token.\<close>

definition MT_acquireChat :: "secs \<Rightarrow> int \<Rightarrow> bucket \<Rightarrow> mtguard \<Rightarrow> mtguard \<times> bool" where
  "MT_acquireChat now c b0 g =
     (let b1 = Refill now b0 in
      if blocked now b1 then (setChat c b1 g, False)
      else if paidLane g then
        let (p, ok) = TryTake now (paidB g) in
        if \<not> ok then (setChat c b1 (g\<lparr>paidB := p\<rparr>), False)
        else (setChat c (charge b1) (g\<lparr>paidB := p\<rparr>), True)
      else
        let (w, ok) = TryTake now (globalWrites g) in
        if \<not> ok then (setChat c b1 (g\<lparr>globalWrites := w\<rparr>), False)
        else
          let b2 = Refill now b1 in
          if blocked now b2
          then (setChat c b2 (g\<lparr>globalWrites := w\<lparr>Tokens := Tokens w + 1\<rparr>\<rparr>), False)
          else (setChat c (charge b2) (g\<lparr>globalWrites := w\<rparr>), True))"

definition MT_TryAcquire ::
  "secs \<Rightarrow> secs \<Rightarrow> string \<Rightarrow> int option \<Rightarrow> mtguard \<Rightarrow> mtguard \<times> bool" where
  "MT_TryAcquire now t method chatID g0 =
     (let (g, peerPaused) =
        (case chatID of
           None \<Rightarrow> (g0, False)
         | Some c \<Rightarrow> let (g1, pb) = peerState c g0 in (g1, pausedUntil pb > now))
      in
      if peerPaused then (g, False)
      else if now < egressPausedUntil g then (g, False)
      else case MethodKind method of
        Fast \<Rightarrow> (g, True)
      | Read \<Rightarrow> (let (r, ok) = TryTake now (readsB g) in (g\<lparr>readsB := r\<rparr>, ok))
      | Write \<Rightarrow>
          if to_lower method \<in> silentMethods
          then (let (s, ok) = TryTake now (silentB g) in (g\<lparr>silentB := s\<rparr>, ok))
          else (case chatID of
             Some c \<Rightarrow> (let (g1, b0) = chatBucket t c g in MT_acquireChat now c b0 g1)
           | None \<Rightarrow>
               if paidLane g
               then (let (p, ok) = TryTake now (paidB g) in (g\<lparr>paidB := p\<rparr>, ok))
               else (let (w, ok) = TryTake now (globalWrites g) in (g\<lparr>globalWrites := w\<rparr>, ok))))"

definition MT_WaitTime ::
  "secs \<Rightarrow> secs \<Rightarrow> string \<Rightarrow> int option \<Rightarrow> mtguard \<Rightarrow> mtguard \<times> secs option" where
  "MT_WaitTime now t method chatID g0 =
     (let wait0 = max 0 (egressPausedUntil g0 - now);
          (g, wait) =
            (case chatID of
               None \<Rightarrow> (g0, Some wait0)
             | Some c \<Rightarrow> let (g1, pb) = peerState c g0 in (g1, Some (max wait0 (pausedUntil pb - now))))
      in case MethodKind method of
        Fast \<Rightarrow> (g, max_wait (Some 0) wait)
      | Read \<Rightarrow>
          (let (r, w) = NextAvailable now (readsB g) in (g\<lparr>readsB := r\<rparr>, max_wait wait w))
      | Write \<Rightarrow>
          (let (gw, w) = NextAvailable now (globalWrites g);
               g1 = g\<lparr>globalWrites := gw\<rparr>;
               wait1 = max_wait wait w
           in case chatID of
                None \<Rightarrow> (g1, max_wait (Some 0) wait1)
              | Some c \<Rightarrow>
                  (let (g2, b) = chatBucket t c g1; (b', w') = NextAvailable now b
                   in (setChat c b' g2, max_wait (Some 0) (max_wait wait1 w')))))"

text \<open>\<^verbatim>\<open>math.Min(wait*math.Pow(base, offences-1), 3600)\<close>\<close>

definition adaptive :: "rat \<Rightarrow> rat \<Rightarrow> int \<Rightarrow> rat" where
  "adaptive base wait n = min (wait * (base powi (n - 1))) 3600"

definition ReportFloodWait ::
  "secs \<Rightarrow> secs \<Rightarrow> string \<Rightarrow> int option \<Rightarrow> mtguard \<Rightarrow> mtguard \<times> FloodInfo option" where
  "ReportFloodWait now t errText chatID g =
     (case ParseFloodWait errText of
        None \<Rightarrow> (g, None)
      | Some info \<Rightarrow>
          if Type info = Peer_flood then
            (case chatID of
               None \<Rightarrow> (g, Some info)
             | Some c \<Rightarrow>
                 let (g1, pb) = peerState c g
                 in (setPeer c (pb\<lparr>offences := offences pb + 1,
                       pausedUntil := now + PeerFloodCooldown (MT g)\<rparr>) g1, Some info))
          else if Type info = Slowmode \<and> \<not> SlowmodeRespect (MT g) then (g, Some info)
          else
            let wait = (of_int (Wait info) :: rat) in
            (case chatID of
               Some c \<Rightarrow>
                 let (g1, pb) = peerState c g;
                     n = offences pb + 1;
                     a = adaptive (FloodBackoffBase (MT g)) wait n;
                     g2 = setPeer c (pb\<lparr>offences := n, lastWait := wait, pausedUntil := now + a\<rparr>) g1;
                     (g3, b) = chatBucket t c g2
                 in (setChat c (Pause a now b) g3, Some info)
             | None \<Rightarrow>
                 (g\<lparr>egressPausedUntil := max (egressPausedUntil g) (now + wait),
                    globalWrites := Pause wait now (globalWrites g)\<rparr>, Some info)))"

definition AdaptiveWait :: "FloodInfo option \<Rightarrow> int option \<Rightarrow> mtguard \<Rightarrow> mtguard \<times> int" where
  "AdaptiveWait info chatID g =
     (case info of
        None \<Rightarrow> (g, 0)
      | Some i \<Rightarrow>
          (case chatID of
             None \<Rightarrow> (g, Wait i)
           | Some c \<Rightarrow>
               let (g1, pb) = peerState c g
               in (g1, trunc_rat (adaptive (FloodBackoffBase (MT g)) (of_int (Wait i)) (offences pb)))))"

definition ClearPeerBackoff :: "int \<Rightarrow> mtguard \<Rightarrow> mtguard" where
  "ClearPeerBackoff chatID g = g\<lparr>peerBackoffs := AList.delete chatID (peerBackoffs g)\<rparr>"

record mt_snapshot = guard_snapshot +
  peer_backoffs :: "(string \<times> int \<times> rat) list"

definition MT_Snapshot :: "secs \<Rightarrow> mtguard \<Rightarrow> mtguard \<times> mt_snapshot" where
  "MT_Snapshot now g =
     (g\<lparr>Private := refill_all now (Private g), Groups := refill_all now (Groups g)\<rparr>,
      \<lparr>private_empty = count_empty now (Private g),
       groups_empty = count_empty now (Groups g),
       egress_paused_for_s = round_half_away (max 0 (egressPausedUntil g - now) * 10) / 10,
       peer_backoffs =
         map (\<lambda>(p, pb). (itoa p, offences pb, round_half_away ((pausedUntil pb - now) * 10) / 10))
           (filter (\<lambda>(p, pb). pausedUntil pb > now) (peerBackoffs g))\<rparr>)"

subsection \<open>Peer table laws\<close>

definition peer_at :: "int \<Rightarrow> mtguard \<Rightarrow> peerBackoff" where
  "peer_at p g = (case map_of (peerBackoffs g) p of Some pb \<Rightarrow> pb
     | None \<Rightarrow> \<lparr>offences = 0, lastWait = 0, pausedUntil = 0\<rparr>)"

lemma snd_peerState [simp]: "snd (peerState p g) = peer_at p g"
  by (simp add: peerState_def peer_at_def Let_def split: option.split)

lemma peer_at_peerState [simp]: "peer_at q (fst (peerState p g)) = peer_at q g"
  by (simp add: peerState_def peer_at_def Let_def AList.update_conv' split: option.split)

lemma peer_at_setPeer [simp]: "peer_at q (setPeer p pb g) = (if q = p then pb else peer_at q g)"
  by (simp add: setPeer_def peer_at_def AList.update_conv')

lemma peer_fields [simp]:
  "MT (fst (peerState p g)) = MT g" "MT (setPeer p pb g) = MT g"
  "chatTable d (fst (peerState p g)) = chatTable d g" "chatTable d (setPeer p pb g) = chatTable d g"
  "gcfg (fst (peerState p g)) = gcfg g" "gcfg (setPeer p pb g) = gcfg g"
  by (simp_all add: peerState_def setPeer_def Let_def chatTable_def split: option.split)

lemma chat_fields [simp]:
  "MT (setChat c b g) = MT g" "peer_at p (setChat c b g) = peer_at p g"
  "MT (fst (chatBucket t c g)) = MT g" "peer_at p (fst (chatBucket t c g)) = peer_at p g"
  by (simp_all add: setChat_def chatBucket_def peer_at_def Let_def split: option.split)

lemma chat_bucket_at_peer [simp]:
  "chat_bucket_at t c (fst (peerState p g)) = chat_bucket_at t c g"
  "chat_bucket_at t c (setPeer p pb g) = chat_bucket_at t c g"
  by (simp_all add: chat_bucket_at_def split: option.split)

subsection \<open>Runs\<close>

datatype mt_event =
    MAcquire secs secs string "int option"
  | MWait secs secs string "int option"
  | MFlood secs secs string "int option"
  | MAdaptive "FloodInfo option" "int option"
  | MClear int
  | MStatus secs
  | MEnterPaid bool
  | MExitPaid

fun mt_exec :: "mtguard \<Rightarrow> mt_event \<Rightarrow> mtguard \<times> bool" where
  "mt_exec g (MAcquire now t m c) = MT_TryAcquire now t m c g"
| "mt_exec g (MWait now t m c) = (fst (MT_WaitTime now t m c g), False)"
| "mt_exec g (MFlood now t err c) = (fst (ReportFloodWait now t err c g), False)"
| "mt_exec g (MAdaptive i c) = (fst (AdaptiveWait i c g), False)"
| "mt_exec g (MClear c) = (ClearPeerBackoff c g, False)"
| "mt_exec g (MStatus now) = (fst (MT_Snapshot now g), False)"
| "mt_exec g (MEnterPaid a) = (EnterPaidLane a g, False)"
| "mt_exec g MExitPaid = (ExitPaidLane g, False)"

fun mt_clock :: "mt_event \<Rightarrow> (secs \<times> secs) option" where
  "mt_clock (MAcquire now t m c) = Some (now, t)"
| "mt_clock (MWait now t m c) = Some (now, t)"
| "mt_clock (MFlood now t err c) = Some (now, t)"
| "mt_clock (MStatus now) = Some (now, now)"
| "mt_clock (MAdaptive i c) = None"
| "mt_clock (MClear c) = None"
| "mt_clock (MEnterPaid a) = None"
| "mt_clock MExitPaid = None"

definition mt_counts_chat :: "int \<Rightarrow> mt_event \<Rightarrow> bool" where
  "mt_counts_chat d e = (case e of
     MAcquire now t m c \<Rightarrow> MethodKind m = Write \<and> to_lower m \<notin> silentMethods \<and> c = Some d
   | _ \<Rightarrow> False)"

definition mt_chat_step :: "int \<Rightarrow> mtguard \<Rightarrow> mt_event \<Rightarrow> mtguard \<times> bool" where
  "mt_chat_step d g e = (fst (mt_exec g e), mt_counts_chat d e \<and> snd (mt_exec g e))"

lemma mt_chatTable_update [simp]:
  "chatTable c (g\<lparr>silentB := x\<rparr>) = chatTable c g"
  "chatTable c (g\<lparr>peerBackoffs := y\<rparr>) = chatTable c g"
  by (simp_all add: chatTable_def)

lemma MT_acquireChat_chat:
  "chatTable d (fst (MT_acquireChat now c b0 g)) =
     (if d \<noteq> c then chatTable d g
      else if snd (MT_acquireChat now c b0 g) then Some (fst (TryTake now b0))
      else Some (Refill now b0))"
  "snd (MT_acquireChat now c b0 g) \<Longrightarrow> snd (TryTake now b0)"
proof -
  have "blocked now (Refill now b0) \<longleftrightarrow> \<not> snd (TryTake now b0)"
    using blocked_Refill_iff by blast
  then show "chatTable d (fst (MT_acquireChat now c b0 g)) =
     (if d \<noteq> c then chatTable d g
      else if snd (MT_acquireChat now c b0 g) then Some (fst (TryTake now b0))
      else Some (Refill now b0))"
    and "snd (MT_acquireChat now c b0 g) \<Longrightarrow> snd (TryTake now b0)"
    by (auto simp: MT_acquireChat_def Let_def case_prod_unfold chatTable_setChat charge_Refill
        split: if_splits)
qed

lemmas mt_op_defs =
  MT_TryAcquire_def MT_WaitTime_def ReportFloodWait_def AdaptiveWait_def ClearPeerBackoff_def
  EnterPaidLane_def ExitPaidLane_def Let_def case_prod_unfold chatTable_setChat MT_acquireChat_chat

lemma mt_chatTable_exec_None:
  "mt_clock e = None \<Longrightarrow> chatTable d (fst (mt_exec g e)) = chatTable d g"
  by (cases e) (auto simp: mt_op_defs split: option.split)

lemma mt_chatTable_exec:
  assumes "mt_clock e = Some (now, t)"
  shows "chatTable d (fst (mt_exec g e)) = chatTable d g \<or>
         (\<exists>b' \<in> moves now (chat_bucket_at t d g). chatTable d (fst (mt_exec g e)) = Some b')"
proof (cases e)
  case (MStatus x)
  have "chatTable d (fst (MT_Snapshot x g)) = map_option (Refill x) (chatTable d g)"
    by (simp add: MT_Snapshot_def chatTable_def refill_all_def map_of_map)
  with MStatus show ?thesis using assms
    by (cases "chatTable d g") (auto simp: chat_bucket_at_def)
qed (use assms in \<open>auto simp: mt_op_defs split: kind.split option.split\<close>)

lemma mt_chat_paused_exec:
  assumes "chat_paused P d g" "\<And>now t. mt_clock e = Some (now, t) \<Longrightarrow> now < P"
  shows "chat_paused P d (fst (mt_exec g e))"
proof (cases "mt_clock e")
  case None
  then show ?thesis using assms(1) by (simp add: chat_paused_def mt_chatTable_exec_None)
next
  case (Some nt)
  then obtain now t where c: "mt_clock e = Some (now, t)" by (cases nt) auto
  from assms(1) obtain b where b: "chatTable d g = Some b" "P \<le> PausedUntil b"
    by (auto simp: chat_paused_def)
  then have "chat_bucket_at t d g = b" by (simp add: chat_bucket_at_def)
  with mt_chatTable_exec [OF c, of d g] b assms(2) [OF c] show ?thesis
    by (auto simp: chat_paused_def intro: moves_keep_pause)
qed

lemma mt_chat_paused_refuses:
  assumes "chat_paused P d g" "now < P" "MethodKind m = Write" "to_lower m \<notin> silentMethods"
  shows "\<not> snd (MT_TryAcquire now t m (Some d) g)"
proof
  assume adm: "snd (MT_TryAcquire now t m (Some d) g)"
  from assms(1) obtain b where b: "chatTable d g = Some b" "P \<le> PausedUntil b"
    by (auto simp: chat_paused_def)
  from adm assms(3,4) have "snd (TryTake now (chat_bucket_at t d g))"
    by (auto simp: MT_TryAcquire_def Let_def case_prod_unfold split: if_splits
        dest: MT_acquireChat_chat(2))
  with b assms(2) show False by (auto simp: TryTake_iff chat_bucket_at_def)
qed

lemma mt_chat_paused_run:
  assumes "chat_paused P d g" "\<forall>e \<in> set es. \<forall>u t. mt_clock e = Some (u, t) \<longrightarrow> u < P"
  shows "admitted (mt_chat_step d) g es = 0"
  using assms
proof (induction es arbitrary: g)
  case Nil
  then show ?case by simp
next
  case (Cons e es)
  have "\<not> snd (mt_chat_step d g e)"
    using mt_chat_paused_refuses [OF Cons.prems(1)] Cons.prems(2)
    by (cases e) (auto simp: mt_chat_step_def mt_counts_chat_def)
  moreover have "chat_paused P d (fst (mt_chat_step d g e))"
    unfolding mt_chat_step_def fst_conv
    by (rule mt_chat_paused_exec [OF Cons.prems(1)]) (use Cons.prems(2) in auto)
  ultimately show ?case using Cons.IH Cons.prems(2) by simp
qed

text \<open>
  C11. After a flood wait for a peer the session sends it nothing until the adaptive wait is
  over: no write (other than the silent housekeeping methods) to the chat is admitted before,
  whatever runs in between, even when a successful send clears the peer's backoff record.
\<close>

theorem flood_wait_silences_peer:
  assumes "ParseFloodWait err = Some info" "Type info = Flood_wait \<or> Type info = Flood_premium"
    and "a = adaptive (FloodBackoffBase (MT g)) (of_int (Wait info)) (offences (peer_at d g) + 1)"
    and "\<forall>e \<in> set es. \<forall>u t. mt_clock e = Some (u, t) \<longrightarrow> u < now + a"
  shows "admitted (mt_chat_step d) (fst (ReportFloodWait now t err (Some d) g)) es = 0"
proof (rule mt_chat_paused_run)
  have "Type info \<noteq> Peer_flood" "Type info \<noteq> Slowmode" using assms(2) by auto
  with assms(1,3) show "chat_paused (now + a) d (fst (ReportFloodWait now t err (Some d) g))"
    by (auto simp: chat_paused_def ReportFloodWait_def Let_def case_prod_unfold chatTable_setChat)
qed (rule assms(4))

definition fresh_mtguard :: mtguard where
  "fresh_mtguard = NewMTGuard (DefaultRate (\<lambda>_. None) (\<lambda>_. None))
     (DefaultMTProtoRate (\<lambda>_. None) (\<lambda>_. None)) 0 0 0 0"

lemma parse_42: "ParseFloodWait ''FloodWait(42)'' = Some \<lparr>Type = Flood_wait, Wait = 42\<rparr>"
  by code_simp

theorem flood_wait_silences_peer_witness:
  "admitted (mt_chat_step 7) (fst (ReportFloodWait 0 0 ''FloodWait(42)'' (Some 7) fresh_mtguard))
     [MClear 7, MAcquire 41 41 ''send_message'' (Some 7)] = 0"
proof (rule flood_wait_silences_peer [OF parse_42, of 42])
  show "42 = adaptive (FloodBackoffBase (MT fresh_mtguard))
      (of_int (Wait \<lparr>Type = Flood_wait, Wait = 42\<rparr>)) (offences (peer_at 7 fresh_mtguard) + 1)"
    by (simp add: fresh_mtguard_def NewMTGuard_def peer_at_def adaptive_def)
qed simp_all

text \<open>A run of flood waits for one peer with no success in between.\<close>

fun floods :: "string \<Rightarrow> int \<Rightarrow> (secs \<times> secs) list \<Rightarrow> mtguard \<Rightarrow> mtguard" where
  "floods err d [] g = g"
| "floods err d ((now, t) # ts) g = floods err d ts (fst (ReportFloodWait now t err (Some d) g))"

lemma flood_peer:
  assumes "ParseFloodWait err = Some info" "Type info = Flood_wait"
  shows "peer_at d (fst (ReportFloodWait now t err (Some d) g)) =
     \<lparr>offences = offences (peer_at d g) + 1, lastWait = of_int (Wait info),
      pausedUntil = now + adaptive (FloodBackoffBase (MT g)) (of_int (Wait info))
        (offences (peer_at d g) + 1)\<rparr>"
    and "MT (fst (ReportFloodWait now t err (Some d) g)) = MT g"
  using assms by (simp_all add: ReportFloodWait_def Let_def case_prod_unfold)

lemma floods_offences:
  assumes "ParseFloodWait err = Some info" "Type info = Flood_wait"
  shows "offences (peer_at d (floods err d ts g)) = offences (peer_at d g) + int (length ts) \<and>
    MT (floods err d ts g) = MT g"
  using assms
  by (induction err d ts g rule: floods.induct) (auto simp: flood_peer)

lemma floods_snoc:
  "floods err d (ts @ [(now, t)]) g = fst (ReportFloodWait now t err (Some d) (floods err d ts g))"
  by (induction err d ts g rule: floods.induct) auto

text \<open>
  The backoff escalates: when a peer with no record answers with the same flood wait w for
  the (k+1)-st time in a row, it is paused for w times the base to the power k, at most an hour.
\<close>

lemma flood_backoff_escalates:
  assumes "ParseFloodWait err = Some info" "Type info = Flood_wait"
    and "map_of (peerBackoffs g) d = None" "length ts = k"
  shows "pausedUntil (peer_at d (floods err d (ts @ [(now, t)]) g)) =
     now + min (of_int (Wait info) * FloodBackoffBase (MT g) ^ k) 3600"
proof -
  have "offences (peer_at d g) = 0" using assms(3) by (simp add: peer_at_def)
  with floods_offences [OF assms(1,2), of d ts g] assms(4)
  have "offences (peer_at d (floods err d ts g)) = int k" "MT (floods err d ts g) = MT g"
    by simp_all
  then show ?thesis
    by (simp add: floods_snoc flood_peer [OF assms(1,2)] adaptive_def)
qed

end
