(* ===== verification/Json.thy ===== *)
theory Json
  imports Prelude "HOL-Library.AList"
begin

text \<open>
  Go's dynamic values (\<^verbatim>\<open>any\<close>, \<^verbatim>\<open>map[string]any\<close>) as the program uses them. A JSON number decoded
  by \<^verbatim>\<open>encoding/json\<close> is a float64 (\<open>JNum\<close>, an exact rational here); an integer the program puts
  into a map itself is \<open>JInt\<close>; \<open>JNumber\<close> is a \<^verbatim>\<open>json.Number\<close>, which carries its text. A map is an
  association list whose order has no meaning: it is only read with \<open>map_of\<close> and only written
  with \<open>AList.update\<close>.

  \<open>decoded\<close> is what \<^verbatim>\<open>json.Unmarshal\<close> makes of what \<^verbatim>\<open>json.Marshal\<close> wrote: every number comes back
  as a float64.
\<close>

datatype json =
  JNull
| JBool bool
| JNum rat
| JInt int
| JNumber string
| JStr string
| JArr "json list"
| JObj "(string \<times> json) list"

type_synonym obj = "(string \<times> json) list"

definition obj_get :: "obj \<Rightarrow> string \<Rightarrow> json" where
  "obj_get m k = (case map_of m k of None \<Rightarrow> JNull | Some v \<Rightarrow> v)"

definition obj_put :: "string \<Rightarrow> json \<Rightarrow> obj \<Rightarrow> obj" where
  "obj_put k v m = AList.update k v m"

lemma obj_get_put [simp]: "obj_get (obj_put k v m) k' = (if k = k' then v else obj_get m k')"
  by (simp add: obj_get_def obj_put_def update_conv')

text \<open>\<^verbatim>\<open>toInt64\<close> of \<^verbatim>\<open>store/queue.go\<close>: the float is truncated.\<close>

fun toInt64 :: "json \<Rightarrow> int option" where
  "toInt64 (JNum r) = Some (int64_of_float r)"
| "toInt64 (JInt n) = Some n"
| "toInt64 (JNumber s) = parse_int s"
| "toInt64 _ = None"

text \<open>A \<^verbatim>\<open>json.Number\<close> is written as its text and read as a float; only integral texts are modelled.\<close>

fun decoded :: "json \<Rightarrow> json" where
  "decoded JNull = JNull"
| "decoded (JBool b) = JBool b"
| "decoded (JNum r) = JNum r"
| "decoded (JInt n) = JNum (of_int n)"
| "decoded (JNumber s) = (case parse_int s of None \<Rightarrow> JNull | Some n \<Rightarrow> JNum (of_int n))"
| "decoded (JStr s) = JStr s"
| "decoded (JArr xs) = JArr (map decoded xs)"
| "decoded (JObj m) = JObj (map (\<lambda>(k, v). (k, decoded v)) m)"

definition decoded_obj :: "obj \<Rightarrow> obj" where
  "decoded_obj m = map (\<lambda>(k, v). (k, decoded v)) m"

lemma obj_get_decoded: "obj_get (decoded_obj m) k = decoded (obj_get m k)"
  by (simp add: obj_get_def decoded_obj_def map_of_map [of decoded m] split: option.split)

lemma parse_int_int64: "parse_int s = Some n \<Longrightarrow> int64 n"
  by (auto simp: parse_int_def Let_def split: option.splits if_splits)

text \<open>The integers of a Go value are machine integers.\<close>

definition go_int :: "json \<Rightarrow> bool" where
  "go_int v \<longleftrightarrow> (\<forall>n. v = JInt n \<longrightarrow> int64 n)"

lemma toInt64_int64: "go_int v \<Longrightarrow> toInt64 v = Some n \<Longrightarrow> int64 n"
  by (cases v) (auto simp: go_int_def dest: parse_int_int64)

text \<open>An id survives the trip through the database text.\<close>

lemma toInt64_decoded: "go_int v \<Longrightarrow> toInt64 v = Some n \<Longrightarrow> toInt64 (decoded v) = Some n"
  by (cases v) (auto simp: go_int_def dest: parse_int_int64)

text \<open>\<^verbatim>\<open>numberOf\<close> and the type tests that several handlers share are in their own theories.\<close>

end
