(* ===== verification/Health.thy ===== *)
theory Health
  imports Prelude "HOL-Library.Multiset"
begin

text \<open>
  \<^verbatim>\<open>internal/health/health.go\<close>: the heartbeat, the crash-loop boot tracker and the storage-health
  state that degrades \<^verbatim>\<open>/readyz\<close>. Clock readings are arguments (nanoseconds as \<open>int\<close>, as
  \<^verbatim>\<open>UnixNano\<close> gives them). The file of the boot tracker is an argument and a result: \<open>None\<close> when it
  does not exist, otherwise the floats \<^verbatim>\<open>json.Unmarshal\<close> leaves in the slice. The set of
  reasons (a Go map) is kept as a list of distinct keys in the order the map was filled; that its
  iteration order does not matter is proved (\<open>joinSorted_perm\<close>).
\<close>

subsection \<open>Heartbeat\<close>

record Beat =
  last_beat :: int
  beat_stopped :: bool

definition NewBeat :: "int \<Rightarrow> Beat" where
  "NewBeat now = \<lparr>last_beat = now, beat_stopped = False\<rparr>"

text \<open>One turn of the goroutine's loop on a tick; after \<open>Stop\<close> the goroutine is gone.\<close>

definition Beat_tick :: "int \<Rightarrow> Beat \<Rightarrow> Beat" where
  "Beat_tick now b = (if beat_stopped b then b else b\<lparr>last_beat := now\<rparr>)"

definition Lag :: "int \<Rightarrow> Beat \<Rightarrow> rat" where
  "Lag now b = of_int (wrap64 (now - last_beat b)) / 1000000000"

definition Alive :: "int \<Rightarrow> Beat \<Rightarrow> bool" where
  "Alive now b \<longleftrightarrow> Lag now b < 5"

definition Beat_Stop :: "Beat \<Rightarrow> Beat" where
  "Beat_Stop b = b\<lparr>beat_stopped := True\<rparr>"

subsection \<open>Crash-loop safe mode\<close>

record BootTracker =
  WindowS :: rat
  MaxBoots :: int

definition boot_defaults :: "BootTracker \<Rightarrow> BootTracker" where
  "boot_defaults t =
     (let t1 = (if WindowS t = 0 then t\<lparr>WindowS := 600\<rparr> else t)
      in if MaxBoots t1 = 0 then t1\<lparr>MaxBoots := 5\<rparr> else t1)"

text \<open>\<^verbatim>\<open>Time.Sub\<close> saturates at the largest and smallest duration.\<close>

definition dur_sub :: "rat \<Rightarrow> rat \<Rightarrow> rat" where
  "dur_sub a b = max (of_int min_int64 / 1000000000) (min (of_int max_int64 / 1000000000) (a - b))"

definition boot_recent :: "int \<Rightarrow> rat \<Rightarrow> rat \<Rightarrow> bool" where
  "boot_recent now w b \<longleftrightarrow> dur_sub (of_int now / 1000000000) (of_int (int64_of_float b)) < w"

definition keep_last :: "nat \<Rightarrow> 'a list \<Rightarrow> 'a list" where
  "keep_last n xs = (if length xs > n then drop (length xs - n) xs else xs)"

definition RecordBoot ::
  "int \<Rightarrow> bool \<Rightarrow> BootTracker \<Rightarrow> rat list option \<Rightarrow> (BootTracker \<times> rat list option) \<times> bool \<times> int"
where
  "RecordBoot now write_ok t0 file =
     (let t = boot_defaults t0;
          boots = (case file of None \<Rightarrow> [] | Some bs \<Rightarrow> bs);
          kept = filter (boot_recent now (WindowS t)) boots @ [of_int now / 1000000000];
          kept' = keep_last 50 kept
      in ((t, if write_ok then Some kept' else file),
          int (length kept') > MaxBoots t, int (length kept')))"

definition BootTracker_Clear :: "rat list option \<Rightarrow> rat list option" where
  "BootTracker_Clear file = None"

subsection \<open>Storage health\<close>

record Storage =
  PersistFailures :: int
  CorruptRows :: int
  QuarantinedFiles :: int
  reasons :: "string list"
  LastPersistError :: string
  LastMaintenanceAt :: rat

definition NewStorage :: Storage where
  "NewStorage = \<lparr>PersistFailures = 0, CorruptRows = 0, QuarantinedFiles = 0, reasons = [],
     LastPersistError = [], LastMaintenanceAt = 0\<rparr>"

definition note_reason :: "string \<Rightarrow> Storage \<Rightarrow> Storage" where
  "note_reason r s = s\<lparr>reasons := (if r \<in> set (reasons s) then reasons s else reasons s @ [r])\<rparr>"

definition NotePersistFailure :: "string \<Rightarrow> string \<Rightarrow> Storage \<Rightarrow> Storage" where
  "NotePersistFailure location err s =
     note_reason (''persist:'' @ location)
       (s\<lparr>PersistFailures := PersistFailures s + 1, LastPersistError := location @ '': '' @ err\<rparr>)"

definition NoteCorruptRow :: "Storage \<Rightarrow> Storage" where
  "NoteCorruptRow s = s\<lparr>CorruptRows := CorruptRows s + 1\<rparr>"

text \<open>The loop of \<^verbatim>\<open>filepathBase\<close> looks for the last slash.\<close>

definition filepathBase :: "string \<Rightarrow> string" where
  "filepathBase p = rev (takeWhile (\<lambda>c. c \<noteq> CHR ''/'') (rev p))"

definition NoteQuarantine :: "string \<Rightarrow> Storage \<Rightarrow> Storage" where
  "NoteQuarantine path s =
     note_reason (''quarantined:'' @ filepathBase path)
       (s\<lparr>QuarantinedFiles := QuarantinedFiles s + 1\<rparr>)"

definition NoteMaintenanceDone :: "rat \<Rightarrow> Storage \<Rightarrow> Storage" where
  "NoteMaintenanceDone now s = s\<lparr>LastMaintenanceAt := now\<rparr>"

text \<open>
  \<^verbatim>\<open>sortStrings\<close>: the inner loop moves the element at index \<open>j\<close> down by swaps, the outer one runs
  over the indices.
\<close>

fun sift_down :: "nat \<Rightarrow> string list \<Rightarrow> string list" where
  "sift_down 0 s = s"
| "sift_down (Suc j) s =
     (if s ! Suc j < s ! j then sift_down j (s[Suc j := s ! j, j := s ! Suc j]) else s)"

definition sortStrings :: "string list \<Rightarrow> string list" where
  "sortStrings s = fold sift_down [1..<length s] s"

fun join_comma :: "string list \<Rightarrow> string" where
  "join_comma [] = []"
| "join_comma (k # ks) = k @ concat (map (\<lambda>x. '', '' @ x) ks)"

definition joinSorted :: "string list \<Rightarrow> string" where
  "joinSorted m = (if m = [] then [] else join_comma (sortStrings m))"

definition Degraded :: "Storage \<Rightarrow> string" where
  "Degraded s = joinSorted (reasons s)"

record storage_snapshot =
  degraded_reason :: "string option"
  persist_failures :: int
  corrupt_rows :: int
  quarantined_files :: int
  last_persist_error :: string

definition nilIfEmpty :: "string \<Rightarrow> string option" where
  "nilIfEmpty s = (if s = [] then None else Some s)"

definition Storage_Snapshot :: "Storage \<Rightarrow> storage_snapshot" where
  "Storage_Snapshot s =
     \<lparr>degraded_reason = nilIfEmpty (joinSorted (reasons s)),
      persist_failures = PersistFailures s,
      corrupt_rows = CorruptRows s,
      quarantined_files = QuarantinedFiles s,
      last_persist_error = take 200 (LastPersistError s)\<rparr>"

subsection \<open>The insertion sort\<close>

lemma length_sift_down [simp]: "length (sift_down j s) = length s"
  by (induction j s rule: sift_down.induct) auto

lemma insort_snoc_less: "x < y \<Longrightarrow> insort x (p @ [y]) = insort x p @ [y]"
  by (induction p) auto

text \<open>One pass of the inner loop inserts the element at index \<open>length p\<close> into the sorted prefix.\<close>

lemma sift_down_insort:
  assumes "sorted p"
  shows "sift_down (length p) (p @ x # rest) = insort x p @ rest"
  using assms
proof (induction p arbitrary: rest rule: rev_induct)
  case Nil
  then show ?case by simp
next
  case (snoc y p)
  have p: "sorted p" "\<forall>z\<in>set p. z \<le> y" using snoc.prems by (auto simp: sorted_append)
  show ?case
  proof (cases "x < y")
    case True
    then show ?thesis
      using snoc.IH [OF p(1), of "y # rest"]
      by (simp add: nth_append list_update_append insort_snoc_less)
  next
    case False
    with p have "\<forall>z\<in>set (p @ [y]). z \<le> x" by auto
    then have "insort x (p @ [y]) = (p @ [y]) @ [x]"
      using snoc.prems by (intro sorted_insort_is_snoc) auto
    with False show ?thesis by (simp add: nth_append)
  qed
qed

lemma sort_snoc: "sort (xs @ [x]) = insort x (sort xs)"
  by (rule properties_for_sort) (simp_all add: sorted_insort)

lemma sortStrings_prefix:
  assumes "k < length s"
  shows "fold sift_down [1..<Suc k] s = sort (take (Suc k) s) @ drop (Suc k) s"
  using assms
proof (induction k)
  case 0
  then show ?case by (cases s) auto
next
  case (Suc k)
  let ?p = "sort (take (Suc k) s)"
  have "fold sift_down [1..<Suc (Suc k)] s = sift_down (Suc k) (?p @ drop (Suc k) s)"
    using Suc by simp
  also have "drop (Suc k) s = s ! Suc k # drop (Suc (Suc k)) s"
    using Suc.prems by (rule Cons_nth_drop_Suc [symmetric])
  also have "sift_down (Suc k) (?p @ s ! Suc k # drop (Suc (Suc k)) s) =
      insort (s ! Suc k) ?p @ drop (Suc (Suc k)) s"
    using Suc.prems sift_down_insort [of ?p "s ! Suc k" "drop (Suc (Suc k)) s"] by simp
  also have "insort (s ! Suc k) ?p = sort (take (Suc (Suc k)) s)"
    using Suc.prems by (simp add: take_Suc_conv_app_nth [of "Suc k"] sort_snoc)
  finally show ?case .
qed

lemma sortStrings_eq_sort: "sortStrings s = sort s"
proof (cases s)
  case Nil
  then show ?thesis by (simp add: sortStrings_def)
next
  case (Cons a t)
  then show ?thesis using sortStrings_prefix [of "length t" s] by (simp add: sortStrings_def)
qed

lemma joinSorted_perm:
  assumes "set m = set n" "distinct m" "distinct n"
  shows "joinSorted m = joinSorted n"
proof -
  have "sort m = sort n"
    using assms by (metis sorted_list_of_set_sort_remdups distinct_remdups_id)
  then show ?thesis using assms by (auto simp: joinSorted_def sortStrings_eq_sort)
qed

lemma joinSorted_empty_iff:
  assumes "[] \<notin> set m"
  shows "joinSorted m = [] \<longleftrightarrow> m = []"
proof (cases "sort m")
  case Nil
  then show ?thesis by (metis joinSorted_def set_empty set_sort)
next
  case (Cons k ks)
  then have "k \<in> set m" by (metis list.set_intros(1) set_sort)
  with assms Cons show ?thesis by (auto simp: joinSorted_def sortStrings_eq_sort)
qed

subsection \<open>Storage health: what degrades readiness\<close>

datatype storage_event =
  PersistFailed string string
| RowCorrupt
| Quarantined string
| MaintenanceDone rat

fun storage_exec :: "storage_event \<Rightarrow> Storage \<Rightarrow> Storage" where
  "storage_exec (PersistFailed w e) s = NotePersistFailure w e s"
| "storage_exec RowCorrupt s = NoteCorruptRow s"
| "storage_exec (Quarantined p) s = NoteQuarantine p s"
| "storage_exec (MaintenanceDone t) s = NoteMaintenanceDone t s"

fun event_reason :: "storage_event \<Rightarrow> string option" where
  "event_reason (PersistFailed w e) = Some (''persist:'' @ w)"
| "event_reason (Quarantined p) = Some (''quarantined:'' @ filepathBase p)"
| "event_reason _ = None"

lemmas storage_defs = NotePersistFailure_def NoteCorruptRow_def NoteQuarantine_def
  NoteMaintenanceDone_def note_reason_def

lemma storage_exec_reasons:
  "set (reasons (storage_exec e s)) = set (reasons s) \<union> set_option (event_reason e)"
  "distinct (reasons s) \<Longrightarrow> distinct (reasons (storage_exec e s))"
  by (cases e; auto simp: storage_defs)+

lemma storage_run_reasons:
  "set (reasons (fold storage_exec es s)) = set (reasons s) \<union> (\<Union>e\<in>set es. set_option (event_reason e))"
  "distinct (reasons s) \<Longrightarrow> distinct (reasons (fold storage_exec es s))"
  by (induction es arbitrary: s) (auto simp: storage_exec_reasons)

lemma event_reason_nonempty: "event_reason e \<noteq> Some []"
  by (cases e) auto

text \<open>
  The degraded reason that \<^verbatim>\<open>/readyz\<close> shows after any sequence of storage events is the
  comma-separated list, in ascending order and without repetition, of the failures and
  quarantines among them; it does not depend on their order or multiplicity, and it is absent
  exactly when there was no failure and no quarantine (corrupt rows alone never degrade).
\<close>

lemma degraded_reason_exact:
  "Degraded (fold storage_exec es NewStorage) =
     join_comma (sorted_list_of_set (\<Union>e\<in>set es. set_option (event_reason e))) \<and>
   (degraded_reason (Storage_Snapshot (fold storage_exec es NewStorage)) = None \<longleftrightarrow>
     (\<forall>e\<in>set es. event_reason e = None))"
proof
  let ?s = "fold storage_exec es NewStorage"
  have r: "set (reasons ?s) = (\<Union>e\<in>set es. set_option (event_reason e))" "distinct (reasons ?s)"
    using storage_run_reasons [where es = es and s = NewStorage] by (auto simp: NewStorage_def)
  then have "sort (reasons ?s) = sorted_list_of_set (\<Union>e\<in>set es. set_option (event_reason e))"
    by (metis sorted_list_of_set_sort_remdups distinct_remdups_id)
  then show "Degraded ?s = join_comma (sorted_list_of_set (\<Union>e\<in>set es. set_option (event_reason e)))"
    by (auto simp: Degraded_def joinSorted_def sortStrings_eq_sort)
  have "[] \<notin> set (reasons ?s)" using r(1) event_reason_nonempty by auto
  then have "joinSorted (reasons ?s) = [] \<longleftrightarrow> set (reasons ?s) = {}"
    by (simp add: joinSorted_empty_iff)
  also have "\<dots> \<longleftrightarrow> (\<forall>e\<in>set es. event_reason e = None)"
    by (auto simp: r(1) elem_set)
  finally show "degraded_reason (Storage_Snapshot ?s) = None \<longleftrightarrow> (\<forall>e\<in>set es. event_reason e = None)"
    by (simp add: Storage_Snapshot_def nilIfEmpty_def)
qed

subsection \<open>The boot tracker\<close>

text \<open>The boots of a crash loop: successive calls, each on the file the last one left.\<close>

fun boot_run :: "BootTracker \<Rightarrow> int list \<Rightarrow> rat list option \<Rightarrow> rat list option" where
  "boot_run t [] f = f"
| "boot_run t (now # ts) f = boot_run t ts (snd (fst (RecordBoot now True t f)))"

abbreviation boot_stamp :: "int \<Rightarrow> rat" where
  "boot_stamp now \<equiv> of_int now / 1000000000"

lemma boot_run_snoc:
  "boot_run t (ts @ [now]) f = snd (fst (RecordBoot now True t (boot_run t ts f)))"
  by (induction t ts f rule: boot_run.induct) auto

lemma keep_last_rev: "keep_last n xs = rev (take n (rev xs))"
  by (simp add: keep_last_def take_rev)

lemma filter_takeWhile_down:
  "sorted_wrt (\<lambda>a b. P b \<longrightarrow> P a) ys \<Longrightarrow> filter P ys = takeWhile P ys"
  by (induction ys) (auto simp: filter_empty_conv)

lemma takeWhile_take: "takeWhile P (take n ys) = take n (takeWhile P ys)"
  by (induction ys arbitrary: n) (auto simp: take_Cons split: nat.split)

lemma take_cons_take: "take n (x # take n ys) = take n (x # ys)"
  by (cases n) (simp_all add: min_def)

lemma takeWhile_takeWhile_imp:
  "(\<And>y. y \<in> set ys \<Longrightarrow> P y \<Longrightarrow> Q y) \<Longrightarrow> takeWhile P (takeWhile Q ys) = takeWhile P ys"
  by (induction ys) auto

lemma stamp_seconds:
  assumes "0 \<le> x" "int64 x"
  shows "int64_of_float (boot_stamp x) = x div 1000000000"
proof -
  have "\<lfloor>boot_stamp x\<rfloor> = x div 1000000000"
    using floor_divide_of_int_eq [where ?'a = rat, of x "1000000000"] by simp
  moreover have "0 \<le> x div 1000000000" "x div 1000000000 \<le> x"
    using assms by (auto simp: pos_imp_zdiv_nonneg_iff)
  ultimately show ?thesis
    using assms by (simp add: int64_of_float_def trunc_rat_def int64_def)
qed

lemma dur_sub_mono: "a \<le> a' \<Longrightarrow> b' \<le> b \<Longrightarrow> dur_sub a b \<le> dur_sub a' b'"
  by (auto simp: dur_sub_def intro!: max.mono min.mono)

lemma boot_recent_mono:
  assumes "boot_recent now' w (boot_stamp x)" "now \<le> now'" "x \<le> y" "0 \<le> x" "int64 x" "int64 y"
  shows "boot_recent now w (boot_stamp y)"
proof -
  have "dur_sub (boot_stamp now) (of_int (int64_of_float (boot_stamp y))) \<le>
      dur_sub (boot_stamp now') (of_int (int64_of_float (boot_stamp x)))"
    using assms by (intro dur_sub_mono) (auto simp: stamp_seconds zdiv_mono1 divide_right_mono)
  with assms(1) show ?thesis by (simp add: boot_recent_def)
qed

definition boot_times :: "int list \<Rightarrow> bool" where
  "boot_times ts \<longleftrightarrow> sorted ts \<and> (\<forall>x\<in>set ts. 0 \<le> x \<and> int64 x)"

lemma boot_times_snoc:
  "boot_times (ts @ [now]) \<longleftrightarrow> boot_times ts \<and> (\<forall>x\<in>set ts. x \<le> now) \<and> 0 \<le> now \<and> int64 now"
  by (auto simp: boot_times_def sorted_append)

lemma recent_sorted:
  assumes "boot_times ts"
  shows "sorted_wrt (\<lambda>a b. boot_recent now w b \<longrightarrow> boot_recent now w a) (rev (map boot_stamp ts))"
proof -
  have "sorted_wrt (\<lambda>x y. boot_recent now w (boot_stamp x) \<longrightarrow> boot_recent now w (boot_stamp y)) ts"
    using assms by (auto simp: boot_times_def intro!: sorted_wrt_mono_rel [of ts "(\<le>)"]
        intro: boot_recent_mono [OF _ order_refl])
  then show ?thesis by (simp add: sorted_wrt_rev sorted_wrt_map)
qed

lemmas recent_filter = filter_takeWhile_down [OF recent_sorted]

lemma RecordBoot_file:
  "snd (fst (RecordBoot now True t (Some (rev bs)))) =
     Some (rev (take 50 (boot_stamp now # filter (boot_recent now (WindowS (boot_defaults t))) bs)))"
  by (simp add: RecordBoot_def Let_def keep_last_rev rev_filter)

lemma boot_run_file:
  assumes "boot_times (ts @ [now])"
  shows "boot_run t (ts @ [now]) None = Some (rev (take 50
     (boot_stamp now # filter (boot_recent now (WindowS (boot_defaults t))) (rev (map boot_stamp ts)))))"
  using assms
proof (induction ts arbitrary: now rule: rev_induct)
  case Nil
  then show ?case by (simp add: RecordBoot_def Let_def keep_last_rev)
next
  case (snoc u ts)
  let ?w = "WindowS (boot_defaults t)" and ?Y = "rev (map boot_stamp ts)"
  let ?R = "boot_recent now ?w" and ?R' = "boot_recent u ?w"
  have ts: "boot_times (ts @ [u])" "u \<le> now" "boot_times ts"
    using snoc.prems by (auto simp: boot_times_snoc boot_times_def sorted_append)
  let ?prev = "boot_stamp u # takeWhile ?R' ?Y"
  have bt: "boot_times ts" "\<forall>x\<in>set ts. 0 \<le> x \<and> int64 x" using ts by (auto simp: boot_times_def)
  have imp: "?R' y" if "y \<in> set ?Y" "?R y" for y
    using that bt(2) ts(2) by (auto elim!: boot_recent_mono)
  have prev: "boot_run t (ts @ [u]) None = Some (rev (take 50 ?prev))"
    using snoc.IH [OF ts(1)] by (simp add: recent_filter [OF ts(3)])
  have "filter ?R (take 50 ?prev) = take 50 (takeWhile ?R (boot_stamp u # ?Y))"
  proof -
    have "sorted_wrt (\<lambda>a b. ?R b \<longrightarrow> ?R a) (boot_stamp u # ?Y)"
      using recent_sorted [OF ts(1)] by simp
    then have "sorted_wrt (\<lambda>a b. ?R b \<longrightarrow> ?R a) (take (Suc (length (takeWhile ?R' ?Y))) (boot_stamp u # ?Y))"
      by (rule sorted_wrt_take)
    then have "sorted_wrt (\<lambda>a b. ?R b \<longrightarrow> ?R a) (take 50 ?prev)"
      unfolding take_Suc_Cons takeWhile_eq_take [symmetric] by (rule sorted_wrt_take)
    from filter_takeWhile_down [OF this]
    have "filter ?R (take 50 ?prev) = take 50 (takeWhile ?R ?prev)"
      by (simp only: takeWhile_take)
    moreover have "takeWhile ?R ?prev = takeWhile ?R (boot_stamp u # ?Y)"
      by (simp only: takeWhile.simps takeWhile_takeWhile_imp [OF imp])
    ultimately show ?thesis by (simp only:)
  qed
  moreover have "filter ?R (rev (map boot_stamp (ts @ [u]))) = takeWhile ?R (boot_stamp u # ?Y)"
    using recent_filter [OF ts(1)] by simp
  ultimately show ?case
    using RecordBoot_file [of now t "take 50 ?prev"] prev
    by (simp only: boot_run_snoc [of t "ts @ [u]"] take_cons_take)
qed

text \<open>
  Crash-loop detection is exact: for boots at ascending times on a data directory that starts
  without a history, a boot counts itself and the earlier boots inside the window (at most 50),
  and safe mode is entered exactly when that count exceeds the limit.
\<close>

lemma crash_loop_detected:
  assumes "boot_times (ts @ [now])"
    and "n = min 50 (1 + length (filter (\<lambda>x. boot_recent now (WindowS (boot_defaults t)) (boot_stamp x)) ts))"
  shows "snd (RecordBoot now ok t (boot_run t ts None)) = (int n > MaxBoots (boot_defaults t), int n)"
proof -
  let ?k = "snd (RecordBoot now True t (boot_run t ts None))"
  have "snd (RecordBoot now ok t f) = (int (length (the (snd (fst (RecordBoot now True t f))))) >
      MaxBoots (boot_defaults t), int (length (the (snd (fst (RecordBoot now True t f))))))" for f
    by (simp add: RecordBoot_def Let_def)
  moreover have "length (the (boot_run t (ts @ [now]) None)) = n"
    using boot_run_file [OF assms(1), of t] assms(2)
    by (simp add: rev_map filter_map comp_def flip: rev_filter)
  ultimately show ?thesis by (simp add: boot_run_snoc)
qed

end
