(* ===== verification/Queue.thy ===== *)
theory Queue
  imports Json Health
begin

text \<open>
  \<^verbatim>\<open>internal/store/queue.go\<close>: the update bus between Telegram and the consumers, a bounded
  in-memory deque with a SQLite copy.

  \<^item> The table \<^verbatim>\<open>update_queue\<close> is a list of rows, \<^verbatim>\<open>consumer_offsets\<close> an association list; the
    primary keys are kept by the inserts. The text of a row is modelled by what
    \<^verbatim>\<open>json.Unmarshal\<close> makes of it (\<open>None\<close>: it does not decode).
  \<^item> Clock readings and the outcome of every statement of the database (an error text, or
    success) are arguments of the operations, collected in a record per operation; the
    theorems hold for all of them unless they say otherwise.
  \<^item> \<open>Enqueued\<close> is in nanoseconds on the monotonic clock, the database column in seconds on the
    wall clock.
  \<^item> A removal from an empty deque is a nil dereference in the source; \<open>PushAll\<close> answers \<open>None\<close> for it.
\<close>

record QueuedUpdate =
  UpdateID :: int
  Update :: obj
  Enqueued :: int

record queue_row =
  row_alias :: string
  row_id :: int
  row_json :: "obj option"
  row_at :: rat

record queue_db =
  update_queue :: "queue_row list"
  consumer_offsets :: "(string \<times> int) list"

definition empty_db :: queue_db where
  "empty_db = \<lparr>update_queue = [], consumer_offsets = []\<rparr>"

record queue =
  maxsize :: int
  overflow :: string
  ttlS :: rat
  items :: "QueuedUpdate list"
  seen :: "int set"
  consumerOffset :: int
  epoch :: nat
  dropped :: int
  expired :: int
  qdb :: "queue_db option"
  botAlias :: string
  unloadedBacklog :: int
  qhealth :: "Storage option"

text \<open>\<^verbatim>\<open>time.Duration(s * float64(time.Second))\<close>.\<close>

definition duration :: "rat \<Rightarrow> int" where
  "duration s = int64_of_float (s * 1000000000)"

definition notePersistFailure :: "string \<Rightarrow> string \<Rightarrow> queue \<Rightarrow> queue" where
  "notePersistFailure location err q =
     q\<lparr>qhealth := map_option (NotePersistFailure location err) (qhealth q)\<rparr>"

subsection \<open>Opening and reloading\<close>

record load_io =
  offset_ok :: bool
  cutoff_wall :: rat
  rows_ok :: bool
  row_clock :: "int \<Rightarrow> int \<times> rat"
  load_delete_ok :: bool
  count_ok :: bool

definition limit_rows :: "int \<Rightarrow> 'a list \<Rightarrow> 'a list" where
  "limit_rows n xs = (if n < 0 then xs else take (nat n) xs)"

definition delete_acked :: "string \<Rightarrow> int \<Rightarrow> queue_db \<Rightarrow> queue_db" where
  "delete_acked alias n d =
     d\<lparr>update_queue := filter (\<lambda>r. \<not> (row_alias r = alias \<and> row_id r \<le> n)) (update_queue d)\<rparr>"

definition unacked_rows :: "string \<Rightarrow> int \<Rightarrow> queue_db \<Rightarrow> queue_row list" where
  "unacked_rows alias n d =
     filter (\<lambda>r. row_alias r = alias \<and> row_id r > n) (update_queue d)"

text \<open>The body of the \<^verbatim>\<open>rows.Next()\<close> loop.\<close>

definition load_row :: "load_io \<Rightarrow> queue_row \<Rightarrow> queue \<Rightarrow> queue" where
  "load_row io r q =
     (case row_json r of
        None \<Rightarrow> q\<lparr>qhealth := map_option NoteCorruptRow (qhealth q)\<rparr>
      | Some u \<Rightarrow>
          (let (now, wall) = row_clock io (row_id r);
               enq = now + wrap64 (- duration (wall - row_at r))
           in q\<lparr>items := items q @ [\<lparr>UpdateID = row_id r, Update = u, Enqueued = enq\<rparr>],
                seen := insert (row_id r) (seen q)\<rparr>))"

definition loadFromDB :: "load_io \<Rightarrow> queue_db \<Rightarrow> queue \<Rightarrow> queue" where
  "loadFromDB io d q =
     (let q1 = (case (offset_ok io, map_of (consumer_offsets d) (botAlias q)) of
                  (True, Some n) \<Rightarrow> q\<lparr>consumerOffset := n\<rparr>
                | _ \<Rightarrow> q);
          cutoff = (if ttlS q1 > 0 then cutoff_wall io - ttlS q1 else 0);
          selected = limit_rows (maxsize q1)
            (sort_key row_id
               (filter (\<lambda>r. row_at r > cutoff) (unacked_rows (botAlias q1) (consumerOffset q1) d)))
      in if \<not> rows_ok io then q1
         else
           let q2 = fold (load_row io) selected q1;
               loaded = int (length (items q2)) - int (length (items q1));
               d1 = (if load_delete_ok io then delete_acked (botAlias q1) (consumerOffset q1) d else d);
               total = (if count_ok io
                        then int (length (unacked_rows (botAlias q1) (consumerOffset q1) d1)) else 0)
           in q2\<lparr>qdb := Some d1, unloadedBacklog := max 0 (total - loaded)\<rparr>)"

text \<open>
  \<open>OpenQueue\<close>: the argument \<open>opened\<close> is what \<^verbatim>\<open>CheckOrQuarantine\<close>, \<^verbatim>\<open>Open\<close> and the schema
  statement leave at the path: a database, or the error that is returned.
\<close>

definition OpenQueue ::
  "load_io \<Rightarrow> int \<Rightarrow> string \<Rightarrow> rat \<Rightarrow> string \<Rightarrow> string \<Rightarrow> string + queue_db \<Rightarrow> Storage option
    \<Rightarrow> string + queue"
where
  "OpenQueue io msize ovf ttl persistPath alias opened h =
     (let q = \<lparr>maxsize = msize, overflow = ovf, ttlS = ttl, items = [], seen = {},
               consumerOffset = 0, epoch = 0, dropped = 0, expired = 0, qdb = None,
               botAlias = alias, unloadedBacklog = 0, qhealth = h\<rparr>
      in if persistPath = [] then Inr q
         else case opened of
             Inl err \<Rightarrow> Inl err
           | Inr d \<Rightarrow> Inr (loadFromDB io d (q\<lparr>qdb := Some d\<rparr>)))"

subsection \<open>The poller side\<close>

record push_io =
  prune_mono :: int
  prune_wall :: rat
  prune_ok :: bool
  begin_err :: "string option"
  prepare_err :: "string option"
  insert_wall :: rat
  row_ok :: "int \<Rightarrow> bool"
  commit_err :: "string option"

text \<open>The loop of \<^verbatim>\<open>pruneExpiredLocked\<close> removes the expired front.\<close>

fun prune_loop :: "int \<Rightarrow> QueuedUpdate list \<Rightarrow> QueuedUpdate list \<times> int list" where
  "prune_loop cutoff [] = ([], [])"
| "prune_loop cutoff (e # es) =
     (if Enqueued e > cutoff then (e # es, [])
      else let (rest, gone) = prune_loop cutoff es in (rest, UpdateID e # gone))"

definition pruneExpired :: "push_io \<Rightarrow> queue \<Rightarrow> queue" where
  "pruneExpired io q =
     (if ttlS q \<le> 0 then q
      else
        let cutoff = prune_mono io + wrap64 (- duration (ttlS q));
            (rest, gone) = prune_loop cutoff (items q);
            q1 = q\<lparr>items := rest, seen := seen q - set gone, expired := expired q + int (length gone)\<rparr>
        in if prune_ok io
           then q1\<lparr>qdb := map_option (\<lambda>d. d\<lparr>update_queue := filter
                    (\<lambda>r. \<not> (row_alias r = botAlias q \<and> row_at r < prune_wall io - ttlS q))
                    (update_queue d)\<rparr>) (qdb q1)\<rparr>
           else q1)"

text \<open>The id of an update, and the update itself with a synthesized id where Telegram's is missing.\<close>

definition identify :: "queue \<Rightarrow> obj \<Rightarrow> int \<times> obj" where
  "identify q u =
     (case toInt64 (obj_get u ''update_id'') of
        Some uid \<Rightarrow> (uid, u)
      | None \<Rightarrow>
          let uid = (if items q \<noteq> [] then wrap64 (UpdateID (last (items q)) + 1)
                     else wrap64 (consumerOffset q + 1))
          in (uid, obj_put ''update_id'' (JInt uid) u))"

definition append_item :: "int \<Rightarrow> int \<Rightarrow> obj \<Rightarrow> queue \<Rightarrow> queue" where
  "append_item t uid u q =
     q\<lparr>items := items q @ [\<lparr>UpdateID = uid, Update = u, Enqueued = t\<rparr>], seen := insert uid (seen q)\<rparr>"

text \<open>
  The loop of \<^verbatim>\<open>PushAll\<close>: each update comes with the clock reading of its iteration. The result
  is the queue, the batch to persist and whether \<^verbatim>\<open>reject_new\<close> stopped the loop; \<open>None\<close> is the
  nil dereference of dropping from an empty deque.
\<close>

fun push_loop ::
  "(int \<times> obj) list \<Rightarrow> queue \<Rightarrow> (int \<times> obj) list \<Rightarrow> (queue \<times> (int \<times> obj) list \<times> bool) option"
where
  "push_loop [] q batch = Some (q, batch, False)"
| "push_loop ((t, u0) # us) q batch =
     (let (uid, u) = identify q u0 in
      if uid \<in> seen q then push_loop us q batch
      else if int (length (items q)) \<ge> maxsize q then
        if overflow q = ''reject_new'' then Some (q, batch, True)
        else case items q of
            [] \<Rightarrow> None
          | old # rest \<Rightarrow>
              push_loop us
                (append_item t uid u
                   (q\<lparr>items := rest, seen := seen q - {UpdateID old}, dropped := dropped q + 1\<rparr>))
                (batch @ [(uid, u)])
      else push_loop us (append_item t uid u q) (batch @ [(uid, u)]))"

definition signal :: "queue \<Rightarrow> queue" where
  "signal q = q\<lparr>epoch := epoch q + 1\<rparr>"

text \<open>\<^verbatim>\<open>INSERT OR IGNORE\<close> of one row.\<close>

definition insert_row :: "queue_row \<Rightarrow> queue_row list \<Rightarrow> queue_row list" where
  "insert_row r rs =
     (if \<exists>r'\<in>set rs. row_alias r' = row_alias r \<and> row_id r' = row_id r then rs else rs @ [r])"

definition insert_batch :: "push_io \<Rightarrow> string \<Rightarrow> (int \<times> obj) list \<Rightarrow> queue_row list \<Rightarrow> queue_row list" where
  "insert_batch io alias batch rs =
     fold (\<lambda>(uid, u) rs. if row_ok io uid
             then insert_row \<lparr>row_alias = alias, row_id = uid, row_json = Some (decoded_obj u),
                    row_at = insert_wall io\<rparr> rs
             else rs) batch rs"

definition persist_batch :: "push_io \<Rightarrow> (int \<times> obj) list \<Rightarrow> queue \<Rightarrow> queue" where
  "persist_batch io batch q =
     (case qdb q of
        None \<Rightarrow> q
      | Some d \<Rightarrow>
          if batch = [] then q
          else case begin_err io of
              Some err \<Rightarrow> notePersistFailure (''queue.push:'' @ botAlias q) err q
            | None \<Rightarrow>
                case prepare_err io of
                  Some err \<Rightarrow> notePersistFailure (''queue.push:'' @ botAlias q) err q
                | None \<Rightarrow>
                    case commit_err io of
                      Some err \<Rightarrow> notePersistFailure (''queue.push:'' @ botAlias q) err q
                    | None \<Rightarrow>
                        q\<lparr>qdb := Some (d\<lparr>update_queue :=
                             insert_batch io (botAlias q) batch (update_queue d)\<rparr>)\<rparr>)"

datatype push_result = PushOk | ErrQueueOverflow

definition PushAll :: "push_io \<Rightarrow> (int \<times> obj) list \<Rightarrow> queue \<Rightarrow> (queue \<times> push_result) option" where
  "PushAll io us q =
     (case push_loop us (pruneExpired io q) [] of
        None \<Rightarrow> None
      | Some (q1, batch, rejected) \<Rightarrow>
          let q2 = signal q1 in
          if rejected then Some (q2, ErrQueueOverflow)
          else Some (persist_batch io batch q2, PushOk))"

subsection \<open>The consumer side\<close>

record ack_io =
  ack_delete_err :: "string option"
  ack_offset_err :: "string option"

definition ack_mem :: "int \<Rightarrow> queue \<Rightarrow> queue" where
  "ack_mem lastSeen q =
     (let off = (if lastSeen > consumerOffset q then lastSeen else consumerOffset q);
          gone = takeWhile (\<lambda>e. UpdateID e \<le> off) (items q)
      in q\<lparr>consumerOffset := off,
           items := dropWhile (\<lambda>e. UpdateID e \<le> off) (items q),
           seen := seen q - UpdateID ` set gone\<rparr>)"

definition ack_db :: "ack_io \<Rightarrow> int \<Rightarrow> queue \<Rightarrow> queue" where
  "ack_db io acked q =
     (case qdb q of
        None \<Rightarrow> q
      | Some d \<Rightarrow>
          case ack_delete_err io of
            Some err \<Rightarrow> notePersistFailure (''queue.ack:'' @ botAlias q) err q
          | None \<Rightarrow>
              let d1 = delete_acked (botAlias q) acked d in
              case ack_offset_err io of
                Some err \<Rightarrow> notePersistFailure (''queue.ack:'' @ botAlias q) err (q\<lparr>qdb := Some d1\<rparr>)
              | None \<Rightarrow>
                  q\<lparr>qdb := Some (d1\<lparr>consumer_offsets :=
                      AList.update (botAlias q) acked (consumer_offsets d1)\<rparr>)\<rparr>)"

definition Ack :: "ack_io \<Rightarrow> int \<Rightarrow> queue \<Rightarrow> queue" where
  "Ack io lastSeen q = (let q1 = ack_mem lastSeen q in ack_db io (consumerOffset q1) q1)"

text \<open>One look of \<^verbatim>\<open>Pull\<close> at the deque.\<close>

definition pull_batch :: "int \<Rightarrow> queue \<Rightarrow> QueuedUpdate list" where
  "pull_batch limit q = take (nat limit) (filter (\<lambda>e. UpdateID e > consumerOffset q) (items q))"

text \<open>
  The long poll. How each wait ends is an argument: woken by a push, with the queue as the other
  goroutines left it, out of time, or cancelled. \<open>None\<close>: still waiting when the script ends.
\<close>

datatype wait_end = Woken queue | Timeout | Cancelled

fun pull_loop :: "int \<Rightarrow> wait_end list \<Rightarrow> queue \<Rightarrow> (queue \<times> obj list) option" where
  "pull_loop limit ws q =
     (let out = map Update (pull_batch limit q) in
      if out \<noteq> [] then Some (q, out)
      else case ws of
          [] \<Rightarrow> None
        | Woken q' # ws' \<Rightarrow> pull_loop limit ws' q'
        | _ # _ \<Rightarrow> Some (q, []))"

definition Pull ::
  "ack_io \<Rightarrow> int option \<Rightarrow> int \<Rightarrow> wait_end list \<Rightarrow> queue \<Rightarrow> (queue \<times> obj list) option"
where
  "Pull io off limit ws q =
     pull_loop (if limit \<le> 0 then 100 else limit) ws
       (case off of None \<Rightarrow> q | Some n \<Rightarrow> Ack io (wrap64 (n - 1)) q)"

subsection \<open>Inspection\<close>

definition Depth :: "queue \<Rightarrow> int" where
  "Depth q = int (length (items q))"

definition round1 :: "rat \<Rightarrow> rat" where
  "round1 f = of_int (int64_of_float (f * 10 + 1 / 2)) / 10"

record queue_stats =
  depth :: int
  dropped_oldest :: int
  expired_by_ttl :: int
  max_age_s :: rat
  consumer_offset :: int
  persistent :: bool

definition Stats :: "int \<Rightarrow> queue \<Rightarrow> queue_stats" where
  "Stats now q =
     \<lparr>depth = Depth q, dropped_oldest = dropped q, expired_by_ttl = expired q,
      max_age_s = round1 (fold (\<lambda>e m. max m (of_int (now - Enqueued e) / 1000000000)) (items q) 0),
      consumer_offset = consumerOffset q, persistent = (qdb q \<noteq> None)\<rparr>"

definition Close :: "queue \<Rightarrow> queue" where
  "Close q = q\<lparr>qdb := None\<rparr>"

end
