(* ===== verification/Queue_Delivery.thy ===== *)
theory Queue_Delivery
  imports Queue
begin

text \<open>
  What the update queue guarantees: its invariant, that an acknowledged update is never delivered
  again, and that every loss of an unacknowledged update is counted. Exactly-once delivery to a polling
  consumer is in \<open>Queue_Consumer\<close>, recovery after a restart in \<open>Queue_Recovery\<close>.
\<close>

subsection \<open>The invariant\<close>

definition named_by :: "int \<Rightarrow> obj \<Rightarrow> bool" where
  "named_by uid u \<longleftrightarrow> int64 uid \<and> toInt64 (obj_get u ''update_id'') = Some uid \<and> go_int (obj_get u ''update_id'')"

definition queue_inv :: "queue \<Rightarrow> bool" where
  "queue_inv q \<longleftrightarrow>
     1 \<le> maxsize q \<and> int64 (consumerOffset q) \<and>
     seen q = UpdateID ` set (items q) \<and>
     distinct (map UpdateID (items q)) \<and>
     int (length (items q)) \<le> maxsize q \<and>
     (\<forall>e\<in>set (items q). named_by (UpdateID e) (Update e))"

abbreviation go_update :: "obj \<Rightarrow> bool" where
  "go_update u \<equiv> go_int (obj_get u ''update_id'')"

lemma prune_loop_split:
  "prune_loop c es = (rest, gone) \<Longrightarrow> \<exists>xs. es = xs @ rest \<and> gone = map UpdateID xs"
proof (induction es arbitrary: rest gone)
  case Nil
  then show ?case by simp
next
  case (Cons e es)
  show ?case
  proof (cases "Enqueued e > c")
    case True
    with Cons.prems show ?thesis by simp
  next
    case False
    with Cons.prems obtain g where "prune_loop c es = (rest, g)" "gone = UpdateID e # g"
      by (auto split: prod.splits)
    with Cons.IH obtain xs where "es = xs @ rest" "g = map UpdateID xs" by blast
    then have "e # es = (e # xs) @ rest \<and> gone = map UpdateID (e # xs)"
      using \<open>gone = _\<close> by simp
    then show ?thesis by blast
  qed
qed

text \<open>Pruning removes a prefix of the deque and counts it.\<close>

lemma pruneExpired_split:
  obtains xs where "items q = xs @ items (pruneExpired io q)"
    and "seen (pruneExpired io q) = seen q - UpdateID ` set xs"
    and "expired (pruneExpired io q) = expired q + int (length xs)"
proof (cases "ttlS q \<le> 0")
  case True
  then have "pruneExpired io q = q" by (simp add: pruneExpired_def)
  then show ?thesis using that [of "[]"] by simp
next
  case False
  let ?c = "prune_mono io + wrap64 (- duration (ttlS q))"
  obtain rest gone where l: "prune_loop ?c (items q) = (rest, gone)" by (cases "prune_loop ?c (items q)")
  from prune_loop_split [OF l] obtain xs where "items q = xs @ rest" "gone = map UpdateID xs" by blast
  with False l show ?thesis using that [of xs] by (simp add: pruneExpired_def Let_def)
qed

lemma pruneExpired_fields [simp]:
  "maxsize (pruneExpired io q) = maxsize q" "overflow (pruneExpired io q) = overflow q"
  "consumerOffset (pruneExpired io q) = consumerOffset q" "dropped (pruneExpired io q) = dropped q"
  "botAlias (pruneExpired io q) = botAlias q" "ttlS (pruneExpired io q) = ttlS q"
  "qhealth (pruneExpired io q) = qhealth q"
  by (simp_all add: pruneExpired_def Let_def case_prod_unfold)

lemma pruneExpired_inv [gw_inv]:
  assumes "queue_inv q"
  shows "queue_inv (pruneExpired io q)"
proof -
  obtain xs where "items q = xs @ items (pruneExpired io q)"
    "seen (pruneExpired io q) = seen q - UpdateID ` set xs"
    by (rule pruneExpired_split)
  with assms show ?thesis by (auto simp: queue_inv_def)
qed

lemma identify_named:
  assumes "go_update u" "identify q u = (uid, u')"
  shows "named_by uid u'"
  using assms
  by (auto simp: identify_def named_by_def Let_def go_int_def toInt64_int64 split: option.splits)

lemma append_item_inv:
  assumes "queue_inv q" "named_by uid u" "uid \<notin> seen q" "int (length (items q)) < maxsize q"
  shows "queue_inv (append_item t uid u q)"
  using assms by (auto simp: queue_inv_def append_item_def)

lemma drop_oldest_inv:
  assumes "queue_inv q" "items q = old # rest"
  shows "queue_inv (q\<lparr>items := rest, seen := seen q - {UpdateID old}, dropped := n\<rparr>)"
  using assms by (auto simp: queue_inv_def)

lemma append_item_fields [simp]:
  "items (append_item t uid u q) = items q @ [\<lparr>UpdateID = uid, Update = u, Enqueued = t\<rparr>]"
  "maxsize (append_item t uid u q) = maxsize q" "overflow (append_item t uid u q) = overflow q"
  "consumerOffset (append_item t uid u q) = consumerOffset q"
  "dropped (append_item t uid u q) = dropped q" "expired (append_item t uid u q) = expired q"
  "qdb (append_item t uid u q) = qdb q" "botAlias (append_item t uid u q) = botAlias q"
  "qhealth (append_item t uid u q) = qhealth q" "ttlS (append_item t uid u q) = ttlS q"
  "seen (append_item t uid u q) = insert uid (seen q)"
  by (simp_all add: append_item_def)

text \<open>
  A generic rule for the loop of \<open>PushAll\<close>: what one accepted update does to the queue,
  whatever overflow policy applies, and what then holds at the end.
\<close>

lemma push_loop_rule:
  assumes "queue_inv q" "\<forall>(t, u)\<in>set us. go_update u" "P q"
    and add: "\<And>t uid u q. queue_inv q \<Longrightarrow> P q \<Longrightarrow> named_by uid u \<Longrightarrow> uid \<notin> seen q \<Longrightarrow>
      int (length (items q)) < maxsize q \<Longrightarrow> P (append_item t uid u q)"
    and drop: "\<And>old rest q. queue_inv q \<Longrightarrow> P q \<Longrightarrow> items q = old # rest \<Longrightarrow>
      P (q\<lparr>items := rest, seen := seen q - {UpdateID old}, dropped := dropped q + 1\<rparr>)"
  shows "\<exists>q' batch' r. push_loop us q batch = Some (q', batch', r) \<and> queue_inv q' \<and> P q'"
  using assms(1,2,3)
proof (induction us q batch rule: push_loop.induct)
  case (1 q batch)
  then show ?case by auto
next
  case (2 t u0 us q batch)
  obtain uid u where id: "identify q u0 = (uid, u)" by (cases "identify q u0")
  have u: "named_by uid u" using 2 id by (auto intro: identify_named)
  consider (seen) "uid \<in> seen q" | (full) "uid \<notin> seen q" "int (length (items q)) \<ge> maxsize q"
    | (room) "uid \<notin> seen q" "int (length (items q)) < maxsize q" by linarith
  then show ?case
  proof cases
    case seen
    with 2 id show ?thesis by simp
  next
    case full
    with "2.prems"(1) obtain old rest where it: "items q = old # rest"
      by (cases "items q") (auto simp: queue_inv_def)
    let ?q = "q\<lparr>items := rest, seen := seen q - {UpdateID old}, dropped := dropped q + 1\<rparr>"
    have q: "queue_inv ?q" by (rule drop_oldest_inv [OF "2.prems"(1) it])
    have p: "P ?q" by (rule drop [OF "2.prems"(1,3) it])
    have r: "uid \<notin> seen ?q" "int (length (items ?q)) < maxsize ?q"
      using full "2.prems"(1) it by (auto simp: queue_inv_def)
    note step = append_item_inv [OF q u r] add [OF q p u r]
    show ?thesis
    proof (cases "overflow q = ''reject_new''")
      case True
      with full id "2.prems"(1,3) show ?thesis by auto
    next
      case False
      with full it id show ?thesis using "2.IH"(2) [OF id [symmetric] refl] step "2.prems"(2) by simp
    qed
  next
    case room
    note step = append_item_inv [OF "2.prems"(1) u room] add [OF "2.prems"(1,3) u room]
    with room id show ?thesis using "2.IH"(3) [OF id [symmetric] refl] "2.prems"(2) by simp
  qed
qed

lemma notePersistFailure_fields [simp]:
  "items (notePersistFailure w e q) = items q" "seen (notePersistFailure w e q) = seen q"
  "maxsize (notePersistFailure w e q) = maxsize q"
  "consumerOffset (notePersistFailure w e q) = consumerOffset q"
  "dropped (notePersistFailure w e q) = dropped q" "expired (notePersistFailure w e q) = expired q"
  "qdb (notePersistFailure w e q) = qdb q" "botAlias (notePersistFailure w e q) = botAlias q"
  "ttlS (notePersistFailure w e q) = ttlS q" "overflow (notePersistFailure w e q) = overflow q"
  by (simp_all add: notePersistFailure_def)

lemma persist_batch_fields [simp]:
  "items (persist_batch io b q) = items q" "seen (persist_batch io b q) = seen q"
  "maxsize (persist_batch io b q) = maxsize q" "consumerOffset (persist_batch io b q) = consumerOffset q"
  "dropped (persist_batch io b q) = dropped q" "expired (persist_batch io b q) = expired q"
  "botAlias (persist_batch io b q) = botAlias q" "ttlS (persist_batch io b q) = ttlS q"
  "overflow (persist_batch io b q) = overflow q"
  by (auto simp: persist_batch_def split: option.split)

lemma ack_db_fields [simp]:
  "items (ack_db io n q) = items q" "seen (ack_db io n q) = seen q"
  "maxsize (ack_db io n q) = maxsize q" "consumerOffset (ack_db io n q) = consumerOffset q"
  "dropped (ack_db io n q) = dropped q" "expired (ack_db io n q) = expired q"
  "botAlias (ack_db io n q) = botAlias q" "ttlS (ack_db io n q) = ttlS q"
  "overflow (ack_db io n q) = overflow q"
  by (auto simp: ack_db_def Let_def split: option.split)

lemma queue_inv_cong:
  assumes "items q' = items q" "seen q' = seen q" "maxsize q' = maxsize q" "consumerOffset q' = consumerOffset q"
  shows "queue_inv q' \<longleftrightarrow> queue_inv q"
  using assms by (simp add: queue_inv_def)

lemma ack_mem_inv [gw_inv]:
  assumes "queue_inv q" "int64 n"
  shows "queue_inv (ack_mem n q)"
proof -
  let ?P = "\<lambda>e. UpdateID e \<le> max (consumerOffset q) n"
  have m: "(if n > consumerOffset q then n else consumerOffset q) = max (consumerOffset q) n" by simp
  have it: "items q = takeWhile ?P (items q) @ dropWhile ?P (items q)" by simp
  have d: "distinct (map UpdateID (takeWhile ?P (items q) @ dropWhile ?P (items q)))"
    "length (dropWhile ?P (items q)) \<le> length (items q)"
    using assms by (simp_all only: takeWhile_dropWhile_id queue_inv_def length_dropWhile_le)
  have "UpdateID ` set (items q) - UpdateID ` set (takeWhile ?P (items q)) =
      UpdateID ` set (dropWhile ?P (items q))"
    using d(1) by (subst it) (auto simp del: takeWhile_dropWhile_id)
  moreover have "distinct (map UpdateID (dropWhile ?P (items q)))"
    using d(1) by (simp del: takeWhile_dropWhile_id)
  ultimately show ?thesis
    using assms d(2) unfolding queue_inv_def ack_mem_def Let_def m
    by (auto dest: set_dropWhileD simp: max_def)
qed

lemma Ack_inv [gw_inv]: "queue_inv q \<Longrightarrow> int64 n \<Longrightarrow> queue_inv (Ack io n q)"
  by (simp add: Ack_def Let_def ack_mem_inv queue_inv_cong [of "ack_db _ _ _"])

text \<open>The push never fails on a queue of positive size, and keeps the invariant.\<close>

lemma PushAll_rule:
  assumes "queue_inv q" "\<forall>(t, u)\<in>set us. go_update u" "P (pruneExpired io q)"
    and "\<And>t uid u q. queue_inv q \<Longrightarrow> P q \<Longrightarrow> named_by uid u \<Longrightarrow> uid \<notin> seen q \<Longrightarrow>
      int (length (items q)) < maxsize q \<Longrightarrow> P (append_item t uid u q)"
    and "\<And>old rest q. queue_inv q \<Longrightarrow> P q \<Longrightarrow> items q = old # rest \<Longrightarrow>
      P (q\<lparr>items := rest, seen := seen q - {UpdateID old}, dropped := dropped q + 1\<rparr>)"
    and cong: "\<And>q q'. P q \<Longrightarrow> items q' = items q \<Longrightarrow> seen q' = seen q \<Longrightarrow> maxsize q' = maxsize q \<Longrightarrow>
      consumerOffset q' = consumerOffset q \<Longrightarrow> dropped q' = dropped q \<Longrightarrow> expired q' = expired q \<Longrightarrow> P q'"
  shows "\<exists>q' r. PushAll io us q = Some (q', r) \<and> queue_inv q' \<and> P q'"
proof -
  obtain q1 b r where p: "push_loop us (pruneExpired io q) [] = Some (q1, b, r)" "queue_inv q1" "P q1"
    using push_loop_rule [OF pruneExpired_inv [OF assms(1)] assms(2), of P io "[]"] assms(3-5) by blast
  have "queue_inv (signal q1)" "P (signal q1)"
    using p cong [OF p(3), of "signal q1"] by (auto simp: signal_def queue_inv_def)
  moreover have "queue_inv (persist_batch io b (signal q1))" "P (persist_batch io b (signal q1))"
    using calculation cong [of "signal q1" "persist_batch io b (signal q1)"]
    by (auto simp: queue_inv_cong [of "persist_batch _ _ _"])
  ultimately show ?thesis using p by (auto simp: PushAll_def Let_def)
qed

lemma PushAll_inv:
  assumes "queue_inv q" "\<forall>(t, u)\<in>set us. go_update u"
  shows "\<exists>q' r. PushAll io us q = Some (q', r) \<and> queue_inv q' \<and> consumerOffset q' = consumerOffset q"
  by (rule PushAll_rule [OF assms]) simp_all

lemma ack_mem_offset [simp]: "consumerOffset (ack_mem n q) = max (consumerOffset q) n"
  by (simp add: ack_mem_def Let_def max_def)

lemma Ack_offset [simp]: "consumerOffset (Ack io n q) = max (consumerOffset q) n"
  by (simp add: Ack_def Let_def)

subsection \<open>Runs of the queue\<close>

text \<open>
  What the poller and the consumers do to one queue, in any order. \<open>EPull\<close> is the acknowledging
  part of \<^verbatim>\<open>getUpdates\<close>; what a look at the queue delivers is \<open>pull_batch\<close>.
\<close>

datatype queue_event =
  EPush push_io "(int \<times> obj) list"
| EAck ack_io int

fun queue_exec :: "queue_event \<Rightarrow> queue \<Rightarrow> queue option" where
  "queue_exec (EPush io us) q = map_option fst (PushAll io us q)"
| "queue_exec (EAck io n) q = Some (Ack io n q)"

fun queue_run :: "queue_event list \<Rightarrow> queue \<Rightarrow> queue option" where
  "queue_run [] q = Some q"
| "queue_run (e # es) q = Option.bind (queue_exec e q) (queue_run es)"

fun event_go :: "queue_event \<Rightarrow> bool" where
  "event_go (EPush io us) = (\<forall>(t, u)\<in>set us. go_update u)"
| "event_go (EAck io n) = int64 n"

text \<open>The acknowledged offset only grows, and every execution is defined.\<close>

lemma queue_exec_rule:
  assumes "queue_inv q" "event_go e"
  shows "\<exists>q'. queue_exec e q = Some q' \<and> queue_inv q' \<and> consumerOffset q \<le> consumerOffset q'"
proof (cases e)
  case (EPush io us)
  with assms show ?thesis using PushAll_inv [of q us io] by auto
next
  case (EAck io n)
  with assms show ?thesis by (simp add: Ack_inv)
qed

lemma queue_run_rule:
  assumes "queue_inv q" "\<forall>e\<in>set es. event_go e"
  shows "\<exists>q'. queue_run es q = Some q' \<and> queue_inv q' \<and> consumerOffset q \<le> consumerOffset q'"
  using assms
proof (induction es arbitrary: q)
  case Nil
  then show ?case by simp
next
  case (Cons e es)
  then obtain q1 where "queue_exec e q = Some q1" "queue_inv q1" "consumerOffset q \<le> consumerOffset q1"
    using queue_exec_rule [of q e] by auto
  with Cons show ?case by fastforce
qed

text \<open>What a look delivers.\<close>

definition delivered_ids :: "obj list \<Rightarrow> int option list" where
  "delivered_ids us = map (\<lambda>u. toInt64 (obj_get u ''update_id'')) us"

lemma pull_batch_ids:
  assumes "queue_inv q"
  shows "delivered_ids (map Update (pull_batch l q)) = map (Some \<circ> UpdateID) (pull_batch l q)"
  using assms
  by (auto simp: delivered_ids_def pull_batch_def queue_inv_def named_by_def dest!: in_set_takeD)

lemma pull_batch_above: "e \<in> set (pull_batch l q) \<Longrightarrow> UpdateID e > consumerOffset q"
  by (auto simp: pull_batch_def dest!: in_set_takeD)

text \<open>
  C14. The queue keeps its invariant through every sequence of pushes and acknowledgements, whatever
  the clocks say and whichever statements of the database fail: no push panics, the deque never
  holds more than \<^verbatim>\<open>maxsize\<close> updates, no update id is queued twice, the duplicate index is
  exactly the set of queued ids, and every queued update carries the id it is queued under.
\<close>

theorem queue_keeps_invariant:
  assumes "queue_inv q" "\<forall>e\<in>set es. event_go e"
  shows "\<exists>q'. queue_run es q = Some q' \<and>
     int (length (items q')) \<le> maxsize q' \<and>
     distinct (map UpdateID (items q')) \<and>
     seen q' = UpdateID ` set (items q') \<and>
     delivered_ids (map Update (items q')) = map (Some \<circ> UpdateID) (items q')"
proof -
  obtain q' where q': "queue_run es q = Some q'" "queue_inv q'"
    using queue_run_rule [OF assms] by blast
  then have "delivered_ids (map Update (items q')) = map (Some \<circ> UpdateID) (items q')"
    by (auto simp: delivered_ids_def queue_inv_def named_by_def)
  with q' show ?thesis by (simp add: queue_inv_def)
qed

text \<open>A concrete queue for the instances below: memory only, two places.\<close>

definition small_queue :: queue where
  "small_queue = \<lparr>maxsize = 2, overflow = ''drop_oldest'', ttlS = 0, items = [], seen = {},
     consumerOffset = 0, epoch = 0, dropped = 0, expired = 0, qdb = None,
     botAlias = ''b1'', unloadedBacklog = 0, qhealth = None\<rparr>"

definition calm_push :: push_io where
  "calm_push = \<lparr>prune_mono = 0, prune_wall = 0, prune_ok = True, begin_err = None, prepare_err = None,
     insert_wall = 1, row_ok = (\<lambda>_. True), commit_err = None\<rparr>"

definition calm_ack :: ack_io where
  "calm_ack = \<lparr>ack_delete_err = None, ack_offset_err = None\<rparr>"

definition upd :: "int \<Rightarrow> obj" where
  "upd n = [(''update_id'', JNum (of_int n))]"

lemma small_queue_inv: "queue_inv small_queue"
  by (simp add: queue_inv_def small_queue_def int64_def)

lemma upd_get [simp]: "obj_get (upd n) ''update_id'' = JNum (of_int n)"
  by (simp add: upd_def obj_get_def)

lemma go_upd [simp]: "go_int (JNum r)"
  by (simp add: go_int_def)

theorem queue_keeps_invariant_witness:
  "\<exists>q'. queue_run [EPush calm_push [(0, upd 1), (0, upd 2), (0, upd 3)], EAck calm_ack 2] small_queue = Some q' \<and>
     int (length (items q')) \<le> maxsize q'"
  using queue_keeps_invariant [OF small_queue_inv,
      of "[EPush calm_push [(0, upd 1), (0, upd 2), (0, upd 3)], EAck calm_ack 2]"]
  by (auto simp: int64_def)

text \<open>
  C12. Acknowledged is final: once a consumer asked for updates from \<open>n\<close> on, no later answer to any
  consumer contains an update below \<open>n\<close>, whatever was pushed (or pushed again by Telegram) and
  acknowledged in between, and whichever database statements failed.
\<close>

theorem acked_never_redelivered:
  assumes "queue_inv q" "int64 n" "n \<noteq> min_int64" "\<forall>e\<in>set es. event_go e"
    and "queue_run (EAck io (wrap64 (n - 1)) # es) q = Some q'"
    and "pull_loop l [Timeout] q' = Some (q'', us)"
  shows "\<forall>i\<in>set (delivered_ids us). \<exists>k. i = Some k \<and> n \<le> k"
proof -
  have w: "wrap64 (n - 1) = n - 1" using assms(2,3) by (intro wrap64_id) (simp add: int64_def)
  have "queue_inv (Ack io (n - 1) q)" using assms(1-3) by (intro Ack_inv) (auto simp: int64_def)
  then obtain q1 where q1: "queue_run es (Ack io (n - 1) q) = Some q1" "queue_inv q1"
      "consumerOffset (Ack io (n - 1) q) \<le> consumerOffset q1"
    using queue_run_rule assms(4) by blast
  then have "q1 = q'" and q': "queue_inv q'" "n - 1 \<le> consumerOffset q'"
    using assms(5) w by auto
  moreover have "us = map Update (pull_batch l q')"
    using assms(6) by (auto simp: Let_def split: if_splits)
  ultimately show ?thesis
    using pull_batch_ids [OF q'(1), of l] pull_batch_above [of _ l q'] by fastforce
qed

theorem acked_never_redelivered_witness:
  "\<exists>us q'. pull_loop 100 [Timeout] (Ack calm_ack 1 (append_item 0 2 (upd 2) small_queue)) = Some (q', us) \<and>
     us = [upd 2] \<and> (\<forall>i\<in>set (delivered_ids us). \<exists>k. i = Some k \<and> 2 \<le> k)"
proof -
  let ?q = "append_item 0 2 (upd 2) small_queue"
  have inv: "queue_inv ?q"
    by (rule append_item_inv [OF small_queue_inv])
      (simp_all add: named_by_def int64_def small_queue_def int64_of_float_def trunc_rat_def)
  have p: "pull_loop 100 [Timeout] (Ack calm_ack 1 ?q) = Some (Ack calm_ack 1 ?q, [upd 2])"
    by (simp add: Ack_def ack_mem_def ack_db_def small_queue_def pull_batch_def calm_ack_def)
  have "\<forall>i\<in>set (delivered_ids [upd 2]). \<exists>k. i = Some k \<and> 2 \<le> k"
    by (rule acked_never_redelivered [OF inv, of 2 "[]" calm_ack "Ack calm_ack 1 ?q" 100])
      (simp_all only: p, simp_all add: int64_def)
  with p show ?thesis by blast
qed

subsection \<open>Every loss is counted\<close>

definition lost :: "QueuedUpdate set \<Rightarrow> queue \<Rightarrow> QueuedUpdate set" where
  "lost X q = {e \<in> X. UpdateID e > consumerOffset q \<and> e \<notin> set (items q)}"

definition loss_count :: "queue \<Rightarrow> int" where
  "loss_count q = dropped q + expired q"

lemma finite_lost [simp]: "finite X \<Longrightarrow> finite (lost X q)"
  by (simp add: lost_def)

lemma lost_mono:
  "finite X \<Longrightarrow> set (items q) \<subseteq> set (items q') \<union> {e. UpdateID e \<le> consumerOffset q'} \<union> Y \<Longrightarrow>
   consumerOffset q \<le> consumerOffset q' \<Longrightarrow> finite Y \<Longrightarrow> card (lost X q') \<le> card (lost X q) + card Y"
  by (rule order_trans [OF card_mono card_Un_le]) (auto simp: lost_def)

lemma lost_prune:
  assumes "finite X"
  shows "int (card (lost X (pruneExpired io q))) - loss_count (pruneExpired io q) \<le>
     int (card (lost X q)) - loss_count q"
proof -
  obtain xs where xs: "items q = xs @ items (pruneExpired io q)"
    "expired (pruneExpired io q) = expired q + int (length xs)"
    by (rule pruneExpired_split)
  have "card (lost X (pruneExpired io q)) \<le> card (lost X q) + card (set xs)"
  proof (rule lost_mono [OF assms])
    have "set (items q) = set xs \<union> set (items (pruneExpired io q))" by (metis set_append xs(1))
    then show "set (items q) \<subseteq> set (items (pruneExpired io q))
        \<union> {e. UpdateID e \<le> consumerOffset (pruneExpired io q)} \<union> set xs" by blast
  qed simp_all
  with card_length [of xs] xs(2) show ?thesis by (simp add: loss_count_def)
qed

lemma lost_push:
  assumes "queue_inv q" "\<forall>(t, u)\<in>set us. go_update u" "finite X"
  shows "\<exists>q' r. PushAll io us q = Some (q', r) \<and> queue_inv q' \<and>
    int (card (lost X q')) - loss_count q' \<le> int (card (lost X q)) - loss_count q"
proof (rule PushAll_rule [OF assms(1,2)])
  show "int (card (lost X (pruneExpired io q))) - loss_count (pruneExpired io q) \<le>
      int (card (lost X q)) - loss_count q"
    by (rule lost_prune [OF assms(3)])
next
  fix t uid u q1
  assume "int (card (lost X q1)) - loss_count q1 \<le> int (card (lost X q)) - loss_count q"
  moreover have "card (lost X (append_item t uid u q1)) \<le> card (lost X q1) + card ({} :: QueuedUpdate set)"
    by (rule lost_mono [OF assms(3)]) auto
  ultimately show "int (card (lost X (append_item t uid u q1))) - loss_count (append_item t uid u q1) \<le>
      int (card (lost X q)) - loss_count q"
    by (simp add: loss_count_def)
next
  fix old :: QueuedUpdate and rest and q1 :: queue
  let ?q = "q1\<lparr>items := rest, seen := seen q1 - {UpdateID old}, dropped := dropped q1 + 1\<rparr>"
  assume "int (card (lost X q1)) - loss_count q1 \<le> int (card (lost X q)) - loss_count q"
    "items q1 = old # rest"
  moreover from this have "card (lost X ?q) \<le> card (lost X q1) + card {old}"
    by (intro lost_mono [OF assms(3)]) auto
  ultimately show "int (card (lost X ?q)) - loss_count ?q \<le> int (card (lost X q)) - loss_count q"
    by (simp add: loss_count_def)
qed (simp add: lost_def loss_count_def)

lemma lost_ack:
  assumes "finite X"
  shows "int (card (lost X (Ack io n q))) - loss_count (Ack io n q) \<le>
    int (card (lost X q)) - loss_count q"
proof -
  let ?P = "\<lambda>e. UpdateID e \<le> (if n > consumerOffset q then n else consumerOffset q)"
  have "set (items q) = set (takeWhile ?P (items q)) \<union> set (dropWhile ?P (items q))"
    by (metis set_append takeWhile_dropWhile_id)
  then have "set (items q) \<subseteq> set (items (Ack io n q)) \<union> {e. UpdateID e \<le> consumerOffset (Ack io n q)} \<union> {}"
    by (auto simp: Ack_def ack_mem_def Let_def dest: set_takeWhileD)
  then have "card (lost X (Ack io n q)) \<le> card (lost X q) + card ({} :: QueuedUpdate set)"
    by (intro lost_mono [OF assms]) auto
  then show ?thesis by (simp add: loss_count_def Ack_def ack_mem_def Let_def)
qed

lemma lost_run:
  assumes "queue_inv q" "\<forall>e\<in>set es. event_go e" "finite X" "queue_run es q = Some q'"
  shows "int (card (lost X q')) - loss_count q' \<le> int (card (lost X q)) - loss_count q"
  using assms
proof (induction es arbitrary: q)
  case Nil
  then show ?case by simp
next
  case (Cons e es)
  obtain q1 where q1: "queue_exec e q = Some q1" "queue_inv q1"
      "int (card (lost X q1)) - loss_count q1 \<le> int (card (lost X q)) - loss_count q"
  proof (cases e)
    case (EPush io us)
    with Cons.prems show ?thesis using lost_push [of q us X io] that by auto
  next
    case (EAck io n)
    with Cons.prems show ?thesis using that [of "Ack io n q"] by (simp add: Ack_inv lost_ack)
  qed
  with Cons.IH [of q1] Cons.prems show ?case by simp
qed

text \<open>
  C13. Every loss is counted: of the updates queued now, those that are not acknowledged later and
  yet no longer queued number at most the increase of the two counters the gateway reports as
  \<^verbatim>\<open>dropped_oldest\<close> and \<^verbatim>\<open>expired_by_ttl\<close>. In particular nothing is lost while these stand still.
\<close>

theorem every_loss_is_counted:
  assumes "queue_inv q" "\<forall>e\<in>set es. event_go e" "queue_run es q = Some q'"
  shows "int (card (lost (set (items q)) q')) \<le>
     (dropped_oldest (Stats now q') - dropped_oldest (Stats now q)) +
     (expired_by_ttl (Stats now q') - expired_by_ttl (Stats now q))"
proof -
  have "lost (set (items q)) q = {}" by (auto simp: lost_def)
  with lost_run [OF assms(1,2) _ assms(3), of "set (items q)"] show ?thesis
    by (simp add: loss_count_def Stats_def)
qed

theorem every_loss_is_counted_witness:
  "int (card (lost (set (items (append_item 0 2 (upd 2) small_queue)))
     (Ack calm_ack 1 (append_item 0 2 (upd 2) small_queue)))) \<le> 0"
proof -
  let ?q = "append_item 0 2 (upd 2) small_queue"
  have "queue_inv ?q"
    by (rule append_item_inv [OF small_queue_inv])
      (simp_all add: named_by_def int64_def small_queue_def int64_of_float_def trunc_rat_def)
  from every_loss_is_counted [OF this, of "[EAck calm_ack 1]" "Ack calm_ack 1 ?q" 0]
  show ?thesis by (simp add: int64_def Stats_def Ack_def ack_mem_def Let_def)
qed

end
