(* ===== verification/Queue_Consumer.thy ===== *)
theory Queue_Consumer
  imports Queue_Delivery
begin

text \<open>
  The contract between the gateway and a consumer. The locale \<open>lossy_bus\<close> states it for any
  bus: feeding appends to what the consumer has not seen, and a poll hands over a front part of it;
  from these laws alone follows exactly-once delivery in order. In an \<open>update_bus\<close> the part is not
  empty while there is something to see, so that enough polls deliver everything. The update queue with a consumer that polls the Bot API way (the next
  offset is the last id plus one) satisfies them.
\<close>

subsection \<open>The interface\<close>

datatype ('f, 'p) bus_event = Feed 'f | Poll 'p

locale lossy_bus =
  fixes inv :: "'s \<Rightarrow> bool"
    and unseen :: "'s \<Rightarrow> 'u list"
    and feed :: "'f \<Rightarrow> 's \<Rightarrow> 's"
    and content :: "'f \<Rightarrow> 'u list"
    and feed_ok :: "'f \<Rightarrow> 's \<Rightarrow> bool"
    and poll :: "'p \<Rightarrow> 's \<Rightarrow> 's \<times> 'u list"
  assumes feed_law: "inv s \<Longrightarrow> feed_ok f s \<Longrightarrow>
      inv (feed f s) \<and> unseen (feed f s) = unseen s @ content f"
    and poll_law: "inv s \<Longrightarrow> inv (fst (poll p s)) \<and> unseen s = snd (poll p s) @ unseen (fst (poll p s))"
begin

fun step :: "('f, 'p) bus_event \<Rightarrow> 's \<Rightarrow> 's \<times> 'u list" where
  "step (Feed f) s = (feed f s, [])"
| "step (Poll p) s = poll p s"

fun session :: "('f, 'p) bus_event list \<Rightarrow> 's \<Rightarrow> 's \<times> 'u list" where
  "session [] s = (s, [])"
| "session (e # es) s =
     (let (s1, out) = step e s; (s2, outs) = session es s1 in (s2, out @ outs))"

fun session_ok :: "('f, 'p) bus_event list \<Rightarrow> 's \<Rightarrow> bool" where
  "session_ok [] s = True"
| "session_ok (e # es) s =
     ((case e of Feed f \<Rightarrow> feed_ok f s | Poll p \<Rightarrow> True) \<and> session_ok es (fst (step e s)))"

fun fed :: "('f, 'p) bus_event list \<Rightarrow> 'u list" where
  "fed [] = []"
| "fed (Feed f # es) = content f @ fed es"
| "fed (Poll p # es) = fed es"

lemma exactly_once:
  assumes "inv s" "session_ok es s"
  shows "inv (fst (session es s)) \<and>
    snd (session es s) @ unseen (fst (session es s)) = unseen s @ fed es"
  using assms
proof (induction es arbitrary: s)
  case Nil
  then show ?case by simp
next
  case (Cons e es)
  show ?case
  proof (cases e)
    case (Feed f)
    with Cons feed_law [of s f] show ?thesis by (auto simp: case_prod_unfold Let_def)
  next
    case (Poll p)
    with Cons poll_law [of s p] show ?thesis by (auto simp: case_prod_unfold Let_def)
  qed
qed

lemma fed_polls: "fed (map Poll ps) = []"
  by (induction ps) auto

lemma session_ok_polls: "session_ok (map Poll ps) s"
  by (induction ps arbitrary: s) auto

end

locale update_bus = lossy_bus +
  assumes poll_progress: "inv s \<Longrightarrow> unseen s \<noteq> [] \<Longrightarrow> snd (poll p s) \<noteq> []"
begin

lemma polls_drain:
  assumes "inv s" "length (unseen s) \<le> length ps"
  shows "unseen (fst (session (map Poll ps) s)) = []"
  using assms
proof (induction ps arbitrary: s)
  case Nil
  then show ?case by simp
next
  case (Cons p ps)
  have "length (unseen (fst (poll p s))) \<le> length ps"
  proof (cases "unseen s = []")
    case True
    with poll_law [OF Cons.prems(1), of p] show ?thesis by simp
  next
    case False
    with poll_progress [OF Cons.prems(1), of p] poll_law [OF Cons.prems(1), of p] Cons.prems(2)
    show ?thesis by (cases "snd (poll p s)") auto
  qed
  with Cons.IH [of "fst (poll p s)"] poll_law [OF Cons.prems(1), of p] show ?case
    by (simp add: case_prod_unfold Let_def)
qed

lemma drained_exactly:
  assumes "inv s" "length (unseen s) \<le> length ps"
  shows "snd (session (map Poll ps) s) = unseen s"
  using exactly_once [OF assms(1) session_ok_polls, of ps] polls_drain [OF assms]
  by (simp add: fed_polls)

end

subsection \<open>The queue and a polling consumer\<close>

type_synonym bus_state = "queue \<times> int option"

definition bound :: "bus_state \<Rightarrow> int" where
  "bound s = (case snd s of None \<Rightarrow> consumerOffset (fst s) | Some n \<Rightarrow> max (consumerOffset (fst s)) (n - 1))"

definition unseen :: "bus_state \<Rightarrow> obj list" where
  "unseen s = map Update (filter (\<lambda>e. UpdateID e > bound s) (items (fst s)))"

definition bus_inv :: "bus_state \<Rightarrow> bool" where
  "bus_inv s \<longleftrightarrow> queue_inv (fst s) \<and> sorted_wrt (<) (map UpdateID (items (fst s))) \<and>
     (\<forall>n. snd s = Some n \<longrightarrow> int64 (n - 1))"

definition feed :: "push_io \<times> (int \<times> obj) list \<Rightarrow> bus_state \<Rightarrow> bus_state" where
  "feed f s = (case PushAll (fst f) (snd f) (fst s) of None \<Rightarrow> s | Some (q, r) \<Rightarrow> (q, snd s))"

text \<open>The ids of the fed updates ascend from a bound.\<close>

fun ascending_from :: "int \<Rightarrow> (int \<times> obj) list \<Rightarrow> bool" where
  "ascending_from b [] = True"
| "ascending_from b ((t, u) # us) =
     (case toInt64 (obj_get u ''update_id'') of
        None \<Rightarrow> False
      | Some i \<Rightarrow> b < i \<and> go_update u \<and> ascending_from i us)"

definition high :: "bus_state \<Rightarrow> int" where
  "high s = fold max (map UpdateID (items (fst s))) (bound s)"

text \<open>
  A feed is in order when its ids ascend from the highest one seen so far, it was accepted, and
  neither the overflow policy nor the expiry took anything (both are counted).
\<close>

definition feed_ok :: "push_io \<times> (int \<times> obj) list \<Rightarrow> bus_state \<Rightarrow> bool" where
  "feed_ok f s \<longleftrightarrow> ascending_from (high s) (snd f) \<and>
     (case PushAll (fst f) (snd f) (fst s) of
        None \<Rightarrow> False
      | Some (q, r) \<Rightarrow> r = PushOk \<and> loss_count q = loss_count (fst s))"

definition poll :: "ack_io \<times> int \<Rightarrow> bus_state \<Rightarrow> bus_state \<times> obj list" where
  "poll p s =
     (case Pull (fst p) (snd s) (snd p) [Timeout] (fst s) of
        None \<Rightarrow> (s, [])
      | Some (q, out) \<Rightarrow>
          ((q, if out = [] then snd s
               else map_option (\<lambda>i. i + 1) (toInt64 (obj_get (last out) ''update_id''))), out))"

lemma fold_max_bound: "fold max xs b \<ge> (b :: int) \<and> (\<forall>x\<in>set xs. x \<le> fold max xs b)"
proof (induction xs arbitrary: b)
  case Nil
  then show ?case by simp
next
  case (Cons x xs)
  from Cons.IH [of "max x b"] show ?case by auto
qed

lemma high_bounds:
  "bound s \<le> high s" "consumerOffset (fst s) \<le> high s" "e \<in> set (items (fst s)) \<Longrightarrow> UpdateID e \<le> high s"
  using fold_max_bound [of "bound s" "map UpdateID (items (fst s))"]
  by (auto simp: high_def bound_def split: option.splits)

lemma ascending_go: "ascending_from b us \<Longrightarrow> \<forall>(t, u)\<in>set us. go_update u"
  by (induction b us rule: ascending_from.induct) (auto split: option.splits)

lemma push_loop_dropped:
  assumes "queue_inv q" "\<forall>(t, u)\<in>set us. go_update u" "push_loop us q batch = Some (q', batch', r)"
  shows "dropped q \<le> dropped q'"
  using push_loop_rule [OF assms(1,2), of "\<lambda>x. dropped q \<le> dropped x" batch] assms(3) by auto

text \<open>Ascending updates that meet no overflow are appended as they are.\<close>

lemma push_loop_append:
  assumes "push_loop us q batch = Some (q', batch', False)" "dropped q' = dropped q"
    and "queue_inv q" "ascending_from b us" "\<forall>i\<in>seen q. i \<le> b"
    and "sorted_wrt (<) (map UpdateID (items q))"
  shows "map Update (items q') = map Update (items q) @ map snd us \<and>
    sorted_wrt (<) (map UpdateID (items q')) \<and> consumerOffset q' = consumerOffset q \<and>
    (\<exists>new. items q' = items q @ new \<and> (\<forall>e\<in>set new. UpdateID e > b) \<and> batch' = batch @ map (\<lambda>e. (UpdateID e, Update e)) new)
    \<and> qdb q' = qdb q \<and> botAlias q' = botAlias q"
  using assms
proof (induction us q batch arbitrary: b rule: push_loop.induct)
  case (1 q batch)
  then show ?case by auto
next
  case (2 t u us q batch)
  obtain i where i: "toInt64 (obj_get u ''update_id'') = Some i" "b < i" "go_update u" "ascending_from i us"
    using "2.prems"(4) by (auto split: option.splits)
  have id: "identify q u = (i, u)" using i by (simp add: identify_def)
  have new: "i \<notin> seen q" using "2.prems"(5) i(2) by fastforce
  have u: "named_by i u" using i id by (auto intro: identify_named)
  have go: "\<forall>(t, u)\<in>set us. go_update u" by (rule ascending_go [OF i(4)])
  show ?case
  proof (cases "int (length (items q)) \<ge> maxsize q")
    case True
    with "2.prems"(1,3) new id obtain old rest where it: "items q = old # rest" "overflow q \<noteq> ''reject_new''"
      by (cases "items q") (auto simp: queue_inv_def split: if_splits)
    let ?q = "q\<lparr>items := rest, seen := seen q - {UpdateID old}, dropped := dropped q + 1\<rparr>"
    have "queue_inv ?q" by (rule drop_oldest_inv [OF "2.prems"(3) it(1)])
    moreover have "int (length (items ?q)) < maxsize ?q"
      using True "2.prems"(3) it by (auto simp: queue_inv_def)
    ultimately have inv: "queue_inv (append_item t i u ?q)"
      using new by (intro append_item_inv u) auto
    have "push_loop us (append_item t i u ?q) (batch @ [(i, u)]) = Some (q', batch', False)"
      using "2.prems"(1) True it id new by simp
    from push_loop_dropped [OF inv go this] "2.prems"(2) have False by simp
    then show ?thesis ..
  next
    case False
    let ?q = "append_item t i u q"
    have "UpdateID e \<le> b" if "e \<in> set (items q)" for e
      using that "2.prems"(3,5) by (auto simp: queue_inv_def)
    then have s: "sorted_wrt (<) (map UpdateID (items ?q))"
      using "2.prems"(6) i(2) by (force simp: sorted_wrt_append)
    have inv: "queue_inv ?q" using False new by (intro append_item_inv u "2.prems"(3)) auto
    have "push_loop us ?q (batch @ [(i, u)]) = Some (q', batch', False)"
      using "2.prems"(1) False id new by simp
    from "2.IH"(3) [OF id [symmetric] refl new False this _ inv i(4) _ s] "2.prems"(2,5) i(2)
    show ?thesis by fastforce
  qed
qed

lemma push_loop_expired:
  assumes "queue_inv q" "\<forall>(t, u)\<in>set us. go_update u" "push_loop us q batch = Some (q', batch', r)"
  shows "expired q' = expired q"
  using push_loop_rule [OF assms(1,2), of "\<lambda>x. expired x = expired q" batch] assms(3) by auto

text \<open>A push that loses nothing appends exactly the new updates, in memory and in the batch.\<close>

lemma PushAll_lossless:
  assumes inv: "queue_inv q" and srt: "sorted_wrt (<) (map UpdateID (items q))"
    and asc: "ascending_from b us" and b: "\<forall>e\<in>set (items q). UpdateID e \<le> b"
    and push: "PushAll io us q = Some (q', PushOk)" "loss_count q' = loss_count q"
  obtains new where "items q' = items q @ new" "map Update new = map snd us"
    and "\<forall>e\<in>set new. UpdateID e > b" "sorted_wrt (<) (map UpdateID (items q'))"
    and "consumerOffset q' = consumerOffset q" "queue_inv q'"
    and "\<exists>q1. items q1 = items q' \<and> qdb q1 = qdb (pruneExpired io q) \<and> botAlias q1 = botAlias q \<and>
         q' = persist_batch io (map (\<lambda>e. (UpdateID e, Update e)) new) q1"
proof -
  let ?p = "pruneExpired io q"
  have go: "\<forall>(t, u)\<in>set us. go_update u" by (rule ascending_go [OF asc])
  have pinv: "queue_inv ?p" by (rule pruneExpired_inv [OF inv])
  obtain q1 batch where l: "push_loop us ?p [] = Some (q1, batch, False)"
      and q': "q' = persist_batch io batch (signal q1)"
    using push(1) by (auto simp: PushAll_def Let_def split: option.splits prod.splits if_splits)
  have f: "dropped q' = dropped q1" "expired q' = expired q1" "items q' = items q1"
    "consumerOffset q' = consumerOffset q1" "seen q' = seen q1"
    by (simp_all add: q' signal_def)
  obtain xs where xs: "items q = xs @ items ?p" "seen ?p = seen q - UpdateID ` set xs"
      "expired ?p = expired q + int (length xs)"
    by (rule pruneExpired_split)
  have "dropped ?p \<le> dropped q1" "expired q1 = expired ?p"
    using push_loop_dropped [OF pinv go l] push_loop_expired [OF pinv go l] by auto
  then have "int (length xs) \<le> 0" and d: "dropped q1 = dropped ?p"
    using push(2) f xs(3) unfolding loss_count_def pruneExpired_fields by linarith+
  then have "xs = []" by simp
  with xs have p: "items ?p = items q" "seen ?p = seen q" by auto
  have "\<forall>i\<in>seen ?p. i \<le> b" using p inv b by (auto simp: queue_inv_def)
  from push_loop_append [OF l d pinv asc this] p srt obtain new where
      a: "items q1 = items q @ new" "map Update (items q1) = map Update (items q) @ map snd us"
        "sorted_wrt (<) (map UpdateID (items q1))" "consumerOffset q1 = consumerOffset q"
        "\<forall>e\<in>set new. UpdateID e > b" "batch = map (\<lambda>e. (UpdateID e, Update e)) new"
        "qdb q1 = qdb ?p" "botAlias q1 = botAlias q"
    by auto
  have "queue_inv q'" using PushAll_inv [OF inv go, of io] push(1) by auto
  moreover have "\<exists>q1. items q1 = items q' \<and> qdb q1 = qdb ?p \<and> botAlias q1 = botAlias q \<and>
      q' = persist_batch io (map (\<lambda>e. (UpdateID e, Update e)) new) q1"
    using a q' by (intro exI [of _ "signal q1"]) (simp add: signal_def)
  ultimately show ?thesis
    using that [of new] a f by simp
qed

lemma feed_law:
  assumes inv: "bus_inv s" and ok: "feed_ok f s"
  shows "bus_inv (feed f s) \<and> unseen (feed f s) = unseen s @ map snd (snd f)"
proof -
  obtain q off where s: "s = (q, off)" by (cases s)
  obtain q' where push: "PushAll (fst f) (snd f) q = Some (q', PushOk)" "loss_count q' = loss_count q"
    and asc: "ascending_from (high s) (snd f)"
    using ok s by (auto simp: feed_ok_def split: option.splits prod.splits)
  have qi: "queue_inv q" "sorted_wrt (<) (map UpdateID (items q))" using inv s by (auto simp: bus_inv_def)
  have "\<forall>e\<in>set (items q). UpdateID e \<le> high s" using high_bounds(3) [of _ s] s by auto
  from PushAll_lossless [OF qi asc this push] obtain new where n: "items q' = items q @ new"
      "map Update new = map snd (snd f)" "\<forall>e\<in>set new. UpdateID e > high s"
      "sorted_wrt (<) (map UpdateID (items q'))" "consumerOffset q' = consumerOffset q" "queue_inv q'"
    by metis
  have b: "bound (q', off) = bound s" using n(5) s by (simp add: bound_def split: option.split)
  have "filter (\<lambda>e. UpdateID e > bound s) new = new"
    using n(3) high_bounds(1) [of s] by (intro filter_True) force
  with n b have "unseen (q', off) = unseen s @ map snd (snd f)" by (simp add: unseen_def s)
  moreover have "bus_inv (q', off)" using inv n s by (simp add: bus_inv_def)
  ultimately show ?thesis using push s by (simp add: feed_def)
qed

lemma sorted_last:
  "sorted_wrt (<) (map g ys) \<Longrightarrow> x \<in> set ys \<Longrightarrow> g x \<le> (g (last ys) :: int)"
  by (induction ys) (auto simp: less_imp_le)

lemma filter_above_last_take:
  assumes "sorted_wrt (<) (map g xs)" "0 < n" "xs \<noteq> []"
  shows "filter (\<lambda>e. g e > (g (last (take n xs)) :: int)) xs = drop n xs"
proof -
  define a b where "a = take n xs" and "b = drop n xs"
  have xs: "xs = a @ b" by (simp add: a_def b_def)
  have ne: "a \<noteq> []" using assms by (simp add: a_def)
  have s: "sorted_wrt (<) (map g a)" "\<forall>x\<in>set a. \<forall>y\<in>set b. g x < g y"
    using assms(1) by (auto simp: xs sorted_wrt_append)
  have "filter (\<lambda>e. g e > g (last a)) a = []"
    using sorted_last [OF s(1)] by (fastforce simp: filter_empty_conv)
  moreover have "filter (\<lambda>e. g e > g (last a)) b = b"
    using s(2) ne by (intro filter_True) auto
  ultimately have "filter (\<lambda>e. g e > g (last a)) xs = b" by (simp add: xs)
  then show ?thesis by (simp only: a_def b_def)
qed

lemma filter_ack:
  "sorted_wrt (<) (map UpdateID xs) \<Longrightarrow>
   dropWhile (\<lambda>e. UpdateID e \<le> (b::int)) xs = filter (\<lambda>e. UpdateID e > b) xs"
  by (induction xs) (force intro!: filter_True [symmetric])+

text \<open>The queue as the consumer's next call finds it: everything below its offset is gone.\<close>

lemma consumer_ack:
  assumes "bus_inv (q, off)"
    and "q1 = (case off of None \<Rightarrow> q | Some n \<Rightarrow> Ack io (wrap64 (n - 1)) q)"
  shows "queue_inv q1" "sorted_wrt (<) (map UpdateID (items q1))" "consumerOffset q1 = bound (q, off)"
    and "filter (\<lambda>e. UpdateID e > bound (q, off)) (items q1) = filter (\<lambda>e. UpdateID e > bound (q, off)) (items q)"
proof -
  have i: "queue_inv q" "sorted_wrt (<) (map UpdateID (items q))" "\<And>n. off = Some n \<Longrightarrow> int64 (n - 1)"
    using assms(1) by (auto simp: bus_inv_def)
  have it: "items (Ack io n q) = filter (\<lambda>e. UpdateID e > max (consumerOffset q) n) (items q)" for n
    using filter_ack [OF i(2), of "if n > consumerOffset q then n else consumerOffset q"]
    by (simp add: Ack_def ack_mem_def Let_def max_def)
  show "queue_inv q1" using i assms(2) by (auto intro!: Ack_inv split: option.split)
  show "sorted_wrt (<) (map UpdateID (items q1))"
    using i(2) assms(2) it by (auto simp: sorted_wrt_map sorted_wrt_filter split: option.split)
  show "consumerOffset q1 = bound (q, off)"
    using i(3) assms(2) by (auto simp: bound_def split: option.split)
  show "filter (\<lambda>e. UpdateID e > bound (q, off)) (items q1) = filter (\<lambda>e. UpdateID e > bound (q, off)) (items q)"
    using i(3) assms(2) it by (auto simp: bound_def split: option.split intro!: filter_cong)
qed

lemma poll_unfold:
  assumes "bus_inv (q, off)"
    and "q1 = (case off of None \<Rightarrow> q | Some n \<Rightarrow> Ack (fst p) (wrap64 (n - 1)) q)"
    and "vis = filter (\<lambda>e. UpdateID e > bound (q, off)) (items q)"
    and "n = nat (if snd p \<le> 0 then 100 else snd p)"
  shows "poll p (q, off) =
    ((q1, if vis = [] then off else Some (UpdateID (last (take n vis)) + 1)), map Update (take n vis))"
proof -
  note a = consumer_ack [OF assms(1,2)]
  have b: "pull_batch (if snd p \<le> 0 then 100 else snd p) q1 = take n vis"
    using a(3,4) by (simp add: pull_batch_def assms(3,4))
  have n: "0 < n" using assms(4) by auto
  have l: "toInt64 (obj_get (Update (last (take n vis))) ''update_id'') = Some (UpdateID (last (take n vis)))"
    if "vis \<noteq> []"
  proof -
    have "last (take n vis) \<in> set (items q1)"
      using that n a(4) assms(3) by (metis filter_is_subset in_set_takeD last_in_set
          not_less_eq_eq subsetD take_eq_Nil zero_less_iff_neq_zero)
    with a(1) show ?thesis by (simp add: queue_inv_def named_by_def)
  qed
  have "Pull (fst p) off (snd p) [Timeout] q = Some (q1, map Update (take n vis))"
    by (simp add: Pull_def Let_def b flip: assms(2))
  then show ?thesis using l n by (simp add: poll_def last_map)
qed

lemma poll_law:
  assumes "bus_inv s"
  shows "bus_inv (fst (poll p s)) \<and> unseen s = snd (poll p s) @ unseen (fst (poll p s))"
    and "unseen s \<noteq> [] \<Longrightarrow> snd (poll p s) \<noteq> []"
proof -
  obtain q off where s: "s = (q, off)" by (cases s)
  define q1 where "q1 = (case off of None \<Rightarrow> q | Some n \<Rightarrow> Ack (fst p) (wrap64 (n - 1)) q)"
  define vis where "vis = filter (\<lambda>e. UpdateID e > bound (q, off)) (items q)"
  define n where "n = nat (if snd p \<le> 0 then 100 else snd p)"
  have n: "0 < n" by (auto simp: n_def)
  note p = poll_unfold [OF assms [unfolded s] q1_def vis_def n_def]
  note a = consumer_ack [OF assms [unfolded s] q1_def]
  have u: "unseen s = map Update vis" by (simp add: unseen_def vis_def s)
  show "unseen s \<noteq> [] \<Longrightarrow> snd (poll p s) \<noteq> []" using n by (simp add: s p u [unfolded s])
  show "bus_inv (fst (poll p s)) \<and> unseen s = snd (poll p s) @ unseen (fst (poll p s))"
  proof (cases "vis = []")
    case True
    have "bound (q1, off) = bound (q, off)"
      using a(3) by (auto simp: bound_def split: option.splits)
    then have "unseen (q1, off) = []" using True a(4) by (simp add: unseen_def vis_def)
    moreover have "bus_inv (q1, off)" using assms a s by (simp add: bus_inv_def)
    ultimately show ?thesis using True u by (simp add: s p)
  next
    case False
    let ?l = "UpdateID (last (take n vis))"
    have sv: "sorted_wrt (<) (map UpdateID vis)"
      using assms s by (auto simp: vis_def bus_inv_def sorted_wrt_map sorted_wrt_filter)
    have mem: "last (take n vis) \<in> set vis"
      using False n by (metis in_set_takeD last_in_set not_gr_zero take_eq_Nil)
    have lb: "?l > bound (q, off)" using mem by (simp add: vis_def)
    have "int64 ?l" using mem assms s by (auto simp: vis_def bus_inv_def queue_inv_def named_by_def)
    then have inv: "bus_inv (q1, Some (?l + 1))" using a by (simp add: bus_inv_def)
    have "bound (q1, Some (?l + 1)) = ?l" using a(3) lb by (simp add: bound_def)
    then have "unseen (q1, Some (?l + 1)) = map Update (filter (\<lambda>e. UpdateID e > ?l) (items q1))"
      by (simp add: unseen_def)
    also have "filter (\<lambda>e. UpdateID e > ?l) (items q1) = filter (\<lambda>e. UpdateID e > ?l) vis"
    proof -
      have "filter (\<lambda>e. UpdateID e > ?l) (items q1) =
          filter (\<lambda>e. UpdateID e > ?l) (filter (\<lambda>e. UpdateID e > bound (q, off)) (items q1))"
        using lb by (auto intro!: filter_cong)
      then show ?thesis by (simp only: a(4) vis_def)
    qed
    also have "\<dots> = drop n vis" by (rule filter_above_last_take [OF sv n False])
    finally show ?thesis using inv False u by (simp add: s p flip: map_append)
  qed
qed

interpretation uq: update_bus bus_inv unseen feed "\<lambda>f. map snd (snd f)" feed_ok poll
  by unfold_locales (use feed_law poll_law in auto)

text \<open>
  C6. Exactly once, in order: take any session in which the poller pushes updates with ascending
  ids and a consumer calls \<^verbatim>\<open>getUpdates\<close>, with the last id it saw plus one as its offset and any
  limits, interleaved in any way. As long as no update is dropped or expires, what the consumer
  has received followed by what is still queued for it is what was queued for it at the start
  followed by everything that was pushed.
\<close>

theorem consumer_exactly_once:
  assumes "bus_inv s" "uq.session_ok es s"
  shows "snd (uq.session es s) @ unseen (fst (uq.session es s)) = unseen s @ uq.fed es"
  using uq.exactly_once [OF assms] by blast

theorem consumer_exactly_once_witness:
  "snd (uq.session [Feed (calm_push, [(0, upd 1), (0, upd 2)]), Poll (calm_ack, 1), Poll (calm_ack, 5)]
      (small_queue, None)) @
   unseen (fst (uq.session [Feed (calm_push, [(0, upd 1), (0, upd 2)]), Poll (calm_ack, 1), Poll (calm_ack, 5)]
      (small_queue, None))) = [upd 1, upd 2]"
proof -
  have "bus_inv (small_queue, None)" using small_queue_inv by (simp add: bus_inv_def small_queue_def)
  moreover have "feed_ok (calm_push, [(0, upd 1), (0, upd 2)]) (small_queue, None)"
    by (simp add: feed_ok_def high_def bound_def PushAll_def pruneExpired_def small_queue_def
        identify_def int64_of_float_def trunc_rat_def int64_def append_item_def signal_def
        persist_batch_def loss_count_def)
  ultimately show ?thesis
    using consumer_exactly_once [of "(small_queue, None)"
        "[Feed (calm_push, [(0, upd 1), (0, upd 2)]), Poll (calm_ack, 1), Poll (calm_ack, 5)]"]
    by (simp add: unseen_def small_queue_def)
qed

text \<open>
  C15. Polling delivers everything: a consumer that polls at least as often as there are updates
  queued for it (with any limits) has received exactly these, in order.
\<close>

theorem consumer_drains_queue:
  assumes "bus_inv s" "length (unseen s) \<le> length ps"
  shows "snd (uq.session (map Poll ps) s) = unseen s"
  by (rule uq.drained_exactly [OF assms])

theorem consumer_drains_queue_witness:
  "snd (uq.session (map Poll [(calm_ack, 1), (calm_ack, 0)]) (append_item 0 2 (upd 2) small_queue, Some 2)) = [upd 2]"
proof -
  let ?q = "append_item 0 2 (upd 2) small_queue"
  have "queue_inv ?q"
    by (rule append_item_inv [OF small_queue_inv])
      (simp_all add: named_by_def int64_def small_queue_def int64_of_float_def trunc_rat_def)
  then have "bus_inv (?q, Some 2)" by (simp add: bus_inv_def small_queue_def int64_def)
  moreover have "unseen (?q, Some 2) = [upd 2]" by (simp add: unseen_def bound_def small_queue_def)
  ultimately show ?thesis
    using consumer_drains_queue [of "(?q, Some 2)" "[(calm_ack, 1), (calm_ack, 0)]"] by simp
qed

end
