(* ===== verification/Queue_Recovery.thy ===== *)
theory Queue_Recovery
  imports Queue_Consumer
begin

text \<open>
  The durable half of the update queue: the table of a bot mirrors what is queued and not yet
  acknowledged (\<open>synced\<close>), pushes and acknowledgements keep it so, and a restart on the table
  restores the queue.
\<close>

definition db_inv :: "queue_db \<Rightarrow> bool" where
  "db_inv d \<longleftrightarrow> distinct (map (\<lambda>r. (row_alias r, row_id r)) (update_queue d))"

definition stored_offset :: "string \<Rightarrow> queue_db \<Rightarrow> int" where
  "stored_offset alias d = (case map_of (consumer_offsets d) alias of None \<Rightarrow> 0 | Some n \<Rightarrow> n)"

definition mirror :: "QueuedUpdate \<Rightarrow> int \<times> obj option" where
  "mirror e = (UpdateID e, Some (decoded_obj (Update e)))"

definition cell :: "queue_row \<Rightarrow> int \<times> obj option" where
  "cell r = (row_id r, row_json r)"

abbreviation visible :: "queue \<Rightarrow> QueuedUpdate list" where
  "visible q \<equiv> filter (\<lambda>e. UpdateID e > consumerOffset q) (items q)"

definition synced :: "queue \<Rightarrow> bool" where
  "synced q \<longleftrightarrow> (\<exists>d. qdb q = Some d \<and> db_inv d \<and> stored_offset (botAlias q) d = consumerOffset q \<and>
     cell ` set (unacked_rows (botAlias q) (consumerOffset q) d) = mirror ` set (visible q))"

lemma decoded_idem [simp]: "decoded (decoded v) = decoded v"
  by (induction v rule: decoded.induct) (auto split: option.split)

lemma decoded_obj_idem [simp]: "decoded_obj (decoded_obj m) = decoded_obj m"
  by (auto simp: decoded_obj_def)

lemma distinct_map_filter_pair:
  "distinct (map f xs) \<Longrightarrow> distinct (map f (filter P xs))"
  by (induction xs) auto

lemma db_inv_filter: "db_inv d \<Longrightarrow> db_inv (d\<lparr>update_queue := filter P (update_queue d)\<rparr>)"
  by (simp add: db_inv_def distinct_map_filter_pair)

lemma unacked_distinct:
  assumes "db_inv d"
  shows "distinct (map row_id (unacked_rows a n d))"
proof -
  have "distinct (map (\<lambda>r. (row_alias r, row_id r)) (unacked_rows a n d))"
    using assms by (simp add: db_inv_def unacked_rows_def distinct_map_filter_pair)
  then show ?thesis
    by (auto simp: distinct_map inj_on_def unacked_rows_def)
qed

subsection \<open>Acknowledgements keep the mirror\<close>

lemma Ack_synced:
  assumes "synced q" "ack_delete_err io = None" "ack_offset_err io = None"
  shows "synced (Ack io n q)"
proof -
  obtain d where d: "qdb q = Some d" "db_inv d"
      "cell ` set (unacked_rows (botAlias q) (consumerOffset q) d) = mirror ` set (visible q)"
    using assms(1) by (auto simp: synced_def)
  let ?m = "max (consumerOffset q) n" and ?a = "botAlias q"
  define d' where "d' = (delete_acked ?a ?m d)\<lparr>consumer_offsets :=
      AList.update ?a ?m (consumer_offsets d)\<rparr>"
  have f: "qdb (Ack io n q) = Some d'" "botAlias (Ack io n q) = ?a"
    using d(1) assms(2,3)
    by (simp_all add: Ack_def Let_def ack_db_def d'_def delete_acked_def ack_mem_def max_def)
  have "db_inv d'" using db_inv_filter [OF d(2)] by (simp add: d'_def delete_acked_def db_inv_def)
  moreover have "stored_offset ?a d' = ?m" by (simp add: stored_offset_def d'_def update_conv')
  moreover have "cell ` set (unacked_rows ?a ?m d') = mirror ` set (visible (Ack io n q))"
  proof -
    have "set (unacked_rows ?a ?m d') = {r \<in> set (unacked_rows ?a (consumerOffset q) d). fst (cell r) > ?m}"
      by (auto simp: unacked_rows_def d'_def delete_acked_def cell_def)
    then have "cell ` set (unacked_rows ?a ?m d') =
        {c \<in> cell ` set (unacked_rows ?a (consumerOffset q) d). fst c > ?m}" by auto
    also have "\<dots> = {c \<in> mirror ` set (visible q). fst c > ?m}" by (simp only: d(3))
    also have "\<dots> = mirror ` {e \<in> set (visible q). UpdateID e > ?m}" by (auto simp: mirror_def)
    also have "{e \<in> set (visible q). UpdateID e > ?m} = set (visible (Ack io n q))"
    proof -
      let ?P = "\<lambda>e. UpdateID e \<le> ?m"
      have "items (Ack io n q) = dropWhile ?P (items q)"
        by (simp add: Ack_def ack_mem_def Let_def max_def)
      moreover have "set (items q) = set (takeWhile ?P (items q)) \<union> set (dropWhile ?P (items q))"
        by (metis set_append takeWhile_dropWhile_id)
      ultimately show ?thesis by (auto dest: set_takeWhileD)
    qed
    finally show ?thesis .
  qed
  ultimately show ?thesis using f by (auto simp: synced_def)
qed

subsection \<open>Pushes keep the mirror\<close>

definition calm_io :: "push_io \<Rightarrow> bool" where
  "calm_io io \<longleftrightarrow> begin_err io = None \<and> prepare_err io = None \<and> commit_err io = None \<and> (\<forall>i. row_ok io i)"

text \<open>No row of the bot is old enough for the pruning statement.\<close>

definition none_stale :: "push_io \<Rightarrow> queue \<Rightarrow> bool" where
  "none_stale io q \<longleftrightarrow> ttlS q \<le> 0 \<or> (\<forall>d. qdb q = Some d \<longrightarrow>
     (\<forall>r\<in>set (update_queue d). row_alias r = botAlias q \<longrightarrow> prune_wall io - ttlS q \<le> row_at r))"

lemma pruneExpired_db: "none_stale io q \<Longrightarrow> qdb (pruneExpired io q) = qdb q"
  by (cases "qdb q")
    (auto simp: pruneExpired_def Let_def case_prod_unfold none_stale_def not_less filter_id_conv)

definition new_row :: "push_io \<Rightarrow> string \<Rightarrow> QueuedUpdate \<Rightarrow> queue_row" where
  "new_row io alias e = \<lparr>row_alias = alias, row_id = UpdateID e,
     row_json = Some (decoded_obj (Update e)), row_at = insert_wall io\<rparr>"

lemma insert_batch_new:
  assumes "\<forall>i. row_ok io i" "sorted_wrt (<) (map UpdateID new)"
    and "\<forall>e\<in>set new. \<forall>r\<in>set rs. row_alias r = alias \<longrightarrow> row_id r < UpdateID e"
  shows "insert_batch io alias (map (\<lambda>e. (UpdateID e, Update e)) new) rs = rs @ map (new_row io alias) new"
  using assms
proof (induction new arbitrary: rs)
  case Nil
  then show ?case by (simp add: insert_batch_def)
next
  case (Cons e new)
  have "insert_row (new_row io alias e) rs = rs @ [new_row io alias e]"
    using Cons.prems(3) by (force simp: insert_row_def new_row_def)
  then have "insert_batch io alias (map (\<lambda>e. (UpdateID e, Update e)) (e # new)) rs =
      insert_batch io alias (map (\<lambda>e. (UpdateID e, Update e)) new) (rs @ [new_row io alias e])"
    using Cons.prems(1) by (simp add: insert_batch_def new_row_def)
  also have "\<dots> = (rs @ [new_row io alias e]) @ map (new_row io alias) new"
    using Cons.prems by (intro Cons.IH) (auto simp: new_row_def)
  finally show ?case by simp
qed

lemma PushAll_synced:
  assumes "synced q" "queue_inv q" "sorted_wrt (<) (map UpdateID (items q))"
    and "ascending_from (high (q, None)) us" "PushAll io us q = Some (q', PushOk)"
    and "loss_count q' = loss_count q" "calm_io io" "none_stale io q"
  shows "synced q' \<and> queue_inv q' \<and> sorted_wrt (<) (map UpdateID (items q'))"
proof -
  let ?a = "botAlias q" and ?b = "high (q, None)"
  have b: "consumerOffset q \<le> ?b" "\<forall>e\<in>set (items q). UpdateID e \<le> ?b"
    using high_bounds [where s = "(q, None)"] by auto
  obtain new where new: "items q' = items q @ new" "map Update new = map snd us"
      "\<forall>e\<in>set new. UpdateID e > ?b"
      "sorted_wrt (<) (map UpdateID (items q'))" "consumerOffset q' = consumerOffset q" "queue_inv q'"
      and "\<exists>q1. items q1 = items q' \<and> qdb q1 = qdb (pruneExpired io q) \<and> botAlias q1 = ?a \<and>
        q' = persist_batch io (map (\<lambda>e. (UpdateID e, Update e)) new) q1"
    by (rule PushAll_lossless [OF assms(2,3,4) b(2) assms(5,6)])
  then obtain q1 where q1: "items q1 = items q'" "qdb q1 = qdb (pruneExpired io q)" "botAlias q1 = ?a"
      "q' = persist_batch io (map (\<lambda>e. (UpdateID e, Update e)) new) q1"
    by blast
  obtain d where d: "qdb q = Some d" "db_inv d" "stored_offset ?a d = consumerOffset q"
      "cell ` set (unacked_rows ?a (consumerOffset q) d) = mirror ` set (visible q)"
    using assms(1) by (auto simp: synced_def)
  have older: "row_id r \<le> ?b" if r: "r \<in> set (update_queue d)" "row_alias r = ?a" for r
  proof (cases "row_id r > consumerOffset q")
    case True
    with r have "r \<in> set (unacked_rows ?a (consumerOffset q) d)" by (simp add: unacked_rows_def)
    then have "cell r \<in> mirror ` set (visible q)" using d(4) by blast
    with b(2) show ?thesis by (auto simp: cell_def mirror_def)
  qed (use b(1) in simp)
  have sn: "sorted_wrt (<) (map UpdateID new)" using new(1,4) by (simp add: sorted_wrt_append)
  let ?d = "d\<lparr>update_queue := update_queue d @ map (new_row io ?a) new\<rparr>"
  have "insert_batch io ?a (map (\<lambda>e. (UpdateID e, Update e)) new) (update_queue d) =
      update_queue d @ map (new_row io ?a) new"
    using assms(7) sn new(3) older by (intro insert_batch_new) (force simp: calm_io_def)+
  then have db: "qdb q' = Some ?d" "botAlias q' = ?a"
    using q1 d(1) assms(7) pruneExpired_db [OF assms(8)]
    by (auto simp: persist_batch_def calm_io_def)
  have "db_inv ?d"
  proof -
    have "distinct (map UpdateID new)" using sn by (simp add: strict_sorted_iff)
    then have "distinct (map (\<lambda>r. (row_alias r, row_id r)) (map (new_row io ?a) new))"
      by (auto simp: new_row_def distinct_map inj_on_def)
    then show ?thesis using d(2) older new(3) by (force simp: db_inv_def new_row_def)
  qed
  moreover have "stored_offset ?a ?d = consumerOffset q'" using d(3) new(5) by (simp add: stored_offset_def)
  moreover have "cell ` set (unacked_rows ?a (consumerOffset q') ?d) = mirror ` set (visible q')"
  proof -
    have n: "filter (\<lambda>e. UpdateID e > consumerOffset q) new = new"
      using new(3) b(1) by (intro filter_True) force
    have "unacked_rows ?a (consumerOffset q) ?d = unacked_rows ?a (consumerOffset q) d @ map (new_row io ?a) new"
      using n by (simp add: unacked_rows_def filter_map comp_def new_row_def)
    moreover have "cell ` new_row io ?a ` set new = mirror ` set new"
      by (auto simp: cell_def new_row_def mirror_def image_image)
    ultimately show ?thesis using d(4) n new(1,5) by (simp add: image_Un)
  qed
  ultimately show ?thesis using db new by (auto simp: synced_def)
qed

subsection \<open>Reloading\<close>

lemma load_rows:
  assumes "\<forall>r\<in>set rs. row_json r \<noteq> None"
  shows "map (\<lambda>e. (UpdateID e, Some (Update e))) (items (fold (load_row io) rs q)) =
      map (\<lambda>e. (UpdateID e, Some (Update e))) (items q) @ map cell rs \<and>
    consumerOffset (fold (load_row io) rs q) = consumerOffset q \<and>
    maxsize (fold (load_row io) rs q) = maxsize q \<and> botAlias (fold (load_row io) rs q) = botAlias q \<and>
    seen (fold (load_row io) rs q) = seen q \<union> row_id ` set rs \<and>
    qhealth (fold (load_row io) rs q) = qhealth q"
  using assms
proof (induction rs arbitrary: q)
  case Nil
  then show ?case by simp
next
  case (Cons r rs)
  then obtain u where u: "row_json r = Some u" by auto
  have "map (\<lambda>e. (UpdateID e, Some (Update e))) (items (load_row io r q)) =
      map (\<lambda>e. (UpdateID e, Some (Update e))) (items q) @ [cell r]"
    "consumerOffset (load_row io r q) = consumerOffset q" "qhealth (load_row io r q) = qhealth q"
    "maxsize (load_row io r q) = maxsize q" "botAlias (load_row io r q) = botAlias q"
    "seen (load_row io r q) = insert (row_id r) (seen q)"
    by (simp_all add: load_row_def u case_prod_unfold Let_def cell_def)
  with Cons show ?case by simp
qed

lemma map_fst_set_unique:
  assumes "map fst xs = map fst ys" "set xs = set ys" "distinct (map fst xs)"
  shows "xs = ys"
proof -
  have "map_of xs = map_of ys" using assms by (metis map_of_inject_set)
  moreover have "zs = map (\<lambda>k. (k, the (map_of zs k))) (map fst zs)" if "distinct (map fst zs)"
    for zs :: "('a \<times> 'b) list"
    using that by (auto intro!: map_idI [symmetric] simp: map_of_is_SomeI)
  ultimately show ?thesis using assms by metis
qed

text \<open>The rows that a reload selects, in the order of their ids, are the visible updates.\<close>

lemma sorted_cells:
  assumes "synced q" "queue_inv q" "sorted_wrt (<) (map UpdateID (items q))" "qdb q = Some d"
  shows "map cell (sort_key row_id (unacked_rows (botAlias q) (consumerOffset q) d)) = map mirror (visible q)"
proof (rule map_fst_set_unique)
  let ?R = "unacked_rows (botAlias q) (consumerOffset q) d"
  have d: "db_inv d" "cell ` set ?R = mirror ` set (visible q)"
    using assms(1,4) by (auto simp: synced_def)
  have fst_cell: "fst \<circ> cell = row_id" "fst \<circ> mirror = UpdateID"
    by (auto simp: cell_def mirror_def)
  have dist: "distinct (map row_id (sort_key row_id ?R))"
    using unacked_distinct [OF d(1)] by (simp add: distinct_map)
  then show "distinct (map fst (map cell (sort_key row_id ?R)))"
    by (simp add: fst_cell)
  show "set (map cell (sort_key row_id ?R)) = set (map mirror (visible q))" using d(2) by simp
  have "sorted_wrt (<) (map UpdateID (visible q))"
    using assms(3) by (simp add: sorted_wrt_map sorted_wrt_filter)
  then have v: "sorted (map UpdateID (visible q))" "distinct (map UpdateID (visible q))"
    by (auto simp: strict_sorted_iff)
  have "set (map row_id (sort_key row_id ?R)) = fst ` cell ` set ?R" by (auto simp: cell_def image_image)
  also have "\<dots> = set (map UpdateID (visible q))" by (simp only: d(2)) (auto simp: mirror_def image_image)
  finally show "map fst (map cell (sort_key row_id ?R)) = map fst (map mirror (visible q))"
    using sorted_distinct_set_unique [OF _ dist v] by (simp add: fst_cell)
qed

definition load_ok :: "load_io \<Rightarrow> bool" where
  "load_ok io \<longleftrightarrow> offset_ok io \<and> rows_ok io \<and> load_delete_ok io \<and> count_ok io"

text \<open>No row is beyond its lifetime when the queue is opened again.\<close>

definition rows_live :: "load_io \<Rightarrow> rat \<Rightarrow> queue_db \<Rightarrow> bool" where
  "rows_live io ttl d \<longleftrightarrow>
     (\<forall>r\<in>set (update_queue d). row_at r > (if ttl > 0 then cutoff_wall io - ttl else 0))"

lemma reopen:
  assumes "synced q" "queue_inv q" "sorted_wrt (<) (map UpdateID (items q))" "qdb q = Some d"
    and "load_ok io" "rows_live io ttl d" "persistPath \<noteq> []"
  shows "\<exists>q'. OpenQueue io (maxsize q) ovf ttl persistPath (botAlias q) (Inr d) h = Inr q' \<and>
    map (\<lambda>e. (UpdateID e, Some (Update e))) (items q') = map mirror (visible q) \<and>
    consumerOffset q' = consumerOffset q \<and> unloadedBacklog q' = 0 \<and> qhealth q' = h \<and>
    maxsize q' = maxsize q \<and> botAlias q' = botAlias q \<and> seen q' = UpdateID ` set (items q') \<and>
    qdb q' = Some (delete_acked (botAlias q) (consumerOffset q) d)"
proof -
  let ?a = "botAlias q" and ?off = "consumerOffset q"
  let ?q0 = "\<lparr>maxsize = maxsize q, overflow = ovf, ttlS = ttl, items = [], seen = {},
     consumerOffset = ?off, epoch = 0, dropped = 0, expired = 0, qdb = Some d,
     botAlias = ?a, unloadedBacklog = 0, qhealth = h\<rparr>"
  let ?R = "unacked_rows ?a ?off d"
  have so: "stored_offset ?a d = ?off" using assms(1,4) by (auto simp: synced_def)
  have live: "filter (\<lambda>r. row_at r > (if ttl > 0 then cutoff_wall io - ttl else 0)) ?R = ?R"
    using assms(6) by (intro filter_True) (auto simp: rows_live_def unacked_rows_def)
  have cells: "map cell (sort_key row_id ?R) = map mirror (visible q)"
    by (rule sorted_cells [OF assms(1-4)])
  have len: "length ?R = length (visible q)" using arg_cong [OF cells, of length] by simp
  also have "\<dots> \<le> length (items q)" by simp
  finally have "int (length ?R) \<le> maxsize q" "0 \<le> maxsize q"
    using assms(2) by (auto simp: queue_inv_def)
  then have lim: "limit_rows (maxsize q) (sort_key row_id ?R) = sort_key row_id ?R"
    by (simp add: limit_rows_def)
  have some: "\<forall>r\<in>set (sort_key row_id ?R). row_json r \<noteq> None"
  proof
    fix r assume "r \<in> set (sort_key row_id ?R)"
    then have "cell r \<in> set (map mirror (visible q))" unfolding cells [symmetric] by simp
    then show "row_json r \<noteq> None" by (auto simp: cell_def mirror_def)
  qed
  note l = load_rows [OF some, of io ?q0]
  have len': "length (items (fold (load_row io) (sort_key row_id ?R) ?q0)) = length ?R"
    using l by (metis (no_types, lifting) append_Nil length_map length_sort list.map(1) queue.select_convs(4))
  have rest: "unacked_rows ?a ?off (delete_acked ?a ?off d) = ?R"
    by (auto simp: unacked_rows_def delete_acked_def intro!: filter_cong)
  have start: "(case (offset_ok io, map_of (consumer_offsets d) ?a) of
      (True, Some n) \<Rightarrow> (?q0\<lparr>consumerOffset := 0\<rparr>)\<lparr>consumerOffset := n\<rparr> | _ \<Rightarrow> ?q0\<lparr>consumerOffset := 0\<rparr>) = ?q0"
    using so assms(5) by (auto simp: stored_offset_def load_ok_def split: option.splits)
  have "loadFromDB io d (?q0\<lparr>consumerOffset := 0\<rparr>) =
      (fold (load_row io) (sort_key row_id ?R) ?q0)\<lparr>qdb := Some (delete_acked ?a ?off d), unloadedBacklog := 0\<rparr>"
    using assms(5) start live lim len' rest unfolding loadFromDB_def Let_def
    by (cases "ttl > 0") (simp_all add: load_ok_def)
  moreover have "row_id ` set ?R = UpdateID ` set (items (fold (load_row io) (sort_key row_id ?R) ?q0))"
  proof -
    have "fst ` set (map cell (sort_key row_id ?R)) =
        fst ` set (map (\<lambda>e. (UpdateID e, Some (Update e))) (items (fold (load_row io) (sort_key row_id ?R) ?q0)))"
      using l by simp
    then show ?thesis by (simp add: image_image cell_def)
  qed
  ultimately show ?thesis using assms(7) l cells by (simp add: OpenQueue_def Let_def)
qed

text \<open>What a reopened queue has, it has again: the invariant, the order and the mirror.\<close>

lemma named_by_decoded: "named_by i u \<Longrightarrow> named_by i (decoded_obj u)"
proof -
  have "go_int (decoded v)" for v by (cases v) (auto simp: go_int_def split: option.split)
  then show "named_by i u \<Longrightarrow> named_by i (decoded_obj u)"
    by (simp add: named_by_def obj_get_decoded toInt64_decoded)
qed

lemma reopened_inv:
  assumes "queue_inv q" "sorted_wrt (<) (map UpdateID (items q))" "synced q" "qdb q = Some d"
    and m: "map (\<lambda>e. (UpdateID e, Some (Update e))) (items q') = map mirror (visible q)"
    and f: "consumerOffset q' = consumerOffset q" "maxsize q' = maxsize q" "botAlias q' = botAlias q"
      "seen q' = UpdateID ` set (items q')" "qdb q' = Some (delete_acked (botAlias q) (consumerOffset q) d)"
  shows "queue_inv q'" "sorted_wrt (<) (map UpdateID (items q'))" "synced q'"
proof -
  have ids: "map UpdateID (items q') = map UpdateID (visible q)"
    using arg_cong [OF m, of "map fst"] by (simp add: comp_def mirror_def)
  have sv: "sorted_wrt (<) (map UpdateID (visible q))"
    using assms(2) by (simp add: sorted_wrt_map sorted_wrt_filter)
  show s: "sorted_wrt (<) (map UpdateID (items q'))" using sv by (simp only: ids)
  have len: "length (items q') = length (visible q)" using arg_cong [OF m, of length] by simp
  have upd: "\<exists>e0\<in>set (visible q). UpdateID e = UpdateID e0 \<and> Update e = decoded_obj (Update e0)"
    if "e \<in> set (items q')" for e
  proof -
    have "(UpdateID e, Some (Update e)) \<in> set (map mirror (visible q))"
      unfolding m [symmetric] using that by simp
    then show ?thesis by (auto simp: mirror_def)
  qed
  have "named_by (UpdateID e) (Update e)" if "e \<in> set (items q')" for e
    using upd [OF that] assms(1) by (auto simp: queue_inv_def intro!: named_by_decoded)
  moreover have "int (length (items q')) \<le> maxsize q"
    using assms(1) length_filter_le [of "\<lambda>e. UpdateID e > consumerOffset q" "items q"]
    unfolding queue_inv_def len by linarith
  moreover have "distinct (map UpdateID (items q'))" using s by (simp add: strict_sorted_iff)
  ultimately show "queue_inv q'" using assms(1) f by (simp add: queue_inv_def)
  have "mirror ` set (visible q') = mirror ` set (visible q)"
  proof -
    have "mirror e = (UpdateID e, Some (Update e))" if "e \<in> set (items q')" for e
      using upd [OF that] by (auto simp: mirror_def)
    then have "mirror ` set (items q') = set (map (\<lambda>e. (UpdateID e, Some (Update e))) (items q'))"
      by (auto simp: image_iff)
    also have "\<dots> = mirror ` set (visible q)" by (simp only: m set_map)
    moreover have "visible q' = items q'"
      using upd f(1) by (intro filter_True) fastforce
    ultimately show ?thesis by simp
  qed
  moreover have "unacked_rows (botAlias q) (consumerOffset q) (delete_acked (botAlias q) (consumerOffset q) d) =
      unacked_rows (botAlias q) (consumerOffset q) d"
    by (auto simp: unacked_rows_def delete_acked_def intro!: filter_cong)
  ultimately show "synced q'"
    using assms(3,4) f db_inv_filter by (auto simp: synced_def delete_acked_def stored_offset_def)
qed

subsection \<open>Runs with restarts\<close>

text \<open>
  The steps of a persistent queue: in-order pushes that lose nothing, acknowledgements, and
  restarts of the gateway on the database file, all with working statements.
\<close>

inductive durable :: "queue \<Rightarrow> queue \<Rightarrow> bool" where
  push: "ascending_from (high (q, None)) us \<Longrightarrow> PushAll io us q = Some (q', PushOk) \<Longrightarrow>
    loss_count q' = loss_count q \<Longrightarrow> calm_io io \<Longrightarrow> none_stale io q \<Longrightarrow> durable q q'"
| ack: "int64 n \<Longrightarrow> ack_delete_err io = None \<Longrightarrow> ack_offset_err io = None \<Longrightarrow> durable q (Ack io n q)"
| restart: "qdb q = Some d \<Longrightarrow> load_ok lio \<Longrightarrow> rows_live lio ttl d \<Longrightarrow> path \<noteq> [] \<Longrightarrow>
    OpenQueue lio (maxsize q) ovf ttl path (botAlias q) (Inr d) h = Inr q' \<Longrightarrow> durable q q'"

definition durable_inv :: "queue \<Rightarrow> bool" where
  "durable_inv q \<longleftrightarrow> synced q \<and> queue_inv q \<and> sorted_wrt (<) (map UpdateID (items q))"

lemma Ack_sorted:
  "sorted_wrt (<) (map UpdateID (items q)) \<Longrightarrow> sorted_wrt (<) (map UpdateID (items (Ack io n q)))"
  by (simp add: Ack_def ack_mem_def Let_def sorted_wrt_map sorted_wrt_dropWhile filter_ack sorted_wrt_filter)

lemma durable_step_inv:
  assumes "durable q q'" "durable_inv q"
  shows "durable_inv q'"
  using assms
proof (induction rule: durable.induct)
  case (push q us io q')
  then show ?case using PushAll_synced [of q us io q'] by (simp add: durable_inv_def)
next
  case (ack n io q)
  then show ?case by (simp add: durable_inv_def Ack_synced Ack_inv Ack_sorted)
next
  case (restart q d lio ttl path ovf h q')
  then have i: "synced q" "queue_inv q" "sorted_wrt (<) (map UpdateID (items q))"
    by (auto simp: durable_inv_def)
  from reopen [OF i restart(1,2,3,4), of ovf h] restart(5)
  show ?case using reopened_inv [OF i(2,3,1) restart(1)] by (auto simp: durable_inv_def)
qed

lemma durable_run_inv: "durable\<^sup>*\<^sup>* q q' \<Longrightarrow> durable_inv q \<Longrightarrow> durable_inv q'"
  by (induction rule: rtranclp_induct) (auto intro: durable_step_inv)


definition disk_queue :: queue where
  "disk_queue = small_queue\<lparr>qdb := Some empty_db\<rparr>"

lemma disk_queue_inv: "durable_inv disk_queue"
  using small_queue_inv
  by (simp add: durable_inv_def synced_def disk_queue_def small_queue_def empty_db_def db_inv_def
      stored_offset_def unacked_rows_def queue_inv_def)


end
