(* ===== verification/Idempotency.thy ===== *)
theory Idempotency
  imports Prelude
begin

text \<open>
  The table \<^verbatim>\<open>idempotency_keys\<close> and the three statements both stores run on it
  (\<^verbatim>\<open>store/gateway.go\<close> and \<^verbatim>\<open>store/mt.go\<close> have the same SQL): claim, finish, fail. A row is an
  association from the primary key \<open>(alias, key)\<close> to its state and time. Whether each statement
  succeeds is an argument. The locale \<open>send_guard\<close> is the contract the send paths rely on; the
  stores interpret it.
\<close>

definition IdempotencyTTL :: rat where
  "IdempotencyTTL = 300"

definition StalePendingS :: rat where
  "StalePendingS = 60"

datatype idem_state = Pending | Done

datatype verdict = Claimed | Reclaimed | Replay

type_synonym idem_table = "((string \<times> string) \<times> (idem_state \<times> rat)) list"

record claim_io =
  claim_delete_ok :: bool
  claim_insert_ok :: bool
  claim_update_ok :: bool

definition idem_delete :: "string \<Rightarrow> string \<Rightarrow> (idem_state \<times> rat \<Rightarrow> bool) \<Rightarrow> idem_table \<Rightarrow> idem_table" where
  "idem_delete alias key P tab = filter (\<lambda>(i, r). \<not> (i = (alias, key) \<and> P r)) tab"

definition idem_update ::
  "string \<Rightarrow> string \<Rightarrow> (idem_state \<times> rat \<Rightarrow> bool) \<Rightarrow> (idem_state \<times> rat \<Rightarrow> idem_state \<times> rat) \<Rightarrow> idem_table \<Rightarrow> idem_table"
where
  "idem_update alias key P f tab = map (\<lambda>(i, r). (i, if i = (alias, key) \<and> P r then f r else r)) tab"

definition stale_claim :: "rat \<Rightarrow> (idem_state \<times> rat) option \<Rightarrow> bool" where
  "stale_claim now row = (case row of Some (Pending, seen) \<Rightarrow> seen < now - StalePendingS | _ \<Rightarrow> False)"

definition idem_claim :: "claim_io \<Rightarrow> rat \<Rightarrow> string \<Rightarrow> string \<Rightarrow> idem_table \<Rightarrow> idem_table \<times> verdict" where
  "idem_claim io now alias key tab =
     (let t1 = (if claim_delete_ok io
                then idem_delete alias key (\<lambda>(st, seen). seen < now - IdempotencyTTL) tab else tab)
      in if claim_insert_ok io \<and> map_of t1 (alias, key) = None
         then (t1 @ [((alias, key), (Pending, now))], Claimed)
         else if claim_update_ok io \<and>
             stale_claim now (map_of t1 (alias, key))
         then (idem_update alias key (\<lambda>(st, seen). st = Pending \<and> seen < now - StalePendingS)
                 (\<lambda>(st, seen). (st, now)) t1, Reclaimed)
         else (t1, Replay))"

definition idem_finish :: "bool \<Rightarrow> rat \<Rightarrow> string \<Rightarrow> string \<Rightarrow> idem_table \<Rightarrow> idem_table" where
  "idem_finish ok now alias key tab =
     (if ok then idem_update alias key (\<lambda>_. True) (\<lambda>_. (Done, now)) tab else tab)"

definition idem_fail :: "bool \<Rightarrow> string \<Rightarrow> string \<Rightarrow> idem_table \<Rightarrow> idem_table" where
  "idem_fail ok alias key tab =
     (if ok then idem_delete alias key (\<lambda>(st, seen). st = Pending) tab else tab)"

lemma stale_claim_iff: "stale_claim now row \<longleftrightarrow> (\<exists>seen. row = Some (Pending, seen) \<and> seen < now - StalePendingS)"
  by (auto simp: stale_claim_def split: option.splits idem_state.splits)

definition idem_inv :: "idem_table \<Rightarrow> bool" where
  "idem_inv tab \<longleftrightarrow> distinct (map fst tab)"

subsection \<open>Reading the table after each statement\<close>

lemma map_of_idem_delete:
  "idem_inv tab \<Longrightarrow> map_of (idem_delete a k P tab) i =
    (case map_of tab i of None \<Rightarrow> None | Some r \<Rightarrow> if i = (a, k) \<and> P r then None else Some r)"
proof (induction tab)
  case Nil
  then show ?case by (simp add: idem_delete_def)
next
  case (Cons x tab)
  obtain j r where x: "x = (j, r)" by (cases x)
  have "map_of tab j = None" using Cons.prems by (simp add: x idem_inv_def map_of_eq_None_iff)
  moreover have "map_of (idem_delete a k P tab) i =
      (case map_of tab i of None \<Rightarrow> None | Some r \<Rightarrow> if i = (a, k) \<and> P r then None else Some r)"
    using Cons by (simp add: idem_inv_def)
  ultimately show ?case by (auto simp: x idem_delete_def split: option.splits)
qed

lemma map_of_idem_update:
  "map_of (idem_update a k P f tab) i =
    map_option (\<lambda>r. if i = (a, k) \<and> P r then f r else r) (map_of tab i)"
  by (induction tab) (auto simp: idem_update_def)

lemma fst_idem_update: "map fst (idem_update a k P f tab) = map fst tab"
  by (simp add: idem_update_def case_prod_unfold comp_def)

lemma idem_delete_inv [gw_inv]: "idem_inv tab \<Longrightarrow> idem_inv (idem_delete a k P tab)"
  by (auto simp: idem_inv_def idem_delete_def distinct_map inj_on_def)

lemma idem_update_inv [gw_inv]: "idem_inv tab \<Longrightarrow> idem_inv (idem_update a k P f tab)"
  by (simp add: idem_inv_def fst_idem_update)

lemma idem_claim_inv [gw_inv]: "idem_inv tab \<Longrightarrow> idem_inv (fst (idem_claim io now a k tab))"
proof -
  have "idem_inv (t @ [((a, k), r)])" if "idem_inv t" "map_of t (a, k) = None" for t r
    using that by (auto simp: idem_inv_def map_of_eq_None_iff)
  then show "idem_inv tab \<Longrightarrow> idem_inv (fst (idem_claim io now a k tab))"
    by (auto simp: idem_claim_def Let_def idem_delete_inv idem_update_inv)
qed

lemma idem_finish_inv [gw_inv]: "idem_inv tab \<Longrightarrow> idem_inv (idem_finish ok now a k tab)"
  by (simp add: idem_finish_def idem_update_inv)

lemma idem_fail_inv [gw_inv]: "idem_inv tab \<Longrightarrow> idem_inv (idem_fail ok a k tab)"
  by (simp add: idem_fail_def idem_delete_inv)

lemma idem_claim_cases:
  assumes "idem_inv tab"
  shows "map_of (fst (idem_claim io now a k tab)) j = (if j \<noteq> (a, k) then map_of tab j else
      (case snd (idem_claim io now a k tab) of
         Replay \<Rightarrow> (case map_of tab j of
            None \<Rightarrow> None
          | Some (st, seen) \<Rightarrow> if claim_delete_ok io \<and> seen < now - IdempotencyTTL then None else Some (st, seen))
       | _ \<Rightarrow> Some (Pending, now)))"
    and "snd (idem_claim io now a k tab) =
      (let live = (case map_of tab (a, k) of
            None \<Rightarrow> None
          | Some (st, seen) \<Rightarrow> if claim_delete_ok io \<and> seen < now - IdempotencyTTL then None else Some (st, seen))
       in if claim_insert_ok io \<and> live = None then Claimed
          else if claim_update_ok io \<and> (\<exists>seen. live = Some (Pending, seen) \<and> seen < now - StalePendingS)
          then Reclaimed else Replay)"
  using assms
  by (auto simp: idem_claim_def stale_claim_iff Let_def map_of_idem_delete map_of_idem_update map_add_def split: option.splits if_splits)

subsection \<open>The contract\<close>

text \<open>What requests may do to the keys, at any time and with any statement failing.\<close>

datatype guard_op =
  Claim claim_io rat string string
| Finish bool rat string string
| Fail bool string string

fun op_key :: "guard_op \<Rightarrow> string \<times> string" where
  "op_key (Claim io now a k) = (a, k)"
| "op_key (Finish b now a k) = (a, k)"
| "op_key (Fail b a k) = (a, k)"

text \<open>While a send is under way, its key sees only other claims, none later than \<open>t\<close>.\<close>

fun claims_until :: "rat \<Rightarrow> guard_op \<Rightarrow> bool" where
  "claims_until t (Claim io now a k) = (now \<le> t)"
| "claims_until t _ = False"

text \<open>After it is finished: claims until \<open>t + 300\<close>, failures, and finishes not before \<open>t\<close>.\<close>

fun after_finish :: "rat \<Rightarrow> guard_op \<Rightarrow> bool" where
  "after_finish t (Claim io now a k) = (now \<le> t + 300)"
| "after_finish t (Finish b now a k) = (t \<le> now)"
| "after_finish t (Fail b a k) = True"

locale send_guard =
  fixes ok :: "'s \<Rightarrow> bool"
    and peek :: "'s \<Rightarrow> string \<Rightarrow> string \<Rightarrow> (idem_state \<times> rat) option"
    and claim :: "claim_io \<Rightarrow> rat \<Rightarrow> string \<Rightarrow> string \<Rightarrow> 's \<Rightarrow> 's \<times> verdict"
    and finish :: "bool \<Rightarrow> rat \<Rightarrow> string \<Rightarrow> string \<Rightarrow> 's \<Rightarrow> 's"
    and fail :: "bool \<Rightarrow> string \<Rightarrow> string \<Rightarrow> 's \<Rightarrow> 's"
  assumes ok_claim: "ok s \<Longrightarrow> ok (fst (claim io now a k s))"
    and ok_finish: "ok s \<Longrightarrow> ok (finish b now a k s)"
    and ok_fail: "ok s \<Longrightarrow> ok (fail b a k s)"
    and claim_other: "ok s \<Longrightarrow> (a', k') \<noteq> (a, k) \<Longrightarrow>
      peek (fst (claim io now a k s)) a' k' = peek s a' k'"
    and claim_live: "ok s \<Longrightarrow> peek s a k = Some (st, t) \<Longrightarrow> now \<le> t + 300 \<Longrightarrow> st = Done \<or> now \<le> t + 60 \<Longrightarrow>
      snd (claim io now a k s) = Replay \<and> peek (fst (claim io now a k s)) a k = Some (st, t)"
    and claim_free: "ok s \<Longrightarrow> peek s a k = None \<Longrightarrow> claim_insert_ok io \<Longrightarrow>
      snd (claim io now a k s) = Claimed \<and> peek (fst (claim io now a k s)) a k = Some (Pending, now)"
    and claim_expired: "ok s \<Longrightarrow> peek s a k = Some (st, t) \<Longrightarrow> t + 300 < now \<Longrightarrow>
      claim_delete_ok io \<Longrightarrow> claim_insert_ok io \<Longrightarrow>
      snd (claim io now a k s) = Claimed \<and> peek (fst (claim io now a k s)) a k = Some (Pending, now)"
    and claim_granted: "ok s \<Longrightarrow> snd (claim io now a k s) \<noteq> Replay \<Longrightarrow>
      peek (fst (claim io now a k s)) a k = Some (Pending, now)"
    and finish_law: "ok s \<Longrightarrow> peek (finish True now a k s) a' k' =
      (if (a', k') = (a, k) then map_option (\<lambda>_. (Done, now)) (peek s a' k') else peek s a' k')"
    and fail_law: "ok s \<Longrightarrow> peek (fail True a k s) a' k' =
      (if (a', k') = (a, k) \<and> (\<exists>t. peek s a' k' = Some (Pending, t)) then None else peek s a' k')"
    and finish_lost: "finish False now a k s = s"
    and fail_lost: "fail False a k s = s"
begin

fun op_exec :: "guard_op \<Rightarrow> 's \<Rightarrow> 's" where
  "op_exec (Claim io now a k) s = fst (claim io now a k s)"
| "op_exec (Finish b now a k) s = finish b now a k s"
| "op_exec (Fail b a k) s = fail b a k s"

fun op_granted :: "guard_op \<Rightarrow> 's \<Rightarrow> bool" where
  "op_granted (Claim io now a k) s = (snd (claim io now a k s) \<noteq> Replay)"
| "op_granted _ s = False"

fun ops_run :: "guard_op list \<Rightarrow> 's \<Rightarrow> 's" where
  "ops_run [] s = s"
| "ops_run (x # xs) s = ops_run xs (op_exec x s)"

fun grants :: "string \<Rightarrow> string \<Rightarrow> guard_op list \<Rightarrow> 's \<Rightarrow> nat" where
  "grants a k [] s = 0"
| "grants a k (x # xs) s =
     (if op_key x = (a, k) \<and> op_granted x s then 1 else 0) + grants a k xs (op_exec x s)"

lemma grants_append: "grants a k (xs @ ys) s = grants a k xs s + grants a k ys (ops_run xs s)"
  by (induction xs arbitrary: s) auto

lemma ok_exec: "ok s \<Longrightarrow> ok (op_exec x s)"
  by (cases x) (auto simp: ok_claim ok_finish ok_fail)

lemma exec_other:
  assumes "ok s" "op_key x \<noteq> (a, k)"
  shows "peek (op_exec x s) a k = peek s a k"
proof (cases x)
  case (Claim io now a' k')
  with assms show ?thesis by (auto intro: claim_other)
next
  case (Finish b now a' k')
  with assms show ?thesis by (cases b) (auto simp: finish_law finish_lost)
next
  case (Fail b a' k')
  with assms show ?thesis by (cases b) (auto simp: fail_law fail_lost)
qed

lemma pending_excludes:
  assumes "ok s" "peek s a k = Some (Pending, t)"
    and "\<forall>x\<in>set xs. op_key x = (a, k) \<longrightarrow> claims_until (t + 60) x"
  shows "grants a k xs s = 0 \<and> ok (ops_run xs s) \<and> peek (ops_run xs s) a k = Some (Pending, t)"
  using assms
proof (induction xs arbitrary: s)
  case Nil
  then show ?case by simp
next
  case (Cons x xs)
  have "\<not> (op_key x = (a, k) \<and> op_granted x s) \<and> peek (op_exec x s) a k = Some (Pending, t)"
  proof (cases "op_key x = (a, k)")
    case True
    with Cons.prems(3) obtain io now where "x = Claim io now a k" "now \<le> t + 60"
      by (cases x) auto
    with claim_live [OF Cons.prems(1,2), of now] show ?thesis by simp
  next
    case False
    with Cons.prems exec_other show ?thesis by simp
  qed
  with Cons show ?case by (simp add: ok_exec)
qed

lemma done_suppresses:
  assumes "ok s" "peek s a k = Some (Done, u)" "t \<le> u"
    and "\<forall>x\<in>set xs. op_key x = (a, k) \<longrightarrow> after_finish t x"
  shows "grants a k xs s = 0"
  using assms
proof (induction xs arbitrary: s u)
  case Nil
  then show ?case by simp
next
  case (Cons x xs)
  have "\<not> (op_key x = (a, k) \<and> op_granted x s) \<and> (\<exists>v. t \<le> v \<and> peek (op_exec x s) a k = Some (Done, v))"
  proof (cases "op_key x = (a, k)")
    case True
    show ?thesis
    proof (cases x)
      case (Claim io now a' k')
      with True Cons.prems have "now \<le> u + 300" by auto
      with Claim True claim_live [OF Cons.prems(1,2), of now io] Cons.prems(3) show ?thesis by auto
    next
      case (Finish b now a' k')
      with True Cons.prems show ?thesis by (cases b) (auto simp: finish_law finish_lost)
    next
      case (Fail b a' k')
      with True Cons.prems show ?thesis by (cases b) (auto simp: fail_law fail_lost)
    qed
  next
    case False
    with Cons.prems exec_other show ?thesis by auto
  qed
  with Cons.IH [OF ok_exec [OF Cons.prems(1)]] Cons.prems(4) show ?case by auto
qed

lemma at_most_once:
  assumes "ok s" "snd (claim io t0 a k s) \<noteq> Replay"
    and "\<forall>x\<in>set before. op_key x = (a, k) \<longrightarrow> claims_until (t0 + 60) x"
    and "\<forall>x\<in>set after. op_key x = (a, k) \<longrightarrow> after_finish t1 x"
  shows "grants a k (before @ Finish True t1 a k # after) (fst (claim io t0 a k s)) = 0"
proof -
  let ?s = "fst (claim io t0 a k s)"
  have p: "grants a k before ?s = 0" "ok (ops_run before ?s)"
      "peek (ops_run before ?s) a k = Some (Pending, t0)"
    using pending_excludes [OF ok_claim [OF assms(1)] claim_granted [OF assms(1,2)] assms(3)] by auto
  have "grants a k after (finish True t1 a k (ops_run before ?s)) = 0"
    using p by (intro done_suppresses [OF ok_finish _ order_refl assms(4)]) (simp_all add: finish_law)
  with p show ?thesis by (simp add: grants_append)
qed

lemma failed_is_released:
  assumes "ok s" "snd (claim io t0 a k s) \<noteq> Replay"
    and "\<forall>x\<in>set xs. op_key x = (a, k) \<longrightarrow> claims_until (t0 + 60) x" "claim_insert_ok io'"
  shows "snd (claim io' t1 a k (fail True a k (ops_run xs (fst (claim io t0 a k s))))) = Claimed"
  using pending_excludes [OF ok_claim [OF assms(1)] claim_granted [OF assms(1,2)] assms(3)] assms(4)
  by (simp add: claim_free fail_law ok_fail)

end

text \<open>The table itself keeps the contract.\<close>

lemma idem_claim_laws:
  assumes "idem_inv tab"
  shows "(a', k') \<noteq> (a, k) \<Longrightarrow> map_of (fst (idem_claim io now a k tab)) (a', k') = map_of tab (a', k')"
    and "map_of tab (a, k) = Some (st, t) \<Longrightarrow> now \<le> t + 300 \<Longrightarrow> st = Done \<or> now \<le> t + 60 \<Longrightarrow>
      snd (idem_claim io now a k tab) = Replay \<and> map_of (fst (idem_claim io now a k tab)) (a, k) = Some (st, t)"
    and "map_of tab (a, k) = None \<Longrightarrow> claim_insert_ok io \<Longrightarrow>
      snd (idem_claim io now a k tab) = Claimed \<and> map_of (fst (idem_claim io now a k tab)) (a, k) = Some (Pending, now)"
    and "map_of tab (a, k) = Some (st, t) \<Longrightarrow> t + 300 < now \<Longrightarrow> claim_delete_ok io \<Longrightarrow> claim_insert_ok io \<Longrightarrow>
      snd (idem_claim io now a k tab) = Claimed \<and> map_of (fst (idem_claim io now a k tab)) (a, k) = Some (Pending, now)"
  using assms
  by (auto simp: idem_claim_cases Let_def IdempotencyTTL_def StalePendingS_def split: verdict.splits)

lemma idem_claim_granted:
  "idem_inv tab \<Longrightarrow> snd (idem_claim io now a k tab) \<noteq> Replay \<Longrightarrow>
     map_of (fst (idem_claim io now a k tab)) (a, k) = Some (Pending, now)"
  by (cases "snd (idem_claim io now a k tab)") (simp_all add: idem_claim_cases(1))

lemma idem_finish_law:
  "map_of (idem_finish True now a k tab) (a', k') =
     (if (a', k') = (a, k) then map_option (\<lambda>_. (Done, now)) (map_of tab (a', k')) else map_of tab (a', k'))"
  by (cases "map_of tab (a', k')") (auto simp: idem_finish_def map_of_idem_update)

lemma idem_fail_law:
  "idem_inv tab \<Longrightarrow> map_of (idem_fail True a k tab) (a', k') =
     (if (a', k') = (a, k) \<and> (\<exists>t. map_of tab (a', k') = Some (Pending, t)) then None else map_of tab (a', k'))"
  by (auto simp: idem_fail_def map_of_idem_delete split: option.splits)

text \<open>So does any store that keeps the table in a field of its state.\<close>

lemma table_send_guard:
  assumes [simp]: "\<And>t s. tab (put t s) = t" and "\<And>s. put (tab s) s = s"
  shows "send_guard (\<lambda>s. idem_inv (tab s)) (\<lambda>s a k. map_of (tab s) (a, k))
    (\<lambda>io now a k s. (put (fst (idem_claim io now a k (tab s))) s, snd (idem_claim io now a k (tab s))))
    (\<lambda>b now a k s. put (idem_finish b now a k (tab s)) s)
    (\<lambda>b a k s. put (idem_fail b a k (tab s)) s)"
proof (unfold_locales, goal_cases)
  case (8 s io now a k)
  then show ?case by (simp add: idem_claim_granted)
next
  case (10 s a k a' k')
  then show ?case by (simp only: assms(1) idem_fail_law)
next
  case (9 s now a k a' k')
  then show ?case by (simp only: assms(1) idem_finish_law)
qed (use assms idem_claim_laws in \<open>simp_all add: gw_inv idem_finish_def idem_fail_def\<close>)

end
