(* ===== verification/Crypto.thy ===== *)
theory Crypto
  imports Prelude
begin

text \<open>
  \<^verbatim>\<open>internal/cryptoutil/fernet.go\<close>: the key of a data directory, token encryption and the envelope
  of at-rest blobs. The Fernet library is a parameter (a record of the functions the source
  calls; encryption takes the random IV as an argument). What the source relies on is stated
  as \<open>fernet_ok\<close>: decryption inverts encryption under the same key, an encoded key decodes to
  itself and has no surrounding white space.
\<close>

record 'k fernet_lib =
  DecodeKey :: "string \<Rightarrow> 'k option"
  EncodeKey :: "'k \<Rightarrow> string"
  EncryptAndSign :: "nat \<Rightarrow> string \<Rightarrow> 'k \<Rightarrow> string option"
  VerifyAndDecrypt :: "string \<Rightarrow> 'k \<Rightarrow> string option"

definition fernet_ok :: "'k fernet_lib \<Rightarrow> bool" where
  "fernet_ok F \<longleftrightarrow>
     (\<forall>iv p k t. EncryptAndSign F iv p k = Some t \<longrightarrow> VerifyAndDecrypt F t k = Some p) \<and>
     (\<forall>k. DecodeKey F (EncodeKey F k) = Some k) \<and>
     (\<forall>k. trim_space (EncodeKey F k) = EncodeKey F k)"

datatype crypto_error =
  ExplicitKeyInvalid
| KeyFileInvalid
| GenerateFailed
| KeyWriteFailed
| EncryptFailed
| SealedBlobFailed

text \<open>
  \<open>LoadKey\<close>: the file is its contents, \<open>None\<close> when it cannot be read; the generated key and the
  outcome of the write are arguments. The result is the box (its key) and the file afterwards.
\<close>

definition LoadKey ::
  "'k fernet_lib \<Rightarrow> string \<Rightarrow> string option \<Rightarrow> 'k option \<Rightarrow> bool \<Rightarrow> (crypto_error + 'k) \<times> string option"
where
  "LoadKey F explicit file generated write_ok =
     (if explicit \<noteq> [] then
        (case DecodeKey F explicit of
           None \<Rightarrow> (Inl ExplicitKeyInvalid, file)
         | Some k \<Rightarrow> (Inr k, file))
      else case file of
          Some raw \<Rightarrow>
            (case DecodeKey F (trim_space raw) of
               None \<Rightarrow> (Inl KeyFileInvalid, file)
             | Some k \<Rightarrow> (Inr k, file))
        | None \<Rightarrow>
            (case generated of
               None \<Rightarrow> (Inl GenerateFailed, file)
             | Some k \<Rightarrow>
                 if write_ok then (Inr k, Some (EncodeKey F k)) else (Inl KeyWriteFailed, file)))"

definition Encrypt :: "'k fernet_lib \<Rightarrow> nat \<Rightarrow> 'k \<Rightarrow> string \<Rightarrow> crypto_error + string" where
  "Encrypt F iv k plain =
     (case EncryptAndSign F iv plain k of None \<Rightarrow> Inl EncryptFailed | Some t \<Rightarrow> Inr t)"

definition Decrypt :: "'k fernet_lib \<Rightarrow> 'k \<Rightarrow> string \<Rightarrow> string option" where
  "Decrypt F k token = VerifyAndDecrypt F token k"

definition GenerateKey :: "'k fernet_lib \<Rightarrow> 'k option \<Rightarrow> crypto_error + string" where
  "GenerateKey F generated =
     (case generated of None \<Rightarrow> Inl GenerateFailed | Some k \<Rightarrow> Inr (EncodeKey F k))"

definition blobEnvelopeV1 :: string where
  "blobEnvelopeV1 = ''tggw1:''"

definition SealBlob :: "'k fernet_lib \<Rightarrow> nat \<Rightarrow> 'k \<Rightarrow> string \<Rightarrow> crypto_error + string" where
  "SealBlob F iv k plain =
     (case Encrypt F iv k plain of
        Inl e \<Rightarrow> Inl e
      | Inr token \<Rightarrow> Inr (blobEnvelopeV1 @ token))"

definition OpenBlob :: "'k fernet_lib \<Rightarrow> 'k \<Rightarrow> string \<Rightarrow> crypto_error + string" where
  "OpenBlob F k blob =
     (if \<not> has_prefix blob blobEnvelopeV1 then Inr blob
      else case Decrypt F k (drop (length blobEnvelopeV1) blob) of
          None \<Rightarrow> Inl SealedBlobFailed
        | Some plain \<Rightarrow> Inr plain)"

definition IsSealed :: "string \<Rightarrow> bool" where
  "IsSealed blob \<longleftrightarrow> has_prefix blob blobEnvelopeV1"

lemma Encrypt_Decrypt: "fernet_ok F \<Longrightarrow> Encrypt F iv k p = Inr t \<Longrightarrow> Decrypt F k t = Some p"
  by (auto simp: fernet_ok_def Encrypt_def Decrypt_def split: option.splits)

text \<open>A small instance of the library: the key as a tag in front of the text.\<close>

definition tag_fernet :: "string fernet_lib" where
  "tag_fernet = \<lparr>
     DecodeKey = (\<lambda>s. if has_prefix s ''k'' \<and> has_prefix (rev s) ''k'' then Some (butlast (tl s)) else None),
     EncodeKey = (\<lambda>k. ''k'' @ k @ ''k''),
     EncryptAndSign = (\<lambda>iv p k. Some (k @ '':'' @ p)),
     VerifyAndDecrypt = (\<lambda>t k. if has_prefix t (k @ '':'') then Some (drop (length k + 1) t) else None)\<rparr>"

lemma has_prefix_append2 [simp]: "has_prefix (p @ c # r) (p @ [c])"
  using has_prefix_append [of "p @ [c]" r] by simp

lemma tag_fernet_ok: "fernet_ok tag_fernet"
  by (auto simp: fernet_ok_def tag_fernet_def trim_space_def is_space_def)

text \<open>
  At-rest sealing round trip: what \<open>SealBlob\<close> writes carries the envelope and \<open>OpenBlob\<close> with the
  same key gives the plaintext back; a legacy blob without the envelope opens as itself and its
  re-sealed form opens to the same text.
\<close>

lemma blob_round_trip:
  assumes "fernet_ok F" "SealBlob F iv k plain = Inr sealed"
  shows "IsSealed sealed \<and> OpenBlob F k sealed = Inr plain \<and>
    (\<not> IsSealed plain \<longrightarrow> OpenBlob F k plain = OpenBlob F k sealed)"
proof -
  obtain t where t: "Encrypt F iv k plain = Inr t" "sealed = blobEnvelopeV1 @ t"
    using assms(2) by (auto simp: SealBlob_def split: sum.splits)
  then have "OpenBlob F k sealed = Inr plain"
    using Encrypt_Decrypt [OF assms(1) t(1)] by (simp add: OpenBlob_def)
  then show ?thesis using t(2) by (simp add: IsSealed_def OpenBlob_def)
qed

text \<open>
  The key of a data directory is stable: when no key is configured, the first start generates
  one into the directory and every later start loads that same key, so the tokens encrypted under
  it still decrypt; without a configured key no start ever replaces the file.
\<close>

lemma key_survives_restart:
  assumes "fernet_ok F" "LoadKey F [] file g w = (Inr k, file')"
  shows "LoadKey F [] file' g' w' = (Inr k, file') \<and> (file \<noteq> None \<longrightarrow> file' = file)"
  using assms by (auto simp: LoadKey_def fernet_ok_def split: option.splits if_splits)

end
