(* ===== verification/Db.thy ===== *)
theory Db
  imports Health "HOL-Library.AList"
begin

text \<open>
  \<^verbatim>\<open>internal/store/db.go\<close>: pragmas, the boot integrity gate with quarantine and restore, the
  migration runner, backups with rotation and the maintenance pass.

  A file system is an association list from paths to files (contents and modification time).
  SQLite is a parameter: \<open>qc\<close> is the verdict of \<^verbatim>\<open>PRAGMA quick_check\<close> on a path, \<open>vac\<close> what
  \<^verbatim>\<open>VACUUM INTO\<close> writes. Outcomes of system calls are arguments. A glob pattern here is
  a directory, a literal prefix and a literal suffix, as all patterns of the source are
  (directories with glob meta-characters are not modelled).
\<close>

record 'c disk_file =
  bytes :: 'c
  mtime :: rat

type_synonym 'c fs = "(string \<times> 'c disk_file) list"

definition fs_put :: "string \<Rightarrow> 'c disk_file \<Rightarrow> 'c fs \<Rightarrow> 'c fs" where
  "fs_put p c f = AList.update p c f"

definition fs_remove :: "string \<Rightarrow> 'c fs \<Rightarrow> 'c fs" where
  "fs_remove p f = AList.delete p f"

definition fs_rename :: "string \<Rightarrow> string \<Rightarrow> 'c fs \<Rightarrow> 'c fs" where
  "fs_rename p p' f =
     (case map_of f p of None \<Rightarrow> f | Some c \<Rightarrow> fs_put p' c (fs_remove p f))"

lemma map_of_fs_put [simp]: "map_of (fs_put p c f) p' = (if p' = p then Some c else map_of f p')"
  by (simp add: fs_put_def update_conv')

lemma map_of_fs_remove [simp]: "map_of (fs_remove p f) p' = (if p' = p then None else map_of f p')"
  by (simp add: fs_remove_def delete_conv')

definition has_suffix :: "string \<Rightarrow> string \<Rightarrow> bool" where
  "has_suffix s t \<longleftrightarrow> has_prefix (rev s) (rev t)"

text \<open>\<^verbatim>\<open>filepath.Glob(dir + "/" + pre + "*" + suf)\<close>; the star does not cross a slash.\<close>

definition glob_match :: "string \<Rightarrow> string \<Rightarrow> string \<Rightarrow> string \<Rightarrow> bool" where
  "glob_match dir pre suf p \<longleftrightarrow>
     (let lead = dir @ ''/'' @ pre; rest = drop (length lead) p in
      has_prefix p lead \<and> has_suffix rest suf \<and> CHR ''/'' \<notin> set rest)"

definition glob :: "string \<Rightarrow> string \<Rightarrow> string \<Rightarrow> 'c fs \<Rightarrow> string list" where
  "glob dir pre suf f = filter (glob_match dir pre suf) (remdups (map fst f))"

subsection \<open>Pragmas\<close>

definition PragmaStatements :: "string \<Rightarrow> bool \<Rightarrow> string list" where
  "PragmaStatements durability foreignKeys =
     (let sync = (if to_lower durability = to_lower ''FULL'' then ''FULL'' else ''NORMAL'');
          stmts = [''PRAGMA journal_mode=WAL'', ''PRAGMA synchronous='' @ sync,
                   ''PRAGMA busy_timeout=5000'', ''PRAGMA wal_autocheckpoint=1000'']
      in if foreignKeys then stmts @ [''PRAGMA foreign_keys=ON''] else stmts)"

text \<open>
  \<open>Open\<close>: \<open>open_err\<close> and \<open>chmod_err\<close> are the errors of opening and of the permission change,
  \<open>exec_err\<close> the error of each statement. An answer is the first error, or success.
\<close>

definition Open ::
  "string option \<Rightarrow> (string \<Rightarrow> string option) \<Rightarrow> string option \<Rightarrow> string \<Rightarrow> string \<Rightarrow> bool \<Rightarrow> string + unit"
where
  "Open open_err exec_err chmod_err path durability foreignKeys =
     (case open_err of
        Some e \<Rightarrow> Inl e
      | None \<Rightarrow>
          (case find (\<lambda>st. exec_err st \<noteq> None) (PragmaStatements durability foreignKeys) of
             Some st \<Rightarrow> Inl (st @ '': '' @ the (exec_err st))
           | None \<Rightarrow>
               (case chmod_err of
                  Some e \<Rightarrow> Inl (''chmod '' @ path @ '': '' @ e)
                | None \<Rightarrow> Inr ())))"

subsection \<open>Boot integrity\<close>

type_synonym 'c checker = "'c fs \<Rightarrow> string \<Rightarrow> bool"

fun first_valid :: "'c checker \<Rightarrow> (string \<Rightarrow> bool) \<Rightarrow> 'c fs \<Rightarrow> string list \<Rightarrow> 'c disk_file option" where
  "first_valid qc read_ok f [] = None"
| "first_valid qc read_ok f (cand # cs) =
     (if qc f cand \<and> read_ok cand then map_of f cand else first_valid qc read_ok f cs)"

text \<open>The result is whether the restore succeeded; a failed write leaves \<open>torn\<close> at the path.\<close>

definition restoreNewestBackup ::
  "'c checker \<Rightarrow> (string \<Rightarrow> bool) \<Rightarrow> bool \<Rightarrow> 'c disk_file option \<Rightarrow> string \<Rightarrow> string \<Rightarrow> 'c fs \<Rightarrow> 'c fs \<times> bool"
where
  "restoreNewestBackup qc read_ok write_ok torn path backupsDir f =
     (if backupsDir = [] then (f, False)
      else
        let matches = rev (sort (glob backupsDir (filepathBase path @ ''-'') ''.db'' f)) in
        case first_valid qc read_ok f matches of
          None \<Rightarrow> (f, False)
        | Some c \<Rightarrow>
            if write_ok then (fs_put path c f, True)
            else (case torn of None \<Rightarrow> f | Some t \<Rightarrow> fs_put path t f, False))"

definition move_aside :: "(string \<Rightarrow> bool) \<Rightarrow> string \<Rightarrow> string \<Rightarrow> 'c fs \<Rightarrow> 'c fs" where
  "move_aside ok ts side f =
     (if map_of f side \<noteq> None \<and> ok side then fs_rename side (side @ ''.corrupt-'' @ ts) f else f)"

definition CheckOrQuarantine ::
  "'c checker \<Rightarrow> string \<Rightarrow> (string \<Rightarrow> bool) \<Rightarrow> (string \<Rightarrow> bool) \<Rightarrow> bool \<Rightarrow> 'c disk_file option \<Rightarrow>
    string \<Rightarrow> string \<Rightarrow> 'c fs \<times> Storage option \<Rightarrow> 'c fs \<times> Storage option"
where
  "CheckOrQuarantine qc ts rename_ok read_ok write_ok torn path backupsDir s =
     (let (f, h) = s in
      if map_of f path = None then s
      else if qc f path then s
      else if \<not> rename_ok path then s
      else
        let f1 = fs_rename path (path @ ''.corrupt-'' @ ts) f;
            f2 = fold (move_aside rename_ok ts) [path @ ''-wal'', path @ ''-shm''] f1
        in (fst (restoreNewestBackup qc read_ok write_ok torn path backupsDir f2),
            map_option (NoteQuarantine path) h))"

subsection \<open>Schema versions\<close>

record 'd schema_db =
  user_version :: int
  tables :: 'd

text \<open>
  A migration is the effect of its script on the tables, \<open>None\<close> when a statement fails; a
  transaction that does not commit leaves the database as it was.
\<close>

record tx_io =
  tx_begin_ok :: bool
  tx_bump_ok :: bool
  tx_commit_ok :: bool

definition applyMigration ::
  "tx_io \<Rightarrow> int \<Rightarrow> ('d \<Rightarrow> 'd option) \<Rightarrow> 'd schema_db \<Rightarrow> 'd schema_db \<times> bool"
where
  "applyMigration io version script d =
     (if \<not> tx_begin_ok io then (d, False)
      else case script (tables d) of
          None \<Rightarrow> (d, False)
        | Some t \<Rightarrow>
            if tx_bump_ok io \<and> tx_commit_ok io then (\<lparr>user_version = version, tables = t\<rparr>, True)
            else (d, False))"

definition sortedKeys :: "(int \<times> 'a) list \<Rightarrow> int list" where
  "sortedKeys m = sort (remdups (map fst m))"

text \<open>The migration loop carries \<^verbatim>\<open>have\<close>; a failing migration returns at once.\<close>

fun migrate_loop ::
  "(int \<Rightarrow> tx_io) \<Rightarrow> int \<Rightarrow> (int \<times> ('d \<Rightarrow> 'd option)) list \<Rightarrow> int list \<Rightarrow> int \<Rightarrow> 'd schema_db
    \<Rightarrow> ('d schema_db \<times> int) \<times> bool"
where
  "migrate_loop io current ms [] have d = ((d, have), True)"
| "migrate_loop io current ms (version # vs) have d =
     (if have < version \<and> version \<le> current then
        (case map_of ms version of
           None \<Rightarrow> ((d, have), False)
         | Some script \<Rightarrow>
             (case applyMigration (io version) version script d of
                (d', True) \<Rightarrow> migrate_loop io current ms vs version d'
              | (d', False) \<Rightarrow> ((d', have), False)))
      else migrate_loop io current ms vs have d)"

subsection \<open>Backups\<close>

text \<open>\<^verbatim>\<open>files[keep:]\<close> panics when there are fewer than \<open>keep\<close> files: \<open>None\<close>.\<close>

definition rotate :: "string \<Rightarrow> string \<Rightarrow> string \<Rightarrow> int \<Rightarrow> 'c fs \<Rightarrow> 'c fs option" where
  "rotate dir pre suf keep f =
     (let files = rev (sort (glob dir pre suf f)) in
      if keep < 0 \<or> keep > int (length files) then None
      else Some (fold fs_remove (drop (nat keep) files) f))"

definition backup_name :: "string \<Rightarrow> string \<Rightarrow> string \<Rightarrow> string" where
  "backup_name path backupsDir stamp = backupsDir @ ''/'' @ filepathBase path @ ''-'' @ stamp @ ''.db''"

text \<open>
  \<open>stamp\<close> is the time stamp, process id and milliseconds of the name; the answer is the
  destination, empty on failure.
\<close>

definition BackupDB ::
  "('c disk_file \<Rightarrow> 'c disk_file option) \<Rightarrow> string \<Rightarrow> string \<Rightarrow> string \<Rightarrow> int \<Rightarrow> 'c fs \<Rightarrow> ('c fs \<times> string) option"
where
  "BackupDB vac stamp path backupsDir keep f =
     (case map_of f path of
        None \<Rightarrow> Some (f, [])
      | Some c \<Rightarrow>
          let dest = backup_name path backupsDir stamp in
          case vac c of
            None \<Rightarrow> Some (fs_remove dest f, [])
          | Some c' \<Rightarrow>
              (case rotate backupsDir (filepathBase path @ ''-'') ''.db'' keep (fs_put dest c' f) of
                 None \<Rightarrow> None
               | Some f' \<Rightarrow> Some (f', dest)))"

subsection \<open>The migration runner\<close>

text \<open>
  \<open>EnsureSchema\<close>: \<open>read_ok\<close> and \<open>bump_ok\<close> are the outcomes of the two pragma statements, \<open>snap\<close> the
  snapshot taken before migrating, which may panic (\<open>None\<close>) and otherwise only writes backups.
\<close>

definition EnsureSchema ::
  "bool \<Rightarrow> bool \<Rightarrow> (int \<Rightarrow> tx_io) \<Rightarrow> ('c fs \<Rightarrow> 'c fs option) \<Rightarrow> int \<Rightarrow> (int \<times> ('d \<Rightarrow> 'd option)) list \<Rightarrow>
    string \<Rightarrow> string \<Rightarrow> 'c fs \<Rightarrow> 'd schema_db \<Rightarrow> ('c fs \<times> 'd schema_db \<times> bool) option"
where
  "EnsureSchema read_ok bump_ok io snap current ms dbPath backupsDir f d =
     (let have = user_version d; exists = map_of f dbPath \<noteq> None in
      if \<not> read_ok then Some (f, d, False)
      else if have = 0 \<and> exists then
        Some (f, if bump_ok then d\<lparr>user_version := current\<rparr> else d, bump_ok)
      else if have \<noteq> 0 \<and> have \<ge> current then Some (f, d, True)
      else case (if backupsDir \<noteq> [] \<and> exists then snap f else Some f) of
          None \<Rightarrow> None
        | Some f' \<Rightarrow>
            (case migrate_loop io current ms (sortedKeys ms) have d of
               ((d', h'), False) \<Rightarrow> Some (f', d', False)
             | ((d', h'), True) \<Rightarrow>
                 if h' < current
                 then Some (f', if bump_ok then d'\<lparr>user_version := current\<rparr> else d', bump_ok)
                 else Some (f', d', True)))"

subsection \<open>Maintenance\<close>

text \<open>The zero \<^verbatim>\<open>time.Time\<close>, in seconds of the Unix epoch.\<close>

definition zero_time :: rat where
  "zero_time = - 62135596800"

text \<open>The pattern \<^verbatim>\<open>*-*.db\<close>: a dash before the suffix.\<close>

definition any_backup :: "string \<Rightarrow> string \<Rightarrow> bool" where
  "any_backup dir p \<longleftrightarrow>
     (let base = drop (length dir + 1) p in
      glob_match dir [] ''.db'' p \<and> CHR ''-'' \<in> set (take (length base - 3) base))
     \<or> glob_match dir [] ''.zip.enc'' p"

definition lastBackupAt :: "string \<Rightarrow> 'c fs \<Rightarrow> rat" where
  "lastBackupAt dir f =
     fold (\<lambda>(p, c) latest. if any_backup dir p \<and> mtime c > latest then mtime c else latest) f zero_time"

record check_io =
  open_ok :: bool
  integrity :: "string option"
  retention_err :: "string option"

text \<open>The first loop of \<^verbatim>\<open>MaintenancePass\<close> only notes failures.\<close>

definition maintain_one :: "(string \<Rightarrow> check_io) \<Rightarrow> 'c fs \<Rightarrow> bool \<Rightarrow> string \<Rightarrow> Storage \<Rightarrow> Storage" where
  "maintain_one io f retention path h =
     (if map_of f path = None \<or> \<not> open_ok (io path) then h
      else
        let h1 = (case integrity (io path) of
                    Some r \<Rightarrow> if r \<noteq> ''ok'' then NotePersistFailure (''integrity:'' @ filepathBase path) r h else h
                  | None \<Rightarrow> h)
        in if retention then
             (case retention_err (io path) of
                Some e \<Rightarrow> NotePersistFailure (''maintenance:'' @ filepathBase path) e h1
              | None \<Rightarrow> h1)
           else h1)"

fun backup_all ::
  "('c disk_file \<Rightarrow> 'c disk_file option) \<Rightarrow> (string \<Rightarrow> string) \<Rightarrow> string list \<Rightarrow> string \<Rightarrow> int \<Rightarrow> 'c fs \<Rightarrow> 'c fs option"
where
  "backup_all vac stamp [] dir keep f = Some f"
| "backup_all vac stamp (p # ps) dir keep f =
     (case BackupDB vac (stamp p) p dir keep f of
        None \<Rightarrow> None
      | Some (f', dest) \<Rightarrow> backup_all vac stamp ps dir keep f')"

definition MaintenancePass ::
  "(string \<Rightarrow> check_io) \<Rightarrow> ('c disk_file \<Rightarrow> 'c disk_file option) \<Rightarrow> (string \<Rightarrow> string) \<Rightarrow> rat \<Rightarrow> string list \<Rightarrow>
    string \<Rightarrow> int \<Rightarrow> rat \<Rightarrow> bool \<Rightarrow> 'c fs \<times> Storage \<Rightarrow> ('c fs \<times> Storage) option"
where
  "MaintenancePass io vac stamp now dbPaths backupsDir keep backupInterval retention s =
     (let (f, h) = s;
          h1 = fold (maintain_one io f retention) dbPaths h
      in case (if dur_sub now (lastBackupAt backupsDir f) \<ge> backupInterval
               then backup_all vac stamp dbPaths backupsDir keep f else Some f) of
           None \<Rightarrow> None
         | Some f' \<Rightarrow> Some (f', NoteMaintenanceDone now h1))"

subsection \<open>Quarantine loses nothing\<close>

lemma map_of_fs_rename:
  "p \<noteq> p' \<Longrightarrow> map_of f p = Some c \<Longrightarrow>
   map_of (fs_rename p p' f) q = (if q = p' then Some c else if q = p then None else map_of f q)"
  by (simp add: fs_rename_def)

lemma first_valid_newest:
  assumes "first_valid qc read_ok f cs = Some c"
  obtains xs cand ys where "cs = xs @ cand # ys" "map_of f cand = Some c" "qc f cand"
    "\<forall>x\<in>set xs. \<not> (qc f x \<and> read_ok x)"
  using assms
proof (induction cs arbitrary: thesis)
  case Nil
  then show ?case by simp
next
  case (Cons x cs)
  show ?case
  proof (cases "qc f x \<and> read_ok x")
    case True
    with Cons.prems(1) [of "[]" x cs] Cons.prems(2) show ?thesis by simp
  next
    case False
    with Cons obtain xs cand ys where "cs = xs @ cand # ys" "map_of f cand = Some c" "qc f cand"
        "\<forall>y\<in>set xs. \<not> (qc f y \<and> read_ok y)" by auto
    with False Cons.prems(1) [of "x # xs" cand ys] show ?thesis by auto
  qed
qed

lemma first_valid_none:
  "first_valid qc read_ok f cs = None \<Longrightarrow> \<forall>x\<in>set cs. map_of f x \<noteq> None \<Longrightarrow> \<forall>x\<in>set cs. \<not> (qc f x \<and> read_ok x)"
  by (induction cs) (auto split: if_splits)

lemma glob_exists: "p \<in> set (glob dir pre suf f) \<Longrightarrow> map_of f p \<noteq> None"
  by (auto simp: glob_def map_of_eq_None_iff)

lemma rev_sorted_prefix_max:
  assumes "rev (sort cs) = xs @ (cand :: string) # ys" "x \<in> set cs" "x \<notin> set xs"
  shows "x \<le> cand"
proof -
  have "sort cs = rev ys @ cand # rev xs" using arg_cong [OF assms(1), of rev] by simp
  then have "sorted (rev ys @ cand # rev xs)" by (metis sorted_sort)
  moreover have "x \<in> set (xs @ cand # ys)" using assms(1,2) by (metis set_rev set_sort)
  ultimately show ?thesis using assms(3) by (auto simp: sorted_append)
qed

text \<open>
  C28. The boot gate on a corrupt database file whose rename succeeds: the corrupt bytes stay on disk
  under the quarantine name; the path then either holds exactly the newest backup that passes the
  check and can be read, or, when there is none, nothing at all; and the quarantine is counted.
  (\<open>g\<close> is the file system after the file and its sidecars were moved away, which is what the
  candidates are checked on.)
\<close>

theorem quarantine_restores_newest_valid:
  fixes f :: "'c fs"
  defines "g \<equiv> \<lambda>path ts ro. fold (move_aside ro ts) [path @ ''-wal'', path @ ''-shm'']
      (fs_rename path (path @ ''.corrupt-'' @ ts) f)"
  assumes "map_of f path = Some bad" "\<not> qc f path" "rename_ok path"
    and "CheckOrQuarantine qc ts rename_ok read_ok True torn path backupsDir (f, Some h) = (f', h')"
    and "backupsDir \<noteq> []" "backups = glob backupsDir (filepathBase path @ ''-'') ''.db'' (g path ts rename_ok)"
    and "path @ ''-wal'' \<noteq> path @ ''.corrupt-'' @ ts" "path @ ''-shm'' \<noteq> path @ ''.corrupt-'' @ ts"
  shows "map_of f' (path @ ''.corrupt-'' @ ts) = Some bad \<and>
    h' = Some (NoteQuarantine path h) \<and>
    (case map_of f' path of
       None \<Rightarrow> \<forall>b\<in>set backups. \<not> (qc (g path ts rename_ok) b \<and> read_ok b)
     | Some c \<Rightarrow> \<exists>b\<in>set backups. map_of (g path ts rename_ok) b = Some c \<and> qc (g path ts rename_ok) b \<and>
         (\<forall>b'\<in>set backups. qc (g path ts rename_ok) b' \<and> read_ok b' \<longrightarrow> b' \<le> b))"
proof -
  let ?g = "g path ts rename_ok" and ?q = "path @ ''.corrupt-'' @ ts"
  have aside: "map_of (move_aside rename_ok ts side e) p = map_of e p"
    if "p \<noteq> side" "p \<noteq> side @ ''.corrupt-'' @ ts" for p side and e :: "'c fs"
    using that by (auto simp: move_aside_def fs_rename_def split: option.split)
  have ren: "map_of (fs_rename path ?q f) ?q = Some bad" "map_of (fs_rename path ?q f) path = None"
    using assms(2) by (auto simp: map_of_fs_rename)
  have q: "map_of ?g ?q = Some bad"
    using ren(1) assms(8,9) by (simp add: g_def aside)
  have p: "map_of ?g path = None" using ren(2) by (simp add: g_def aside)
  let ?m = "rev (sort backups)"
  have f': "f' = (case first_valid qc read_ok ?g ?m of None \<Rightarrow> ?g | Some c \<Rightarrow> fs_put path c ?g)"
      and h': "h' = Some (NoteQuarantine path h)"
    using assms(2-7)
    by (auto simp: CheckOrQuarantine_def Let_def g_def restoreNewestBackup_def split: option.splits)
  show ?thesis
  proof (cases "first_valid qc read_ok ?g ?m")
    case None
    have "\<forall>x\<in>set ?m. map_of ?g x \<noteq> None" using assms(7) glob_exists by auto
    from first_valid_none [OF None this] have "\<forall>b\<in>set backups. \<not> (qc ?g b \<and> read_ok b)" by simp
    with None f' h' p q show ?thesis by simp
  next
    case (Some c)
    from first_valid_newest [OF Some] obtain xs cand ys where
        c: "?m = xs @ cand # ys" "map_of ?g cand = Some c" "qc ?g cand" "\<forall>x\<in>set xs. \<not> (qc ?g x \<and> read_ok x)"
      by blast
    have "cand \<in> set backups" using c(1) by (metis in_set_conv_decomp set_rev set_sort)
    moreover have "\<forall>b'\<in>set backups. qc ?g b' \<and> read_ok b' \<longrightarrow> b' \<le> cand"
      using c(4) rev_sorted_prefix_max [OF c(1)] by blast
    ultimately show ?thesis using Some f' h' q c by auto
  qed
qed

theorem quarantine_restores_newest_valid_witness:
  "map_of (fst (CheckOrQuarantine (\<lambda>f p. p \<noteq> ''d/q.db'') ''1'' (\<lambda>_. True) (\<lambda>_. True) True None ''d/q.db'' ''b''
      ([(''d/q.db'', \<lparr>bytes = (0::nat), mtime = 0\<rparr>), (''b/q.db-1.db'', \<lparr>bytes = 1, mtime = 0\<rparr>),
        (''b/q.db-2.db'', \<lparr>bytes = 2, mtime = 0\<rparr>)], Some NewStorage))) ''d/q.db.corrupt-1'' =
   Some \<lparr>bytes = 0, mtime = 0\<rparr>"
proof -
  let ?f = "[(''d/q.db'', \<lparr>bytes = (0::nat), mtime = 0\<rparr>), (''b/q.db-1.db'', \<lparr>bytes = 1, mtime = 0\<rparr>),
        (''b/q.db-2.db'', \<lparr>bytes = 2, mtime = 0\<rparr>)]"
  let ?r = "CheckOrQuarantine (\<lambda>f p. p \<noteq> ''d/q.db'') ''1'' (\<lambda>_. True) (\<lambda>_. True) True None ''d/q.db'' ''b''
      (?f, Some NewStorage)"
  have r: "?r = (fst ?r, snd ?r)" by simp
  have "map_of (fst ?r) (''d/q.db'' @ ''.corrupt-'' @ ''1'') = Some \<lparr>bytes = 0, mtime = 0\<rparr>"
    by (rule quarantine_restores_newest_valid [OF _ _ _ r _ refl, THEN conjunct1]) simp_all
  then show ?thesis by (simp only: append.simps)
qed

subsection \<open>Migrations\<close>

text \<open>Running the scripts of a list of versions in order.\<close>

fun run_scripts :: "(int \<times> ('d \<Rightarrow> 'd option)) list \<Rightarrow> int list \<Rightarrow> 'd \<Rightarrow> 'd option" where
  "run_scripts ms [] t = Some t"
| "run_scripts ms (v # vs) t =
     (case map_of ms v of None \<Rightarrow> None | Some sc \<Rightarrow> Option.bind (sc t) (run_scripts ms vs))"

definition due :: "int \<Rightarrow> int \<Rightarrow> int list \<Rightarrow> int list" where
  "due have current vs = filter (\<lambda>v. have < v \<and> v \<le> current) vs"

definition last_version :: "int \<Rightarrow> int list \<Rightarrow> int" where
  "last_version have vs = (if vs = [] then have else last vs)"

text \<open>
  The loop applies a prefix of the due migrations, in ascending order; it reports success exactly
  when it applied them all, and the version recorded in the database is that of the last applied.
\<close>

lemma migrate_loop_prefix:
  assumes "sorted_wrt (<) vs" "user_version d = v0"
    and "migrate_loop io current ms vs v0 d = ((d', h'), ok)"
  shows "\<exists>done rest. due v0 current vs = done @ rest \<and> run_scripts ms done (tables d) = Some (tables d') \<and>
    user_version d' = last_version v0 done \<and> h' = user_version d' \<and> (ok \<longleftrightarrow> rest = [])"
  using assms
proof (induction io current ms vs v0 d arbitrary: d' h' ok rule: migrate_loop.induct)
  case (1 io current ms v0 d)
  then show ?case by (auto simp: due_def last_version_def)
next
  case (2 io current ms version vs v0 d)
  show ?case
  proof (cases "v0 < version \<and> version \<le> current")
    case False
    have "due v0 current (version # vs) = due v0 current vs" using False by (auto simp: due_def)
    moreover have "migrate_loop io current ms vs v0 d = ((d', h'), ok)"
      using False "2.prems"(3) by (simp only: migrate_loop.simps if_False)
    ultimately show ?thesis using "2.IH"(2) [OF False _ "2.prems"(2)] "2.prems"(1) by simp
  next
    case True
    have d1: "due v0 current (version # vs) = version # due version current vs"
      using True "2.prems"(1) by (auto simp: due_def intro!: filter_cong)
    show ?thesis
    proof (cases "\<exists>sc d1. map_of ms version = Some sc \<and> applyMigration (io version) version sc d = (d1, True)")
      case False
      have "d' = d \<and> h' = v0 \<and> \<not> ok"
        using False True "2.prems"(3)
        by (auto simp: applyMigration_def split: option.splits prod.splits bool.splits if_splits)
      with d1 "2.prems"(2) show ?thesis
        by (intro exI [of _ "[]"] exI [of _ "version # due version current vs"]) (simp add: last_version_def)
    next
      case ok: True
      then obtain sc e where sc: "map_of ms version = Some sc" "applyMigration (io version) version sc d = (e, True)"
        by blast
      then have e: "sc (tables d) = Some (tables e)" "user_version e = version"
        by (auto simp: applyMigration_def split: option.splits if_splits)
      from "2.IH"(1) [OF True sc(1) sc(2) [symmetric] refl _ e(2)] "2.prems"(1,3) True sc
      obtain ds rest where "due version current vs = ds @ rest" "run_scripts ms ds (tables e) = Some (tables d')"
          "user_version d' = last_version version ds" "h' = user_version d'" "ok \<longleftrightarrow> rest = []"
        by fastforce
      with d1 e sc show ?thesis
        by (intro exI [of _ "version # ds"] exI [of _ rest]) (auto simp: last_version_def)
    qed
  qed
qed

lemma sortedKeys_strict: "sorted_wrt (<) (sortedKeys m)"
  by (simp add: sortedKeys_def strict_sorted_iff)

text \<open>
  C29. The migration runner is safe to interrupt: on a versioned database (or a new one) what it
  leaves is the result of applying, in ascending order, the first so many of the missing
  migrations, each exactly once; success means all of them ran and the version is current, and a
  failure leaves the version of the last migration that committed, so that the next start
  continues after it.
\<close>

theorem migrations_resume:
  assumes "EnsureSchema read_ok bump_ok io snap current ms dbPath backupsDir f d = Some (f', d', ok)"
    and "user_version d \<noteq> 0 \<or> map_of f dbPath = None"
  shows "\<exists>applied missing. due (user_version d) current (sortedKeys ms) = applied @ missing \<and>
    run_scripts ms applied (tables d) = Some (tables d') \<and>
    (ok \<longrightarrow> missing = [] \<and> current \<le> user_version d') \<and>
    (\<not> ok \<longrightarrow> user_version d' = last_version (user_version d) applied)"
proof -
  let ?v = "user_version d"
  obtain e h o1 where m: "migrate_loop io current ms (sortedKeys ms) ?v d = ((e, h), o1)"
    by (metis prod.exhaust)
  from migrate_loop_prefix [OF sortedKeys_strict refl m] obtain as rest where
      a: "due ?v current (sortedKeys ms) = as @ rest" "run_scripts ms as (tables d) = Some (tables e)"
        "user_version e = last_version ?v as" "h = user_version e" "o1 \<longleftrightarrow> rest = []"
    by blast
  have none: "due ?v current (sortedKeys ms) = []" if "current \<le> ?v"
    using that by (auto simp: due_def filter_empty_conv)
  consider (early) "d' = d" "\<not> ok" | (uptodate) "d' = d" "ok" "current \<le> ?v"
    | (loop) "tables d' = tables e" "\<not> ok" "user_version d' = user_version e"
    | (finished) "tables d' = tables e" "ok" "rest = []" "current \<le> user_version d'"
    using assms m a(4,5)
    by (auto simp: EnsureSchema_def Let_def split: if_splits option.splits bool.splits)
  then show ?thesis
  proof cases
    case early
    then show ?thesis
      by (intro exI [of _ "[]"] exI [of _ "due ?v current (sortedKeys ms)"]) (simp add: last_version_def)
  next
    case uptodate
    with none show ?thesis by auto
  next
    case loop
    with a show ?thesis by (intro exI [of _ as] exI [of _ rest]) simp
  next
    case finished
    with a show ?thesis by (intro exI [of _ as] exI [of _ rest]) simp
  qed
qed

theorem migrations_resume_witness:
  "\<exists>applied missing. due 1 3 (sortedKeys [(3, \<lambda>t::nat. None), (2, \<lambda>t. Some (t + 1))]) = applied @ missing \<and>
    run_scripts [(3, \<lambda>t::nat. None), (2, \<lambda>t. Some (t + 1))] applied 5 = Some 6"
proof -
  let ?io = "\<lambda>_. \<lparr>tx_begin_ok = True, tx_bump_ok = True, tx_commit_ok = True\<rparr>"
  have "EnsureSchema True True ?io Some 3 [(3, \<lambda>t::nat. None), (2, \<lambda>t. Some (t + 1))] ''p'' [] []
      \<lparr>user_version = 1, tables = 5\<rparr> = Some ([], \<lparr>user_version = 2, tables = 6\<rparr>, False)"
    by (simp add: EnsureSchema_def sortedKeys_def applyMigration_def)
  from migrations_resume [OF this] show ?thesis by auto
qed

subsection \<open>Rotation\<close>

lemma map_of_fold_remove: "map_of (fold fs_remove ps f) p = (if p \<in> set ps then None else map_of f p)"
  by (induction ps arbitrary: f) auto

lemma set_glob: "set (glob dir pre suf f) = {p. map_of f p \<noteq> None \<and> glob_match dir pre suf p}"
  by (auto simp: glob_def map_of_eq_None_iff)

lemma rotate_Some:
  assumes files: "files = rev (sort (glob dir pre suf f))" and "0 \<le> keep"
    and "rotate dir pre suf keep f = Some f'"
  shows "set (glob dir pre suf f') = set (take (nat keep) files)"
    and "\<forall>x\<in>set (take (nat keep) files). \<forall>y\<in>set (drop (nat keep) files). y < x"
    and "\<not> glob_match dir pre suf p \<Longrightarrow> map_of f' p = map_of f p"
proof -
  define a b where "a = take (nat keep) files" and "b = drop (nat keep) files"
  have ab: "files = a @ b" by (simp add: a_def b_def)
  have dist: "distinct files" by (simp add: files glob_def)
  have srt: "sorted_wrt (\<lambda>x y. y \<le> x) files" by (simp add: files sorted_wrt_rev)
  have f': "f' = fold fs_remove b f"
    using assms by (auto simp: rotate_def Let_def b_def split: if_splits)
  have "set files = {p. map_of f p \<noteq> None \<and> glob_match dir pre suf p}"
    by (simp only: files set_rev set_sort set_glob)
  then have s: "set a \<union> set b = {p. map_of f p \<noteq> None \<and> glob_match dir pre suf p}" "set a \<inter> set b = {}"
    using dist by (auto simp: ab)
  show "set (glob dir pre suf f') = set (take (nat keep) files)"
    unfolding a_def [symmetric] using s by (auto simp: set_glob f' map_of_fold_remove)
  show "\<forall>x\<in>set (take (nat keep) files). \<forall>y\<in>set (drop (nat keep) files). y < x"
    unfolding a_def [symmetric] b_def [symmetric]
    using srt s(2) by (auto simp: ab sorted_wrt_append less_le)
  show "\<not> glob_match dir pre suf p \<Longrightarrow> map_of f' p = map_of f p"
    using s(1) by (auto simp: f' map_of_fold_remove)
qed

lemma first_backup_panics:
  assumes "vac c = Some c'" "map_of f path = Some c" "1 < keep"
    "glob dir (filepathBase path @ ''-'') ''.db'' (fs_put (backup_name path dir st) c' f) = [b]"
  shows "BackupDB vac st path dir keep f = None"
  using assms by (simp add: BackupDB_def Let_def rotate_def)

text \<open>
  Backup rotation is exact when there are at least \<^verbatim>\<open>keep\<close> backups: exactly the \<^verbatim>\<open>keep\<close> newest (by
  name) remain and no other file is touched. With fewer backups than that the slice expression
  \<^verbatim>\<open>files[keep:]\<close> is out of range and the call panics, as it does for the first backup of every
  database when \<^verbatim>\<open>keep\<close> is at least two.
\<close>

lemma backup_rotation:
  assumes "files = rev (sort (glob dir pre suf f))" "0 \<le> keep"
  shows "(rotate dir pre suf keep f = None \<longleftrightarrow> int (length files) < keep) \<and>
    (\<forall>f'. rotate dir pre suf keep f = Some f' \<longrightarrow>
       set (glob dir pre suf f') = set (take (nat keep) files) \<and>
       (\<forall>x\<in>set (take (nat keep) files). \<forall>y\<in>set (drop (nat keep) files). y < x) \<and>
       (\<forall>p. \<not> glob_match dir pre suf p \<longrightarrow> map_of f' p = map_of f p)) \<and>
    (vac c = Some c' \<longrightarrow> map_of f path = Some c \<longrightarrow> 1 < keep \<longrightarrow>
     glob dir (filepathBase path @ ''-'') ''.db'' (fs_put (backup_name path dir st) c' f) = [b] \<longrightarrow>
     BackupDB vac st path dir keep f = None)"
proof -
  have "rotate dir pre suf keep f = None \<longleftrightarrow> int (length files) < keep"
    using assms by (auto simp: rotate_def Let_def)
  then show ?thesis using rotate_Some [OF assms] first_backup_panics by blast
qed

end
