(* ===== verification/GatewayStore.thy ===== *)
theory GatewayStore
  imports Idempotency Crypto Db
begin

text \<open>
  \<^verbatim>\<open>internal/store/gateway.go\<close>: the Bot API plane's store. Each table is a list with its primary
  key kept by the statements; whether a statement succeeds is an argument (\<open>ok\<close>). Tokens are
  stored encrypted under the box's key, with the Fernet library as a parameter.
\<close>

record bot =
  token_enc :: string
  telegram_offset :: int
  created_at :: string
  paused :: bool

record AuditEntry =
  TS :: string
  Action :: string
  Alias :: string
  Detail :: string

record 'k gateway =
  box :: 'k
  bots :: "(string \<times> bot) list"
  admin_audit :: "AuditEntry list"
  chat_backoff :: "((string \<times> int) \<times> rat) list"
  idempotency_keys :: idem_table

definition new_gateway :: "'k \<Rightarrow> 'k gateway" where
  "new_gateway k = \<lparr>box = k, bots = [], admin_audit = [], chat_backoff = [], idempotency_keys = []\<rparr>"

text \<open>
  \<open>OpenGateway\<close> composes the key, the integrity gate, the open and the schema; the tables found in
  the file (\<open>found\<close>) are kept, a new file has empty ones. Errors in the order they are met.
\<close>

datatype open_error = KeyError crypto_error | OpenError string | SchemaError

definition OpenGateway ::
  "(crypto_error + 'k) \<Rightarrow> (string + unit) \<Rightarrow> bool \<Rightarrow> bool \<Rightarrow> 'k gateway option \<Rightarrow> open_error + 'k gateway"
where
  "OpenGateway loaded opened schema_ok ensure_ok found =
     (case loaded of
        Inl e \<Rightarrow> Inl (KeyError e)
      | Inr k \<Rightarrow>
          (case opened of
             Inl e \<Rightarrow> Inl (OpenError e)
           | Inr _ \<Rightarrow>
               if \<not> schema_ok \<or> \<not> ensure_ok then Inl SchemaError
               else Inr (case found of None \<Rightarrow> new_gateway k | Some g \<Rightarrow> g\<lparr>box := k\<rparr>)))"

subsection \<open>Bots and tokens\<close>

text \<open>The upsert: an existing row keeps its other columns.\<close>

definition RegisterBot ::
  "'k fernet_lib \<Rightarrow> nat \<Rightarrow> string \<Rightarrow> bool \<Rightarrow> string \<Rightarrow> string \<Rightarrow> 'k gateway \<Rightarrow> 'k gateway \<times> bool"
where
  "RegisterBot F iv now ok alias token g =
     (case Encrypt F iv (box g) token of
        Inl e \<Rightarrow> (g, False)
      | Inr enc \<Rightarrow>
          if \<not> ok then (g, False)
          else (g\<lparr>bots :=
                  (case map_of (bots g) alias of
                     None \<Rightarrow> bots g @ [(alias, \<lparr>token_enc = enc, telegram_offset = 0, created_at = now, paused = False\<rparr>)]
                   | Some b \<Rightarrow> AList.update alias (b\<lparr>token_enc := enc\<rparr>) (bots g))\<rparr>, True))"

text \<open>\<open>None\<close> is the error; otherwise whether a row was removed.\<close>

definition DeleteBot :: "bool \<Rightarrow> string \<Rightarrow> 'k gateway \<Rightarrow> 'k gateway \<times> bool option" where
  "DeleteBot ok alias g =
     (if \<not> ok then (g, None)
      else (g\<lparr>bots := AList.delete alias (bots g)\<rparr>, Some (map_of (bots g) alias \<noteq> None)))"

definition update_bot :: "string \<Rightarrow> (bot \<Rightarrow> bot) \<Rightarrow> 'k gateway \<Rightarrow> 'k gateway" where
  "update_bot alias h g =
     (case map_of (bots g) alias of
        None \<Rightarrow> g
      | Some b \<Rightarrow> g\<lparr>bots := AList.update alias (h b) (bots g)\<rparr>)"

definition SetPaused :: "bool \<Rightarrow> string \<Rightarrow> bool \<Rightarrow> 'k gateway \<Rightarrow> 'k gateway \<times> bool" where
  "SetPaused ok alias p g = (if ok then update_bot alias (\<lambda>b. b\<lparr>paused := p\<rparr>) g else g, ok)"

record BotRow =
  BotAlias :: string
  TelegramOffset :: int
  Paused :: bool

definition ListBots :: "'k gateway \<Rightarrow> BotRow list" where
  "ListBots g = map (\<lambda>(a, b). \<lparr>BotAlias = a, TelegramOffset = telegram_offset b, Paused = paused b\<rparr>) (bots g)"

definition GetToken :: "'k fernet_lib \<Rightarrow> string \<Rightarrow> 'k gateway \<Rightarrow> string option" where
  "GetToken F alias g =
     (case map_of (bots g) alias of
        None \<Rightarrow> None
      | Some b \<Rightarrow> Decrypt F (box g) (token_enc b))"

definition VerifyTokens :: "'k fernet_lib \<Rightarrow> 'k gateway \<Rightarrow> string list" where
  "VerifyTokens F g = filter (\<lambda>a. GetToken F a g = None) (map BotAlias (ListBots g))"

definition GetOffset :: "string \<Rightarrow> 'k gateway \<Rightarrow> int" where
  "GetOffset alias g = (case map_of (bots g) alias of None \<Rightarrow> 0 | Some b \<Rightarrow> telegram_offset b)"

definition SaveOffset :: "bool \<Rightarrow> string \<Rightarrow> int \<Rightarrow> 'k gateway \<Rightarrow> 'k gateway \<times> bool" where
  "SaveOffset ok alias off g = (if ok then update_bot alias (\<lambda>b. b\<lparr>telegram_offset := off\<rparr>) g else g, ok)"

subsection \<open>The backoff ledger\<close>

definition backoff_row :: "int option \<Rightarrow> int" where
  "backoff_row chatID = (case chatID of None \<Rightarrow> 0 | Some c \<Rightarrow> c)"

definition SaveBackoff :: "bool \<Rightarrow> string \<Rightarrow> int option \<Rightarrow> rat \<Rightarrow> 'k gateway \<Rightarrow> 'k gateway" where
  "SaveBackoff ok alias chatID until g =
     (if ok then g\<lparr>chat_backoff := AList.update (alias, backoff_row chatID) until (chat_backoff g)\<rparr> else g)"

text \<open>The answer is the list of active \<open>(chat_id, paused_until)\<close> rows; a failing query answers none.\<close>

definition LoadBackoffs ::
  "bool \<Rightarrow> bool \<Rightarrow> rat \<Rightarrow> string \<Rightarrow> 'k gateway \<Rightarrow> 'k gateway \<times> (int \<times> rat) list"
where
  "LoadBackoffs delete_ok query_ok now alias g =
     (let tab = (if delete_ok
                 then filter (\<lambda>((a, c), u). \<not> (a = alias \<and> u \<le> now)) (chat_backoff g)
                 else chat_backoff g)
      in (g\<lparr>chat_backoff := tab\<rparr>,
          if query_ok then map (\<lambda>((a, c), u). (c, u)) (filter (\<lambda>((a, c), u). a = alias) tab) else []))"

subsection \<open>Send idempotency\<close>

definition IdempotencyClaim :: "claim_io \<Rightarrow> rat \<Rightarrow> string \<Rightarrow> string \<Rightarrow> 'k gateway \<Rightarrow> 'k gateway \<times> verdict" where
  "IdempotencyClaim io now alias key g =
     (let (tab, v) = idem_claim io now alias key (idempotency_keys g)
      in (g\<lparr>idempotency_keys := tab\<rparr>, v))"

definition IdempotencyFinish :: "bool \<Rightarrow> rat \<Rightarrow> string \<Rightarrow> string \<Rightarrow> 'k gateway \<Rightarrow> 'k gateway" where
  "IdempotencyFinish ok now alias key g =
     g\<lparr>idempotency_keys := idem_finish ok now alias key (idempotency_keys g)\<rparr>"

definition IdempotencyFail :: "bool \<Rightarrow> string \<Rightarrow> string \<Rightarrow> 'k gateway \<Rightarrow> 'k gateway" where
  "IdempotencyFail ok alias key g =
     g\<lparr>idempotency_keys := idem_fail ok alias key (idempotency_keys g)\<rparr>"

subsection \<open>Audit trail\<close>

definition Audit :: "string \<Rightarrow> bool \<Rightarrow> string \<Rightarrow> string \<Rightarrow> string \<Rightarrow> 'k gateway \<Rightarrow> 'k gateway" where
  "Audit ts ok action alias detail g =
     (if ok then g\<lparr>admin_audit := admin_audit g @
         [\<lparr>TS = ts, Action = action, Alias = alias, Detail = detail\<rparr>]\<rparr> else g)"

definition GetAudit :: "bool \<Rightarrow> int \<Rightarrow> 'k gateway \<Rightarrow> AuditEntry list" where
  "GetAudit ok limit g =
     (if ok then take (nat (if limit \<le> 0 then 100 else limit)) (rev (admin_audit g)) else [])"

definition boolInt :: "bool \<Rightarrow> int" where
  "boolInt b = (if b then 1 else 0)"

text \<open>The ellipsis character is three bytes of UTF-8.\<close>

definition ellipsis :: string where
  "ellipsis = map char_of [226 :: nat, 128, 166]"

definition TokenSuffix :: "string \<Rightarrow> string" where
  "TokenSuffix token =
     (if length token \<ge> 4 then ellipsis @ drop (length token - 4) token
      else if token = [] then ellipsis
      else ellipsis @ token)"

subsection \<open>The store keeps the idempotency contract\<close>

definition gateway_peek :: "'k gateway \<Rightarrow> string \<Rightarrow> string \<Rightarrow> (idem_state \<times> rat) option" where
  "gateway_peek g a k = map_of (idempotency_keys g) (a, k)"

definition gateway_ok :: "'k gateway \<Rightarrow> bool" where
  "gateway_ok g \<longleftrightarrow> idem_inv (idempotency_keys g)"

lemmas gateway_idem_defs = gateway_peek_def [abs_def] gateway_ok_def [abs_def] IdempotencyClaim_def [abs_def]
  IdempotencyFinish_def [abs_def] IdempotencyFail_def [abs_def] case_prod_unfold Let_def

interpretation gs: send_guard gateway_ok gateway_peek IdempotencyClaim IdempotencyFinish IdempotencyFail
  unfolding gateway_idem_defs
  by (rule table_send_guard [of idempotency_keys "\<lambda>t g. g\<lparr>idempotency_keys := t\<rparr>"]) simp_all



text \<open>
  A failed send releases its key: after a request was granted the key and reported failure (with
  no finish in between), the next claim is granted at any time, so a retry is never suppressed.
\<close>

lemma failed_send_can_retry:
  assumes "gateway_ok g" "snd (IdempotencyClaim io t0 a k g) \<noteq> Replay"
    and "\<forall>x\<in>set xs. op_key x = (a, k) \<longrightarrow> claims_until (t0 + 60) x" "claim_insert_ok io'"
  shows "snd (IdempotencyClaim io' t1 a k
     (IdempotencyFail True a k (gs.ops_run xs (fst (IdempotencyClaim io t0 a k g))))) = Claimed"
  by (rule gs.failed_is_released [OF assms])

subsection \<open>Tokens, offsets and the ledger\<close>

lemma map_of_update_bot:
  "map_of (bots (update_bot alias h g)) a =
     (if a = alias then map_option h (map_of (bots g) a) else map_of (bots g) a)"
  by (auto simp: update_bot_def update_conv' split: option.split)

lemma box_update_bot [simp]: "box (update_bot alias h g) = box g"
  by (simp add: update_bot_def split: option.split)

lemma map_of_RegisterBot:
  assumes "RegisterBot F iv now ok alias token g = (g', True)"
  shows "\<exists>enc b. Encrypt F iv (box g) token = Inr enc \<and> map_of (bots g') alias = Some b \<and> token_enc b = enc \<and>
    telegram_offset b = GetOffset alias g \<and> box g' = box g \<and> (\<forall>a. a \<noteq> alias \<longrightarrow> map_of (bots g') a = map_of (bots g) a)"
  using assms
  by (auto simp: RegisterBot_def GetOffset_def update_conv' map_add_def split: sum.splits option.splits if_splits)

text \<open>
  Registering a bot is faithful: its token can be read back, re-registering an alias (a token
  rotation) keeps its persisted Telegram offset, and every other bot is as before.
\<close>

lemma registered_token_reads_back:
  assumes "fernet_ok F" "RegisterBot F iv now ok alias token g = (g', True)"
  shows "GetToken F alias g' = Some token \<and> GetOffset alias g' = GetOffset alias g \<and>
    (\<forall>a. a \<noteq> alias \<longrightarrow> GetToken F a g' = GetToken F a g \<and> GetOffset a g' = GetOffset a g)"
proof -
  obtain enc b where "Encrypt F iv (box g) token = Inr enc" "map_of (bots g') alias = Some b"
    "token_enc b = enc" "telegram_offset b = GetOffset alias g" "box g' = box g"
    "\<forall>a. a \<noteq> alias \<longrightarrow> map_of (bots g') a = map_of (bots g) a"
    using map_of_RegisterBot [OF assms(2)] by blast
  then show ?thesis
    using Encrypt_Decrypt [OF assms(1)] by (simp add: GetToken_def GetOffset_def split: option.split)
qed

lemma SaveOffset_law:
  "GetOffset a (fst (SaveOffset True alias off g)) =
     (if a = alias \<and> map_of (bots g) alias \<noteq> None then off else GetOffset a g)"
  by (auto simp: SaveOffset_def GetOffset_def map_of_update_bot split: option.splits)

end
