(* ===== verification/MTStore.thy ===== *)
theory MTStore
  imports GatewayStore Queue_Consumer
begin

text \<open>
  \<^verbatim>\<open>internal/store/mt.go\<close>: the MTProto plane's store. The text of a queued update is modelled by
  what \<^verbatim>\<open>json.Unmarshal\<close> makes of it (\<open>json_text\<close>). The foreign key of \<^verbatim>\<open>update_queue\<close> is enforced
  (the store is opened with \<^verbatim>\<open>foreign_keys=ON\<close>): a push for an unknown session fails, deleting a
  session deletes its queue.
\<close>

datatype json_text = EmptyText | BadText | NullText | ObjText obj

record mt_session =
  s_token_enc :: string
  phone_or_token :: string
  s_pts :: int
  s_qts :: int
  s_date :: int
  s_seq :: int
  s_created_at :: string
  s_paused :: bool

record mt_row =
  m_alias :: string
  m_id :: int
  m_json :: json_text
  m_at :: rat

record DeadLetterRow =
  dl_id :: int
  dl_alias :: string
  dl_payload :: string
  dl_reason :: string
  dl_at :: rat

record 'k mtstore =
  m_box :: 'k
  sessions :: "(string \<times> mt_session) list"
  mt_queue :: "mt_row list"
  mt_audit :: "AuditEntry list"
  mt_keys :: idem_table
  dead_letters :: "DeadLetterRow list"
  next_letter :: int

definition new_mtstore :: "'k \<Rightarrow> 'k mtstore" where
  "new_mtstore k = \<lparr>m_box = k, sessions = [], mt_queue = [], mt_audit = [], mt_keys = [],
     dead_letters = [], next_letter = 1\<rparr>"

subsection \<open>Migration of the idempotency table\<close>

text \<open>The old table had the key as its primary key and no state.\<close>

datatype idem_schema = OldKeys "(string \<times> string \<times> rat) list" | NewKeys idem_table

record migrate_io =
  info_ok :: bool
  create_ok :: bool
  copy_ok :: bool
  drop_ok :: bool
  rename_ok :: bool

definition copy_done :: "(string \<times> string \<times> rat) list \<Rightarrow> idem_table \<Rightarrow> idem_table" where
  "copy_done rows tab =
     fold (\<lambda>(k, a, seen) t. if map_of t (a, k) = None then t @ [((a, k), (Done, seen))] else t) rows tab"

text \<open>
  State: the table \<^verbatim>\<open>idempotency_keys\<close> (\<open>None\<close> after a drop whose rename failed) and the leftover
  \<^verbatim>\<open>idempotency_keys_v2\<close> of an interrupted migration. The second result is success.
\<close>

definition migrateIdempotencyV1 ::
  "migrate_io \<Rightarrow> idem_schema option \<times> idem_table option \<Rightarrow> (idem_schema option \<times> idem_table option) \<times> bool"
where
  "migrateIdempotencyV1 io s =
     (if \<not> info_ok io then (s, False)
      else case fst s of
          Some (NewKeys t) \<Rightarrow> (s, True)
        | old \<Rightarrow>
            if \<not> create_ok io then (s, False)
            else
              let v2 = (case snd s of None \<Rightarrow> [] | Some t \<Rightarrow> t);
                  v2' = (case old of
                           Some (OldKeys rows) \<Rightarrow> if copy_ok io then copy_done rows v2 else v2
                         | _ \<Rightarrow> v2)
              in if \<not> drop_ok io then ((old, Some v2'), False)
                 else if \<not> rename_ok io then ((None, Some v2'), False)
                 else ((Some (NewKeys v2'), None), True))"

text \<open>
  \<open>OpenMT\<close>: the key, the integrity gate with the open, the schema, the migration of the key table and
  the schema version. The file is its other tables (\<open>found\<close>, \<open>None\<close> for a new file) and its key tables
  (\<open>keys\<close>); the schema's \<^verbatim>\<open>CREATE TABLE IF NOT EXISTS\<close> makes an empty key table of the new shape where
  there is none. First the key tables the file is left with, then the store or the error.
\<close>

definition OpenMT ::
  "(crypto_error + 'k) \<Rightarrow> (string + unit) \<Rightarrow> bool \<Rightarrow> migrate_io \<Rightarrow> bool \<Rightarrow> 'k mtstore option \<Rightarrow>
   idem_schema option \<times> idem_table option \<Rightarrow> (idem_schema option \<times> idem_table option) \<times> (open_error + 'k mtstore)"
where
  "OpenMT loaded opened schema_ok io ensure_ok found keys =
     (case loaded of
        Inl e \<Rightarrow> (keys, Inl (KeyError e))
      | Inr k \<Rightarrow>
          (case opened of
             Inl e \<Rightarrow> (keys, Inl (OpenError e))
           | Inr _ \<Rightarrow>
               if \<not> schema_ok then (keys, Inl SchemaError)
               else
                 let made = (case fst keys of None \<Rightarrow> Some (NewKeys []) | Some t \<Rightarrow> Some t);
                     (keys', ok) = migrateIdempotencyV1 io (made, snd keys)
                 in if \<not> ok \<or> \<not> ensure_ok then (keys', Inl SchemaError)
                    else (keys', Inr ((case found of None \<Rightarrow> new_mtstore k | Some m \<Rightarrow> m\<lparr>m_box := k\<rparr>)
                            \<lparr>mt_keys := (case fst keys' of Some (NewKeys t) \<Rightarrow> t | _ \<Rightarrow> [])\<rparr>))))"

subsection \<open>Sessions\<close>

definition Register ::
  "'k fernet_lib \<Rightarrow> nat \<Rightarrow> string \<Rightarrow> bool \<Rightarrow> string \<Rightarrow> string \<Rightarrow> 'k mtstore \<Rightarrow> 'k mtstore \<times> bool"
where
  "Register F iv now ok alias token m =
     (case Encrypt F iv (m_box m) token of
        Inl e \<Rightarrow> (m, False)
      | Inr enc \<Rightarrow>
          let phone = (if length token > 20 then take 20 token @ ellipsis else token) in
          if \<not> ok then (m, False)
          else (m\<lparr>sessions :=
                  (case map_of (sessions m) alias of
                     None \<Rightarrow> sessions m @ [(alias, \<lparr>s_token_enc = enc, phone_or_token = phone, s_pts = 0,
                               s_qts = 0, s_date = 0, s_seq = 0, s_created_at = now, s_paused = False\<rparr>)]
                   | Some s \<Rightarrow> AList.update alias (s\<lparr>s_token_enc := enc\<rparr>) (sessions m))\<rparr>, True))"

definition Delete :: "bool \<Rightarrow> string \<Rightarrow> 'k mtstore \<Rightarrow> 'k mtstore \<times> bool option" where
  "Delete ok alias m =
     (if \<not> ok then (m, None)
      else (m\<lparr>sessions := AList.delete alias (sessions m),
              mt_queue := filter (\<lambda>r. m_alias r \<noteq> alias \<or> map_of (sessions m) alias = None) (mt_queue m)\<rparr>,
            Some (map_of (sessions m) alias \<noteq> None)))"

record SessionRow =
  sr_alias :: string
  sr_phone :: string
  sr_state :: "int \<times> int \<times> int \<times> int"
  sr_paused :: bool
  sr_created_at :: string

definition ListSessions :: "'k mtstore \<Rightarrow> SessionRow list" where
  "ListSessions m = map (\<lambda>(a, s). \<lparr>sr_alias = a, sr_phone = phone_or_token s,
     sr_state = (s_pts s, s_qts s, s_date s, s_seq s), sr_paused = s_paused s,
     sr_created_at = s_created_at s\<rparr>) (sessions m)"

definition MT_GetToken :: "'k fernet_lib \<Rightarrow> string \<Rightarrow> 'k mtstore \<Rightarrow> string option" where
  "MT_GetToken F alias m =
     (case map_of (sessions m) alias of
        None \<Rightarrow> None
      | Some s \<Rightarrow> Decrypt F (m_box m) (s_token_enc s))"

definition update_session :: "string \<Rightarrow> (mt_session \<Rightarrow> mt_session) \<Rightarrow> 'k mtstore \<Rightarrow> 'k mtstore" where
  "update_session alias h m =
     (case map_of (sessions m) alias of
        None \<Rightarrow> m
      | Some s \<Rightarrow> m\<lparr>sessions := AList.update alias (h s) (sessions m)\<rparr>)"

definition MT_SetPaused :: "bool \<Rightarrow> string \<Rightarrow> bool \<Rightarrow> 'k mtstore \<Rightarrow> 'k mtstore \<times> bool" where
  "MT_SetPaused ok alias p m = (if ok then update_session alias (\<lambda>s. s\<lparr>s_paused := p\<rparr>) m else m, ok)"

definition MT_VerifyTokens :: "'k fernet_lib \<Rightarrow> 'k mtstore \<Rightarrow> string list" where
  "MT_VerifyTokens F m = filter (\<lambda>a. MT_GetToken F a m = None) (map sr_alias (ListSessions m))"

record MTState =
  PTS :: int
  QTS :: int
  Date :: int
  Seq :: int

definition GetState :: "string \<Rightarrow> 'k mtstore \<Rightarrow> MTState" where
  "GetState alias m =
     (case map_of (sessions m) alias of
        None \<Rightarrow> \<lparr>PTS = 0, QTS = 0, Date = 0, Seq = 0\<rparr>
      | Some s \<Rightarrow> \<lparr>PTS = s_pts s, QTS = s_qts s, Date = s_date s, Seq = s_seq s\<rparr>)"

definition SaveState :: "bool \<Rightarrow> string \<Rightarrow> MTState \<Rightarrow> 'k mtstore \<Rightarrow> 'k mtstore \<times> bool" where
  "SaveState ok alias st m =
     (if ok then update_session alias
        (\<lambda>s. s\<lparr>s_pts := PTS st, s_qts := QTS st, s_date := Date st, s_seq := Seq st\<rparr>) m else m, ok)"

subsection \<open>The persisted queue\<close>

definition QueuePush :: "rat \<Rightarrow> bool \<Rightarrow> string \<Rightarrow> int \<Rightarrow> json_text \<Rightarrow> 'k mtstore \<Rightarrow> 'k mtstore \<times> bool" where
  "QueuePush now ok alias updateID txt m =
     (if \<not> ok \<or> map_of (sessions m) alias = None then (m, False)
      else (m\<lparr>mt_queue := mt_queue m @ [\<lparr>m_alias = alias, m_id = updateID, m_json = txt, m_at = now\<rparr>]\<rparr>, True))"

definition QueuePullRaw :: "bool \<Rightarrow> string \<Rightarrow> int \<Rightarrow> int \<Rightarrow> 'k mtstore \<Rightarrow> (int \<times> json_text) list" where
  "QueuePullRaw ok alias off limit m =
     (if \<not> ok then []
      else filter (\<lambda>(i, t). t \<noteq> EmptyText)
        (map (\<lambda>r. (m_id r, m_json r))
          (take (nat (if limit \<le> 0 then 100 else limit))
            (sort_key m_id (filter (\<lambda>r. m_alias r = alias \<and> m_id r > off) (mt_queue m))))))"

definition attach_id :: "int \<times> json_text \<Rightarrow> obj option" where
  "attach_id r = (case snd r of ObjText u \<Rightarrow> Some (obj_put ''update_id'' (JInt (fst r)) u) | _ \<Rightarrow> None)"

definition QueuePull :: "bool \<Rightarrow> string \<Rightarrow> int \<Rightarrow> int \<Rightarrow> 'k mtstore \<Rightarrow> obj list" where
  "QueuePull ok alias off limit m =
     List.map_filter attach_id (QueuePullRaw ok alias off limit m)"

definition QueueAck :: "bool \<Rightarrow> string \<Rightarrow> int \<Rightarrow> 'k mtstore \<Rightarrow> 'k mtstore \<times> bool" where
  "QueueAck ok alias lastSeen m =
     (if ok then m\<lparr>mt_queue := filter (\<lambda>r. \<not> (m_alias r = alias \<and> m_id r \<le> lastSeen)) (mt_queue m)\<rparr> else m, ok)"

definition QueueDepth :: "bool \<Rightarrow> string \<Rightarrow> 'k mtstore \<Rightarrow> int" where
  "QueueDepth ok alias m = (if ok then int (length (filter (\<lambda>r. m_alias r = alias) (mt_queue m))) else 0)"

definition QueueTTLCleanup :: "bool \<Rightarrow> string \<Rightarrow> rat \<Rightarrow> 'k mtstore \<Rightarrow> 'k mtstore \<times> int" where
  "QueueTTLCleanup ok alias cutoff m =
     (if \<not> ok then (m, 0)
      else
        let stale = (\<lambda>r. m_alias r = alias \<and> m_at r < cutoff)
        in (m\<lparr>mt_queue := filter (\<lambda>r. \<not> stale r) (mt_queue m)\<rparr>, int (length (filter stale (mt_queue m)))))"

subsection \<open>Idempotency, dead letters, audit\<close>

definition MT_IdempotencyClaim :: "claim_io \<Rightarrow> rat \<Rightarrow> string \<Rightarrow> string \<Rightarrow> 'k mtstore \<Rightarrow> 'k mtstore \<times> verdict" where
  "MT_IdempotencyClaim io now alias key m =
     (let (tab, v) = idem_claim io now alias key (mt_keys m) in (m\<lparr>mt_keys := tab\<rparr>, v))"

definition MT_IdempotencyFinish :: "bool \<Rightarrow> rat \<Rightarrow> string \<Rightarrow> string \<Rightarrow> 'k mtstore \<Rightarrow> 'k mtstore" where
  "MT_IdempotencyFinish ok now alias key m = m\<lparr>mt_keys := idem_finish ok now alias key (mt_keys m)\<rparr>"

definition MT_IdempotencyFail :: "bool \<Rightarrow> string \<Rightarrow> string \<Rightarrow> 'k mtstore \<Rightarrow> 'k mtstore" where
  "MT_IdempotencyFail ok alias key m = m\<lparr>mt_keys := idem_fail ok alias key (mt_keys m)\<rparr>"

definition IdempotencyCleanup :: "bool \<Rightarrow> rat \<Rightarrow> 'k mtstore \<Rightarrow> 'k mtstore" where
  "IdempotencyCleanup ok now m =
     (if ok then m\<lparr>mt_keys := filter (\<lambda>(i, st, seen). \<not> seen < now - IdempotencyTTL) (mt_keys m)\<rparr> else m)"

definition DeadLetter :: "rat \<Rightarrow> bool \<Rightarrow> string \<Rightarrow> string \<Rightarrow> string \<Rightarrow> 'k mtstore \<Rightarrow> 'k mtstore" where
  "DeadLetter now ok alias payload reason m =
     (if ok then m\<lparr>dead_letters := dead_letters m @ [\<lparr>dl_id = next_letter m, dl_alias = alias,
          dl_payload = payload, dl_reason = reason, dl_at = now\<rparr>], next_letter := next_letter m + 1\<rparr> else m)"

definition ListDeadLetters :: "bool \<Rightarrow> string \<Rightarrow> int \<Rightarrow> 'k mtstore \<Rightarrow> DeadLetterRow list" where
  "ListDeadLetters ok alias limit m =
     (if ok then take (nat (if limit \<le> 0 then 100 else limit))
        (rev (sort_key dl_id (filter (\<lambda>r. dl_alias r = alias) (dead_letters m)))) else [])"

definition ClearDeadLetters :: "bool \<Rightarrow> string \<Rightarrow> 'k mtstore \<Rightarrow> 'k mtstore \<times> int" where
  "ClearDeadLetters ok alias m =
     (if ok then (m\<lparr>dead_letters := filter (\<lambda>r. dl_alias r \<noteq> alias) (dead_letters m)\<rparr>,
                  int (length (filter (\<lambda>r. dl_alias r = alias) (dead_letters m))))
      else (m, 0))"

definition MT_Audit :: "string \<Rightarrow> bool \<Rightarrow> string \<Rightarrow> string \<Rightarrow> string \<Rightarrow> 'k mtstore \<Rightarrow> 'k mtstore" where
  "MT_Audit ts ok action alias detail m =
     (if ok then m\<lparr>mt_audit := mt_audit m @
         [\<lparr>TS = ts, Action = action, Alias = alias, Detail = detail\<rparr>]\<rparr> else m)"

definition MT_GetAudit :: "bool \<Rightarrow> int \<Rightarrow> 'k mtstore \<Rightarrow> AuditEntry list" where
  "MT_GetAudit ok limit m =
     (if ok then take (nat (if limit \<le> 0 then 100 else limit)) (rev (mt_audit m)) else [])"

subsection \<open>The idempotency contract\<close>

definition mt_peek :: "'k mtstore \<Rightarrow> string \<Rightarrow> string \<Rightarrow> (idem_state \<times> rat) option" where
  "mt_peek m a k = map_of (mt_keys m) (a, k)"

definition mt_ok :: "'k mtstore \<Rightarrow> bool" where
  "mt_ok m \<longleftrightarrow> idem_inv (mt_keys m)"

lemmas mt_idem_defs = mt_peek_def [abs_def] mt_ok_def [abs_def] MT_IdempotencyClaim_def [abs_def]
  MT_IdempotencyFinish_def [abs_def] MT_IdempotencyFail_def [abs_def] case_prod_unfold Let_def

interpretation ms: send_guard mt_ok mt_peek MT_IdempotencyClaim MT_IdempotencyFinish MT_IdempotencyFail
  unfolding mt_idem_defs
  by (rule table_send_guard [of mt_keys "\<lambda>t m. m\<lparr>mt_keys := t\<rparr>"]) simp_all

text \<open>
  The MTProto store gives the same guarantee for keyed sends as the Bot API store, and the
  periodic cleanup of the table does not weaken it: run at a time \<open>now\<close>, it leaves every key
  younger than 300 seconds as it was.
\<close>

lemma mt_keyed_send_at_most_once:
  assumes "mt_ok m" "snd (MT_IdempotencyClaim io t0 a k m) \<noteq> Replay"
    and "\<forall>x\<in>set before. op_key x = (a, k) \<longrightarrow> claims_until (t0 + 60) x"
    and "\<forall>x\<in>set after. op_key x = (a, k) \<longrightarrow> after_finish t1 x"
  shows "ms.grants a k (before @ Finish True t1 a k # after) (fst (MT_IdempotencyClaim io t0 a k m)) = 0 \<and>
    (\<forall>now a' k' st seen. mt_peek m a' k' = Some (st, seen) \<and> now \<le> seen + 300 \<longrightarrow>
       mt_peek (IdempotencyCleanup True now m) a' k' = Some (st, seen))"
proof
  show "ms.grants a k (before @ Finish True t1 a k # after) (fst (MT_IdempotencyClaim io t0 a k m)) = 0"
    by (rule ms.at_most_once [OF assms])
  have "distinct (map fst (mt_keys m))" using assms(1) by (simp add: mt_ok_def idem_inv_def)
  then have "distinct (map fst (filter P (mt_keys m)))" for P
    by (auto simp: distinct_map inj_on_def)
  then show "\<forall>now a' k' st seen. mt_peek m a' k' = Some (st, seen) \<and> now \<le> seen + 300 \<longrightarrow>
      mt_peek (IdempotencyCleanup True now m) a' k' = Some (st, seen)"
    by (auto simp: mt_peek_def IdempotencyCleanup_def IdempotencyTTL_def map_of_eq_Some_iff dest!: map_of_SomeD)
qed

subsection \<open>Referential integrity\<close>

text \<open>Every queued row belongs to a registered session.\<close>

definition rows_owned :: "'k mtstore \<Rightarrow> bool" where
  "rows_owned m \<longleftrightarrow> (\<forall>r\<in>set (mt_queue m). map_of (sessions m) (m_alias r) \<noteq> None)"

lemma map_of_update_session:
  "map_of (sessions (update_session alias h m)) a =
     (if a = alias then map_option h (map_of (sessions m) a) else map_of (sessions m) a)"
  by (auto simp: update_session_def update_conv' split: option.split)

lemma mt_queue_update_session [simp]: "mt_queue (update_session alias h m) = mt_queue m"
  by (simp add: update_session_def split: option.split)

datatype mt_store_op =
  ORegister nat string bool string string
| ODelete bool string
| OPush rat bool string int json_text
| OAck bool string int
| OCleanup bool string rat
| OState bool string MTState
| OPaused bool string bool

fun store_exec :: "'k fernet_lib \<Rightarrow> mt_store_op \<Rightarrow> 'k mtstore \<Rightarrow> 'k mtstore" where
  "store_exec F (ORegister iv now ok a t) m = fst (Register F iv now ok a t m)"
| "store_exec F (ODelete ok a) m = fst (Delete ok a m)"
| "store_exec F (OPush now ok a i t) m = fst (QueuePush now ok a i t m)"
| "store_exec F (OAck ok a n) m = fst (QueueAck ok a n m)"
| "store_exec F (OCleanup ok a c) m = fst (QueueTTLCleanup ok a c m)"
| "store_exec F (OState ok a st) m = fst (SaveState ok a st m)"
| "store_exec F (OPaused ok a p) m = fst (MT_SetPaused ok a p m)"

lemma Register_sessions:
  "map_of (sessions m) a \<noteq> None \<Longrightarrow> map_of (sessions (fst (Register F iv now ok alias t m))) a \<noteq> None"
  "mt_queue (fst (Register F iv now ok alias t m)) = mt_queue m"
  by (auto simp: Register_def Let_def map_add_def update_conv' split: sum.splits option.splits)

lemma rows_owned_exec [gw_inv]: "rows_owned m \<Longrightarrow> rows_owned (store_exec F x m)"
proof (cases x)
  case (ORegister iv now ok a t)
  then show "rows_owned m \<Longrightarrow> ?thesis" by (simp add: rows_owned_def Register_sessions)
next
  case (ODelete ok a)
  then show "rows_owned m \<Longrightarrow> ?thesis" by (auto simp: rows_owned_def Delete_def delete_conv')
next
  case (OPush now ok a i t)
  then show "rows_owned m \<Longrightarrow> ?thesis" by (auto simp: rows_owned_def QueuePush_def)
next
  case (OAck ok a n)
  then show "rows_owned m \<Longrightarrow> ?thesis" by (auto simp: rows_owned_def QueueAck_def)
next
  case (OCleanup ok a c)
  then show "rows_owned m \<Longrightarrow> ?thesis" by (auto simp: rows_owned_def QueueTTLCleanup_def Let_def)
next
  case (OState ok a st)
  then show "rows_owned m \<Longrightarrow> ?thesis"
    by (auto simp: rows_owned_def SaveState_def map_of_update_session)
next
  case (OPaused ok a p)
  then show "rows_owned m \<Longrightarrow> ?thesis"
    by (auto simp: rows_owned_def MT_SetPaused_def map_of_update_session)
qed

lemma rows_owned_run: "rows_owned m \<Longrightarrow> rows_owned (fold (store_exec F) ops m)"
  by (induction ops arbitrary: m) (auto simp: gw_inv)

text \<open>
  Deleting a session removes its queued updates with it: after any sequence of operations on a
  new store, and then a deletion of an alias, nothing can be pulled for that alias and its depth
  is zero, while what other sessions pull is unchanged. A session registered again under the same
  alias starts with an empty queue.
\<close>

lemma delete_drops_queue:
  fixes F :: "'k fernet_lib" and box :: 'k
  defines "m \<equiv> \<lambda>ops. fold (store_exec F) ops (new_mtstore box)"
  shows "QueueDepth True a (fst (Delete True a (m ops))) = 0 \<and>
    QueuePullRaw True a off l (fst (Register F iv now ok a t (fst (Delete True a (m ops))))) = [] \<and>
    (b \<noteq> a \<longrightarrow> QueuePullRaw True b off l (fst (Delete True a (m ops))) = QueuePullRaw True b off l (m ops))"
proof -
  let ?m = "m ops"
  have "rows_owned ?m" unfolding m_def by (rule rows_owned_run) (simp add: rows_owned_def new_mtstore_def)
  then have q: "\<forall>r\<in>set (mt_queue (fst (Delete True a ?m))). m_alias r \<noteq> a"
    by (auto simp: Delete_def rows_owned_def)
  have "filter (\<lambda>r. m_alias r = b \<and> m_id r > off) (mt_queue (fst (Delete True a ?m))) =
      filter (\<lambda>r. m_alias r = b \<and> m_id r > off) (mt_queue ?m)" if "b \<noteq> a"
    using that by (auto simp: Delete_def intro!: filter_cong)
  moreover have "filter (\<lambda>r. m_alias r = a \<and> m_id r > off) (mt_queue (fst (Delete True a ?m))) = []"
    "filter (\<lambda>r. m_alias r = a) (mt_queue (fst (Delete True a ?m))) = []"
    using q by (auto simp: filter_empty_conv)
  ultimately show ?thesis by (simp add: QueuePullRaw_def QueueDepth_def Register_sessions)
qed

subsection \<open>The persisted queue as a bus\<close>

text \<open>A consumer of one session with the id of the last update it saw.\<close>

type_synonym 'k mt_bus = "('k mtstore \<times> string) \<times> int"

definition own_rows :: "'k mt_bus \<Rightarrow> mt_row list" where
  "own_rows s = filter (\<lambda>r. m_alias r = snd (fst s)) (mt_queue (fst (fst s)))"

definition mt_rows :: "'k mt_bus \<Rightarrow> mt_row list" where
  "mt_rows s = sort_key m_id (filter (\<lambda>r. m_id r > snd s) (own_rows s))"

definition row_update :: "mt_row \<Rightarrow> obj" where
  "row_update r = obj_put ''update_id'' (JInt (m_id r)) (case m_json r of ObjText u \<Rightarrow> u | _ \<Rightarrow> [])"

definition mt_unseen :: "'k mt_bus \<Rightarrow> obj list" where
  "mt_unseen s = map row_update (mt_rows s)"

definition mt_bus_inv :: "'k mt_bus \<Rightarrow> bool" where
  "mt_bus_inv s \<longleftrightarrow>
     distinct (map m_id (own_rows s)) \<and> (\<forall>r\<in>set (own_rows s). \<exists>u. m_json r = ObjText u) \<and>
     map_of (sessions (fst (fst s))) (snd (fst s)) \<noteq> None"

definition mt_feed :: "rat \<times> int \<times> obj \<Rightarrow> 'k mt_bus \<Rightarrow> 'k mt_bus" where
  "mt_feed f s = (case f of (now, i, u) \<Rightarrow>
     ((fst (QueuePush now True (snd (fst s)) i (ObjText u) (fst (fst s))), snd (fst s)), snd s))"

definition mt_feed_ok :: "rat \<times> int \<times> obj \<Rightarrow> 'k mt_bus \<Rightarrow> bool" where
  "mt_feed_ok f s \<longleftrightarrow> fst (snd f) > snd s \<and>
     (\<forall>r\<in>set (own_rows s). m_id r < fst (snd f))"

definition mt_content :: "rat \<times> int \<times> obj \<Rightarrow> obj list" where
  "mt_content f = [obj_put ''update_id'' (JInt (fst (snd f))) (snd (snd f))]"

text \<open>A poll: pull after the last id, acknowledge what came (the flag is whether that statement worked).\<close>

definition mt_poll :: "bool \<times> int \<Rightarrow> 'k mt_bus \<Rightarrow> 'k mt_bus \<times> obj list" where
  "mt_poll p s =
     (let m = fst (fst s); a = snd (fst s); out = QueuePull True a (snd s) (snd p) m;
          seen = (if out = [] then snd s
                  else case toInt64 (obj_get (last out) ''update_id'') of None \<Rightarrow> snd s | Some i \<Rightarrow> i)
      in (((fst (QueueAck (fst p) a seen m), a), seen), out))"

lemma insort_key_snoc: "f y \<le> f x \<Longrightarrow> insort_key f y (zs @ [x]) = insort_key f y zs @ [x]"
  by (induction zs) auto

lemma sort_key_snoc_max: "\<forall>y\<in>set xs. f y \<le> f x \<Longrightarrow> sort_key f (xs @ [x]) = sort_key f xs @ [x]"
  by (induction xs) (auto simp: insort_key_snoc)

lemma mt_rows_strict:
  assumes "mt_bus_inv s"
  shows "sorted_wrt (<) (map m_id (mt_rows s))"
proof -
  have "distinct (map m_id (filter (\<lambda>r. m_id r > snd s) (own_rows s)))"
    using assms unfolding mt_bus_inv_def by (blast intro: distinct_map_filter)
  then have "distinct (map m_id (mt_rows s))" by (simp add: mt_rows_def distinct_map)
  then show ?thesis by (simp add: strict_sorted_iff mt_rows_def)
qed

lemma mt_feed_law:
  assumes "mt_bus_inv s" "mt_feed_ok f s"
  shows "mt_bus_inv (mt_feed f s) \<and> mt_unseen (mt_feed f s) = mt_unseen s @ mt_content f"
proof -
  obtain m a lst where s: "s = ((m, a), lst)" by (metis prod.exhaust)
  obtain now i u where f: "f = (now, i, u)" by (metis prod.exhaust)
  let ?r = "\<lparr>m_alias = a, m_id = i, m_json = ObjText u, m_at = now\<rparr>"
  have ok: "i > lst" "\<forall>r\<in>set (own_rows s). m_id r < i"
    using assms(2) by (auto simp: mt_feed_ok_def s f)
  have e: "mt_feed f s = ((m\<lparr>mt_queue := mt_queue m @ [?r]\<rparr>, a), lst)"
    using assms(1) by (auto simp: mt_feed_def s f QueuePush_def mt_bus_inv_def)
  have own: "own_rows (mt_feed f s) = own_rows s @ [?r]" unfolding e by (simp add: own_rows_def s)
  have sn: "snd (mt_feed f s) = snd s" "snd (fst (mt_feed f s)) = snd (fst s)"
    "sessions (fst (fst (mt_feed f s))) = sessions (fst (fst s))"
    unfolding e by (simp_all add: s)
  have "mt_rows (mt_feed f s) = mt_rows s @ [?r]"
    using ok(2) assms(2) unfolding mt_rows_def own sn
    by (simp add: mt_feed_ok_def f sort_key_snoc_max less_imp_le)
  moreover have "mt_bus_inv (mt_feed f s)"
    using assms(1) ok(2) unfolding mt_bus_inv_def own sn by auto
  ultimately show ?thesis by (simp add: mt_unseen_def mt_content_def f row_update_def)
qed

lemma QueuePull_rows:
  assumes "mt_bus_inv ((m, a), lst)"
  shows "QueuePull True a lst l m =
    map row_update (take (nat (if l \<le> 0 then 100 else l)) (mt_rows ((m, a), lst)))"
proof -
  define rs where "rs = take (nat (if l \<le> 0 then 100 else l)) (mt_rows ((m, a), lst))"
  have "\<forall>r\<in>set rs. \<exists>u. m_json r = ObjText u"
    using assms by (auto simp: rs_def mt_rows_def mt_bus_inv_def dest!: in_set_takeD)
  then have "List.map_filter attach_id (filter (\<lambda>(i, t). t \<noteq> EmptyText) (map (\<lambda>r. (m_id r, m_json r)) rs)) =
      map row_update rs"
    by (induction rs) (auto simp: List.map_filter_simps attach_id_def row_update_def)
  then show ?thesis by (simp add: QueuePull_def QueuePullRaw_def rs_def mt_rows_def own_rows_def)
qed

lemma mt_poll_law:
  assumes "mt_bus_inv s"
  shows "mt_bus_inv (fst (mt_poll p s)) \<and> mt_unseen s = snd (mt_poll p s) @ mt_unseen (fst (mt_poll p s))"
    and "mt_unseen s \<noteq> [] \<Longrightarrow> snd (mt_poll p s) \<noteq> []"
proof -
  obtain m a lst where s: "s = ((m, a), lst)" by (metis prod.exhaust)
  define n where "n = nat (if snd p \<le> 0 then 100 else snd p)"
  define rs where "rs = mt_rows s"
  have n: "0 < n" by (auto simp: n_def)
  have out: "QueuePull True a lst (snd p) m = map row_update (take n rs)"
    using QueuePull_rows [OF assms [unfolded s]] by (simp add: n_def rs_def s)
  show "mt_unseen s \<noteq> [] \<Longrightarrow> snd (mt_poll p s) \<noteq> []"
    using n by (simp add: mt_poll_def s out Let_def mt_unseen_def rs_def)
  show "mt_bus_inv (fst (mt_poll p s)) \<and> mt_unseen s = snd (mt_poll p s) @ mt_unseen (fst (mt_poll p s))"
  proof -
    define seen where "seen = (if rs = [] then lst else m_id (last (take n rs)))"
    have p: "mt_poll p s = (((fst (QueueAck (fst p) a seen m), a), seen), map row_update (take n rs))"
      using n by (simp add: mt_poll_def s out Let_def seen_def last_map row_update_def)
    have above: "lst \<le> seen"
    proof (cases "rs = []")
      case False
      then have "last (take n rs) \<in> set rs" using n by (metis in_set_takeD last_in_set not_gr_zero take_eq_Nil)
      then show ?thesis by (auto simp: seen_def rs_def mt_rows_def s)
    qed (simp add: seen_def)
    let ?s = "((fst (QueueAck (fst p) a seen m), a), seen)"
    have own: "own_rows ?s = filter (\<lambda>r. m_id r > seen \<or> \<not> fst p) (own_rows s)"
      by (auto simp: own_rows_def QueueAck_def s intro!: filter_cong)
    have "filter (\<lambda>r. m_id r > seen) (own_rows ?s) =
        filter (\<lambda>r. m_id r > seen) (filter (\<lambda>r. m_id r > lst) (own_rows s))"
      using above unfolding own filter_filter by (intro filter_cong) auto
    then have "mt_rows ?s = filter (\<lambda>r. m_id r > seen) rs"
      by (simp add: mt_rows_def rs_def s filter_sort)
    also have "\<dots> = drop n rs"
      using filter_above_last_take [OF mt_rows_strict [OF assms, folded rs_def] n] by (auto simp: seen_def)
    finally have "mt_unseen s = map row_update (take n rs) @ mt_unseen ?s"
      by (simp add: mt_unseen_def rs_def flip: map_append)
    moreover have "sessions (fst (fst ?s)) = sessions m" by (simp add: QueueAck_def)
    then have "mt_bus_inv ?s"
      using assms unfolding mt_bus_inv_def own by (auto simp: s intro: distinct_map_filter)
    ultimately show ?thesis by (simp add: p)
  qed
qed

interpretation mq: update_bus mt_bus_inv mt_unseen mt_feed mt_content mt_feed_ok mt_poll
  by unfold_locales (rule mt_feed_law mt_poll_law, assumption+)+



subsection \<open>The migrated keys\<close>

lemma copy_done_lookup:
  assumes "distinct (map fst rows)" "\<forall>(k, a, w)\<in>set rows. map_of tab (a, k) = None"
  shows "map_of (copy_done rows tab) (a, k) =
    (case map_of rows k of Some (a', w) \<Rightarrow> if a' = a then Some (Done, w) else map_of tab (a, k)
     | None \<Rightarrow> map_of tab (a, k))"
  using assms
proof (induction rows arbitrary: tab)
  case Nil
  then show ?case by (simp add: copy_done_def)
next
  case (Cons r rows)
  obtain k1 a1 s1 where r: "r = (k1, a1, s1)" by (metis prod.exhaust)
  let ?tab = "tab @ [((a1, k1), (Done, s1))]"
  have step: "copy_done (r # rows) tab = copy_done rows ?tab"
    using Cons.prems(2) by (simp add: copy_done_def r)
  have "\<forall>(k, a, w)\<in>set rows. map_of ?tab (a, k) = None"
    using Cons.prems by (force simp: r map_add_def split: option.splits)
  then have "map_of (copy_done (r # rows) tab) (a, k) =
      (case map_of rows k of Some (a', w) \<Rightarrow> if a' = a then Some (Done, w) else map_of ?tab (a, k)
       | None \<Rightarrow> map_of ?tab (a, k))"
    using Cons.IH [of ?tab] Cons.prems(1) unfolding step by simp
  moreover have "map_of rows k1 = None" using Cons.prems(1) by (simp add: r map_of_eq_None_iff)
  moreover have "map_of tab (a1, k1) = None" using Cons.prems(2) by (simp add: r)
  ultimately show ?case by (auto simp: r map_add_def split: option.splits)
qed

text \<open>
  Upgrading an old database forgets no completed send: a migration whose statements succeed
  turns every key of the old table into a completed one with its time, so that it is still
  suppressed, and a second run changes nothing.
\<close>

lemma migration_keeps_keys:
  assumes "distinct (map fst rows)" "io = \<lparr>info_ok = True, create_ok = True, copy_ok = True, drop_ok = True, rename_ok = True\<rparr>"
  shows "\<exists>tab. migrateIdempotencyV1 io (Some (OldKeys rows), None) = ((Some (NewKeys tab), None), True) \<and>
    (\<forall>(k, a, w)\<in>set rows. map_of tab (a, k) = Some (Done, w)) \<and>
    migrateIdempotencyV1 io (Some (NewKeys tab), None) = ((Some (NewKeys tab), None), True)"
proof -
  have "map_of (copy_done rows []) (a, k) = Some (Done, w)" if "(k, a, w) \<in> set rows" for k a w
    using copy_done_lookup [OF assms(1), of "[]" a k] assms(1) that by (simp add: map_of_is_SomeI)
  then show ?thesis
    by (intro exI [of _ "copy_done rows []"]) (auto simp: migrateIdempotencyV1_def assms(2) Let_def)
qed

text \<open>Opening an old file hands over a store in which every key of the old table is a completed send.\<close>

lemma open_keeps_old_keys:
  assumes "distinct (map fst rows)" "io = \<lparr>info_ok = True, create_ok = True, copy_ok = True, drop_ok = True, rename_ok = True\<rparr>"
    "(k, a, w) \<in> set rows"
  shows "\<exists>keys m. OpenMT (Inr box) (Inr ()) True io True found (Some (OldKeys rows), None) = (keys, Inr m) \<and>
    m_box m = box \<and> map_of (mt_keys m) (a, k) = Some (Done, w)"
  using migration_keeps_keys [OF assms(1, 2)] assms(3) by (auto simp: OpenMT_def new_mtstore_def split: option.splits)

text \<open>
  The migration is not atomic. When the rename after the drop fails, the open fails and the copied keys
  stay in \<^verbatim>\<open>idempotency_keys_v2\<close>; the next open lets the schema create an empty table of the new shape,
  takes the migration for done, and every completed send is forgotten for good.
\<close>

lemma interrupted_migration_forgets_keys:
  assumes "io = \<lparr>info_ok = True, create_ok = True, copy_ok = True, drop_ok = True, rename_ok = False\<rparr>"
    "OpenMT (Inr box) (Inr ()) True io e found (Some (OldKeys rows), None) = (keys, r)"
  shows "r = Inl SchemaError \<and> keys = (None, Some (copy_done rows [])) \<and>
    (\<forall>io'. info_ok io' \<longrightarrow> (\<exists>m. OpenMT (Inr box) (Inr ()) True io' True found keys =
       ((Some (NewKeys []), Some (copy_done rows [])), Inr m) \<and> mt_keys m = []))"
  using assms by (auto simp: OpenMT_def migrateIdempotencyV1_def Let_def)

end
