(* ===== verification/BotSession.thy ===== *)
theory BotSession
  imports Guard Queue GatewayStore
begin

text \<open>
  \<^verbatim>\<open>internal/botapi/session.go\<close>, the session object: its states, counters, the send meter, the
  status view, and the small conversions of dynamic values the plane uses (\<^verbatim>\<open>numberOf\<close>,
  \<^verbatim>\<open>toStr\<close>). A cancel function is a number naming the goroutine's context; which contexts are
  cancelled is kept by their owner. \<^verbatim>\<open>fmt.Sscanf(s, "%g")\<close> is the parameter \<open>sg\<close>.
\<close>

datatype session_state = Connecting | Live | PausedState | Draining | ErrorState

definition gatewayOwned :: "string set" where
  "gatewayOwned = {''getupdates'', ''setwebhook'', ''deletewebhook'', ''logout'', ''close''}"

record last_429 =
  l_method :: string
  l_chat :: "int option"
  l_retry :: rat
  l_at :: rat

record BotSession =
  sAlias :: string
  sToken :: string
  sstate :: session_state
  squeue :: queue
  sguard :: guard
  connectedSince :: rat
  lastError :: string
  real429 :: int
  synth429 :: int
  last429 :: "last_429 option"
  pushURL :: string
  pushHealthy :: "bool option"
  pollCancel :: "nat option"
  pushCancel :: "nat option"
  chatNameCache :: "(string \<times> int) list"
  OnLimit :: "string option"
  PaidBroadcasts :: bool
  typingEnabled :: "bool option"
  typingPrivateOnly :: "bool option"
  typingIntervalS :: "rat option"
  typingTimeoutS :: "rat option"
  typingTimeoutText :: "string option"
  sendTimes :: "rat list"

definition EffectiveOnLimit :: "BotSession \<Rightarrow> string" where
  "EffectiveOnLimit s = (case OnLimit s of Some p \<Rightarrow> p | None \<Rightarrow> ''queue'')"

definition setState :: "session_state \<Rightarrow> BotSession \<Rightarrow> BotSession" where
  "setState st s = s\<lparr>sstate := st\<rparr>"

definition noteSend :: "rat \<Rightarrow> BotSession \<Rightarrow> BotSession" where
  "noteSend now s = s\<lparr>sendTimes := keep_last 200 (sendTimes s @ [now])\<rparr>"

definition sendsPerS :: "rat \<Rightarrow> BotSession \<Rightarrow> BotSession \<times> rat" where
  "sendsPerS now s =
     (let kept = filter (\<lambda>t. now - t \<le> 1) (sendTimes s)
      in (s\<lparr>sendTimes := kept\<rparr>, of_nat (length kept)))"

definition noteReal429 :: "BotSession \<Rightarrow> BotSession" where
  "noteReal429 s = s\<lparr>real429 := real429 s + 1\<rparr>"

definition noteSynthetic429 :: "BotSession \<Rightarrow> BotSession" where
  "noteSynthetic429 s = s\<lparr>synth429 := synth429 s + 1\<rparr>"

definition setError :: "string \<Rightarrow> BotSession \<Rightarrow> BotSession" where
  "setError msg s = s\<lparr>lastError := msg\<rparr>"

definition setPushHealthy :: "bool option \<Rightarrow> BotSession \<Rightarrow> BotSession" where
  "setPushHealthy v s = s\<lparr>pushHealthy := v\<rparr>"

record public_status =
  p_alias :: string
  p_state :: session_state
  p_connected_since :: rat
  p_connection_age :: "rat option"
  p_queue :: queue_stats
  p_buckets :: guard_snapshot
  p_sends_per_s :: rat
  p_real_429 :: int
  p_synthetic_429 :: int
  p_last_429 :: "last_429 option"
  p_last_error :: string
  p_push_url :: "string option"
  p_push_healthy :: "bool option"
  p_on_limit :: string
  p_paid_broadcasts :: bool

text \<open>Readings: the wall clock of the age, the queue's monotonic clock, the guard's clock, the meter's.\<close>

definition PublicStatus :: "rat \<Rightarrow> int \<Rightarrow> rat \<Rightarrow> rat \<Rightarrow> BotSession \<Rightarrow> BotSession \<times> public_status" where
  "PublicStatus wall qnow gnow now s =
     (let (g, buckets) = Snapshot gnow (sguard s);
          (s1, rate) = sendsPerS now (s\<lparr>sguard := g\<rparr>)
      in (s1,
          \<lparr>p_alias = sAlias s, p_state = sstate s, p_connected_since = connectedSince s,
           p_connection_age = (if connectedSince s > 0 then Some (round1 (wall - connectedSince s)) else None),
           p_queue = Stats qnow (squeue s), p_buckets = buckets, p_sends_per_s = rate,
           p_real_429 = real429 s, p_synthetic_429 = synth429 s, p_last_429 = last429 s,
           p_last_error = take 200 (lastError s), p_push_url = nilIfEmpty (pushURL s),
           p_push_healthy = pushHealthy s, p_on_limit = EffectiveOnLimit s,
           p_paid_broadcasts = PaidBroadcasts s\<rparr>))"

definition sortedAliases :: "(string \<times> 'a) list \<Rightarrow> string list" where
  "sortedAliases m = sort (remdups (map fst m))"

subsection \<open>Dynamic values\<close>

fun numberOf :: "(string \<Rightarrow> rat option) \<Rightarrow> json \<Rightarrow> rat" where
  "numberOf sg (JNum r) = r"
| "numberOf sg (JInt n) = of_int n"
| "numberOf sg (JStr s) = (case sg s of Some r \<Rightarrow> r | None \<Rightarrow> 0)"
| "numberOf sg _ = 0"

fun toStr :: "json \<Rightarrow> string" where
  "toStr (JStr s) = s"
| "toStr (JNum r) = itoa (int64_of_float r)"
| "toStr (JNumber s) = s"
| "toStr _ = []"

fun as_obj :: "json \<Rightarrow> obj option" where
  "as_obj (JObj m) = Some m"
| "as_obj _ = None"

fun as_int :: "json \<Rightarrow> int option" where
  "as_int (JNum r) = Some (int64_of_float r)"
| "as_int (JInt n) = Some n"
| "as_int _ = None"

end
