(* ===== verification/Typing.thy ===== *)
theory Typing
  imports BotSession
begin

text \<open>
  \<^verbatim>\<open>internal/botapi/typing.go\<close>: the typing indicator. The records the loops and the table of
  active loops share are kept in a heap (\<open>heap\<close>, by number), because the source shares them by
  pointer: cancelling or extending a record through the table is seen by its loop. A running
  loop goroutine is an entry of \<open>loops\<close>; one turn of its \<^verbatim>\<open>for\<close> body is \<open>loop_turn\<close>, the wake-up
  from its \<^verbatim>\<open>select\<close> is an argument of the next turn. Requests sent upstream are collected in
  \<open>sent\<close>. The two-level map alias, chat is one map on pairs: an alias with an empty inner map and an
  absent alias look the same to every reader.
\<close>

record typing_settings =
  t_enabled :: bool
  t_private_only :: bool
  t_interval_s :: rat
  t_timeout_s :: rat
  t_timeout_text :: string

definition settingsFromConfig :: "TypingConfig \<Rightarrow> typing_settings" where
  "settingsFromConfig c = \<lparr>t_enabled = tcEnabled c, t_private_only = tcPrivateOnly c,
     t_interval_s = tcIntervalS c, t_timeout_s = tcTimeoutS c, t_timeout_text = tcTimeoutText c\<rparr>"

record TypingPatch =
  pEnabled :: "bool option"
  pPrivateOnly :: "bool option"
  pIntervalS :: "rat option"
  pTimeoutS :: "rat option"
  pTimeoutText :: "string option"

definition override :: "'a option \<Rightarrow> 'a \<Rightarrow> 'a" where
  "override p d = (case p of None \<Rightarrow> d | Some v \<Rightarrow> v)"

definition Apply :: "TypingPatch \<Rightarrow> typing_settings \<Rightarrow> typing_settings" where
  "Apply p r =
     \<lparr>t_enabled = override (pEnabled p) (t_enabled r),
      t_private_only = override (pPrivateOnly p) (t_private_only r),
      t_interval_s = override (pIntervalS p) (t_interval_s r),
      t_timeout_s = override (pTimeoutS p) (t_timeout_s r),
      t_timeout_text = override (pTimeoutText p) (t_timeout_text r)\<rparr>"

text \<open>\<open>deadline = None\<close> is \<^verbatim>\<open>+Inf\<close>, after a cancelled timeout.\<close>

record activeLoop =
  deadline :: "rat option"
  notify :: bool
  cancelled :: bool

record loop =
  loop_rec :: nat
  loop_alias :: string
  loop_chat :: int

datatype typing_request = SendChatAction string int | SendNotice string int string

record typing =
  global :: typing_settings
  heap :: "(nat \<times> activeLoop) list"
  next_rec :: nat
  active :: "((string \<times> int) \<times> nat) list"
  cbToChat :: "(string \<times> string \<times> int) list"
  closed :: bool
  loops :: "loop list"
  sent :: "(nat \<times> typing_request) list"

definition NewTypingManager :: "TypingConfig \<Rightarrow> typing" where
  "NewTypingManager c = \<lparr>global = settingsFromConfig c, heap = [], next_rec = 0, active = [],
     cbToChat = [], closed = False, loops = [], sent = []\<rparr>"

text \<open>The three layers: per-bot override, runtime global.\<close>

definition effective :: "typing \<Rightarrow> BotSession \<Rightarrow> typing_settings" where
  "effective t s =
     (let g = global t in
      \<lparr>t_enabled = (case typingEnabled s of Some v \<Rightarrow> v | None \<Rightarrow> t_enabled g),
       t_private_only = (case typingPrivateOnly s of Some v \<Rightarrow> v | None \<Rightarrow> t_private_only g),
       t_interval_s = (case typingIntervalS s of Some v \<Rightarrow> v | None \<Rightarrow> t_interval_s g),
       t_timeout_s = (case typingTimeoutS s of Some v \<Rightarrow> v | None \<Rightarrow> t_timeout_s g),
       t_timeout_text = (case typingTimeoutText s of Some v \<Rightarrow> v | None \<Rightarrow> t_timeout_text g)\<rparr>)"

definition ActiveCount :: "string \<Rightarrow> typing \<Rightarrow> nat" where
  "ActiveCount alias t = length (filter (\<lambda>((a, c), r). a = alias) (active t))"

record typing_status =
  ts_effective :: typing_settings
  ts_overridden :: "string list"
  ts_active_chats :: nat

definition StatusFor :: "typing \<Rightarrow> BotSession \<Rightarrow> typing_status" where
  "StatusFor t s =
     \<lparr>ts_effective = effective t s,
      ts_overridden =
        (if typingEnabled s \<noteq> None then [''enabled''] else []) @
        (if typingPrivateOnly s \<noteq> None then [''private_only''] else []) @
        (if typingIntervalS s \<noteq> None then [''interval_s''] else []) @
        (if typingTimeoutS s \<noteq> None then [''timeout_s''] else []) @
        (if typingTimeoutText s \<noteq> None then [''timeout_text''] else []),
      ts_active_chats = ActiveCount (sAlias s) t\<rparr>"

subsection \<open>Which chat an update belongs to\<close>

definition chatOfUpdate :: "obj \<Rightarrow> int option" where
  "chatOfUpdate u =
     (let msg = (case as_obj (obj_get u ''message'') of
                   Some m \<Rightarrow> Some m
                 | None \<Rightarrow>
                     (case as_obj (obj_get u ''edited_message'') of
                        Some m \<Rightarrow> Some m
                      | None \<Rightarrow>
                          (case as_obj (obj_get u ''callback_query'') of
                             Some c \<Rightarrow> as_obj (obj_get c ''message'')
                           | None \<Rightarrow> None)))
      in case msg of
          None \<Rightarrow> None
        | Some m \<Rightarrow>
            (case as_obj (obj_get m ''chat'') of
               None \<Rightarrow> None
             | Some chat \<Rightarrow> as_int (obj_get chat ''id'')))"

subsection \<open>Starting\<close>

definition rec_modify :: "nat \<Rightarrow> (activeLoop \<Rightarrow> activeLoop) \<Rightarrow> typing \<Rightarrow> typing" where
  "rec_modify r f t = t\<lparr>heap := map (\<lambda>(i, x). (i, if i = r then f x else x)) (heap t)\<rparr>"

definition start :: "rat \<Rightarrow> string \<Rightarrow> int \<Rightarrow> rat \<Rightarrow> typing \<Rightarrow> typing" where
  "start now alias chatID timeoutS t =
     (if closed t then t
      else case map_of (active t) (alias, chatID) of
          Some r \<Rightarrow>
            rec_modify r (\<lambda>x. if notify x then x\<lparr>deadline := Some (now + timeoutS)\<rparr> else x) t
        | None \<Rightarrow>
            t\<lparr>heap := (next_rec t, \<lparr>deadline = Some (now + timeoutS), notify = True, cancelled = False\<rparr>) # heap t,
              next_rec := next_rec t + 1,
              active := ((alias, chatID), next_rec t) # active t,
              loops := \<lparr>loop_rec = next_rec t, loop_alias = alias, loop_chat = chatID\<rparr> # loops t\<rparr>)"

text \<open>The readings of one update: the guard's two, and the clock of \<open>start\<close>.\<close>

definition onUpdate :: "typing_settings \<Rightarrow> rat \<times> rat \<times> rat \<Rightarrow> obj \<Rightarrow> BotSession \<times> typing \<Rightarrow> BotSession \<times> typing" where
  "onUpdate eff clk u st =
     (let (s, t) = st; (gnow, gt, now) = clk in
      case chatOfUpdate u of
        None \<Rightarrow> st
      | Some chatID \<Rightarrow>
          if t_private_only eff \<and> chatID \<le> 0 then st
          else
            let t1 = (case as_obj (obj_get u ''callback_query'') of
                        Some cbq \<Rightarrow>
                          if obj_get cbq ''id'' \<noteq> JNull
                          then t\<lparr>cbToChat := AList.update (toStr (obj_get cbq ''id'')) (sAlias s, chatID) (cbToChat t)\<rparr>
                          else t
                      | None \<Rightarrow> t);
                (g, snd_state) = ChatSendState gnow gt (Some chatID) (sguard s);
                s1 = s\<lparr>sguard := g\<rparr>
            in if snd_state = SendPaused then (s1, t1)
               else (s1, start now (sAlias s) chatID (t_timeout_s eff) t1))"

definition OnUpdates :: "((rat \<times> rat \<times> rat) \<times> obj) list \<Rightarrow> BotSession \<times> typing \<Rightarrow> BotSession \<times> typing" where
  "OnUpdates us st =
     (let eff = effective (snd st) (fst st) in
      if \<not> t_enabled eff then st
      else fold (\<lambda>(clk, u). onUpdate eff clk u) us st)"

subsection \<open>Stopping\<close>

definition cancel :: "nat \<Rightarrow> typing \<Rightarrow> typing" where
  "cancel r = rec_modify r (\<lambda>x. x\<lparr>cancelled := True\<rparr>)"

definition Stop :: "string \<Rightarrow> int option \<Rightarrow> typing \<Rightarrow> typing" where
  "Stop alias chatID t =
     (case chatID of
        None \<Rightarrow> t
      | Some c \<Rightarrow>
          (case map_of (active t) (alias, c) of
             None \<Rightarrow> t
           | Some r \<Rightarrow> cancel r t))"

definition purgeCallbacks :: "string \<Rightarrow> typing \<Rightarrow> typing" where
  "purgeCallbacks alias t = t\<lparr>cbToChat := filter (\<lambda>(k, a, c). a \<noteq> alias) (cbToChat t)\<rparr>"

definition StopAll :: "string \<Rightarrow> typing \<Rightarrow> typing" where
  "StopAll alias t =
     (let t1 = fold (\<lambda>((a, c), r) t. if a = alias then cancel r t else t) (active t) t
      in purgeCallbacks alias (t1\<lparr>active := filter (\<lambda>((a, c), r). a \<noteq> alias) (active t1)\<rparr>))"

definition StopByCallbackID :: "string \<Rightarrow> json \<Rightarrow> typing \<Rightarrow> typing" where
  "StopByCallbackID alias cbid t =
     (if cbid = JNull then t
      else
        let target = map_of (cbToChat t) (toStr cbid);
            t1 = t\<lparr>cbToChat := AList.delete (toStr cbid) (cbToChat t)\<rparr>
        in case target of
             None \<Rightarrow> t1
           | Some (a, c) \<Rightarrow> if a = alias then Stop alias (Some c) t1 else t1)"

definition CancelTimeout :: "string \<Rightarrow> int option \<Rightarrow> typing \<Rightarrow> typing \<times> bool" where
  "CancelTimeout alias chatID t =
     (case chatID of
        None \<Rightarrow> (t, False)
      | Some c \<Rightarrow>
          (case map_of (active t) (alias, c) of
             None \<Rightarrow> (t, False)
           | Some r \<Rightarrow> (rec_modify r (\<lambda>x. x\<lparr>notify := False, deadline := None\<rparr>) t, True)))"

definition cleanup :: "string \<Rightarrow> int \<Rightarrow> typing \<Rightarrow> typing" where
  "cleanup alias chatID t =
     t\<lparr>active := AList.delete (alias, chatID) (active t),
       cbToChat := filter (\<lambda>(k, a, c). \<not> (a = alias \<and> c = chatID)) (cbToChat t)\<rparr>"

definition Typing_Close :: "typing \<Rightarrow> typing" where
  "Typing_Close t = fold (\<lambda>(k, r). cancel r) (active t) (t\<lparr>closed := True\<rparr>)"

subsection \<open>The loop\<close>

definition beat :: "nat \<Rightarrow> BotSession \<Rightarrow> int \<Rightarrow> typing \<Rightarrow> typing" where
  "beat r s chatID t = t\<lparr>sent := sent t @ [(r, SendChatAction (sToken s) chatID)]\<rparr>"

definition onTimeout :: "nat \<Rightarrow> BotSession \<Rightarrow> int \<Rightarrow> activeLoop \<Rightarrow> typing_settings \<Rightarrow> typing \<Rightarrow> typing" where
  "onTimeout r s chatID x eff t =
     (if chatID \<le> 0 \<or> \<not> notify x then t
      else t\<lparr>sent := sent t @ [(r, SendNotice (sToken s) chatID (t_timeout_text eff))]\<rparr>)"

text \<open>The deferred cleanup of the goroutine's return.\<close>

definition loop_return :: "loop \<Rightarrow> typing \<Rightarrow> typing" where
  "loop_return l t = cleanup (loop_alias l) (loop_chat l) (t\<lparr>loops := remove1 l (loops t)\<rparr>)"

text \<open>One turn of the loop body, up to the \<^verbatim>\<open>select\<close>, for a loop whose record is \<open>x\<close>.\<close>

definition loop_turn :: "rat \<times> rat \<times> rat \<Rightarrow> loop \<Rightarrow> activeLoop \<Rightarrow> BotSession \<times> typing \<Rightarrow> BotSession \<times> typing" where
  "loop_turn clk l x st =
     (let (s, t) = st; (gnow, gt, now) = clk; eff = effective t s; c = loop_chat l in
      if \<not> t_enabled eff then (s, loop_return l t)
      else if t_private_only eff \<and> c \<le> 0 then (s, loop_return l t)
      else
        let (g, send_st) = ChatSendState gnow gt (Some c) (sguard s); s1 = s\<lparr>sguard := g\<rparr> in
        if send_st = SendPaused then (s1, loop_return l t)
        else if (case deadline x of None \<Rightarrow> False | Some d \<Rightarrow> d \<le> now)
        then (s1, loop_return l (onTimeout (loop_rec l) s c x eff t))
        else (s1, if send_st = SendOk then beat (loop_rec l) s c t else t))"

text \<open>
  A wake-up of the goroutine: the context's end (possible only when cancelled) or the timer. An
  unknown loop does nothing.
\<close>

datatype wake = CtxDone | Timer

definition loop_wake :: "rat \<times> rat \<times> rat \<Rightarrow> wake \<Rightarrow> loop \<Rightarrow> BotSession \<times> typing \<Rightarrow> BotSession \<times> typing" where
  "loop_wake clk w l st =
     (let (s, t) = st in
      if l \<notin> set (loops t) then st
      else case map_of (heap t) (loop_rec l) of
          None \<Rightarrow> st
        | Some x \<Rightarrow>
            (case w of
               CtxDone \<Rightarrow> if cancelled x then (s, loop_return l t) else st
             | Timer \<Rightarrow> loop_turn clk l x st))"

subsection \<open>Runs\<close>

text \<open>
  What happens to the typing manager of a plane: updates arrive for a session, its consumers stop
  loops or cancel timeouts, an administrator changes the settings or stops a session, and the
  loops wake up. Each event carries the session object as it is then.
\<close>

datatype typing_event =
  TUpdates "((rat \<times> rat \<times> rat) \<times> obj) list" BotSession
| TStop string "int option"
| TStopAll string
| TStopCallback string json
| TCancelTimeout string "int option"
| TApply TypingPatch
| TWake "rat \<times> rat \<times> rat" wake loop BotSession
| TClose

fun typing_exec :: "typing_event \<Rightarrow> typing \<Rightarrow> typing" where
  "typing_exec (TUpdates us s) t = snd (OnUpdates us (s, t))"
| "typing_exec (TStop a c) t = Stop a c t"
| "typing_exec (TStopAll a) t = StopAll a t"
| "typing_exec (TStopCallback a i) t = StopByCallbackID a i t"
| "typing_exec (TCancelTimeout a c) t = fst (CancelTimeout a c t)"
| "typing_exec (TApply p) t = t\<lparr>global := Apply p (global t)\<rparr>"
| "typing_exec (TWake clk w l s) t = snd (loop_wake clk w l (s, t))"
| "typing_exec TClose t = Typing_Close t"

definition is_notice :: "nat \<Rightarrow> nat \<times> typing_request \<Rightarrow> bool" where
  "is_notice r x \<longleftrightarrow> fst x = r \<and> (\<exists>tok c txt. snd x = SendNotice tok c txt)"

definition notices :: "nat \<Rightarrow> typing \<Rightarrow> nat" where
  "notices r t = length (filter (is_notice r) (sent t))"

text \<open>
  The invariant: loops and active entries name records that exist, each record has at most one
  loop, and a record sent at most one notice, none while its loop runs, and only to a private chat.
\<close>

definition typing_inv :: "typing \<Rightarrow> bool" where
  "typing_inv t \<longleftrightarrow>
     (\<forall>i\<in>fst ` set (heap t). i < next_rec t) \<and> distinct (map fst (heap t)) \<and>
     (\<forall>l\<in>set (loops t). loop_rec l < next_rec t) \<and> distinct (map loop_rec (loops t)) \<and>
     (\<forall>x\<in>set (sent t). fst x < next_rec t) \<and>
     (\<forall>x\<in>set (active t). snd x < next_rec t) \<and>
     (\<forall>r. notices r t \<le> 1) \<and>
     (\<forall>l\<in>set (loops t). notices (loop_rec l) t = 0) \<and>
     (\<forall>r tok c txt. (r, SendNotice tok c txt) \<in> set (sent t) \<longrightarrow> 0 < c)"

text \<open>A record whose timeout was cancelled.\<close>

definition quiet :: "nat \<Rightarrow> typing \<Rightarrow> bool" where
  "quiet r t \<longleftrightarrow> (\<exists>x. map_of (heap t) r = Some x \<and> \<not> notify x \<and> deadline x = None)"

text \<open>
  A common frame for the operations that only touch the table, the callbacks, the settings and
  the cancel flags.
\<close>

definition frame :: "typing \<Rightarrow> typing \<Rightarrow> bool" where
  "frame t t' \<longleftrightarrow> map fst (heap t') = map fst (heap t) \<and> next_rec t' = next_rec t \<and>
     loops t' = loops t \<and> sent t' = sent t \<and> set (active t') \<subseteq> set (active t) \<and>
     (\<forall>r. quiet r t \<longrightarrow> quiet r t')"

lemma frame_refl [simp]: "frame t t"
  by (simp add: frame_def)

lemma frame_trans: "frame t u \<Longrightarrow> frame u v \<Longrightarrow> frame t v"
  by (auto simp: frame_def)

lemma map_of_rec_modify: "map_of (heap (rec_modify r f t)) i = map_option (\<lambda>x. if i = r then f x else x) (map_of (heap t) i)"
proof -
  have "map_of (map (\<lambda>(i, x). (i, if i = r then f x else x)) h) i =
      map_option (\<lambda>x. if i = r then f x else x) (map_of h i)" for h
    by (induction h) auto
  then show ?thesis by (simp add: rec_modify_def)
qed

lemma rec_modify_fields [simp]:
  "map fst (heap (rec_modify r f t)) = map fst (heap t)" "next_rec (rec_modify r f t) = next_rec t"
  "loops (rec_modify r f t) = loops t" "sent (rec_modify r f t) = sent t"
  "active (rec_modify r f t) = active t" "closed (rec_modify r f t) = closed t"
  by (simp_all add: rec_modify_def case_prod_unfold comp_def)

lemma frame_rec_modify:
  assumes "\<And>x. \<not> notify x \<Longrightarrow> deadline x = None \<Longrightarrow> \<not> notify (f x) \<and> deadline (f x) = None"
  shows "frame t (rec_modify r f t)"
proof -
  have "quiet i (rec_modify r f t)" if q: "quiet i t" for i
  proof -
    obtain x where "map_of (heap t) i = Some x" "\<not> notify x" "deadline x = None"
      using q unfolding quiet_def by blast
    then show ?thesis using assms [of x] by (simp add: quiet_def map_of_rec_modify)
  qed
  then show ?thesis by (simp add: frame_def)
qed

lemma frame_cancel: "frame t (cancel r t)"
  unfolding cancel_def by (rule frame_rec_modify) simp

lemma frame_Stop: "frame t (Stop a c t)"
  by (auto simp: Stop_def frame_cancel split: option.split)

lemma frame_fold_cancel: "frame t (fold (\<lambda>((a, c), r) t. if P a then cancel r t else t) xs t)"
proof (induction xs arbitrary: t)
  case Nil
  then show ?case by simp
next
  case (Cons x xs)
  obtain a c r where x: "x = ((a, c), r)" by (metis prod.exhaust)
  let ?u = "if P a then cancel r t else t"
  have "frame t ?u" by (simp add: frame_cancel)
  moreover have "frame ?u (fold (\<lambda>((a, c), r) t. if P a then cancel r t else t) xs ?u)" by (rule Cons.IH)
  ultimately have "frame t (fold (\<lambda>((a, c), r) t. if P a then cancel r t else t) xs ?u)" by (rule frame_trans)
  then show ?case by (simp only: x fold_simps comp_apply prod.case)
qed

lemma frame_shrink: "set xs \<subseteq> set (active t) \<Longrightarrow> frame t (t\<lparr>active := xs, cbToChat := cs\<rparr>)"
  by (simp add: frame_def quiet_def)

lemma frame_other: "frame t (t\<lparr>cbToChat := cs\<rparr>)" "frame t (t\<lparr>global := gs\<rparr>)" "frame t (t\<lparr>closed := b\<rparr>)"
  by (simp_all add: frame_def quiet_def)

lemma frame_StopAll: "frame t (StopAll a t)"
proof -
  let ?u = "fold (\<lambda>((b, c), r) t. if b = a then cancel r t else t) (active t) t"
  have "frame ?u (StopAll a t)"
    by (simp add: StopAll_def purgeCallbacks_def Let_def) (rule frame_shrink, auto)
  with frame_fold_cancel [of t "\<lambda>b. b = a" "active t"] show ?thesis by (rule frame_trans)
qed

lemma frame_StopByCallbackID: "frame t (StopByCallbackID a i t)"
proof -
  let ?u = "t\<lparr>cbToChat := AList.delete (toStr i) (cbToChat t)\<rparr>"
  have "frame t ?u" "frame ?u (Stop a c ?u)" for c by (rule frame_other frame_Stop)+
  then show ?thesis
    by (auto simp: StopByCallbackID_def Let_def split: option.split intro: frame_trans)
qed

lemma frame_CancelTimeout: "frame t (fst (CancelTimeout a c t))"
  by (auto simp: CancelTimeout_def split: option.split intro!: frame_rec_modify)

lemma frame_Close: "frame t (Typing_Close t)"
proof -
  have "frame (t\<lparr>closed := True\<rparr>) (fold (\<lambda>((a, c), r) t. if True then cancel r t else t) xs (t\<lparr>closed := True\<rparr>))" for xs
    by (rule frame_fold_cancel [of _ "\<lambda>_. True"])
  then have "frame t (fold (\<lambda>(k, r). cancel r) (active t) (t\<lparr>closed := True\<rparr>))"
    using frame_other(3) frame_trans by (simp add: case_prod_unfold) blast
  then show ?thesis by (simp add: Typing_Close_def)
qed

lemma frame_inv: "frame t t' \<Longrightarrow> typing_inv t \<Longrightarrow> typing_inv t'"
proof -
  assume f: "frame t t'" and i: "typing_inv t"
  have "notices r t' = notices r t" for r using f by (simp add: frame_def notices_def)
  moreover have "fst ` set (heap t') = fst ` set (heap t)"
    using f unfolding frame_def by (metis set_map)
  ultimately show "typing_inv t'" using f i by (auto simp: frame_def typing_inv_def)
qed

subsection \<open>The operations that start or run loops\<close>

text \<open>What an operation keeps: the invariant, and that a cancelled timeout stays cancelled and silent.\<close>

definition keeps :: "typing \<Rightarrow> typing \<Rightarrow> bool" where
  "keeps t t' \<longleftrightarrow> (typing_inv t \<longrightarrow> typing_inv t') \<and>
     (\<forall>r. typing_inv t \<longrightarrow> quiet r t \<longrightarrow> quiet r t' \<and> notices r t' = notices r t)"

lemma keeps_refl [simp]: "keeps t t"
  by (simp add: keeps_def)

lemma keeps_trans: "keeps t u \<Longrightarrow> keeps u v \<Longrightarrow> keeps t v"
  by (auto simp: keeps_def)

lemma frame_keeps: "frame t t' \<Longrightarrow> keeps t t'"
  using frame_inv by (auto simp: keeps_def frame_def notices_def)

lemma notices_fresh: "typing_inv t \<Longrightarrow> next_rec t \<le> r \<Longrightarrow> notices r t = 0"
  by (auto simp: typing_inv_def notices_def is_notice_def filter_empty_conv)

lemma start_new_inv:
  assumes "typing_inv t"
  shows "typing_inv (t\<lparr>heap := (next_rec t, x) # heap t, next_rec := next_rec t + 1,
     active := (k, next_rec t) # active t, loops := \<lparr>loop_rec = next_rec t, loop_alias = a, loop_chat = c\<rparr> # loops t\<rparr>)"
    (is "typing_inv ?t")
proof -
  have n: "notices r ?t = notices r t" for r by (simp add: notices_def)
  have "next_rec t \<notin> fst ` set (heap t)" "next_rec t \<notin> loop_rec ` set (loops t)"
    using assms by (auto simp: typing_inv_def)
  with assms notices_fresh [OF assms order_refl] show ?thesis
    unfolding typing_inv_def n by (auto simp: less_Suc_eq)
qed

lemma keeps_start: "keeps t (start now a c ts t)"
proof (cases "closed t")
  case True
  then show ?thesis by (simp add: start_def)
next
  case False
  show ?thesis
  proof (cases "map_of (active t) (a, c)")
    case (Some r)
    with False show ?thesis
      by (auto simp: start_def intro!: frame_keeps frame_rec_modify)
  next
    case None
    have q: "quiet r t \<Longrightarrow> typing_inv t \<Longrightarrow> r \<noteq> next_rec t" for r
      by (auto simp: quiet_def typing_inv_def dest!: map_of_SomeD)
    from None False show ?thesis
      using start_new_inv q by (auto simp: start_def keeps_def quiet_def notices_def)
  qed
qed

lemma keeps_onUpdate: "keeps t (snd (onUpdate eff clk u (s, t)))"
proof -
  have "keeps t (start now a c ts (t\<lparr>cbToChat := cs\<rparr>))" "keeps t (t\<lparr>cbToChat := cs\<rparr>)" for now a c ts cs
    by (rule keeps_trans [OF frame_keeps [OF frame_other(1)] keeps_start])
      (rule frame_keeps [OF frame_other(1)])
  then show ?thesis
    by (auto simp: onUpdate_def Let_def case_prod_unfold keeps_start split: option.split)
qed

lemma keeps_OnUpdates: "keeps t (snd (OnUpdates us (s, t)))"
proof -
  have "keeps (snd st) (snd (fold (\<lambda>(clk, u). onUpdate eff clk u) us st))" for eff st
  proof (induction us arbitrary: st)
    case Nil
    then show ?case by simp
  next
    case (Cons x us)
    obtain clk u where x: "x = (clk, u)" by (cases x)
    have "keeps (snd st) (snd (onUpdate eff clk u st))" using keeps_onUpdate by (cases st) auto
    with Cons.IH [of "onUpdate eff clk u st"] show ?case by (simp add: x keeps_trans)
  qed
  then show ?thesis by (fastforce simp: OnUpdates_def Let_def)
qed

lemma set_remove1_rec:
  "distinct (map loop_rec ls) \<Longrightarrow> l \<in> set ls \<Longrightarrow> set (remove1 l ls) = {k \<in> set ls. loop_rec k \<noteq> loop_rec l}"
  by (induction ls) (auto, metis image_eqI)

lemma keeps_return:
  assumes "typing_inv t" "l \<in> set (loops t)"
    and "xs = [] \<or> (\<exists>tok txt. xs = [(loop_rec l, SendNotice tok (loop_chat l) txt)] \<and> 0 < loop_chat l)"
    and "quiet (loop_rec l) t \<Longrightarrow> xs = []"
  shows "typing_inv (loop_return l (t\<lparr>sent := sent t @ xs\<rparr>))"
    and "quiet r t \<Longrightarrow> quiet r (loop_return l (t\<lparr>sent := sent t @ xs\<rparr>)) \<and>
      notices r (loop_return l (t\<lparr>sent := sent t @ xs\<rparr>)) = notices r t"
proof -
  let ?t = "loop_return l (t\<lparr>sent := sent t @ xs\<rparr>)"
  have f: "heap ?t = heap t" "next_rec ?t = next_rec t" "loops ?t = remove1 l (loops t)"
      "sent ?t = sent t @ xs" "set (active ?t) \<subseteq> set (active t)"
    by (auto simp: loop_return_def cleanup_def AList.delete_eq)
  have n: "notices r ?t = notices r t + (if xs \<noteq> [] \<and> r = loop_rec l then 1 else 0)" for r
    using assms(3) by (auto simp: notices_def f is_notice_def)
  have ls: "set (loops ?t) = {k \<in> set (loops t). loop_rec k \<noteq> loop_rec l}"
    using assms(1,2) by (simp add: f set_remove1_rec typing_inv_def)
  have d: "distinct (map loop_rec (loops ?t))"
    using assms(1) by (simp add: f typing_inv_def distinct_map distinct_remove1 inj_on_def)
  have zero: "notices (loop_rec l) t = 0" using assms(1,2) by (simp add: typing_inv_def)
  show "typing_inv ?t"
    using assms(1,2,3) f(5) d zero
    unfolding typing_inv_def n ls f(1,2,4) by auto blast+
  show "quiet r t \<Longrightarrow> quiet r ?t \<and> notices r ?t = notices r t"
    using assms(4) n by (auto simp: quiet_def f)
qed

lemma keeps_loop_wake: "keeps t (snd (loop_wake clk w l (s, t)))"
proof (cases "l \<in> set (loops t) \<and> (\<exists>x. map_of (heap t) (loop_rec l) = Some x)")
  case False
  then show ?thesis by (auto simp: loop_wake_def split: option.split)
next
  case True
  then obtain x where l: "l \<in> set (loops t)" and x: "map_of (heap t) (loop_rec l) = Some x" by blast
  have ret: "keeps t (loop_return l t)"
    unfolding keeps_def using keeps_return [OF _ l, where xs = "[]"] by simp
  have tmo: "keeps t (loop_return l (onTimeout (loop_rec l) s (loop_chat l) x eff t))" if "deadline x \<noteq> None" for eff
  proof (cases "loop_chat l \<le> 0 \<or> \<not> notify x")
    case True
    with ret show ?thesis by (simp add: onTimeout_def)
  next
    case False
    let ?xs = "[(loop_rec l, SendNotice (sToken s) (loop_chat l) (t_timeout_text eff))]"
    have nq: "quiet (loop_rec l) t \<Longrightarrow> ?xs = []" using x that by (auto simp: quiet_def)
    have pos: "?xs = [] \<or> (\<exists>tok txt. ?xs = [(loop_rec l, SendNotice tok (loop_chat l) txt)] \<and> 0 < loop_chat l)"
      using False by auto
    have e: "onTimeout (loop_rec l) s (loop_chat l) x eff t = t\<lparr>sent := sent t @ ?xs\<rparr>"
      using False by (simp add: onTimeout_def)
    show ?thesis
      unfolding e keeps_def using keeps_return [OF _ l pos nq] by blast
  qed
  have bt: "keeps t (beat (loop_rec l) s (loop_chat l) t)"
    by (simp add: keeps_def typing_inv_def beat_def notices_def is_notice_def quiet_def l)
  show ?thesis
    using l x ret tmo bt
    by (auto simp: loop_wake_def loop_turn_def Let_def case_prod_unfold split: wake.split option.split)
qed

lemma keeps_exec: "keeps t (typing_exec e t)"
  by (cases e)
    (auto simp: keeps_OnUpdates keeps_loop_wake frame_keeps frame_Stop frame_StopAll
      frame_StopByCallbackID frame_CancelTimeout frame_other frame_Close)

lemma keeps_run: "keeps t (fold typing_exec es t)"
  by (induction es arbitrary: t) (auto intro: keeps_trans keeps_exec)

lemma new_typing_inv: "typing_inv (NewTypingManager c)"
  by (simp add: typing_inv_def NewTypingManager_def notices_def)

lemma CancelTimeout_quiet:
  assumes "map_of (active t) (a, c) = Some r" "map_of (heap t) r \<noteq> None"
  shows "quiet r (fst (CancelTimeout a (Some c) t))"
  using assms by (auto simp: CancelTimeout_def quiet_def map_of_rec_modify)

text \<open>
  C30. The timeout notice of the typing indicator: over any history of updates, stops, settings
  changes and wake-ups, each loop sends its "temporarily unavailable" message at most once and only
  to a private chat; and once the consumer cancelled the timeout of a chat, the loop that was
  active for it never sends one, however often the user acts again and whatever the settings
  become.
\<close>

theorem timeout_notice_at_most_once:
  fixes es :: "typing_event list" and cfg :: TypingConfig
  defines "t \<equiv> fold typing_exec es (NewTypingManager cfg)"
  shows "notices r t \<le> 1 \<and>
    (\<forall>tok c txt. (r, SendNotice tok c txt) \<in> set (sent t) \<longrightarrow> 0 < c) \<and>
    (map_of (active t) (a, c) = Some r \<longrightarrow> map_of (heap t) r \<noteq> None \<longrightarrow> notices r t = 0 \<longrightarrow>
       notices r (fold typing_exec es' (fst (CancelTimeout a (Some c) t))) = 0)"
proof (intro conjI impI)
  have i: "typing_inv t"
    using keeps_run [of "NewTypingManager cfg" es] new_typing_inv by (auto simp: keeps_def t_def)
  then show "notices r t \<le> 1" "\<forall>tok c txt. (r, SendNotice tok c txt) \<in> set (sent t) \<longrightarrow> 0 < c"
    unfolding typing_inv_def by blast+
  let ?u = "fst (CancelTimeout a (Some c) t)"
  assume a: "map_of (active t) (a, c) = Some r" "map_of (heap t) r \<noteq> None" "notices r t = 0"
  have "typing_inv ?u" by (rule frame_inv [OF frame_CancelTimeout i])
  moreover have "notices r ?u = 0" using frame_CancelTimeout [of t a "Some c"] a(3) by (simp add: frame_def notices_def)
  ultimately show "notices r (fold typing_exec es' ?u) = 0"
    using keeps_run [of ?u es'] CancelTimeout_quiet [OF a(1,2)] by (simp add: keeps_def)
qed

definition hello :: obj where
  "hello = [(''message'', JObj [(''chat'', JObj [(''id'', JNum 7)])])]"

definition demo_queue :: queue where
  "demo_queue = \<lparr>maxsize = 2, overflow = ''drop_oldest'', ttlS = 0, items = [], seen = {},
     consumerOffset = 0, epoch = 0, dropped = 0, expired = 0, qdb = None,
     botAlias = ''b1'', unloadedBacklog = 0, qhealth = None\<rparr>"

definition demo_session :: BotSession where
  "demo_session = \<lparr>sAlias = ''b1'', sToken = ''42:abc'', sstate = Live, squeue = demo_queue,
     sguard = NewGuard (DefaultRate (\<lambda>_. None) (\<lambda>_. None)) 0 0 0, connectedSince = 0, lastError = [],
     real429 = 0, synth429 = 0, last429 = None, pushURL = [], pushHealthy = None, pollCancel = None,
     pushCancel = None, chatNameCache = [], OnLimit = None, PaidBroadcasts = False, typingEnabled = Some True,
     typingPrivateOnly = None, typingIntervalS = None, typingTimeoutS = None, typingTimeoutText = None,
     sendTimes = []\<rparr>"

theorem timeout_notice_at_most_once_witness:
  "notices 0 (fold typing_exec [TWake (900, 900, 900) Timer \<lparr>loop_rec = 0, loop_alias = ''b1'', loop_chat = 7\<rparr> demo_session]
     (fst (CancelTimeout ''b1'' (Some 7)
        (fold typing_exec [TUpdates [((0, 0, 0), hello)] demo_session]
          (NewTypingManager (DefaultTyping (\<lambda>_. None) (\<lambda>_. None))))))) = 0"
proof -
  let ?t = "fold typing_exec [TUpdates [((0, 0, 0), hello)] demo_session]
      (NewTypingManager (DefaultTyping (\<lambda>_. None) (\<lambda>_. None)))"
  have c: "chatOfUpdate hello = Some 7" "as_obj (obj_get hello ''callback_query'') = None" by code_simp+
  have s: "snd (ChatSendState 0 0 (Some 7) (sguard demo_session)) \<noteq> SendPaused"
    by (simp add: ChatSendState_def demo_session_def NewGuard_def Let_def case_prod_unfold chatBucket_def
        chatTable_def setChat_def NewBucket_def Refill_def config_defs)
  have t: "?t = start 0 ''b1'' 7 (t_timeout_s (effective (NewTypingManager (DefaultTyping (\<lambda>_. None) (\<lambda>_. None))) demo_session))
      (NewTypingManager (DefaultTyping (\<lambda>_. None) (\<lambda>_. None)))"
    using c s by (simp add: OnUpdates_def Let_def onUpdate_def case_prod_unfold)
      (simp add: effective_def demo_session_def NewTypingManager_def Let_def)
  have "map_of (active ?t) (''b1'', 7) = Some 0" "map_of (heap ?t) 0 \<noteq> None" "notices 0 ?t = 0"
    unfolding t by (simp_all add: start_def NewTypingManager_def notices_def)
  then show ?thesis
    using timeout_notice_at_most_once [where es = "[TUpdates [((0, 0, 0), hello)] demo_session]" and r = 0
        and cfg = "DefaultTyping (\<lambda>_. None) (\<lambda>_. None)" and a = "''b1''" and c = 7
        and es' = "[TWake (900, 900, 900) Timer \<lparr>loop_rec = 0, loop_alias = ''b1'', loop_chat = 7\<rparr> demo_session]"]
    by blast
qed

end
