(* ===== verification/Manager.thy ===== *)
theory Manager
  imports Typing Queue_Consumer
begin

text \<open>
  \<^verbatim>\<open>internal/botapi/session.go\<close>, the session manager and its pollers. Sessions are shared by
  pointer between the table, the pollers and the typing loops, so they live in a heap
  (\<open>sess\<close>, by number) and the table maps an alias to a number. A poller goroutine is a record
  with its context, its session, its local variables and the place it has reached (\<open>phase\<close>);
  each of its steps between two blocking operations is one definition, so that any operation of
  the manager may run in between. Cancelled contexts are a list. What Telegram answers, the
  outcome of every statement and every clock reading are arguments.
\<close>

datatype phase = Starting | AtTop | InFlight | SleepThenLive | SleepDouble | SleepOnly

record poller =
  p_ctx :: nat
  p_sess :: nat
  p_offset :: int
  p_backoff :: rat
  p_phase :: phase

record 'k manager =
  m_cfg :: BotAPI
  m_store :: "'k gateway"
  m_health :: Storage
  m_typing :: typing
  sess :: "(nat \<times> BotSession) list"
  m_sessions :: "(string \<times> nat) list"
  next_sess :: nat
  pollers :: "poller list"
  pushers :: "(nat \<times> nat) list"
  done_ctx :: "nat list"
  next_ctx :: nat
  pushed_out :: "(string \<times> obj) list"

definition NewManager :: "BotAPI \<Rightarrow> 'k gateway \<Rightarrow> Storage \<Rightarrow> 'k manager" where
  "NewManager cfg st h = \<lparr>m_cfg = cfg, m_store = st, m_health = h, m_typing = NewTypingManager (baTyping cfg),
     sess = [], m_sessions = [], next_sess = 0, pollers = [], pushers = [], done_ctx = [], next_ctx = 0,
     pushed_out = []\<rparr>"

definition sess_modify :: "nat \<Rightarrow> (BotSession \<Rightarrow> BotSession) \<Rightarrow> 'k manager \<Rightarrow> 'k manager" where
  "sess_modify i f m = m\<lparr>sess := map (\<lambda>(j, s). (j, if j = i then f s else s)) (sess m)\<rparr>"

definition Get :: "string \<Rightarrow> 'k manager \<Rightarrow> (nat \<times> BotSession) option" where
  "Get alias m =
     (case map_of (m_sessions m) alias of
        None \<Rightarrow> None
      | Some i \<Rightarrow> map_option (\<lambda>s. (i, s)) (map_of (sess m) i))"

text \<open>With several sessions of one token the map's iteration order decides; here the list's.\<close>

definition FindByToken :: "string \<Rightarrow> 'k manager \<Rightarrow> nat option" where
  "FindByToken token m =
     (case filter (\<lambda>(a, i). \<exists>s. map_of (sess m) i = Some s \<and> sToken s = token) (m_sessions m) of
        [] \<Rightarrow> None
      | (a, i) # _ \<Rightarrow> Some i)"

definition cancel_ctx :: "nat option \<Rightarrow> 'k manager \<Rightarrow> 'k manager" where
  "cancel_ctx c m = (case c of None \<Rightarrow> m | Some i \<Rightarrow> m\<lparr>done_ctx := i # done_ctx m\<rparr>)"

subsection \<open>The backoff ledger\<close>

definition RecordBackoff :: "bool \<Rightarrow> rat \<Rightarrow> string \<Rightarrow> int option \<Rightarrow> rat \<Rightarrow> 'k gateway \<Rightarrow> 'k gateway" where
  "RecordBackoff ok wall alias chatID retryAfter st = SaveBackoff ok alias chatID (wall + retryAfter) st"

record restore_io =
  rb_delete_ok :: bool
  rb_query_ok :: bool
  rb_prune :: rat
  rb_wall :: rat
  rb_mono :: rat
  rb_second :: rat

definition restore_row :: "restore_io \<Rightarrow> int \<times> rat \<Rightarrow> guard \<Rightarrow> guard" where
  "restore_row io r g =
     RestoreBackoff (rb_mono io) (rb_second io) (if fst r = 0 then None else Some (fst r)) (snd r - rb_wall io) g"

definition restoreBackoffs :: "restore_io \<Rightarrow> string \<Rightarrow> 'k gateway \<Rightarrow> guard \<Rightarrow> 'k gateway \<times> guard" where
  "restoreBackoffs io alias st g =
     (let (st', rows) = LoadBackoffs (rb_delete_ok io) (rb_query_ok io) (rb_prune io) alias st
      in (st', fold (restore_row io) rows g))"

subsection \<open>Lifecycle\<close>

definition Manager_Delete :: "bool \<Rightarrow> string \<Rightarrow> 'k manager \<Rightarrow> 'k manager \<times> bool" where
  "Manager_Delete ok alias m =
     (case Get alias m of
        None \<Rightarrow> (m\<lparr>m_sessions := AList.delete alias (m_sessions m)\<rparr>, False)
      | Some (i, s) \<Rightarrow>
          let m1 = sess_modify i (\<lambda>s. s\<lparr>sstate := Draining, squeue := Close (squeue s)\<rparr>)
                     (m\<lparr>m_sessions := AList.delete alias (m_sessions m), m_typing := StopAll (sAlias s) (m_typing m)\<rparr>);
              m2 = cancel_ctx (pushCancel s) (cancel_ctx (pollCancel s) m1)
          in (m2\<lparr>m_store := fst (DeleteBot ok alias (m_store m2))\<rparr>, True))"

record 'k attach_io =
  at_load :: load_io
  at_opened :: "string + queue_db"
  at_delete_ok :: bool
  at_restore :: restore_io
  at_clocks :: "rat \<times> rat \<times> rat"
  at_lib :: "'k fernet_lib"
  at_iv :: nat
  at_now :: string
  at_register_ok :: bool

definition new_session :: "BotAPI \<Rightarrow> rat \<times> rat \<times> rat \<Rightarrow> string \<Rightarrow> string \<Rightarrow> string option \<Rightarrow> bool \<Rightarrow> queue \<Rightarrow> BotSession" where
  "new_session cfg clk alias token onLimit paid q =
     (case clk of (t1, t2, t3) \<Rightarrow>
     \<lparr>sAlias = alias, sToken = token, sstate = Connecting, squeue = q,
      sguard = (NewGuard (baRate cfg) t1 t2 t3)\<lparr>PaidEnabled := paid\<rparr>,
      connectedSince = 0, lastError = [], real429 = 0, synth429 = 0, last429 = None, pushURL = [],
      pushHealthy = None, pollCancel = None, pushCancel = None, chatNameCache = [], OnLimit = onLimit,
      PaidBroadcasts = paid, typingEnabled = None, typingPrivateOnly = None, typingIntervalS = None,
      typingTimeoutS = None, typingTimeoutText = None, sendTimes = []\<rparr>)"

definition spawn_poller :: "nat \<Rightarrow> 'k manager \<Rightarrow> 'k manager" where
  "spawn_poller i m =
     sess_modify i (\<lambda>s. s\<lparr>pollCancel := Some (next_ctx m)\<rparr>)
       (m\<lparr>next_ctx := next_ctx m + 1,
          pollers := \<lparr>p_ctx = next_ctx m, p_sess = i, p_offset = 0, p_backoff = 1, p_phase = Starting\<rparr> # pollers m\<rparr>)"

definition attach_new ::
  "'k attach_io \<Rightarrow> string \<Rightarrow> string \<Rightarrow> string option \<Rightarrow> bool \<Rightarrow> 'k manager \<Rightarrow> 'k manager \<times> (string + nat)"
where
  "attach_new io alias token onLimit paid m =
     (case OpenQueue (at_load io) (UpdateQueueMax (baPolicy (m_cfg m))) ''drop_oldest'' (UpdateTTLS (baPolicy (m_cfg m)))
             (baDataDir (m_cfg m) @ ''/queue.db'') alias (at_opened io) (Some (m_health m)) of
        Inl err \<Rightarrow> (m, Inl err)
      | Inr q \<Rightarrow>
          let s = new_session (m_cfg m) (at_clocks io) alias token onLimit paid q;
              (st, g) = restoreBackoffs (at_restore io) alias (m_store m) (sguard s);
              i = next_sess m;
              m1 = m\<lparr>m_store := fst (RegisterBot (at_lib io) (at_iv io) (at_now io) (at_register_ok io) alias token st),
                     sess := (i, s\<lparr>sguard := g\<rparr>) # sess m,
                     m_sessions := AList.update alias i (m_sessions m),
                     next_sess := i + 1\<rparr>
          in (spawn_poller i m1, Inr i))"

text \<open>The number of the session, or the error of opening its queue.\<close>

definition Attach ::
  "'k attach_io \<Rightarrow> string \<Rightarrow> string \<Rightarrow> string option \<Rightarrow> bool \<Rightarrow> 'k manager \<Rightarrow> 'k manager \<times> (string + nat)"
where
  "Attach io alias token onLimit paid m =
     (case Get alias m of
        Some (i, s) \<Rightarrow>
          if sToken s = token then (m, Inr i)
          else attach_new io alias token onLimit paid (fst (Manager_Delete (at_delete_ok io) alias m))
      | None \<Rightarrow> attach_new io alias token onLimit paid m)"

definition Manager_Pause :: "bool \<Rightarrow> string \<Rightarrow> 'k manager \<Rightarrow> 'k manager \<times> bool" where
  "Manager_Pause ok alias m =
     (case Get alias m of
        None \<Rightarrow> (m, False)
      | Some (i, s) \<Rightarrow>
          let m1 = sess_modify i (setState PausedState) (m\<lparr>m_typing := StopAll (sAlias s) (m_typing m)\<rparr>);
              m2 = cancel_ctx (pollCancel s) m1
          in (m2\<lparr>m_store := fst (SetPaused ok alias True (m_store m2))\<rparr>, True))"

definition Resume :: "bool \<Rightarrow> string \<Rightarrow> 'k manager \<Rightarrow> 'k manager \<times> bool" where
  "Resume ok alias m =
     (case Get alias m of
        None \<Rightarrow> (m, False)
      | Some (i, s) \<Rightarrow>
          let m1 = m\<lparr>m_store := fst (SetPaused ok alias False (m_store m))\<rparr>;
              m2 = (if pollCancel s = None then spawn_poller i m1 else m1)
          in (sess_modify i (setState Live) m2, True))"

definition Drain :: "string \<Rightarrow> 'k manager \<Rightarrow> 'k manager \<times> bool" where
  "Drain alias m =
     (case Get alias m of
        None \<Rightarrow> (m, False)
      | Some (i, s) \<Rightarrow>
          (sess_modify i (setState Draining) (m\<lparr>m_typing := StopAll (sAlias s) (m_typing m)\<rparr>), True))"

text \<open>\<open>RestoreAll\<close> over the rows of the store; each row comes with the inputs of its attach.\<close>

fun restore_rows :: "'k fernet_lib \<Rightarrow> (BotRow \<times> 'k attach_io) list \<Rightarrow> 'k manager \<Rightarrow> nat \<Rightarrow> 'k manager \<times> nat" where
  "restore_rows F [] m n = (m, n)"
| "restore_rows F ((row, io) # rows) m n =
     (case GetToken F (BotAlias row) (m_store m) of
        None \<Rightarrow> restore_rows F rows m n
      | Some token \<Rightarrow>
          (case Attach io (BotAlias row) token None False m of
             (m1, Inl err) \<Rightarrow> restore_rows F rows m1 n
           | (m1, Inr i) \<Rightarrow>
               restore_rows F rows (if Paused row then sess_modify i (setState PausedState) m1 else m1) (n + 1)))"

definition RestoreAll :: "'k fernet_lib \<Rightarrow> bool \<Rightarrow> (BotRow \<Rightarrow> 'k attach_io) \<Rightarrow> 'k manager \<Rightarrow> 'k manager \<times> nat" where
  "RestoreAll F ok io m =
     (if \<not> ok then (m, 0)
      else restore_rows F (map (\<lambda>r. (r, io r)) (ListBots (m_store m))) m 0)"

definition SetPush :: "string \<Rightarrow> string \<Rightarrow> 'k manager \<Rightarrow> 'k manager \<times> bool" where
  "SetPush alias url m =
     (case Get alias m of
        None \<Rightarrow> (m, False)
      | Some (i, s) \<Rightarrow>
          let m1 = sess_modify i (\<lambda>s. s\<lparr>pushURL := url, pushHealthy := None, pushCancel := None\<rparr>)
                     (cancel_ctx (pushCancel s) m)
          in if url \<noteq> []
             then (sess_modify i (\<lambda>s. s\<lparr>pushCancel := Some (next_ctx m1)\<rparr>)
                     (m1\<lparr>next_ctx := next_ctx m1 + 1, pushers := (next_ctx m1, i) # pushers m1\<rparr>), True)
             else (m1, True))"

text \<open>One tick of the healthcheck; the reply is the status code, \<open>None\<close> an error.\<close>

definition push_tick :: "int option \<Rightarrow> BotSession \<Rightarrow> BotSession" where
  "push_tick reply s =
     (if pushURL s = [] then setPushHealthy None s
      else case reply of
          None \<Rightarrow> setPushHealthy (Some False) s
        | Some code \<Rightarrow> setPushHealthy (Some (\<not> code \<ge> 400)) s)"

definition shutdown_one :: "string \<times> nat \<Rightarrow> 'k manager \<Rightarrow> 'k manager" where
  "shutdown_one e m =
     (case map_of (sess m) (snd e) of
        None \<Rightarrow> m
      | Some s \<Rightarrow>
          cancel_ctx (pushCancel s) (cancel_ctx (pollCancel s)
            (sess_modify (snd e) (\<lambda>s. s\<lparr>sstate := Draining, squeue := Close (squeue s)\<rparr>)
              (m\<lparr>m_typing := StopAll (sAlias s) (m_typing m)\<rparr>))))"

definition Shutdown :: "'k manager \<Rightarrow> 'k manager" where
  "Shutdown m = (let m1 = fold shutdown_one (m_sessions m) m in m1\<lparr>m_typing := Typing_Close (m_typing m1)\<rparr>)"

subsection \<open>The poller\<close>

text \<open>The part before the loop: the offset, the webhook removal, the live state.\<close>

definition poller_begin :: "rat \<Rightarrow> poller \<Rightarrow> BotSession \<times> 'k gateway \<Rightarrow> poller \<times> BotSession" where
  "poller_begin wall p st =
     (p\<lparr>p_offset := GetOffset (sAlias (fst st)) (snd st), p_backoff := 1, p_phase := AtTop\<rparr>,
      (setState Live (fst st))\<lparr>connectedSince := wall\<rparr>)"

text \<open>
  The top of the loop: a cancelled poller returns (\<open>None\<close>), a paused or draining session only
  waits, otherwise \<^verbatim>\<open>getUpdates\<close> goes out with the next offset.
\<close>

definition poller_top :: "bool \<Rightarrow> poller \<Rightarrow> BotSession \<Rightarrow> poller option" where
  "poller_top ctx_done p s =
     (if ctx_done then None
      else if sstate s = PausedState \<or> sstate s = Draining then Some p
      else Some (p\<lparr>p_phase := InFlight\<rparr>))"

definition poller_request :: "poller \<Rightarrow> int" where
  "poller_request p = wrap64 (p_offset p + 1)"

datatype poll_reply =
  PollErr string
| PollGarbled string
| PollNotOk json
| PollOk "obj list"

record poll_io =
  po_push :: push_io
  po_times :: "int list"
  po_save_ok :: bool
  po_guard :: "rat \<times> rat"
  po_wall :: rat
  po_ledger_ok :: bool
  po_typing :: "(rat \<times> rat \<times> rat) list"

definition raise_offset :: "(string \<Rightarrow> rat option) \<Rightarrow> obj \<Rightarrow> int \<Rightarrow> int" where
  "raise_offset sg u off =
     (let i = int64_of_float (numberOf sg (obj_get u ''update_id'')) in if i > off then i else off)"

text \<open>
  What the poller does with an answer, up to its next sleep or the top of the loop. The state is
  its session, the store and the typing manager; the last component is what is pushed to the
  consumer's webhook. \<open>None\<close> as the poller: it returned. A panic of the push is \<open>None\<close> as a whole.
\<close>

definition poller_reply ::
  "(string \<Rightarrow> rat option) \<Rightarrow> poll_io \<Rightarrow> bool \<Rightarrow> poll_reply \<Rightarrow> poller \<Rightarrow> BotSession \<times> 'k gateway \<times> typing \<Rightarrow>
    (poller option \<times> (BotSession \<times> 'k gateway \<times> typing) \<times> (string \<times> obj) list) option"
where
  "poller_reply sg io ctx_done r p st =
     (let (s, store, ty) = st in
      case r of
        PollErr err \<Rightarrow>
          if ctx_done then Some (None, st, [])
          else Some (Some (p\<lparr>p_phase := SleepThenLive\<rparr>), (setError err (setState ErrorState s), store, ty), [])
      | PollGarbled err \<Rightarrow> Some (Some (p\<lparr>p_phase := SleepDouble\<rparr>), (setError err s, store, ty), [])
      | PollNotOk retry_after \<Rightarrow>
          let retry = numberOf sg retry_after in
          if retry > 0 then
            Some (Some (p\<lparr>p_phase := SleepOnly\<rparr>),
                  ((noteReal429 s)\<lparr>sguard := Report429 (fst (po_guard io)) (snd (po_guard io)) None retry (sguard s)\<rparr>,
                   RecordBackoff (po_ledger_ok io) (po_wall io) (sAlias s) None retry store, ty), [])
          else Some (Some (p\<lparr>p_phase := SleepDouble\<rparr>), st, [])
      | PollOk [] \<Rightarrow>
          Some (Some (p\<lparr>p_backoff := 1, p_phase := AtTop\<rparr>),
                (if sstate s = ErrorState then setState Live s else s, store, ty), [])
      | PollOk us \<Rightarrow>
          (case PushAll (po_push io) (zip (po_times io) us) (squeue s) of
             None \<Rightarrow> None
           | Some (q, res) \<Rightarrow>
               let off = fold (raise_offset sg) us (p_offset p);
                   store' = fst (SaveOffset (po_save_ok io) (sAlias s) off store);
                   (s', ty') = OnUpdates (zip (po_typing io) us) (s\<lparr>squeue := q\<rparr>, ty)
               in Some (Some (p\<lparr>p_backoff := 1, p_offset := off, p_phase := AtTop\<rparr>), (s', store', ty'),
                        if pushURL s' \<noteq> [] then map (\<lambda>u. (pushURL s', u)) us else [])))"

text \<open>The end of a sleep: returned when cancelled meanwhile.\<close>

definition poller_wake :: "BotAPI \<Rightarrow> bool \<Rightarrow> poller \<Rightarrow> BotSession \<Rightarrow> poller option \<times> BotSession" where
  "poller_wake cfg ctx_done p s =
     (if ctx_done then (None, s)
      else
        let doubled = min (p_backoff p * 2) (PollBackoffMax cfg) in
        case p_phase p of
          SleepThenLive \<Rightarrow> (Some (p\<lparr>p_backoff := doubled, p_phase := AtTop\<rparr>), setState Live s)
        | SleepDouble \<Rightarrow> (Some (p\<lparr>p_backoff := doubled, p_phase := AtTop\<rparr>), s)
        | SleepOnly \<Rightarrow> (Some (p\<lparr>p_phase := AtTop\<rparr>), s)
        | _ \<Rightarrow> (Some p, s))"

end
