(* ===== verification/Proxy.thy ===== *)
theory Proxy
  imports Manager
begin

text \<open>
  \<^verbatim>\<open>internal/botapi/proxy.go\<close>: the path of one consumer request, from admission to Telegram's
  answer. The state of a request (\<open>px\<close>) is the session, the store, the typing manager, the counter
  of multipart writes without a chat, and the requests that went upstream. Clock readings,
  outcomes of statements and Telegram's answers are arguments. The admission loop sleeps: each of
  its turns comes with the way the sleep ends and with what the other goroutines do to the session
  meanwhile; a result \<open>None\<close> is a request that still waits when this script ends.

  \<^verbatim>\<open>json.Marshal\<close> cannot fail on the values of the model, so the request body is the object
  itself and the 500 branch of \<^verbatim>\<open>admitAndForward\<close> is not reachable. An upstream answer carries its
  bytes and what \<^verbatim>\<open>json.Unmarshal\<close> into a map makes of them (\<open>None\<close>: an error).
\<close>

record gwResponse =
  gw_status :: int
  jsonBody :: obj
  gw_raw :: "string option"

definition jsonResp :: "int \<Rightarrow> obj \<Rightarrow> gwResponse" where
  "jsonResp status body = \<lparr>gw_status = status, jsonBody = body, gw_raw = None\<rparr>"

definition isRaw :: "gwResponse \<Rightarrow> bool" where
  "isRaw r \<longleftrightarrow> gw_raw r \<noteq> None"

definition withStatus :: "int \<Rightarrow> gwResponse \<Rightarrow> gwResponse" where
  "withStatus status r = r\<lparr>gw_status := status\<rparr>"

definition rawResp :: "int \<Rightarrow> string \<Rightarrow> gwResponse" where
  "rawResp status raw = \<lparr>gw_status = status, jsonBody = [], gw_raw = Some raw\<rparr>"

record httpResponse =
  StatusCode :: int
  Body :: string
  BodyJson :: "obj option"

datatype payload = JsonPayload obj | RawPayload string string | StreamPayload string int string

record 'k px =
  x_sess :: BotSession
  x_store :: "'k gateway"
  x_typing :: typing
  x_unresolved :: int
  x_sent :: "(string \<times> payload) list"

definition error_body :: "int \<Rightarrow> string \<Rightarrow> obj" where
  "error_body code desc = [(''ok'', JBool False), (''error_code'', JInt code), (''description'', JStr desc)]"

definition retry_body :: "string \<Rightarrow> int \<Rightarrow> obj" where
  "retry_body desc n = error_body 429 desc @ [(''parameters'', JObj [(''retry_after'', JInt n)])]"

definition ok_body :: "json \<Rightarrow> obj" where
  "ok_body r = [(''ok'', JBool True), (''result'', r)]"

definition replay_body :: obj where
  "replay_body = [(''ok'', JBool True), (''result'', JNull), (''idempotent_replay'', JBool True),
     (''description'', JStr ''duplicate send suppressed (Idempotency-Key already seen)'')]"

subsection \<open>Reading the chat of a request\<close>

definition truthyBool :: "json \<Rightarrow> bool" where
  "truthyBool v \<longleftrightarrow> v = JBool True"

definition isFalseBool :: "json \<Rightarrow> bool" where
  "isFalseBool v \<longleftrightarrow> v = JBool False"

definition truthy :: "json \<Rightarrow> bool" where
  "truthy v = truthyBool v"

definition isNumeric :: "string \<Rightarrow> bool" where
  "isNumeric s =
     (if s = [] then False
      else let ds = (if hd s = CHR ''-'' then tl s else s) in ds \<noteq> [] \<and> list_all is_digit ds)"

definition first_chat_field :: "obj \<Rightarrow> json" where
  "first_chat_field body =
     (case filter (\<lambda>v. v \<noteq> JNull \<and> \<not> truthyBool v \<and> \<not> isFalseBool v)
             (map (obj_get body) [''chat_id'', ''chat_username'', ''chat'']) of
        [] \<Rightarrow> JNull
      | v # _ \<Rightarrow> v)"

definition extractChatID :: "obj \<Rightarrow> int option" where
  "extractChatID body =
     (case first_chat_field body of
        JNum r \<Rightarrow> if r = of_int (int64_of_float r) then Some (int64_of_float r) else None
      | JInt n \<Rightarrow> Some n
      | JStr s \<Rightarrow> if isNumeric s then parse_int s else None
      | _ \<Rightarrow> None)"

text \<open>\<^verbatim>\<open>multipartChatIDRe\<close>: the field header, two line ends, the digits, a line end.\<close>

fun strip_eol :: "string \<Rightarrow> string option" where
  "strip_eol (c # cs) =
     (if c = CHR 0x0A then Some cs
      else if c = CHR 0x0D then (case cs of d # ds \<Rightarrow> if d = CHR 0x0A then Some ds else None | [] \<Rightarrow> None)
      else None)"
| "strip_eol [] = None"

definition chat_field_header :: string where
  "chat_field_header = ''name='' @ [CHR 0x22] @ ''chat_id'' @ [CHR 0x22]"

definition match_chat_id :: "string \<Rightarrow> string option" where
  "match_chat_id s =
     (if \<not> has_prefix s chat_field_header then None
      else case strip_eol (drop (length chat_field_header) s) of
          None \<Rightarrow> None
        | Some s1 \<Rightarrow>
            (case strip_eol s1 of
               None \<Rightarrow> None
             | Some s2 \<Rightarrow>
                 let sign = (if s2 \<noteq> [] \<and> hd s2 = CHR ''-'' then [CHR ''-''] else []);
                     ds = takeWhile is_digit (drop (length sign) s2);
                     rest = dropWhile is_digit (drop (length sign) s2)
                 in if ds = [] \<or> strip_eol rest = None then None else Some (sign @ ds)))"

fun multipartChatID :: "string \<Rightarrow> string option" where
  "multipartChatID [] = None"
| "multipartChatID (c # cs) =
     (case match_chat_id (c # cs) of Some v \<Rightarrow> Some v | None \<Rightarrow> multipartChatID cs)"

subsection \<open>Learning from a real 429\<close>

definition retry_from :: "(string \<Rightarrow> rat option) \<Rightarrow> obj option \<Rightarrow> rat" where
  "retry_from sg parsed =
     (case parsed of
        None \<Rightarrow> 5
      | Some m \<Rightarrow>
          (case as_obj (obj_get m ''parameters'') of
             None \<Rightarrow> 5
           | Some params \<Rightarrow>
               let v = numberOf sg (obj_get params ''retry_after'') in if v > 0 then v else 5))"

record forward_io =
  fw_reply :: "string + httpResponse"
  fw_send :: rat
  fw_guard :: "rat \<times> rat"
  fw_wall :: rat
  fw_ledger_ok :: bool
  fw_at :: rat

definition learn_429 ::
  "(string \<Rightarrow> rat option) \<Rightarrow> forward_io \<Rightarrow> string \<Rightarrow> int option \<Rightarrow> httpResponse \<Rightarrow> 'k px \<Rightarrow> 'k px"
where
  "learn_429 sg io method chatID resp x =
     (if StatusCode resp \<noteq> 429 then x
      else
        let retry = retry_from sg (BodyJson resp); s = noteReal429 (x_sess x)
        in x\<lparr>x_sess := s\<lparr>sguard := Report429 (fst (fw_guard io)) (snd (fw_guard io)) chatID retry (sguard s),
                        last429 := Some \<lparr>l_method = method, l_chat = chatID, l_retry = retry, l_at = fw_at io\<rparr>\<rparr>,
             x_store := RecordBackoff (fw_ledger_ok io) (fw_wall io) (sAlias s) chatID retry (x_store x)\<rparr>)"

definition upstream_url :: "BotSession \<Rightarrow> string \<Rightarrow> string" where
  "upstream_url s method = ''/bot'' @ sToken s @ ''/'' @ method"

definition send_up :: "string \<Rightarrow> payload \<Rightarrow> 'k px \<Rightarrow> 'k px" where
  "send_up method b x = x\<lparr>x_sent := x_sent x @ [(upstream_url (x_sess x) method, b)]\<rparr>"

definition upstream_error :: "string \<Rightarrow> gwResponse" where
  "upstream_error err = jsonResp 502 (error_body 502 (''upstream: '' @ err))"

subsection \<open>Admission\<close>

text \<open>\<^verbatim>\<open>min\<close> with a wait that may be \<^verbatim>\<open>+Inf\<close>.\<close>

definition cap_wait :: "rat option \<Rightarrow> rat \<Rightarrow> rat" where
  "cap_wait w c = (case w of None \<Rightarrow> c | Some x \<Rightarrow> min x c)"

definition refuse :: "rat \<times> rat \<Rightarrow> string \<Rightarrow> int option \<Rightarrow> BotSession \<Rightarrow> BotSession \<times> gwResponse" where
  "refuse clk m chatID s =
     (let (g, w) = WaitTime (fst clk) (snd clk) m chatID (sguard s);
          n = int64_of_float (max 1 (cap_wait w 60))
      in ((noteSynthetic429 s)\<lparr>sguard := g\<rparr>,
          jsonResp 429 (retry_body (''Too Many Requests: retry after '' @ itoa n) n)))"

definition wait_exceeded :: gwResponse where
  "wait_exceeded = jsonResp 429 (retry_body ''Queue wait exceeded GW_QUEUE_WAIT_TIMEOUT'' 1)"

datatype sleep_end = Gone | Slept "BotSession \<Rightarrow> BotSession"

record admit_turn =
  ad_try :: "rat \<times> rat"
  ad_wait :: "rat \<times> rat"
  ad_end :: sleep_end

text \<open>\<open>Some (s, None)\<close>: admitted.\<close>

fun admit ::
  "rat \<Rightarrow> string \<Rightarrow> int option \<Rightarrow> kind \<Rightarrow> admit_turn list \<Rightarrow> rat \<Rightarrow> BotSession \<Rightarrow> (BotSession \<times> gwResponse option) option"
where
  "admit limit m chatID kind [] waited s = None"
| "admit limit m chatID kind (a # as) waited s =
     (let (g, ok) = TryAcquire (fst (ad_try a)) (snd (ad_try a)) m chatID (sguard s); s1 = s\<lparr>sguard := g\<rparr> in
      if ok then Some (s1, None)
      else if EffectiveOnLimit s1 = ''reject'' \<or> kind \<noteq> Write
      then (let (s2, r) = refuse (ad_wait a) m chatID s1 in Some (s2, Some r))
      else
        let (g2, w) = WaitTime (fst (ad_wait a)) (snd (ad_wait a)) m chatID (sguard s1);
            s2 = s1\<lparr>sguard := g2\<rparr>;
            wait = cap_wait w 2
        in if waited + wait > limit then Some (noteSynthetic429 s2, Some wait_exceeded)
           else case ad_end a of
               Gone \<Rightarrow> Some (s2, Some wait_exceeded)
             | Slept others \<Rightarrow> admit limit m chatID kind as (waited + wait) (others s2))"

definition admitAndForward ::
  "(string \<Rightarrow> rat option) \<Rightarrow> rat \<Rightarrow> admit_turn list \<Rightarrow> forward_io \<Rightarrow> string \<Rightarrow> string \<Rightarrow> obj \<Rightarrow> int option \<Rightarrow> kind \<Rightarrow>
    'k px \<Rightarrow> ('k px \<times> gwResponse) option"
where
  "admitAndForward sg limit turns io m method body chatID kind x =
     (case admit limit m chatID kind turns 0 (x_sess x) of
        None \<Rightarrow> None
      | Some (s, Some r) \<Rightarrow> Some (x\<lparr>x_sess := s\<rparr>, r)
      | Some (s, None) \<Rightarrow>
          let x1 = send_up method (JsonPayload body) (x\<lparr>x_sess := s\<rparr>) in
          (case fw_reply io of
             Inl err \<Rightarrow> Some (x1, upstream_error err)
           | Inr resp \<Rightarrow>
               let x2 = (if kind = Write then x1\<lparr>x_sess := noteSend (fw_send io) (x_sess x1)\<rparr> else x1)
               in Some (learn_429 sg io method chatID resp x2, rawResp (StatusCode resp) (Body resp))))"

subsection \<open>Idempotency keys\<close>

record idem_io =
  id_claim :: claim_io
  id_now :: rat
  id_settle_ok :: bool
  id_settle_now :: rat

definition idemActive :: "string \<Rightarrow> kind \<Rightarrow> bool" where
  "idemActive idemKey kind \<longleftrightarrow> idemKey \<noteq> [] \<and> kind = Write"

text \<open>The claim in front of a send: \<open>None\<close> as the answer lets the send go on.\<close>

definition claim_key :: "idem_io \<Rightarrow> string \<Rightarrow> kind \<Rightarrow> 'k px \<Rightarrow> 'k px \<times> gwResponse option" where
  "claim_key io idemKey kind x =
     (if \<not> idemActive idemKey kind then (x, None)
      else
        let (st, v) = IdempotencyClaim (id_claim io) (id_now io) (sAlias (x_sess x)) idemKey (x_store x)
        in (x\<lparr>x_store := st\<rparr>, if v = Replay then Some (jsonResp 200 replay_body) else None))"

definition finish_key :: "idem_io \<Rightarrow> string \<Rightarrow> kind \<Rightarrow> 'k px \<Rightarrow> 'k px" where
  "finish_key io idemKey kind x =
     (if idemActive idemKey kind
      then x\<lparr>x_store := IdempotencyFinish (id_settle_ok io) (id_settle_now io) (sAlias (x_sess x)) idemKey (x_store x)\<rparr>
      else x)"

definition fail_key :: "idem_io \<Rightarrow> string \<Rightarrow> kind \<Rightarrow> 'k px \<Rightarrow> 'k px" where
  "fail_key io idemKey kind x =
     (if idemActive idemKey kind
      then x\<lparr>x_store := IdempotencyFail (id_settle_ok io) (sAlias (x_sess x)) idemKey (x_store x)\<rparr>
      else x)"

subsection \<open>Forms and multipart bodies\<close>

record raw_io =
  rw_idem :: idem_io
  rw_try :: "rat \<times> rat"
  rw_wait :: "rat \<times> rat"
  rw_fwd :: forward_io

text \<open>The answer of the upstream, on the two verbatim paths.\<close>

definition verbatim_result ::
  "(string \<Rightarrow> rat option) \<Rightarrow> forward_io \<Rightarrow> string \<Rightarrow> int option \<Rightarrow> 'k px \<Rightarrow> 'k px \<times> gwResponse"
where
  "verbatim_result sg io method chatID x =
     (case fw_reply io of
        Inl err \<Rightarrow> (x, upstream_error err)
      | Inr resp \<Rightarrow>
          (learn_429 sg io method chatID resp (x\<lparr>x_sess := noteSend (fw_send io) (x_sess x)\<rparr>),
           rawResp (StatusCode resp) (Body resp)))"

definition CallRawWithChat ::
  "(string \<Rightarrow> rat option) \<Rightarrow> raw_io \<Rightarrow> string \<Rightarrow> string \<Rightarrow> string \<Rightarrow> int option \<Rightarrow> string \<Rightarrow> 'k px \<Rightarrow> 'k px \<times> gwResponse"
where
  "CallRawWithChat sg io method raw contentType chatID idemKey x =
     (let m = to_lower method; kind = MethodKind m in
      case claim_key (rw_idem io) idemKey kind x of
        (x1, Some r) \<Rightarrow> (x1, r)
      | (x1, None) \<Rightarrow>
          let x2 = (if kind = Write then x1\<lparr>x_typing := Stop (sAlias (x_sess x1)) chatID (x_typing x1)\<rparr> else x1);
              (g, ok) = TryAcquire (fst (rw_try io)) (snd (rw_try io)) m chatID (sguard (x_sess x2));
              x3 = x2\<lparr>x_sess := (x_sess x2)\<lparr>sguard := g\<rparr>\<rparr>
          in if \<not> ok
             then (let (s, r) = refuse (rw_wait io) m chatID (x_sess x3) in (x3\<lparr>x_sess := s\<rparr>, r))
             else
               let x4 = send_up method (RawPayload contentType raw) x3;
                   x5 = (case fw_reply (rw_fwd io) of
                           Inl err \<Rightarrow> fail_key (rw_idem io) idemKey kind x4
                         | Inr resp \<Rightarrow>
                             if StatusCode resp \<ge> 500 then fail_key (rw_idem io) idemKey kind x4
                             else finish_key (rw_idem io) idemKey kind x4)
               in verbatim_result sg (rw_fwd io) m chatID x5)"

text \<open>\<open>prefix\<close> is what is searched for the chat; \<open>whole\<close> the text of the body that is streamed.\<close>

definition forwardMultipart ::
  "(string \<Rightarrow> rat option) \<Rightarrow> raw_io \<Rightarrow> string \<Rightarrow> string \<Rightarrow> string \<Rightarrow> int \<Rightarrow> string \<Rightarrow> 'k px \<Rightarrow> 'k px \<times> gwResponse"
where
  "forwardMultipart sg io method prefix whole len contentType x =
     (let chatID = (case multipartChatID prefix of None \<Rightarrow> None | Some v \<Rightarrow> parse_int v);
          x1 = (if chatID = None then x\<lparr>x_unresolved := wrap64 (x_unresolved x + 1)\<rparr> else x);
          x2 = x1\<lparr>x_typing := Stop (sAlias (x_sess x1)) chatID (x_typing x1)\<rparr>;
          (g, ok) = TryAcquire (fst (rw_try io)) (snd (rw_try io)) method chatID (sguard (x_sess x2));
          x3 = x2\<lparr>x_sess := (x_sess x2)\<lparr>sguard := g\<rparr>\<rparr>
      in if \<not> ok
         then (let (s, r) = refuse (rw_wait io) method chatID (x_sess x3) in (x3\<lparr>x_sess := s\<rparr>, r))
         else verbatim_result sg (rw_fwd io) method chatID (send_up method (StreamPayload contentType len whole) x3))"

definition ForwardStream ::
  "(string \<Rightarrow> rat option) \<Rightarrow> raw_io \<Rightarrow> string \<Rightarrow> string \<Rightarrow> string \<Rightarrow> int \<Rightarrow> string \<Rightarrow> 'k px \<Rightarrow> 'k px \<times> gwResponse"
where
  "ForwardStream sg io method prefix rest len contentType x =
     forwardMultipart sg io method prefix (prefix @ rest) len contentType x"

definition forwardRaw ::
  "(string \<Rightarrow> rat option) \<Rightarrow> raw_io \<Rightarrow> string \<Rightarrow> string \<Rightarrow> string \<Rightarrow> 'k px \<Rightarrow> 'k px \<times> gwResponse"
where
  "forwardRaw sg io method raw contentType x =
     forwardMultipart sg io method raw raw (int (length raw)) contentType x"

subsection \<open>Gateway-owned methods\<close>

definition pull_offset :: "json \<Rightarrow> int option" where
  "pull_offset v =
     (case v of
        JNum r \<Rightarrow> Some (int64_of_float r)
      | JInt n \<Rightarrow> Some n
      | JStr s \<Rightarrow> parse_int s
      | _ \<Rightarrow> None)"

definition internalGetUpdates ::
  "(string \<Rightarrow> rat option) \<Rightarrow> ack_io \<times> wait_end list \<Rightarrow> obj \<Rightarrow> 'k px \<Rightarrow> ('k px \<times> gwResponse) option"
where
  "internalGetUpdates sg io body x =
     (let n = int64_of_float (numberOf sg (obj_get body ''limit'')); limit = (if n = 0 then 100 else n)
      in case Pull (fst io) (pull_offset (obj_get body ''offset'')) limit (snd io) (squeue (x_sess x)) of
           None \<Rightarrow> None
         | Some (q, us) \<Rightarrow>
             Some (x\<lparr>x_sess := (x_sess x)\<lparr>squeue := q\<rparr>\<rparr>, jsonResp 200 (ok_body (JArr (map JObj us)))))"

text \<open>How long \<^verbatim>\<open>Pull\<close> may wait; the script of its wake-ups has to respect it.\<close>

definition pull_wait :: "(string \<Rightarrow> rat option) \<Rightarrow> obj \<Rightarrow> rat" where
  "pull_wait sg body =
     (let t = min (numberOf sg (obj_get body ''timeout'')) 50 in if t \<le> 0 then 1 / 100 else t)"

definition resolveUsernameChat ::
  "(string \<Rightarrow> rat option) \<Rightarrow> string + httpResponse \<Rightarrow> obj \<Rightarrow> 'k px \<Rightarrow> 'k px \<times> obj"
where
  "resolveUsernameChat sg reply body x =
     (case obj_get body ''chat_id'' of
        JStr cid \<Rightarrow>
          if \<not> has_prefix cid ''@'' then (x, body)
          else (case map_of (chatNameCache (x_sess x)) cid of
              Some n \<Rightarrow> (x, obj_put ''chat_id'' (JInt n) body)
            | None \<Rightarrow>
                let x1 = send_up ''getChat'' (JsonPayload [(''chat_id'', JStr cid)]) x in
                (case reply of
                   Inl err \<Rightarrow> (x1, body)
                 | Inr resp \<Rightarrow>
                     (case BodyJson resp of
                        None \<Rightarrow> (x1, body)
                      | Some parsed \<Rightarrow>
                          if obj_get parsed ''ok'' \<noteq> JBool True then (x1, body)
                          else (case as_obj (obj_get parsed ''result'') of
                              None \<Rightarrow> (x1, body)
                            | Some result \<Rightarrow>
                                let numeric = numberOf sg (obj_get result ''id'') in
                                if numeric = 0 then (x1, body)
                                else
                                  (x1\<lparr>x_sess := (x_sess x1)\<lparr>chatNameCache :=
                                       AList.update cid (int64_of_float numeric) (chatNameCache (x_sess x1))\<rparr>\<rparr>,
                                   obj_put ''chat_id'' (JInt (int64_of_float numeric)) body)))))
      | _ \<Rightarrow> (x, body))"

subsection \<open>One request\<close>

text \<open>The typing bookkeeping of a request; an answer ends it there.\<close>

definition call_typing :: "string \<Rightarrow> kind \<Rightarrow> int option \<Rightarrow> obj \<Rightarrow> 'k px \<Rightarrow> 'k px \<times> gwResponse option" where
  "call_typing m kind chatID body x =
     (let alias = sAlias (x_sess x); t = x_typing x in
      if m = ''sendchataction'' then
        let action = to_lower (toStr (obj_get body ''action'')) in
        if action = ''cancel'' then (x\<lparr>x_typing := Stop alias chatID t\<rparr>, Some (jsonResp 200 (ok_body (JBool True))))
        else if action = ''cancel_timeout''
        then (x\<lparr>x_typing := fst (CancelTimeout alias chatID t)\<rparr>, Some (jsonResp 200 (ok_body (JBool True))))
        else (x\<lparr>x_typing := Stop alias chatID t\<rparr>, None)
      else if m = ''answercallbackquery''
      then (x\<lparr>x_typing := StopByCallbackID alias (obj_get body ''callback_query_id'') t\<rparr>, None)
      else if kind = Write \<and> chatID \<noteq> None then (x\<lparr>x_typing := Stop alias chatID t\<rparr>, None)
      else (x, None))"

record call_io =
  ci_raw :: raw_io
  ci_resolve :: "string + httpResponse"
  ci_pull :: "ack_io \<times> wait_end list"
  ci_idem :: idem_io
  ci_admit :: "admit_turn list"
  ci_fwd :: forward_io

definition map_guard :: "(guard \<Rightarrow> guard) \<Rightarrow> 'k px \<Rightarrow> 'k px" where
  "map_guard f x = x\<lparr>x_sess := (x_sess x)\<lparr>sguard := f (sguard (x_sess x))\<rparr>\<rparr>"

text \<open>The send itself, between the paid lane's entry and its deferred exit.\<close>

definition paid_send ::
  "(string \<Rightarrow> rat option) \<Rightarrow> rat \<Rightarrow> call_io \<Rightarrow> string \<Rightarrow> obj \<Rightarrow> string \<Rightarrow> 'k px \<Rightarrow> ('k px \<times> gwResponse) option"
where
  "paid_send sg limit io method body idemKey x =
     (let m = to_lower method; kind = MethodKind m; paidRequested = truthy (obj_get body ''allow_paid_broadcast'');
          x1 = map_guard (EnterPaidLane paidRequested) x
      in if paidRequested \<and> \<not> PaidBroadcasts (x_sess x1)
         then Some (map_guard ExitPaidLane (fail_key (ci_idem io) idemKey kind x1),
                jsonResp 403 (error_body 403 ''allow_paid_broadcast requires the gateway-side paid_broadcasts opt-in for this bot''))
         else case admitAndForward sg limit (ci_admit io) (ci_fwd io) m method body (extractChatID body) kind x1 of
             None \<Rightarrow> None
           | Some (x2, r) \<Rightarrow>
               Some (map_guard ExitPaidLane
                       (if gw_status r < 400 then finish_key (ci_idem io) idemKey kind x2
                        else fail_key (ci_idem io) idemKey kind x2), r))"

definition owned_answer ::
  "(string \<Rightarrow> rat option) \<Rightarrow> call_io \<Rightarrow> string \<Rightarrow> obj \<Rightarrow> 'k px \<Rightarrow> ('k px \<times> gwResponse) option"
where
  "owned_answer sg io m body x =
     (if m = ''getupdates'' then internalGetUpdates sg (ci_pull io) body x
      else if m = ''deletewebhook'' then Some (x, jsonResp 200 (ok_body (JBool True)))
      else Some (x, withStatus 403 (jsonResp 200 (error_body 403
        (''Conflict: gateway owns this method (spec '' @ [CHR 0xC2, CHR 0xA7] @ ''4.6)'')))))"

definition Call ::
  "(string \<Rightarrow> rat option) \<Rightarrow> rat \<Rightarrow> call_io \<Rightarrow> string \<Rightarrow> obj \<Rightarrow> string \<Rightarrow> string option \<Rightarrow> string \<Rightarrow> 'k px \<Rightarrow>
    ('k px \<times> gwResponse) option"
where
  "Call sg limit io method body contentType rawBody idemKey x =
     (let m = to_lower method in
      case rawBody of
        Some raw \<Rightarrow> Some (forwardRaw sg (ci_raw io) method raw contentType x)
      | None \<Rightarrow>
          let (x1, body1) = resolveUsernameChat sg (ci_resolve io) body x in
          if m \<in> gatewayOwned then owned_answer sg io m body1 x1
          else
            let chatID = extractChatID body1; kind = MethodKind m in
            (case claim_key (ci_idem io) idemKey kind x1 of
               (x2, Some r) \<Rightarrow> Some (x2, r)
             | (x2, None) \<Rightarrow>
                 (case call_typing m kind chatID body1 x2 of
                    (x3, Some r) \<Rightarrow> Some (x3, r)
                  | (x3, None) \<Rightarrow> paid_send sg limit io method body1 idemKey x3)))"

end
