(* ===== verification/BotApp.thy ===== *)
theory BotApp
  imports Proxy
begin

text \<open>
  \<^verbatim>\<open>internal/botapi/app.go\<close>: the request parsing in front of the proxy and the consumers' handlers. A request is a record of what the handlers read of it:
  the bytes of its body, what \<^verbatim>\<open>encoding/json\<close> makes of them, its headers and path. The health
  record is shared by pointer between the manager and the queues of all sessions: \<open>put_session\<close>
  writes a session back and gives what its queue noted to the others. \<^verbatim>\<open>%v\<close> of a float is the
  parameter \<open>fv\<close>. Tracing spans and profiling are left out.
\<close>

record 'k app =
  a_cfg :: BotAPI
  a_mgr :: "'k manager"
  a_beat :: Beat
  a_boot :: BootTracker
  a_boot_file :: "rat list option"
  SafeMode :: bool
  a_unresolved :: int
  a_sent :: "(string \<times> payload) list"
  a_closed :: bool

datatype reply =
  RJson int obj
| RRaw int string
| RFile int string string
| RBots "(public_status \<times> typing_status) list"
| RTyping typing_status
| RSettings typing_settings
| RAudit "AuditEntry list"
| RDegraded storage_snapshot
| RSessions "(string \<times> session_state) list" nat
| RMetrics "(string \<times> string option \<times> rat) list"

definition writeGwResponse :: "gwResponse \<Rightarrow> reply" where
  "writeGwResponse r = (case gw_raw r of Some raw \<Rightarrow> RRaw (gw_status r) raw | None \<Rightarrow> RJson (gw_status r) (jsonBody r))"

definition code_body :: "int \<Rightarrow> obj" where
  "code_body code = [(''ok'', JBool False), (''error_code'', JInt code)]"

definition tooLarge :: reply where
  "tooLarge = RJson 413 (error_body 413 ''request body exceeds the gateway limit'')"

definition maxMultipartBody :: int where "maxMultipartBody = 64 * 2 ^ 20"
definition maxFormBody :: int where "maxFormBody = 2 ^ 20"
definition maxJSONBody :: int where "maxJSONBody = 8 * 2 ^ 20"

record http_req =
  rq_path :: string
  rq_auth :: string
  rq_ctype :: string
  rq_length :: int
  rq_body :: string
  rq_json :: "obj option"
  rq_idem :: string
  rq_query :: "(string \<times> string list) list"

subsection \<open>Paths, secrets, forms\<close>

definition splitBotTokenPath :: "string \<Rightarrow> string \<Rightarrow> (string \<times> string) option" where
  "splitBotTokenPath path prefix =
     (let p = trim_prefix (trim_prefix path prefix) ''/'' in
      if \<not> has_prefix p ''bot'' then None
      else
        let remainder = drop 3 p in
        if CHR ''/'' \<notin> set remainder then None
        else Some (takeWhile (\<lambda>c. c \<noteq> CHR ''/'') remainder, tl (dropWhile (\<lambda>c. c \<noteq> CHR ''/'') remainder)))"

definition bearerOK :: "string \<Rightarrow> string \<Rightarrow> bool" where
  "bearerOK header secret =
     (let got = trim_prefix header ''Bearer '' in if length got \<noteq> length secret then False else got = secret)"

definition adminAuthed :: "http_req \<Rightarrow> 'k app \<Rightarrow> bool" where
  "adminAuthed r a = bearerOK (rq_auth r) (baAdminSecret (a_cfg a))"

definition appAuthed :: "http_req \<Rightarrow> 'k app \<Rightarrow> bool" where
  "appAuthed r a = bearerOK (rq_auth r) (baAppSecret (a_cfg a))"

text \<open>\<^verbatim>\<open>url.QueryUnescape\<close> and \<^verbatim>\<open>url.ParseQuery\<close>; \<open>None\<close> is an error anywhere in the query.\<close>

definition hex_val :: "char \<Rightarrow> nat option" where
  "hex_val c =
     (let n = of_char c :: nat in
      if 48 \<le> n \<and> n \<le> 57 then Some (n - 48)
      else if 97 \<le> n \<and> n \<le> 102 then Some (n - 87)
      else if 65 \<le> n \<and> n \<le> 70 then Some (n - 55)
      else None)"

fun QueryUnescape :: "string \<Rightarrow> string option" where
  "QueryUnescape [] = Some []"
| "QueryUnescape (c # cs) =
     (if c = CHR ''%'' then
        (case cs of
           x # y # rest \<Rightarrow>
             (case (hex_val x, hex_val y) of
                (Some i, Some j) \<Rightarrow> map_option (\<lambda>s. char_of (16 * i + j) # s) (QueryUnescape rest)
              | _ \<Rightarrow> None)
         | _ \<Rightarrow> None)
      else map_option (\<lambda>s. (if c = CHR ''+'' then CHR '' '' else c) # s) (QueryUnescape cs))"

fun split_at :: "char \<Rightarrow> string \<Rightarrow> string list" where
  "split_at d [] = [[]]"
| "split_at d (c # cs) =
     (if c = d then [] # split_at d cs
      else case split_at d cs of [] \<Rightarrow> [[c]] | s # ss \<Rightarrow> (c # s) # ss)"

definition query_pair :: "string \<Rightarrow> (string \<times> string) option" where
  "query_pair s =
     (if CHR '';'' \<in> set s then None
      else case (QueryUnescape (takeWhile (\<lambda>c. c \<noteq> CHR ''='') s),
                 QueryUnescape (drop 1 (dropWhile (\<lambda>c. c \<noteq> CHR ''='') s))) of
          (Some k, Some v) \<Rightarrow> Some (k, v)
        | _ \<Rightarrow> None)"

fun all_some :: "'a option list \<Rightarrow> 'a list option" where
  "all_some [] = Some []"
| "all_some (x # xs) = (case x of None \<Rightarrow> None | Some y \<Rightarrow> map_option (\<lambda>ys. y # ys) (all_some xs))"

definition ParseQuery :: "string \<Rightarrow> (string \<times> string) list option" where
  "ParseQuery q = all_some (map query_pair (filter (\<lambda>s. s \<noteq> []) (split_at (CHR ''&'') q)))"

definition formChatID :: "string \<Rightarrow> int option" where
  "formChatID raw =
     (case ParseQuery raw of
        None \<Rightarrow> None
      | Some vals \<Rightarrow>
          (case map_of vals ''chat_id'' of
             None \<Rightarrow> None
           | Some v \<Rightarrow> if v = [] then None else parse_int v))"

definition parseFormBody :: "string \<Rightarrow> obj" where
  "parseFormBody raw =
     (case ParseQuery raw of None \<Rightarrow> [] | Some vals \<Rightarrow> map (\<lambda>(k, v). (k, JStr v)) vals)"

subsection \<open>Sessions of the app\<close>

definition put_session :: "nat \<Rightarrow> BotSession \<Rightarrow> 'k manager \<Rightarrow> 'k manager" where
  "put_session i s m =
     (let h = qhealth (squeue s); m1 = sess_modify i (\<lambda>_. s) m in
      case h of
        None \<Rightarrow> m1
      | Some h' \<Rightarrow>
          m1\<lparr>m_health := h',
             sess := map (\<lambda>(j, x). (j, x\<lparr>squeue := (squeue x)\<lparr>qhealth := Some h'\<rparr>\<rparr>)) (sess m1)\<rparr>)"

definition px_of :: "BotSession \<Rightarrow> 'k app \<Rightarrow> 'k px" where
  "px_of s a = \<lparr>x_sess = s, x_store = m_store (a_mgr a), x_typing = m_typing (a_mgr a),
     x_unresolved = a_unresolved a, x_sent = a_sent a\<rparr>"

definition px_back :: "nat \<Rightarrow> 'k px \<Rightarrow> 'k app \<Rightarrow> 'k app" where
  "px_back i x a =
     a\<lparr>a_mgr := put_session i (x_sess x) ((a_mgr a)\<lparr>m_store := x_store x, m_typing := x_typing x\<rparr>),
       a_unresolved := x_unresolved x, a_sent := x_sent x\<rparr>"

subsection \<open>From the request to the proxy\<close>

record route_io =
  ri_raw :: raw_io
  ri_call :: call_io

definition answer :: "nat \<Rightarrow> 'k app \<Rightarrow> 'k px \<times> gwResponse \<Rightarrow> 'k app \<times> reply" where
  "answer i a xr = (px_back i (fst xr) a, writeGwResponse (snd xr))"

definition callRoute ::
  "(string \<Rightarrow> rat option) \<Rightarrow> route_io \<Rightarrow> http_req \<Rightarrow> nat \<Rightarrow> BotSession \<Rightarrow> string \<Rightarrow> 'k app \<Rightarrow> ('k app \<times> reply) option"
where
  "callRoute sg io r i s method a =
     (let x = px_of s a; raw = rq_body r; ctype = rq_ctype r; limit = QueueWaitTimeout (baPolicy (a_cfg a));
          call = (\<lambda>body ct rb key. map_option (answer i a) (Call sg limit (ri_call io) method body ct rb key x))
      in if has_prefix ctype ''multipart/'' then
           if 0 < rq_length r \<and> rq_length r \<le> maxMultipartBody
           then Some (answer i a (ForwardStream sg (ri_raw io) method (take 65536 raw) (drop 65536 raw) (rq_length r) ctype x))
           else if int (length raw) > maxMultipartBody then Some (a, tooLarge)
           else call [] ctype (Some raw) []
         else if has_prefix ctype ''application/x-www-form-urlencoded'' then
           if int (length raw) > maxFormBody then Some (a, tooLarge)
           else if to_lower method \<in> gatewayOwned then call (parseFormBody raw) [] None (rq_idem r)
           else Some (answer i a (CallRawWithChat sg (ri_raw io) method raw ctype (formChatID raw) (rq_idem r) x))
         else if int (length raw) > maxJSONBody then Some (a, tooLarge)
         else call (if raw = [] then [] else case rq_json r of None \<Rightarrow> [] | Some b \<Rightarrow> b) [] None (rq_idem r))"

definition find_session :: "string \<Rightarrow> 'k app \<Rightarrow> (nat \<times> BotSession) option" where
  "find_session token a =
     (case FindByToken token (a_mgr a) of
        None \<Rightarrow> None
      | Some i \<Rightarrow> map_option (\<lambda>s. (i, s)) (map_of (sess (a_mgr a)) i))"

definition handleTGAPIPost ::
  "(string \<Rightarrow> rat option) \<Rightarrow> route_io \<Rightarrow> http_req \<Rightarrow> 'k app \<Rightarrow> ('k app \<times> reply) option"
where
  "handleTGAPIPost sg io r a =
     (case splitBotTokenPath (rq_path r) ''/tgapi'' of
        None \<Rightarrow> Some (a, RJson 404 (code_body 404))
      | Some (token, method) \<Rightarrow>
          (case find_session token a of
             None \<Rightarrow> Some (a, RJson 404 (error_body 404 ''unknown bot token''))
           | Some (i, s) \<Rightarrow> callRoute sg io r i s method a))"

text \<open>The file download: the upstream answer is its status, content type and bytes.\<close>

definition handleFileRoute :: "string + (int \<times> string \<times> string) \<Rightarrow> http_req \<Rightarrow> 'k app \<Rightarrow> 'k app \<times> reply" where
  "handleFileRoute up r a =
     (case (case splitBotTokenPath (rq_path r) ''/file'' of
              None \<Rightarrow> splitBotTokenPath (rq_path r) ''/tgapi/file''
            | Some tp \<Rightarrow> Some tp) of
        None \<Rightarrow> (a, RJson 404 (code_body 404))
      | Some (token, path) \<Rightarrow>
          if find_session token a = None then (a, RJson 404 (code_body 404))
          else
            let a1 = a\<lparr>a_sent := a_sent a @ [(''/file/bot'' @ token @ ''/'' @ path, RawPayload [] [])]\<rparr> in
            (case up of
               Inl err \<Rightarrow> (a1, RJson 502 (error_body 502 (''upstream: '' @ err)))
             | Inr (code, ct, body) \<Rightarrow>
                 (a1, RFile code (if ct = [] then ''application/octet-stream'' else ct) body)))"

definition query_body :: "(string \<times> string list) list \<Rightarrow> obj" where
  "query_body q = map (\<lambda>(k, vs). (k, JStr (hd vs))) (filter (\<lambda>(k, vs). vs \<noteq> []) q)"

definition handleTGAPIGetRoute ::
  "(string \<Rightarrow> rat option) \<Rightarrow> call_io \<Rightarrow> string + (int \<times> string \<times> string) \<Rightarrow> http_req \<Rightarrow> 'k app \<Rightarrow> ('k app \<times> reply) option"
where
  "handleTGAPIGetRoute sg io up r a =
     (if has_prefix (rq_path r) ''/tgapi/file/'' then Some (handleFileRoute up r a)
      else case splitBotTokenPath (rq_path r) ''/tgapi'' of
          None \<Rightarrow> Some (a, RJson 404 (code_body 404))
        | Some (token, method) \<Rightarrow>
            (case find_session token a of
               None \<Rightarrow> Some (a, RJson 404 (code_body 404))
             | Some (i, s) \<Rightarrow>
                 map_option (answer i a)
                   (Call sg (QueueWaitTimeout (baPolicy (a_cfg a))) io method (query_body (rq_query r)) [] None [] (px_of s a))))"

definition handleByAlias ::
  "(string \<Rightarrow> rat option) \<Rightarrow> route_io \<Rightarrow> string \<Rightarrow> string \<Rightarrow> http_req \<Rightarrow> 'k app \<Rightarrow> ('k app \<times> reply) option"
where
  "handleByAlias sg io alias method r a =
     (if \<not> appAuthed r a then Some (a, RJson 401 (code_body 401))
      else case Get alias (a_mgr a) of
          None \<Rightarrow> Some (a, RJson 404 (error_body 404 ''unknown alias''))
        | Some (i, s) \<Rightarrow> callRoute sg io r i s method a)"

end
