(* ===== verification/Routes.thy ===== *)
theory Routes
  imports Prelude
begin

text \<open>
  The patterns of \<^verbatim>\<open>net/http\<close>'s \<^verbatim>\<open>ServeMux\<close> as the two planes use them: a method, literal and wildcard
  segments, and whether the pattern is a subtree (ends in a slash). The multiplexer picks the most
  specific pattern that matches; among the patterns of these tables that is the one with more segments,
  and among equally long ones the one with more literal segments.
\<close>

text \<open>The build version; a release build injects its own.\<close>

definition Version :: string where
  "Version = ''0.1.0-dev''"

datatype seg = Lit string | Wild string

record pattern =
  pt_method :: string
  pt_segs :: "seg list"
  pt_subtree :: bool

fun match_segs :: "seg list \<Rightarrow> bool \<Rightarrow> string list \<Rightarrow> (string \<times> string) list option" where
  "match_segs [] sub ss = (if sub then (if ss = [] then None else Some []) else if ss = [] then Some [] else None)"
| "match_segs (Lit l # ps) sub ss = (case ss of s # ss' \<Rightarrow> if s = l then match_segs ps sub ss' else None | [] \<Rightarrow> None)"
| "match_segs (Wild w # ps) sub ss =
     (case ss of s # ss' \<Rightarrow> if s = [] then None else map_option (\<lambda>b. (w, s) # b) (match_segs ps sub ss') | [] \<Rightarrow> None)"

text \<open>No pattern here has eight segments, so the weight orders by length, then by literal segments.\<close>

definition specificity :: "pattern \<Rightarrow> nat" where
  "specificity p = 8 * length (pt_segs p) + length (filter (\<lambda>s. case s of Lit _ \<Rightarrow> True | Wild _ \<Rightarrow> False) (pt_segs p))"

definition matching :: "string \<Rightarrow> string list \<Rightarrow> (pattern \<times> 'h) list \<Rightarrow> (nat \<times> 'h \<times> (string \<times> string) list) list" where
  "matching meth ss tab =
     List.map_filter (\<lambda>(p, h). if pt_method p = meth \<or> (pt_method p = ''GET'' \<and> meth = ''HEAD'')
        then map_option (\<lambda>b. (specificity p, h, b)) (match_segs (pt_segs p) (pt_subtree p) ss) else None) tab"

definition dispatch :: "(pattern \<times> 'h) list \<Rightarrow> string \<Rightarrow> string list \<Rightarrow> ('h \<times> (string \<times> string) list) option" where
  "dispatch tab meth ss =
     (case sort_key (\<lambda>(n, h, b). - int n) (matching meth ss tab) of [] \<Rightarrow> None | (n, h, b) # _ \<Rightarrow> Some (h, b))"

lemma set_matching: "(n, h, b) \<in> set (matching meth ss tab) \<Longrightarrow> h \<in> snd ` set tab"
  by (force simp: matching_def List.map_filter_def split: if_splits)

lemma dispatch_handler:
  assumes "dispatch tab meth ss = Some (h, b)"
  shows "h \<in> snd ` set tab"
proof -
  obtain n rest where "sort_key (\<lambda>(n, h, b). - int n) (matching meth ss tab) = (n, h, b) # rest"
    using assms by (auto simp: dispatch_def split: list.splits)
  then have "(n, h, b) \<in> set (matching meth ss tab)" by (metis list.set_intros(1) set_sort)
  then show ?thesis by (rule set_matching)
qed

end
