(* ===== verification/BotAdmin.thy ===== *)
theory BotAdmin
  imports BotApp Routes
begin

text \<open>
  \<^verbatim>\<open>internal/botapi/app.go\<close>, the rest: the operator's handlers, boot and shutdown, the probes,
  the metrics and the route tables. Every handler of the operator checks the secret first.
\<close>

subsection \<open>The operator's handlers\<close>

definition on_mgr :: "('k manager \<Rightarrow> 'k manager) \<Rightarrow> 'k app \<Rightarrow> 'k app" where
  "on_mgr f a = a\<lparr>a_mgr := f (a_mgr a)\<rparr>"

record audit_io =
  au_ts :: string
  au_ok :: bool

definition audit :: "audit_io \<Rightarrow> string \<Rightarrow> string \<Rightarrow> string \<Rightarrow> 'k app \<Rightarrow> 'k app" where
  "audit io action alias detail = on_mgr (\<lambda>m. m\<lparr>m_store := Audit (au_ts io) (au_ok io) action alias detail (m_store m)\<rparr>)"

definition ok_reply :: "bool \<Rightarrow> reply" where
  "ok_reply b = RJson 200 [(''ok'', JBool b)]"

text \<open>The frame of every handler: without the secret, 401 and nothing else.\<close>

definition with_admin :: "http_req \<Rightarrow> ('k app \<Rightarrow> 'k app \<times> reply) \<Rightarrow> 'k app \<Rightarrow> 'k app \<times> reply" where
  "with_admin r f a = (if \<not> adminAuthed r a then (a, RJson 401 (code_body 401)) else f a)"

text \<open>\<open>ts\<close> are the clock readings of the loop, in nanoseconds.\<close>

definition randHex :: "int list \<Rightarrow> string" where
  "randHex ts = map (\<lambda>(i, t). ''0123456789abcdef'' ! nat (t div 2 ^ (4 * i) mod 16)) (zip [0..<length ts] ts)"

record register_body =
  rg_alias :: "string option"
  rg_token :: string
  rg_on_limit :: "string option"
  rg_paid :: bool

definition state_name :: "session_state \<Rightarrow> string" where
  "state_name st =
     (case st of Connecting \<Rightarrow> ''connecting'' | Live \<Rightarrow> ''live'' | PausedState \<Rightarrow> ''paused''
      | Draining \<Rightarrow> ''draining'' | ErrorState \<Rightarrow> ''error'')"

definition register_alias :: "int list \<Rightarrow> string option \<Rightarrow> string" where
  "register_alias ts al =
     (let alias = (case al of None \<Rightarrow> [] | Some x \<Rightarrow> x) in if alias = [] then ''bot-'' @ randHex ts else alias)"

definition adminRegister ::
  "'k attach_io \<Rightarrow> audit_io \<Rightarrow> int list \<Rightarrow> register_body option \<Rightarrow> http_req \<Rightarrow> 'k app \<Rightarrow> 'k app \<times> reply"
where
  "adminRegister io aio ts body r = with_admin r (\<lambda>a.
     case body of
       None \<Rightarrow> (a, RJson 400 (error_body 400 ''token required''))
     | Some b \<Rightarrow>
         if rg_token b = [] then (a, RJson 400 (error_body 400 ''token required''))
         else if rg_on_limit b \<notin> {None, Some ''queue'', Some ''reject''}
         then (a, RJson 400 (error_body 400 ''on_limit must be queue|reject''))
         else
           let alias = register_alias ts (rg_alias b);
               (m, res) = Attach io alias (rg_token b) (rg_on_limit b) (rg_paid b) (a_mgr a);
               a1 = a\<lparr>a_mgr := m\<rparr>
           in case res of
                Inl err \<Rightarrow> (a1, RJson 500 (error_body 500 err))
              | Inr i \<Rightarrow>
                  (case map_of (sess m) i of
                     None \<Rightarrow> (a1, RJson 500 [])
                   | Some s \<Rightarrow>
                       (audit aio ''register'' alias (''token='' @ TokenSuffix (rg_token b) @ '' on_limit='' @ EffectiveOnLimit s) a1,
                        RJson 200 [(''ok'', JBool True), (''alias'', JStr alias), (''state'', JStr (state_name (sstate s))),
                          (''on_limit'', JStr (EffectiveOnLimit s))])))"

text \<open>The status of every session, in the order of the aliases; reading it refills and trims.\<close>

definition status_one :: "(rat \<times> int \<times> rat \<times> rat) \<Rightarrow> string \<Rightarrow> 'k app \<times> (public_status \<times> typing_status) list \<Rightarrow>
    'k app \<times> (public_status \<times> typing_status) list"
where
  "status_one clk alias st =
     (let (a, out) = st; (wall, qnow, gnow, now) = clk in
      case Get alias (a_mgr a) of
        None \<Rightarrow> st
      | Some (i, s) \<Rightarrow>
          let (s1, p) = PublicStatus wall qnow gnow now s; a1 = on_mgr (sess_modify i (\<lambda>_. s1)) a
          in (a1, out @ [(p, StatusFor (m_typing (a_mgr a1)) s1)]))"

definition adminStatus :: "(string \<Rightarrow> rat \<times> int \<times> rat \<times> rat) \<Rightarrow> http_req \<Rightarrow> 'k app \<Rightarrow> 'k app \<times> reply" where
  "adminStatus clk r = with_admin r (\<lambda>a.
     let (a1, out) = fold (\<lambda>alias. status_one (clk alias) alias) (sortedAliases (m_sessions (a_mgr a))) (a, [])
     in (a1, RBots out))"

definition adminPause :: "bool \<Rightarrow> audit_io \<Rightarrow> string \<Rightarrow> http_req \<Rightarrow> 'k app \<Rightarrow> 'k app \<times> reply" where
  "adminPause ok io alias r = with_admin r (\<lambda>a.
     let (m, done) = Manager_Pause ok alias (a_mgr a); a1 = a\<lparr>a_mgr := m\<rparr>
     in if done then (audit io ''pause'' alias [] a1, ok_reply True) else (a1, ok_reply False))"

definition adminResume :: "bool \<Rightarrow> audit_io \<Rightarrow> string \<Rightarrow> http_req \<Rightarrow> 'k app \<Rightarrow> 'k app \<times> reply" where
  "adminResume ok io alias r = with_admin r (\<lambda>a.
     let (m, done) = Resume ok alias (a_mgr a); a1 = a\<lparr>a_mgr := m\<rparr>
     in if done then (audit io ''resume'' alias [] a1, ok_reply True) else (a1, ok_reply False))"

definition adminDrain :: "audit_io \<Rightarrow> string \<Rightarrow> http_req \<Rightarrow> 'k app \<Rightarrow> 'k app \<times> reply" where
  "adminDrain io alias r = with_admin r (\<lambda>a.
     let (m, done) = Drain alias (a_mgr a); a1 = a\<lparr>a_mgr := m\<rparr>
     in if done then (audit io ''drain'' alias [] a1, ok_reply True) else (a1, ok_reply False))"

definition adminDelete :: "bool \<Rightarrow> audit_io \<Rightarrow> string \<Rightarrow> http_req \<Rightarrow> 'k app \<Rightarrow> 'k app \<times> reply" where
  "adminDelete ok io alias r = with_admin r (\<lambda>a.
     let (m, done) = Manager_Delete ok alias (a_mgr a); a1 = a\<lparr>a_mgr := m\<rparr>
     in if done then (audit io ''delete'' alias [] a1, ok_reply True) else (a1, ok_reply False))"

text \<open>\<open>url\<close> is the decoded field, \<open>None\<close> where it is missing or the body does not decode.\<close>

definition adminSetPush :: "audit_io \<Rightarrow> string \<Rightarrow> string option \<Rightarrow> http_req \<Rightarrow> 'k app \<Rightarrow> 'k app \<times> reply" where
  "adminSetPush io alias urlf r = with_admin r (\<lambda>a.
     let url = (case urlf of None \<Rightarrow> [] | Some u \<Rightarrow> u); (m, done) = SetPush alias url (a_mgr a); a1 = a\<lparr>a_mgr := m\<rparr>
     in if \<not> done then (a1, RJson 404 (code_body 404))
        else (audit io ''set_push'' alias (''url='' @ url) a1,
              RJson 200 [(''ok'', JBool True), (''push_url'', case nilIfEmpty url of None \<Rightarrow> JNull | Some u \<Rightarrow> JStr u)]))"

definition fmt_bool :: "bool \<Rightarrow> string" where
  "fmt_bool b = (if b then ''true'' else ''false'')"

definition adminSetPaid :: "audit_io \<Rightarrow> string \<Rightarrow> bool \<Rightarrow> http_req \<Rightarrow> 'k app \<Rightarrow> 'k app \<times> reply" where
  "adminSetPaid io alias enabled r = with_admin r (\<lambda>a.
     case Get alias (a_mgr a) of
       None \<Rightarrow> (a, RJson 404 (code_body 404))
     | Some (i, s) \<Rightarrow>
         let a1 = on_mgr (sess_modify i (\<lambda>s. s\<lparr>PaidBroadcasts := enabled, sguard := (sguard s)\<lparr>PaidEnabled := enabled\<rparr>\<rparr>)) a
         in (audit io ''set_paid'' alias (''enabled='' @ fmt_bool enabled) a1,
             RJson 200 [(''ok'', JBool True), (''paid_broadcasts'', JBool enabled)]))"

definition describePatch :: "(rat \<Rightarrow> string) \<Rightarrow> TypingPatch \<Rightarrow> string" where
  "describePatch fv p =
     (let parts =
            (case pEnabled p of None \<Rightarrow> [] | Some b \<Rightarrow> [''enabled='' @ fmt_bool b]) @
            (case pPrivateOnly p of None \<Rightarrow> [] | Some b \<Rightarrow> [''private_only='' @ fmt_bool b]) @
            (case pIntervalS p of None \<Rightarrow> [] | Some v \<Rightarrow> [''interval_s='' @ fv v]) @
            (case pTimeoutS p of None \<Rightarrow> [] | Some v \<Rightarrow> [''timeout_s='' @ fv v]) @
            (case pTimeoutText p of None \<Rightarrow> [] | Some t \<Rightarrow> [''timeout_text='' @ t])
      in if parts = [] then ''reset-all'' else join_comma parts)"

definition adminSetBotTyping ::
  "(rat \<Rightarrow> string) \<Rightarrow> audit_io \<Rightarrow> string \<Rightarrow> TypingPatch option \<Rightarrow> http_req \<Rightarrow> 'k app \<Rightarrow> 'k app \<times> reply"
where
  "adminSetBotTyping fv io alias patch r = with_admin r (\<lambda>a.
     case patch of
       None \<Rightarrow> (a, RJson 400 (error_body 400 ''invalid JSON''))
     | Some p \<Rightarrow>
         (case Get alias (a_mgr a) of
            None \<Rightarrow> (a, RJson 404 (code_body 404))
          | Some (i, s) \<Rightarrow>
              let s1 = s\<lparr>typingEnabled := pEnabled p, typingPrivateOnly := pPrivateOnly p, typingIntervalS := pIntervalS p,
                         typingTimeoutS := pTimeoutS p, typingTimeoutText := pTimeoutText p\<rparr>;
                  a1 = on_mgr (sess_modify i (\<lambda>_. s1)) a
              in (audit io ''set_typing'' alias (describePatch fv p) a1, RTyping (StatusFor (m_typing (a_mgr a1)) s1))))"

definition adminGetTypingSettings :: "http_req \<Rightarrow> 'k app \<Rightarrow> 'k app \<times> reply" where
  "adminGetTypingSettings r = with_admin r (\<lambda>a. (a, RSettings (global (m_typing (a_mgr a)))))"

definition adminSetTypingSettings ::
  "(rat \<Rightarrow> string) \<Rightarrow> audit_io \<Rightarrow> TypingPatch option \<Rightarrow> http_req \<Rightarrow> 'k app \<Rightarrow> 'k app \<times> reply"
where
  "adminSetTypingSettings fv io patch r = with_admin r (\<lambda>a.
     case patch of
       None \<Rightarrow> (a, RJson 400 (error_body 400 ''invalid JSON''))
     | Some p \<Rightarrow>
         let a1 = on_mgr (\<lambda>m. m\<lparr>m_typing := (m_typing m)\<lparr>global := Apply p (global (m_typing m))\<rparr>\<rparr>) a
         in (audit io ''set_typing_global'' ''global'' (describePatch fv p) a1, RSettings (global (m_typing (a_mgr a1)))))"

record 'k restore_all_io =
  ra_lib :: "'k fernet_lib"
  ra_list_ok :: bool
  ra_attach :: "BotRow \<Rightarrow> 'k attach_io"

definition restore_app :: "'k restore_all_io \<Rightarrow> 'k app \<Rightarrow> 'k app \<times> nat" where
  "restore_app io a = (let (m, n) = RestoreAll (ra_lib io) (ra_list_ok io) (ra_attach io) (a_mgr a) in (a\<lparr>a_mgr := m\<rparr>, n))"

definition adminSafeModeAck :: "'k restore_all_io \<Rightarrow> audit_io \<Rightarrow> http_req \<Rightarrow> 'k app \<Rightarrow> 'k app \<times> reply" where
  "adminSafeModeAck io aio r = with_admin r (\<lambda>a.
     let (a1, n) = restore_app io (a\<lparr>a_boot_file := BootTracker_Clear (a_boot_file a), SafeMode := False\<rparr>)
     in (audit aio ''safe_mode_ack'' ''global'' (''restored='' @ itoa (int n)) a1,
         RJson 200 [(''ok'', JBool True), (''safe_mode'', JBool False), (''restored'', JInt (int n))]))"

definition adminAudit :: "bool \<Rightarrow> http_req \<Rightarrow> 'k app \<Rightarrow> 'k app \<times> reply" where
  "adminAudit ok r = with_admin r (\<lambda>a. (a, RAudit (GetAudit ok 100 (m_store (a_mgr a)))))"

subsection \<open>Boot and shutdown\<close>

record 'k boot_io =
  bo_now :: int
  bo_write_ok :: bool
  bo_restore :: "'k restore_all_io"

text \<open>The boot sequence; the tokens that do not decrypt are only logged, they are the second result.\<close>

definition buildLifecycle :: "'k boot_io \<Rightarrow> 'k app \<Rightarrow> 'k app \<times> string list" where
  "buildLifecycle io a =
     (let ((t, f), safe, boots) = RecordBoot (bo_now io) (bo_write_ok io) (a_boot a) (a_boot_file a);
          a1 = a\<lparr>a_boot := t, a_boot_file := f, SafeMode := safe\<rparr>;
          a2 = (if safe then a1 else fst (restore_app (bo_restore io) a1))
      in (a2, VerifyTokens (ra_lib (bo_restore io)) (m_store (a_mgr a2))))"

definition NewApp ::
  "'k boot_io \<Rightarrow> BotAPI \<Rightarrow> open_error + 'k gateway \<Rightarrow> rat list option \<Rightarrow> int \<Rightarrow> open_error + ('k app \<times> string list)"
where
  "NewApp io cfg opened boot_file now =
     (case opened of
        Inl err \<Rightarrow> Inl err
      | Inr st \<Rightarrow>
          Inr (buildLifecycle io
            \<lparr>a_cfg = cfg, a_mgr = NewManager cfg st NewStorage, a_beat = NewBeat now, a_boot = \<lparr>WindowS = 0, MaxBoots = 0\<rparr>,
             a_boot_file = boot_file, SafeMode = False, a_unresolved = 0, a_sent = [], a_closed = False\<rparr>))"

text \<open>One tick of the maintenance loop; the retention statement is never empty.\<close>

definition app_maintenance ::
  "(string \<Rightarrow> check_io) \<Rightarrow> ('c disk_file \<Rightarrow> 'c disk_file option) \<Rightarrow> (string \<Rightarrow> string) \<Rightarrow> rat \<Rightarrow> string \<Rightarrow> 'k app \<times> 'c fs \<Rightarrow>
    ('k app \<times> 'c fs) option"
where
  "app_maintenance io vac stamp now path st =
     (let (a, f) = st; c = a_cfg a in
      case MaintenancePass io vac stamp now [path, baDataDir c @ ''/queue.db''] (BackupsDir c)
             (BackupKeep (baStorage c)) (BackupInterval (baStorage c)) True
             (f, m_health (a_mgr a)) of
        None \<Rightarrow> None
      | Some (f', h) \<Rightarrow>
          Some (on_mgr (\<lambda>m. m\<lparr>m_health := h, sess := map (\<lambda>(j, x). (j, x\<lparr>squeue := (squeue x)\<lparr>qhealth :=
              map_option (\<lambda>_. h) (qhealth (squeue x))\<rparr>\<rparr>)) (sess m)\<rparr>) a, f'))"

definition App_Close :: "'k app \<Rightarrow> 'k app" where
  "App_Close a =
     (if a_closed a then a
      else a\<lparr>a_closed := True, a_beat := Beat_Stop (a_beat a), a_mgr := Shutdown (a_mgr a)\<rparr>)"

subsection \<open>Probes and metrics\<close>

definition round2 :: "rat \<Rightarrow> rat" where
  "round2 f = of_int (int64_of_float (f * 100 + 1 / 2)) / 100"

definition handleHealthz :: "int \<Rightarrow> int \<Rightarrow> 'k app \<Rightarrow> reply" where
  "handleHealthz now1 now2 a =
     RJson 200 [(''ok'', JBool (Alive now2 (a_beat a))), (''version'', JStr Version), (''loop_lag_s'', JNum (round2 (Lag now1 (a_beat a))))]"

text \<open>The outcomes of the two probe statements are errors or success.\<close>

definition handleReadyz :: "string option \<Rightarrow> string option \<Rightarrow> 'k app \<Rightarrow> reply" where
  "handleReadyz begin_probe rollback_probe a =
     (case begin_probe of
        Some err \<Rightarrow> RJson 503 [(''ok'', JBool False), (''error'', JStr err)]
      | None \<Rightarrow>
          (case rollback_probe of
             Some err \<Rightarrow> RJson 503 [(''ok'', JBool False), (''error'', JStr err)]
           | None \<Rightarrow>
               if Degraded (m_health (a_mgr a)) \<noteq> [] then RDegraded (Storage_Snapshot (m_health (a_mgr a)))
               else if SafeMode a
               then RJson 503 [(''ok'', JBool False), (''safe_mode'', JBool True)]
               else
                 let states = List.map_filter (\<lambda>(alias, i). map_option (\<lambda>s. (alias, sstate s)) (map_of (sess (a_mgr a)) i)) (m_sessions (a_mgr a))
                 in RSessions states (length (filter (\<lambda>(al, st). st = Live) states))))"

definition reply_status :: "reply \<Rightarrow> int" where
  "reply_status r = (case r of RJson c b \<Rightarrow> c | RRaw c b \<Rightarrow> c | RFile c t b \<Rightarrow> c | RDegraded s \<Rightarrow> 503 | _ \<Rightarrow> 200)"

definition b2i :: "bool \<Rightarrow> rat" where
  "b2i b = (if b then 1 else 0)"

text \<open>The sample lines as name, label and value.\<close>

definition session_metrics :: "rat \<Rightarrow> int \<Rightarrow> Storage \<Rightarrow> typing \<Rightarrow> BotSession \<Rightarrow> (string \<times> string option \<times> rat) list" where
  "session_metrics wall qnow h t s =
     (let q = Stats qnow (squeue s); l = Some (sAlias s);
          age = (if connectedSince s > 0 then int64_of_float (wall - connectedSince s) else 0)
      in [(''tg_gateway_session_state'', l, b2i (sstate s = Live)),
          (''tg_gateway_session_connection_age_seconds'', l, of_int age),
          (''tg_gateway_update_queue_depth'', l, of_int (depth q)),
          (''tg_gateway_updates_dropped_oldest_total'', l, of_int (dropped_oldest q)),
          (''tg_gateway_updates_expired_by_ttl_total'', l, of_int (expired_by_ttl q)),
          (''tg_gateway_queue_persistent'', l, b2i (persistent q)),
          (''tg_gateway_real_429_total'', l, of_int (real429 s)),
          (''tg_gateway_synthetic_429_total'', l, of_int (synth429 s)),
          (''tg_gateway_typing_active'', l, of_nat (ActiveCount (sAlias s) t)),
          (''tg_gateway_persist_failures_total'', l, of_int (PersistFailures h)),
          (''tg_gateway_corrupt_rows_total'', l, of_int (CorruptRows h)),
          (''tg_gateway_queue_max_age_seconds'', l, max_age_s q)] @
         (if unloadedBacklog (squeue s) > 0 then [(''tg_gateway_backlog_unloaded'', l, of_int (unloadedBacklog (squeue s)))] else []))"

definition handleMetrics :: "rat \<Rightarrow> int \<Rightarrow> int \<Rightarrow> 'k app \<Rightarrow> reply" where
  "handleMetrics wall qnow now a =
     (let m = a_mgr a in
      RMetrics (concat (map (\<lambda>alias. case Get alias m of
           None \<Rightarrow> [] | Some (i, s) \<Rightarrow> session_metrics wall qnow (m_health m) (m_typing m) s) (sortedAliases (m_sessions m)))
        @ (if a_unresolved a > 0 then [(''tg_gateway_multipart_chat_unresolved_total'', None, of_int (a_unresolved a))] else [])
        @ [(''tg_gateway_storage_degraded'', Some ''bot'', b2i (Degraded (m_health m) \<noteq> [])),
           (''tg_gateway_loop_lag_seconds'', Some ''bot'', round2 (Lag now (a_beat a)))]))"

subsection \<open>Routes\<close>

datatype handler =
  TGAPIPost | TGAPIGet | ByAlias | FileRoute | Healthz | Readyz
| Register | Status | Pause_h | Resume_h | Drain_h | Delete_h | SetPush_h | SetPaid_h | SetBotTyping
| GetTypingSettings | SetTypingSettings | SafeModeAck | AuditLog | Metrics | Pprof string

definition publicRoutes :: "(pattern \<times> handler) list" where
  "publicRoutes =
     [(\<lparr>pt_method = ''POST'', pt_segs = [Lit ''tgapi''], pt_subtree = True\<rparr>, TGAPIPost),
      (\<lparr>pt_method = ''GET'', pt_segs = [Lit ''tgapi''], pt_subtree = True\<rparr>, TGAPIGet),
      (\<lparr>pt_method = ''POST'', pt_segs = [Lit ''bots'', Wild ''alias'', Wild ''method''], pt_subtree = False\<rparr>, ByAlias),
      (\<lparr>pt_method = ''GET'', pt_segs = [Lit ''file''], pt_subtree = True\<rparr>, FileRoute),
      (\<lparr>pt_method = ''GET'', pt_segs = [Lit ''tgapi'', Lit ''file''], pt_subtree = True\<rparr>, FileRoute),
      (\<lparr>pt_method = ''GET'', pt_segs = [Lit ''healthz''], pt_subtree = False\<rparr>, Healthz),
      (\<lparr>pt_method = ''GET'', pt_segs = [Lit ''readyz''], pt_subtree = False\<rparr>, Readyz)]"

definition mountPprof :: "BotAPI \<Rightarrow> (pattern \<times> handler) list" where
  "mountPprof cfg =
     (if \<not> baPprof cfg then []
      else (\<lparr>pt_method = ''GET'', pt_segs = [Lit ''debug'', Lit ''pprof''], pt_subtree = True\<rparr>, Pprof []) #
        map (\<lambda>n. (\<lparr>pt_method = ''GET'', pt_segs = [Lit ''debug'', Lit ''pprof'', Lit n], pt_subtree = False\<rparr>, Pprof n))
          [''cmdline'', ''profile'', ''symbol'', ''trace''])"

definition bot_route :: "string \<Rightarrow> handler \<Rightarrow> pattern \<times> handler" where
  "bot_route act h = (\<lparr>pt_method = ''POST'', pt_segs = [Lit ''admin'', Lit ''bots'', Wild ''alias'', Lit act], pt_subtree = False\<rparr>, h)"

definition adminRoutes :: "BotAPI \<Rightarrow> (pattern \<times> handler) list" where
  "adminRoutes cfg = mountPprof cfg @
     [(\<lparr>pt_method = ''POST'', pt_segs = [Lit ''admin'', Lit ''bots''], pt_subtree = False\<rparr>, Register),
      (\<lparr>pt_method = ''GET'', pt_segs = [Lit ''admin'', Lit ''status''], pt_subtree = False\<rparr>, Status),
      bot_route ''pause'' Pause_h, bot_route ''resume'' Resume_h, bot_route ''drain'' Drain_h,
      (\<lparr>pt_method = ''DELETE'', pt_segs = [Lit ''admin'', Lit ''bots'', Wild ''alias''], pt_subtree = False\<rparr>, Delete_h),
      bot_route ''push'' SetPush_h, bot_route ''paid'' SetPaid_h, bot_route ''typing'' SetBotTyping,
      (\<lparr>pt_method = ''GET'', pt_segs = [Lit ''admin'', Lit ''settings'', Lit ''typing''], pt_subtree = False\<rparr>, GetTypingSettings),
      (\<lparr>pt_method = ''POST'', pt_segs = [Lit ''admin'', Lit ''settings'', Lit ''typing''], pt_subtree = False\<rparr>, SetTypingSettings),
      (\<lparr>pt_method = ''POST'', pt_segs = [Lit ''admin'', Lit ''safe_mode'', Lit ''ack''], pt_subtree = False\<rparr>, SafeModeAck),
      (\<lparr>pt_method = ''GET'', pt_segs = [Lit ''admin'', Lit ''audit''], pt_subtree = False\<rparr>, AuditLog),
      (\<lparr>pt_method = ''GET'', pt_segs = [Lit ''metrics''], pt_subtree = False\<rparr>, Metrics)]"

text \<open>The table of the consumer listener, and of the operator's where \<^verbatim>\<open>GW_ADMIN_PORT\<close> splits them.\<close>

definition listeners :: "BotAPI \<Rightarrow> (pattern \<times> handler) list \<times> (pattern \<times> handler) list option" where
  "listeners cfg =
     (if baAdminPort cfg > 0 then (publicRoutes, Some (adminRoutes cfg)) else (publicRoutes @ adminRoutes cfg, None))"

end
