(* ===== verification/Proxy_Pacing.thy ===== *)
theory Proxy_Pacing
  imports Proxy Guard_Pacing
begin

text \<open>
  What the proxy guarantees for a request as a whole: nothing goes upstream that the rate guard
  has not admitted, a paused chat gets nothing, and what becomes of an idempotency key.
\<close>

subsection \<open>Runs of the guard\<close>

lemma run_append [simp]: "run step s (es @ es') = run step (run step s es) es'"
  by (induction es arbitrary: s) auto

lemma admitted_append [simp]: "admitted step s (es @ es') = admitted step s es + admitted step (run step s es) es'"
  by (induction es arbitrary: s) auto

text \<open>
  \<open>paced n g g'\<close>: the guard went from \<open>g\<close> to \<open>g'\<close> by its own operations, of which at least
  \<open>n\<close> admitted a request.
\<close>

definition paced :: "nat \<Rightarrow> guard \<Rightarrow> guard \<Rightarrow> bool" where
  "paced n g g' \<longleftrightarrow> (\<exists>es. g' = run guard_exec g es \<and> n \<le> admitted guard_exec g es)"

lemma paced_refl [simp, intro]: "paced 0 g g"
  unfolding paced_def by (rule exI [of _ "[]"]) simp

lemma paced_trans: "paced n g g' \<Longrightarrow> paced k g' g'' \<Longrightarrow> paced (n + k) g g''"
  unfolding paced_def by (metis add_mono admitted_append run_append)

lemma paced_step: "g' = fst (guard_exec g e) \<Longrightarrow> n \<le> (if snd (guard_exec g e) then 1 else 0) \<Longrightarrow> paced n g g'"
  unfolding paced_def by (rule exI [of _ "[e]"]) auto

lemma paced_ops [intro]:
  "paced 0 g (fst (TryAcquire now t m c g))"
  "snd (TryAcquire now t m c g) \<Longrightarrow> paced (Suc 0) g (fst (TryAcquire now t m c g))"
  "paced 0 g (fst (WaitTime now t m c g))"
  "paced 0 g (Report429 now t c r g)"
  "paced 0 g (EnterPaidLane b g)"
  "paced 0 g (ExitPaidLane g)"
  using paced_step [where e = "Acquire now t m c" and g = g] paced_step [where e = "AskWait now t m c" and g = g]
    paced_step [where e = "Report now t c r" and g = g] paced_step [where e = "EnterPaid b" and g = g]
    paced_step [where e = ExitPaid and g = g]
  by auto

lemma paced_then: "paced n g g' \<Longrightarrow> paced 0 g' g'' \<Longrightarrow> paced n g g''"
  using paced_trans [of n g g' 0 g''] by simp

lemma paced_first: "paced 0 g g' \<Longrightarrow> paced n g' g'' \<Longrightarrow> paced n g g''"
  using paced_trans [of 0 g g' n g''] by simp

text \<open>Other goroutines reach the guard through its operations only, and never rename a session.\<close>

definition considerate :: "(BotSession \<Rightarrow> BotSession) \<Rightarrow> bool" where
  "considerate f \<longleftrightarrow> (\<forall>s. paced 0 (sguard s) (sguard (f s)) \<and> sAlias (f s) = sAlias s)"

definition script_ok :: "admit_turn list \<Rightarrow> bool" where
  "script_ok turns \<longleftrightarrow> (\<forall>a\<in>set turns. \<forall>f. ad_end a = Slept f \<longrightarrow> considerate f)"

lemma script_ok_simps [simp]:
  "script_ok []"
  "script_ok (a # as) \<longleftrightarrow> (\<forall>f. ad_end a = Slept f \<longrightarrow> considerate f) \<and> script_ok as"
  by (auto simp: script_ok_def)

lemma session_fields [simp]:
  "sguard (noteSynthetic429 s) = sguard s" "sAlias (noteSynthetic429 s) = sAlias s"
  "sguard (noteReal429 s) = sguard s" "sAlias (noteReal429 s) = sAlias s"
  "sguard (noteSend now s) = sguard s" "sAlias (noteSend now s) = sAlias s"
  by (simp_all add: noteSynthetic429_def noteReal429_def noteSend_def)

lemma refuse_facts:
  "paced 0 (sguard s) (sguard (fst (refuse clk m c s)))" "sAlias (fst (refuse clk m c s)) = sAlias s"
  "gw_status (snd (refuse clk m c s)) = 429"
  by (auto simp: refuse_def case_prod_unfold Let_def jsonResp_def)

lemma wait_exceeded_status [simp]: "gw_status wait_exceeded = 429"
  by (simp add: wait_exceeded_def jsonResp_def)

lemma admit_paced:
  assumes "admit limit m c k turns waited s = Some (s', r)" "script_ok turns"
  shows "paced (if r = None then 1 else 0) (sguard s) (sguard s') \<and> sAlias s' = sAlias s"
  using assms
proof (induction turns arbitrary: waited s)
  case Nil
  then show ?case by simp
next
  case (Cons a as)
  let ?T = "TryAcquire (fst (ad_try a)) (snd (ad_try a)) m c (sguard s)"
  let ?s1 = "s\<lparr>sguard := fst ?T\<rparr>"
  let ?W = "WaitTime (fst (ad_wait a)) (snd (ad_wait a)) m c (sguard ?s1)"
  let ?s2 = "?s1\<lparr>sguard := fst ?W\<rparr>"
  have p2: "paced 0 (sguard s) (sguard ?s2)" by (auto intro: paced_first)
  consider (ok) "snd ?T" | (refused) "\<not> snd ?T" "EffectiveOnLimit ?s1 = ''reject'' \<or> k \<noteq> Write"
    | (late) "\<not> snd ?T" "\<not> (EffectiveOnLimit ?s1 = ''reject'' \<or> k \<noteq> Write)" "waited + cap_wait (snd ?W) 2 > limit"
    | (sleep) "\<not> snd ?T" "\<not> (EffectiveOnLimit ?s1 = ''reject'' \<or> k \<noteq> Write)" "\<not> waited + cap_wait (snd ?W) 2 > limit"
    by blast
  then show ?case
  proof cases
    case ok
    with Cons.prems(1) show ?thesis by (auto simp: case_prod_unfold Let_def)
  next
    case refused
    with Cons.prems(1) have "s' = fst (refuse (ad_wait a) m c ?s1)" "r = Some (snd (refuse (ad_wait a) m c ?s1))"
      by (auto simp: case_prod_unfold Let_def)
    with refuse_facts [where s = ?s1 and clk = "ad_wait a" and m = m and c = c] show ?thesis by (auto intro: paced_first)
  next
    case late
    with Cons.prems(1) have "s' = noteSynthetic429 ?s2" "r = Some wait_exceeded"
      by (simp_all add: case_prod_unfold Let_def)
    with p2 show ?thesis by simp
  next
    case sleep
    show ?thesis
    proof (cases "ad_end a")
      case Gone
      with sleep Cons.prems(1) have "s' = ?s2" "r = Some wait_exceeded"
        by (simp_all add: case_prod_unfold Let_def)
      with p2 show ?thesis by simp
    next
      case (Slept f)
      with sleep Cons.prems(1) have a: "admit limit m c k as (waited + cap_wait (snd ?W) 2) (f ?s2) = Some (s', r)"
        by (simp add: case_prod_unfold Let_def)
      have f: "paced 0 (sguard ?s2) (sguard (f ?s2))" "sAlias (f ?s2) = sAlias ?s2"
        using Cons.prems(2) Slept unfolding script_ok_simps considerate_def by blast+
      from Cons.IH [OF a] Cons.prems(2) f paced_first [OF p2 f(1)] show ?thesis
        by (auto intro: paced_first)
    qed
  qed
qed

lemma admit_answer:
  "admit limit m c k turns waited s = Some (s', Some y) \<Longrightarrow> gw_status y = 429 \<and> \<not> isRaw y"
  by (induction turns arbitrary: waited s)
    (auto simp: case_prod_unfold Let_def refuse_def wait_exceeded_def jsonResp_def isRaw_def
      split: if_splits sleep_end.splits)

subsection \<open>Requests of the proxy\<close>

text \<open>The request went from \<open>x\<close> to \<open>x'\<close> and sent at most as much as the guard admitted, apart from \<open>k\<close> lookups.\<close>

definition served :: "nat \<Rightarrow> 'k px \<Rightarrow> 'k px \<Rightarrow> bool" where
  "served k x x' \<longleftrightarrow> paced (length (x_sent x') - length (x_sent x) - k) (sguard (x_sess x)) (sguard (x_sess x')) \<and>
     length (x_sent x) \<le> length (x_sent x') \<and> sAlias (x_sess x') = sAlias (x_sess x)"

definition looks_up :: "obj \<Rightarrow> 'k px \<Rightarrow> bool" where
  "looks_up body x \<longleftrightarrow> (\<exists>cid. obj_get body ''chat_id'' = JStr cid \<and> has_prefix cid ''@'' \<and>
     map_of (chatNameCache (x_sess x)) cid = None)"

lemma served_quiet:
  "x_sent x' = x_sent x \<Longrightarrow> paced 0 (sguard (x_sess x)) (sguard (x_sess x')) \<Longrightarrow> sAlias (x_sess x') = sAlias (x_sess x) \<Longrightarrow>
   served k x x'"
  by (simp add: served_def)

lemma served_before:
  assumes "served k x1 x2" "x_sent x1 = x_sent x" "paced 0 (sguard (x_sess x)) (sguard (x_sess x1))" "sAlias (x_sess x1) = sAlias (x_sess x)"
  shows "served k x x2"
  using assms by (auto simp: served_def intro: paced_first)

lemma served_after:
  assumes "served k x x1" "x_sent x2 = x_sent x1" "paced 0 (sguard (x_sess x1)) (sguard (x_sess x2))" "sAlias (x_sess x2) = sAlias (x_sess x1)"
  shows "served k x x2"
  using assms by (auto simp: served_def intro: paced_then)

lemma px_fields [simp]:
  "x_sess (fail_key io key k x) = x_sess x" "x_sent (fail_key io key k x) = x_sent x"
  "x_sess (finish_key io key k x) = x_sess x" "x_sent (finish_key io key k x) = x_sent x"
  "x_sess (fst (claim_key io key k x)) = x_sess x" "x_sent (fst (claim_key io key k x)) = x_sent x"
  "x_sess (send_up method b x) = x_sess x"
  "x_sent (send_up method b x) = x_sent x @ [(upstream_url (x_sess x) method, b)]"
  "x_store (send_up method b x) = x_store x"
  "x_sess (fst (call_typing m k c body x)) = x_sess x" "x_sent (fst (call_typing m k c body x)) = x_sent x"
  "x_store (fst (call_typing m k c body x)) = x_store x"
  "x_sent (map_guard f x) = x_sent x" "x_sess (map_guard f x) = (x_sess x)\<lparr>sguard := f (sguard (x_sess x))\<rparr>"
  "x_store (map_guard f x) = x_store x"
  by (simp_all add: fail_key_def finish_key_def claim_key_def send_up_def call_typing_def map_guard_def
      case_prod_unfold Let_def)

lemma learn_429_fields:
  "x_sent (learn_429 sg io method c resp x) = x_sent x"
  "sAlias (x_sess (learn_429 sg io method c resp x)) = sAlias (x_sess x)"
  "paced 0 (sguard (x_sess x)) (sguard (x_sess (learn_429 sg io method c resp x)))"
  by (auto simp: learn_429_def Let_def)

lemma verbatim_result_fields:
  "x_sent (fst (verbatim_result sg io m c x)) = x_sent x"
  "sAlias (x_sess (fst (verbatim_result sg io m c x))) = sAlias (x_sess x)"
  "paced 0 (sguard (x_sess x)) (sguard (x_sess (fst (verbatim_result sg io m c x))))"
proof -
  show "paced 0 (sguard (x_sess x)) (sguard (x_sess (fst (verbatim_result sg io m c x))))"
    using learn_429_fields(3) [of "x\<lparr>x_sess := noteSend (fw_send io) (x_sess x)\<rparr>"]
    by (simp add: verbatim_result_def split: sum.split)
qed (simp_all add: verbatim_result_def learn_429_fields split: sum.split)

text \<open>The two verbatim paths try once.\<close>

lemma served_once:
  assumes T: "T = TryAcquire now t m c (sguard (x_sess x))"
    and "\<not> snd T \<Longrightarrow> x' = x\<lparr>x_sess := fst (refuse clk m c ((x_sess x)\<lparr>sguard := fst T\<rparr>))\<rparr>"
    and "snd T \<Longrightarrow> length (x_sent x') = length (x_sent x) + 1 \<and> sAlias (x_sess x') = sAlias (x_sess x) \<and>
      paced 0 (fst T) (sguard (x_sess x'))"
  shows "served 0 x x'"
proof (cases "snd T")
  case True
  with T have "paced (Suc 0) (sguard (x_sess x)) (fst T)" by auto
  with assms(3) [OF True] show ?thesis by (auto simp: served_def intro: paced_then)
next
  case False
  from assms(2) [OF this] show ?thesis
    using refuse_facts [where s = "(x_sess x)\<lparr>sguard := fst T\<rparr>" and clk = clk and m = m and c = c] T
    by (intro served_quiet) (auto intro: paced_first)
qed

lemma forwardMultipart_served: "served 0 x (fst (forwardMultipart sg io method prefix whole len ct x))"
proof -
  let ?c = "case multipartChatID prefix of None \<Rightarrow> None | Some v \<Rightarrow> parse_int v"
  let ?x1 = "if ?c = None then x\<lparr>x_unresolved := wrap64 (x_unresolved x + 1)\<rparr> else x"
  let ?x2 = "?x1\<lparr>x_typing := Stop (sAlias (x_sess ?x1)) ?c (x_typing ?x1)\<rparr>"
  let ?T = "TryAcquire (fst (rw_try io)) (snd (rw_try io)) method ?c (sguard (x_sess ?x2))"
  have x2: "x_sess ?x2 = x_sess x" "x_sent ?x2 = x_sent x" by simp_all
  have "served 0 ?x2 (fst (forwardMultipart sg io method prefix whole len ct x))"
    using verbatim_result_fields(3) [where x = "send_up method (StreamPayload ct len whole)
        (?x2\<lparr>x_sess := (x_sess ?x2)\<lparr>sguard := fst ?T\<rparr>\<rparr>)" and sg = sg and io = "rw_fwd io" and m = "method" and c = ?c]
    by (intro served_once [where T = ?T and clk = "rw_wait io", OF refl])
      (simp_all add: forwardMultipart_def Let_def case_prod_unfold verbatim_result_fields)
  then show ?thesis by (rule served_before) (simp_all only: x2 paced_refl)
qed

definition raw_stop :: "string \<Rightarrow> int option \<Rightarrow> 'k px \<Rightarrow> 'k px" where
  "raw_stop m c x = (if MethodKind m = Write then x\<lparr>x_typing := Stop (sAlias (x_sess x)) c (x_typing x)\<rparr> else x)"

lemma raw_stop_fields [simp]:
  "x_sess (raw_stop m c x) = x_sess x" "x_sent (raw_stop m c x) = x_sent x" "x_store (raw_stop m c x) = x_store x"
  by (simp_all add: raw_stop_def)

text \<open>The form path after a claim that is no replay.\<close>

definition raw_send ::
  "(string \<Rightarrow> rat option) \<Rightarrow> raw_io \<Rightarrow> string \<Rightarrow> string \<Rightarrow> string \<Rightarrow> int option \<Rightarrow> string \<Rightarrow> 'k px \<Rightarrow> 'k px \<times> gwResponse"
where
  "raw_send sg io method raw ct c key x =
     (let m = to_lower method;
          (g, ok) = TryAcquire (fst (rw_try io)) (snd (rw_try io)) m c (sguard (x_sess x));
          x3 = x\<lparr>x_sess := (x_sess x)\<lparr>sguard := g\<rparr>\<rparr>
      in if \<not> ok then (let (s, r) = refuse (rw_wait io) m c (x_sess x3) in (x3\<lparr>x_sess := s\<rparr>, r))
         else
           let x4 = send_up method (RawPayload ct raw) x3;
               x5 = (case fw_reply (rw_fwd io) of
                       Inl err \<Rightarrow> fail_key (rw_idem io) key (MethodKind m) x4
                     | Inr resp \<Rightarrow>
                         if StatusCode resp \<ge> 500 then fail_key (rw_idem io) key (MethodKind m) x4
                         else finish_key (rw_idem io) key (MethodKind m) x4)
           in verbatim_result sg (rw_fwd io) m c x5)"

lemma CallRawWithChat_split:
  "CallRawWithChat sg io method raw ct c key x =
     (case claim_key (rw_idem io) key (MethodKind method) x of
        (x1, Some r) \<Rightarrow> (x1, r)
      | (x1, None) \<Rightarrow> raw_send sg io method raw ct c key (raw_stop method c x1))"
  by (simp add: CallRawWithChat_def raw_send_def raw_stop_def Let_def case_prod_unfold split: option.split)

lemma raw_send_served: "served 0 x (fst (raw_send sg io method raw ct c key x))"
proof -
  let ?m = "to_lower method"
  let ?T = "TryAcquire (fst (rw_try io)) (snd (rw_try io)) ?m c (sguard (x_sess x))"
  let ?x4 = "send_up method (RawPayload ct raw) (x\<lparr>x_sess := (x_sess x)\<lparr>sguard := fst ?T\<rparr>\<rparr>)"
  let ?x5 = "case fw_reply (rw_fwd io) of
      Inl err \<Rightarrow> fail_key (rw_idem io) key (MethodKind ?m) ?x4
    | Inr resp \<Rightarrow> if StatusCode resp \<ge> 500 then fail_key (rw_idem io) key (MethodKind ?m) ?x4
                  else finish_key (rw_idem io) key (MethodKind ?m) ?x4"
  have x5: "x_sess ?x5 = (x_sess x)\<lparr>sguard := fst ?T\<rparr>" "length (x_sent ?x5) = length (x_sent x) + 1"
    by (simp_all split: sum.split)
  show ?thesis
    using verbatim_result_fields [where x = ?x5 and sg = sg and io = "rw_fwd io" and m = ?m and c = c] x5
    by (intro served_once [where T = ?T and clk = "rw_wait io", OF refl])
      (simp_all add: raw_send_def Let_def case_prod_unfold)
qed

lemma CallRawWithChat_served: "served 0 x (fst (CallRawWithChat sg io method raw ct c key x))"
proof -
  obtain x1 r where k: "claim_key (rw_idem io) key (MethodKind method) x = (x1, r)" by (cases "claim_key (rw_idem io) key (MethodKind method) x")
  then have x1: "x_sess x1 = x_sess x" "x_sent x1 = x_sent x"
    using px_fields(5,6) [of "rw_idem io" key "MethodKind method" x] by auto
  show ?thesis
  proof (cases r)
    case None
    have "served 0 (raw_stop method c x1) (fst (CallRawWithChat sg io method raw ct c key x))"
      using raw_send_served by (simp add: CallRawWithChat_split k None)
    then show ?thesis by (rule served_before) (simp_all add: x1)
  next
    case (Some y)
    then show ?thesis by (intro served_quiet) (simp_all add: CallRawWithChat_split k x1)
  qed
qed

lemma admitAndForward_served:
  assumes "admitAndForward sg limit turns io m method body c k x = Some (x', r)" "script_ok turns"
  shows "served 0 x x'"
proof -
  obtain s r' where a: "admit limit m c k turns 0 (x_sess x) = Some (s, r')"
    using assms(1) by (auto simp: admitAndForward_def split: option.splits)
  note p = admit_paced [OF a assms(2)]
  show ?thesis
  proof (cases r')
    case (Some y)
    with a assms(1) have "x' = x\<lparr>x_sess := s\<rparr>" by (simp add: admitAndForward_def)
    with p Some show ?thesis by (intro served_quiet) auto
  next
    case None
    let ?x1 = "send_up method (JsonPayload body) (x\<lparr>x_sess := s\<rparr>)"
    let ?x2 = "if k = Write then ?x1\<lparr>x_sess := noteSend (fw_send io) (x_sess ?x1)\<rparr> else ?x1"
    have x1: "served 0 x ?x1" using p None by (simp add: served_def)
    then have "served 0 x ?x2" by (rule served_after) auto
    then have "served 0 x (learn_429 sg io method c resp ?x2)" for resp
      by (rule served_after) (simp_all only: learn_429_fields)
    with x1 a assms(1) None show ?thesis by (auto simp: admitAndForward_def Let_def split: sum.splits)
  qed
qed

lemma paid_send_served:
  assumes "paid_send sg limit io method body key x = Some (x', r)" "script_ok (ci_admit io)"
  shows "served 0 x x'"
proof -
  let ?m = "to_lower method" and ?paid = "truthy (obj_get body ''allow_paid_broadcast'')"
  let ?x1 = "map_guard (EnterPaidLane ?paid) x"
  show ?thesis
  proof (cases "?paid \<and> \<not> PaidBroadcasts (x_sess ?x1)")
    case True
    with assms(1) have "x' = map_guard ExitPaidLane (fail_key (ci_idem io) key (MethodKind ?m) ?x1)"
      by (simp add: paid_send_def Let_def)
    then show ?thesis by (intro served_quiet) (auto intro: paced_first)
  next
    case False
    with assms(1) obtain x2 where x2: "admitAndForward sg limit (ci_admit io) (ci_fwd io) ?m method body (extractChatID body) (MethodKind ?m) ?x1 = Some (x2, r)"
      and x': "x' = map_guard ExitPaidLane (if gw_status r < 400 then finish_key (ci_idem io) key (MethodKind ?m) x2
                 else fail_key (ci_idem io) key (MethodKind ?m) x2)"
      by (auto simp: paid_send_def Let_def split: option.splits if_splits)
    have "served 0 x x2"
      by (rule served_before [OF admitAndForward_served [OF x2 assms(2)]]) auto
    then show ?thesis unfolding x' by (rule served_after) auto
  qed
qed

lemma resolve_fields:
  "sguard (x_sess (fst (resolveUsernameChat sg reply body x))) = sguard (x_sess x)"
  "sAlias (x_sess (fst (resolveUsernameChat sg reply body x))) = sAlias (x_sess x)"
  "squeue (x_sess (fst (resolveUsernameChat sg reply body x))) = squeue (x_sess x)"
  "length (x_sent (fst (resolveUsernameChat sg reply body x))) = length (x_sent x) + (if looks_up body x then 1 else 0)"
  by (auto simp: resolveUsernameChat_def looks_up_def Let_def
      split: json.splits option.splits sum.splits if_splits)

lemma served_lookup:
  assumes "served 0 (fst (resolveUsernameChat sg reply body x)) x'"
  shows "served (if looks_up body x then 1 else 0) x x'"
  using assms by (auto simp: served_def resolve_fields)

lemma owned_answer_quiet:
  assumes "owned_answer sg io m body x = Some (x', r)"
  shows "x_sent x' = x_sent x \<and> sguard (x_sess x') = sguard (x_sess x) \<and> sAlias (x_sess x') = sAlias (x_sess x)"
  using assms by (auto simp: owned_answer_def internalGetUpdates_def Let_def split: if_splits option.splits)

lemma JsonCall_cases:
  assumes "Call sg limit io method body ct None key x = Some (x', r)"
  obtains (owned) x1 body1 where "resolveUsernameChat sg (ci_resolve io) body x = (x1, body1)"
      "to_lower method \<in> gatewayOwned" "owned_answer sg io (to_lower method) body1 x1 = Some (x', r)"
  | (replay) x1 body1 where "resolveUsernameChat sg (ci_resolve io) body x = (x1, body1)" "to_lower method \<notin> gatewayOwned"
      "claim_key (ci_idem io) key (MethodKind method) x1 = (x', Some r)"
  | (typing) x1 body1 x2 where "resolveUsernameChat sg (ci_resolve io) body x = (x1, body1)" "to_lower method \<notin> gatewayOwned"
      "claim_key (ci_idem io) key (MethodKind method) x1 = (x2, None)"
      "call_typing (to_lower method) (MethodKind method) (extractChatID body1) body1 x2 = (x', Some r)"
  | (send) x1 body1 x2 x3 where "resolveUsernameChat sg (ci_resolve io) body x = (x1, body1)" "to_lower method \<notin> gatewayOwned"
      "claim_key (ci_idem io) key (MethodKind method) x1 = (x2, None)"
      "call_typing (to_lower method) (MethodKind method) (extractChatID body1) body1 x2 = (x3, None)"
      "paid_send sg limit io method body1 key x3 = Some (x', r)"
proof -
  obtain x1 body1 where res: "resolveUsernameChat sg (ci_resolve io) body x = (x1, body1)"
    by (cases "resolveUsernameChat sg (ci_resolve io) body x")
  obtain x2 a where cl: "claim_key (ci_idem io) key (MethodKind method) x1 = (x2, a)"
    by (cases "claim_key (ci_idem io) key (MethodKind method) x1")
  obtain x3 b where ty: "call_typing (to_lower method) (MethodKind method) (extractChatID body1) body1 x2 = (x3, b)"
    by (cases "call_typing (to_lower method) (MethodKind method) (extractChatID body1) body1 x2")
  show thesis
    using assms res cl ty that
    by (cases "to_lower method \<in> gatewayOwned"; cases a; cases b) (auto simp: Call_def Let_def)
qed

lemma claim_key_quiet: "claim_key io key k x = (x', r) \<Longrightarrow> x_sess x' = x_sess x \<and> x_sent x' = x_sent x"
  using px_fields(5,6) [of io key k x] by simp

lemma call_typing_quiet:
  "call_typing m k c body x = (x', r) \<Longrightarrow> x_sess x' = x_sess x \<and> x_sent x' = x_sent x \<and> x_store x' = x_store x"
  using px_fields(10-12) [of m k c body x] by simp

text \<open>The JSON path: everything but the lookup of a user name has been admitted.\<close>

lemma Call_served:
  assumes "Call sg limit io method body ct rawBody key x = Some (x', r)" "script_ok (ci_admit io)"
  shows "served (if rawBody = None \<and> looks_up body x then 1 else 0) x x'"
proof (cases rawBody)
  case (Some raw)
  with assms(1) have "x' = fst (forwardRaw sg (ci_raw io) method raw ct x)"
    by (simp add: Call_def Let_def)
  with Some show ?thesis using forwardMultipart_served by (simp add: forwardRaw_def)
next
  case None
  have "served 0 (fst (resolveUsernameChat sg (ci_resolve io) body x)) x'"
    using assms(1) unfolding None
  proof (cases rule: JsonCall_cases)
    case (owned x1 body1)
    then show ?thesis using owned_answer_quiet [OF owned(3)] by (intro served_quiet) simp_all
  next
    case (replay x1 body1)
    then show ?thesis using claim_key_quiet [OF replay(3)] by (intro served_quiet) simp_all
  next
    case (typing x1 body1 x2)
    then show ?thesis using claim_key_quiet [OF typing(3)] call_typing_quiet [OF typing(4)]
      by (intro served_quiet) simp_all
  next
    case (send x1 body1 x2 x3)
    show ?thesis
      by (rule served_before [OF paid_send_served [OF send(5) assms(2)]])
        (use send claim_key_quiet [OF send(3)] call_typing_quiet [OF send(4)] in simp_all)
  qed
  from served_lookup [OF this] None show ?thesis by simp
qed

text \<open>
  The JSON path never forwards a method the gateway owns (\<^verbatim>\<open>getUpdates\<close>, \<^verbatim>\<open>setWebhook\<close>,
  \<^verbatim>\<open>deleteWebhook\<close>, \<^verbatim>\<open>logOut\<close>, \<^verbatim>\<open>close\<close>): whatever the body and the answers, nothing is sent but
  the lookup of a user name, and the rate guard is not charged.
\<close>

lemma owned_never_forwarded:
  assumes "to_lower method \<in> gatewayOwned" "\<not> looks_up body x"
    and "Call sg limit io method body ct None key x = Some (x', r)"
  shows "x_sent x' = x_sent x \<and> sguard (x_sess x') = sguard (x_sess x)"
proof -
  have "x_sent (fst (resolveUsernameChat sg (ci_resolve io) body x)) = x_sent x"
    using assms(2) by (auto simp: resolveUsernameChat_def looks_up_def split: json.split option.split)
  with assms(3) show ?thesis
  proof (cases rule: JsonCall_cases)
    case (owned x1 body1)
    then show ?thesis
      using owned_answer_quiet [OF owned(3)] resolve_fields(1) [of sg "ci_resolve io" body x]
        \<open>x_sent (fst (resolveUsernameChat sg (ci_resolve io) body x)) = x_sent x\<close> by simp
  qed (use assms(1) in simp_all)
qed

subsection \<open>A real 429, end to end\<close>

lemma chat_paused_ops:
  assumes "chat_paused P d g" "now < P"
  shows "chat_paused P d (fst (TryAcquire now t m c g))" "chat_paused P d (fst (WaitTime now t m c g))"
  using chat_paused_exec [OF assms(1), of "Acquire now t m c"] chat_paused_exec [OF assms(1), of "AskWait now t m c"]
    assms(2) by simp_all

lemma chat_paused_lane [simp]:
  "chat_paused P d (EnterPaidLane b g) = chat_paused P d g" "chat_paused P d (ExitPaidLane g) = chat_paused P d g"
  by (simp_all add: chat_paused_def EnterPaidLane_def ExitPaidLane_def)

text \<open>A script whose clocks stay below \<open>P\<close> and whose other goroutines leave the pause alone.\<close>

definition script_before :: "rat \<Rightarrow> int \<Rightarrow> admit_turn list \<Rightarrow> bool" where
  "script_before P d turns \<longleftrightarrow> (\<forall>a\<in>set turns. fst (ad_try a) < P \<and> fst (ad_wait a) < P \<and>
     (\<forall>f. ad_end a = Slept f \<longrightarrow> (\<forall>s. chat_paused P d (sguard s) \<longrightarrow> chat_paused P d (sguard (f s)))))"

lemma admit_paused:
  assumes "admit limit m (Some d) k turns waited s = Some (s', r)" "MethodKind m = Write"
    and "chat_paused P d (sguard s)" "script_before P d turns"
  shows "r \<noteq> None"
  using assms
proof (induction turns arbitrary: waited s)
  case Nil
  then show ?case by simp
next
  case (Cons a as)
  let ?T = "TryAcquire (fst (ad_try a)) (snd (ad_try a)) m (Some d) (sguard s)"
  have clk: "fst (ad_try a) < P" "fst (ad_wait a) < P" "script_before P d as"
    using Cons.prems(4) by (auto simp: script_before_def)
  have no: "\<not> snd ?T" by (rule chat_paused_refuses [OF Cons.prems(3) clk(1) Cons.prems(2)])
  let ?W = "WaitTime (fst (ad_wait a)) (snd (ad_wait a)) m (Some d) (fst ?T)"
  have p: "chat_paused P d (fst ?W)"
    by (intro chat_paused_ops Cons.prems(3) clk)
  show ?case
  proof (cases "ad_end a")
    case Gone
    with Cons.prems(1) no show ?thesis by (auto simp: case_prod_unfold Let_def split: if_splits)
  next
    case (Slept f)
    let ?s = "f (s\<lparr>sguard := fst ?W\<rparr>)"
    have "chat_paused P d (sguard ?s)" using Cons.prems(4) Slept p by (simp add: script_before_def)
    then have "r \<noteq> None" if "admit limit m (Some d) k as w ?s = Some (s', r)" for w
      using Cons.IH [OF that Cons.prems(2) _ clk(3)] by blast
    with Cons.prems(1) no Slept show ?thesis by (auto simp: case_prod_unfold Let_def split: if_splits)
  qed
qed

lemma no_lookup_with_chat:
  assumes "extractChatID body = Some d"
  shows "\<not> looks_up body x" "resolveUsernameChat sg reply body x = (x, body)"
proof -
  have "\<not> has_prefix cid ''@''" if "obj_get body ''chat_id'' = JStr cid" for cid
  proof
    assume at: "has_prefix cid ''@''"
    have "first_chat_field body = JStr cid" by (simp add: first_chat_field_def that truthyBool_def isFalseBool_def)
    with assms have "isNumeric cid" by (simp add: extractChatID_def split: if_splits)
    with at show False by (cases cid) (auto simp: isNumeric_def Let_def is_digit_def split: if_splits)
  qed
  then show "\<not> looks_up body x" "resolveUsernameChat sg reply body x = (x, body)"
    by (auto simp: looks_up_def resolveUsernameChat_def split: json.split)
qed

lemma admitAndForward_paused:
  assumes "admitAndForward sg limit turns io m method body (Some d) k x = Some (x', r)" "MethodKind m = Write"
    and "chat_paused P d (sguard (x_sess x))" "script_before P d turns"
  shows "x_sent x' = x_sent x"
  using assms(1) by (auto simp: admitAndForward_def split: option.splits dest!: admit_paused [OF _ assms(2-4)])

lemma Call_paused:
  fixes x :: "'k px"
  assumes "Call sg limit io method body ct None key x = Some (x', r)" "extractChatID body = Some d"
    and "MethodKind method = Write" "chat_paused P d (sguard (x_sess x))" "script_before P d (ci_admit io)"
  shows "x_sent x' = x_sent x"
proof -
  note look = no_lookup_with_chat(2) [OF assms(2), of sg "ci_resolve io" x]
  show ?thesis using assms(1)
proof (cases rule: JsonCall_cases)
  case (owned x1 body1)
  with owned_answer_quiet [OF owned(3)] look show ?thesis by auto
next
  case (replay x1 body1)
  with claim_key_quiet [OF replay(3)] look show ?thesis by auto
next
  case (typing x1 body1 x2)
  with claim_key_quiet [OF typing(3)] call_typing_quiet [OF typing(4)] look show ?thesis by auto
next
  case (send x1 body1 x2 x3)
  have x3: "x1 = x" "body1 = body" "x_sess x3 = x_sess x" "x_sent x3 = x_sent x"
    using send(1) claim_key_quiet [OF send(3)] call_typing_quiet [OF send(4)] look by auto
  let ?x4 = "map_guard (EnterPaidLane (truthy (obj_get body ''allow_paid_broadcast''))) x3"
  have "x_sent y = x_sent ?x4"
    if "admitAndForward sg limit (ci_admit io) (ci_fwd io) (to_lower method) method body (Some d) Write ?x4 = Some (y, q)" for y q
    by (rule admitAndForward_paused [OF that]) (use assms x3 in \<open>simp_all\<close>)
  with send(5) show ?thesis
    by (auto simp: x3 paid_send_def Let_def assms(2,3) split: option.splits if_splits)
qed
qed

text \<open>A raw answer of status 429 pauses the chat for the time Telegram gave.\<close>

lemma Call_learns:
  assumes "Call sg limit io method body ct None key x = Some (x', r)" "extractChatID body = Some d"
    and "isRaw r" "gw_status r = 429"
  shows "\<exists>resp. fw_reply (ci_fwd io) = Inr resp \<and>
    chat_paused (fst (fw_guard (ci_fwd io)) + retry_from sg (BodyJson resp)) d (sguard (x_sess x'))"
  using assms(1)
proof (cases rule: JsonCall_cases)
  case (owned x1 body1)
  then show ?thesis using assms(3)
    by (auto simp: owned_answer_def internalGetUpdates_def Let_def isRaw_def jsonResp_def withStatus_def
        split: if_splits option.splits)
next
  case (replay x1 body1)
  then show ?thesis using assms(3)
    by (auto simp: claim_key_def isRaw_def jsonResp_def Let_def case_prod_unfold split: if_splits)
next
  case (typing x1 body1 x2)
  then show ?thesis using assms(3)
    by (auto simp: call_typing_def isRaw_def jsonResp_def Let_def split: if_splits)
next
  case (send x1 body1 x2 x3)
  have b: "body1 = body" using send(1) no_lookup_with_chat(2) [OF assms(2), of sg "ci_resolve io" x] by auto
  have paused: "chat_paused (fst (fw_guard (ci_fwd io)) + retry_from sg (BodyJson resp)) d
      (sguard (x_sess (learn_429 sg (ci_fwd io) method (Some d) resp y)))" if "StatusCode resp = 429" for resp y
    using that by (simp add: learn_429_def Let_def chat_paused_def Report429_def case_prod_unfold chatTable_setChat)
  have "\<exists>resp. fw_reply (ci_fwd io) = Inr resp \<and>
      chat_paused (fst (fw_guard (ci_fwd io)) + retry_from sg (BodyJson resp)) d (sguard (x_sess y))"
    if "admitAndForward sg limit (ci_admit io) (ci_fwd io) (to_lower method) method body (Some d) k z = Some (y, r)"
      "isRaw r" "gw_status r = 429" for k y z
    using that paused admit_answer
    by (auto simp: admitAndForward_def Let_def rawResp_def isRaw_def upstream_error_def jsonResp_def
        split: option.splits sum.splits)
  with send(5) assms(3,4) show ?thesis
    by (auto simp: b paid_send_def Let_def assms(2) isRaw_def jsonResp_def split: option.splits if_splits)
qed


definition demo_forward :: "int \<Rightarrow> forward_io" where
  "demo_forward code = \<lparr>fw_reply = Inr \<lparr>StatusCode = code, Body = ''body'', BodyJson = None\<rparr>, fw_send = 0,
     fw_guard = (0, 0), fw_wall = 0, fw_ledger_ok = True, fw_at = 0\<rparr>"

definition demo_idem :: idem_io where
  "demo_idem = \<lparr>id_claim = \<lparr>claim_delete_ok = True, claim_insert_ok = True, claim_update_ok = True\<rparr>,
     id_now = 0, id_settle_ok = True, id_settle_now = 1\<rparr>"

definition demo_raw :: "int \<Rightarrow> raw_io" where
  "demo_raw code = \<lparr>rw_idem = demo_idem, rw_try = (0, 0), rw_wait = (0, 0), rw_fwd = demo_forward code\<rparr>"

definition demo_turn :: "rat \<Rightarrow> admit_turn" where
  "demo_turn t = \<lparr>ad_try = (t, t), ad_wait = (t, t), ad_end = Gone\<rparr>"

definition demo_call :: "int \<Rightarrow> rat \<Rightarrow> call_io" where
  "demo_call code t = \<lparr>ci_raw = demo_raw code, ci_resolve = Inl ''down'', ci_pull = (calm_ack, [Timeout]),
     ci_idem = demo_idem, ci_admit = [demo_turn t], ci_fwd = demo_forward code\<rparr>"

definition demo_px :: "string px" where
  "demo_px = \<lparr>x_sess = demo_session, x_store = new_gateway ''k'',
     x_typing = NewTypingManager (DefaultTyping (\<lambda>_. None) (\<lambda>_. None)), x_unresolved = 0, x_sent = []\<rparr>"

definition demo_body :: obj where
  "demo_body = [(''chat_id'', JInt 7), (''text'', JStr ''hi'')]"

lemma demo_body_chat [simp]: "extractChatID demo_body = Some 7"
  by (simp add: extractChatID_def first_chat_field_def demo_body_def obj_get_def truthyBool_def isFalseBool_def)

lemma demo_body_unpaid [simp]: "truthy (obj_get demo_body ''allow_paid_broadcast'') = False"
  by (simp add: demo_body_def obj_get_def truthy_def truthyBool_def)

lemma demo_resolve [simp]: "resolveUsernameChat sg reply demo_body x = (x, demo_body)"
  by (rule no_lookup_with_chat [OF demo_body_chat])

lemma sendMessage_facts [simp]:
  "to_lower ''sendMessage'' = ''sendmessage''" "MethodKind ''sendMessage'' = Write" "MethodKind ''sendmessage'' = Write"
  "''sendmessage'' \<notin> gatewayOwned"
  by code_simp+

lemma demo_admits:
  "snd (TryAcquire 0 0 ''sendmessage'' (Some 7) (EnterPaidLane False (sguard demo_session)))"
  by (simp add: demo_session_def TryAcquire_verdict write_admitted_def NewGuard_def EnterPaidLane_def TryTake_iff
      chat_bucket_at_def chatTable_def NewBucket_def Refill_def config_defs chat_rate_def chat_burst_def)

lemma demo_sends:
  "\<exists>x'. Call sg 30 (demo_call code 0) ''sendMessage'' demo_body ct None [] demo_px = Some (x', rawResp code ''body'')"
  using demo_admits
  by (simp add: Call_def claim_key_def idemActive_def call_typing_def Let_def paid_send_def admitAndForward_def
      demo_call_def demo_px_def demo_turn_def demo_forward_def map_guard_def case_prod_unfold)

text \<open>A refused request under the policy \<open>queue\<close> whose client gives up is answered.\<close>

lemma one_turn_returns:
  assumes "\<not> snd (TryAcquire t t m c (sguard s))"
  shows "\<exists>s' r. admit limit m c k [demo_turn t] 0 s = Some (s', Some r)"
  using assms by (auto simp: demo_turn_def case_prod_unfold Let_def)

lemma demo_refused:
  assumes "chat_paused P 7 (sguard (x_sess x))" "t < P"
  shows "\<exists>x' r. Call sg 30 (demo_call code t) ''sendMessage'' demo_body ct None [] x = Some (x', r)"
proof -
  let ?s = "(x_sess x)\<lparr>sguard := EnterPaidLane False (sguard (x_sess x))\<rparr>"
  have "\<not> snd (TryAcquire t t ''sendmessage'' (Some 7) (sguard ?s))"
    by (rule chat_paused_refuses [OF _ assms(2)]) (use assms(1) in simp_all)
  from one_turn_returns [OF this, of 30 Write] obtain s' r
    where "admit 30 ''sendmessage'' (Some 7) Write [demo_turn t] 0 ?s = Some (s', Some r)" by blast
  then show ?thesis
    by (simp del: admit.simps add: Call_def claim_key_def idemActive_def call_typing_def Let_def paid_send_def
        admitAndForward_def demo_call_def map_guard_def)
qed


end
