(* ===== verification/Proxy_Keys.thy ===== *)
theory Proxy_Keys
  imports Proxy_Pacing
begin

text \<open>
  What becomes of an idempotency key on the two paths that take one. The lemmas rest on the
  store's contract (\<open>gs\<close>, the interpretation of \<open>send_guard\<close> on the gateway store).
\<close>

lemma peek_RecordBackoff [simp]:
  "gateway_peek (RecordBackoff ok wall a c r st) = gateway_peek st"
  "gateway_ok (RecordBackoff ok wall a c r st) = gateway_ok st"
  by (simp_all add: RecordBackoff_def SaveBackoff_def gateway_peek_def gateway_ok_def fun_eq_iff)

lemma peek_learn_429 [simp]:
  "gateway_peek (x_store (learn_429 sg io m c resp x)) = gateway_peek (x_store x)"
  "gateway_ok (x_store (learn_429 sg io m c resp x)) = gateway_ok (x_store x)"
  by (simp_all add: learn_429_def Let_def)

lemma peek_resolve [simp]: "x_store (fst (resolveUsernameChat sg reply body x)) = x_store x"
  by (auto simp: resolveUsernameChat_def Let_def split: json.splits option.splits sum.splits)

lemma peek_admitAndForward:
  assumes "admitAndForward sg limit turns io m method body c k x = Some (x', r)"
  shows "gateway_peek (x_store x') = gateway_peek (x_store x)" "gateway_ok (x_store x') = gateway_ok (x_store x)"
  using assms by (auto simp: admitAndForward_def Let_def split: option.splits sum.splits if_splits)

lemma claim_granted_px:
  assumes "claim_key io key k x = (x', None)" "idemActive key k" "gateway_ok (x_store x)"
  shows "gateway_peek (x_store x') (sAlias (x_sess x)) key = Some (Pending, id_now io)" "gateway_ok (x_store x')"
  using assms gs.claim_granted [OF assms(3)] gs.ok_claim [OF assms(3)]
  by (auto simp: claim_key_def case_prod_unfold Let_def split: if_splits)

lemma settle_px:
  assumes "gateway_ok (x_store x)" "idemActive key k" "id_settle_ok io" "gateway_peek (x_store x) (sAlias (x_sess x)) key = Some (Pending, t)"
  shows "gateway_peek (x_store (finish_key io key k x)) (sAlias (x_sess x)) key = Some (Done, id_settle_now io)"
    and "gateway_peek (x_store (fail_key io key k x)) (sAlias (x_sess x)) key = None"
  using assms gs.finish_law [OF assms(1)] gs.fail_law [OF assms(1)]
  by (simp_all add: finish_key_def fail_key_def)

lemma paid_send_settles:
  assumes "paid_send sg limit io method body key x = Some (x', r)" "script_ok (ci_admit io)" "id_settle_ok (ci_idem io)"
    and "idemActive key (MethodKind method)" "gateway_ok (x_store x)"
    and "gateway_peek (x_store x) (sAlias (x_sess x)) key = Some (Pending, t)"
  shows "gateway_peek (x_store x') (sAlias (x_sess x)) key =
    (if gw_status r < 400 then Some (Done, id_settle_now (ci_idem io)) else None)"
proof -
  let ?m = "to_lower method" and ?paid = "truthy (obj_get body ''allow_paid_broadcast'')"
  let ?x1 = "map_guard (EnterPaidLane ?paid) x"
  show ?thesis
  proof (cases "?paid \<and> \<not> PaidBroadcasts (x_sess ?x1)")
    case True
    with assms(1) have "x' = map_guard ExitPaidLane (fail_key (ci_idem io) key (MethodKind ?m) ?x1)" "gw_status r = 403"
      by (auto simp: paid_send_def Let_def jsonResp_def)
    with settle_px(2) [where x = ?x1, OF _ assms(4,3)] assms(5,6) show ?thesis by simp
  next
    case False
    with assms(1) obtain x2 where x2: "admitAndForward sg limit (ci_admit io) (ci_fwd io) ?m method body (extractChatID body) (MethodKind ?m) ?x1 = Some (x2, r)"
      and x': "x' = map_guard ExitPaidLane (if gw_status r < 400 then finish_key (ci_idem io) key (MethodKind ?m) x2
                 else fail_key (ci_idem io) key (MethodKind ?m) x2)"
      by (auto simp: paid_send_def Let_def split: option.splits if_splits)
    have a: "sAlias (x_sess x2) = sAlias (x_sess x)"
      using admitAndForward_served [OF x2 assms(2)] by (simp add: served_def)
    have "gateway_ok (x_store x2)" "gateway_peek (x_store x2) (sAlias (x_sess x2)) key = Some (Pending, t)"
      using peek_admitAndForward [OF x2] assms(5,6) a by simp_all
    from settle_px [OF this(1) assms(4,3) this(2)] show ?thesis by (simp add: x' a)
  qed
qed


lemma demo_script: "script_ok (ci_admit (demo_call code t))"
  by (simp add: demo_call_def demo_turn_def)

lemma demo_store_ok: "gateway_ok (x_store demo_px)"
  by (simp add: demo_px_def gateway_ok_def new_gateway_def idem_inv_def)

lemma demo_claim: "\<exists>st. claim_key demo_idem ''k1'' Write demo_px = (demo_px\<lparr>x_store := st\<rparr>, None)"
  by (simp add: claim_key_def idemActive_def demo_px_def demo_idem_def IdempotencyClaim_def new_gateway_def idem_claim_def
      idem_delete_def)


text \<open>
  On the form path a refused write keeps its key: the request is answered with the gateway's own
  429, nothing has been sent, and yet a retry of the same form with the same key within 60 seconds
  is answered as a suppressed duplicate with status 200. The message is lost.
\<close>

lemma form_refusal_loses_message:
  assumes "claim_key (rw_idem io) key (MethodKind method) x = (x0, None)" "key \<noteq> []" "MethodKind method = Write"
    and "gateway_ok (x_store x)"
    and "\<not> snd (TryAcquire (fst (rw_try io)) (snd (rw_try io)) method c (sguard (x_sess x)))"
    and "CallRawWithChat sg io method raw ct c key x = (x1, r1)"
    and "CallRawWithChat sg io' method raw ct c key x1 = (x2, r2)" "id_now (rw_idem io') \<le> id_now (rw_idem io) + 60"
  shows "gw_status r1 = 429 \<and> gw_status r2 = 200 \<and> jsonBody r2 = replay_body \<and> x_sent x2 = x_sent x"
proof -
  have act: "idemActive key (MethodKind method)" using assms(2,3) by (simp add: idemActive_def)
  have x0: "x_sess x0 = x_sess x" "x_sent x0 = x_sent x" using claim_key_quiet [OF assms(1)] by simp_all
  note p0 = claim_granted_px [OF assms(1) act assms(4)]
  have T: "TryAcquire now t (to_lower method) c g = TryAcquire now t method c g" for now t g
    by (simp add: TryAcquire_def)
  have x1: "x_store x1 = x_store x0" "x_sent x1 = x_sent x" "sAlias (x_sess x1) = sAlias (x_sess x)" "gw_status r1 = 429"
    using assms(1,5,6) refuse_facts [where clk = "rw_wait io" and m = "to_lower method" and c = c]
    by (auto simp: CallRawWithChat_split raw_send_def Let_def case_prod_unfold T x0)
  have "claim_key (rw_idem io') key (MethodKind method) x1 = (fst (claim_key (rw_idem io') key (MethodKind method) x1), Some (jsonResp 200 replay_body))"
    using gs.claim_live [OF p0(2,1), of "id_now (rw_idem io')" "id_claim (rw_idem io')"] assms(8) act x1
    by (simp add: claim_key_def case_prod_unfold Let_def)
  with assms(7) have "r2 = jsonResp 200 replay_body" "x_sent x2 = x_sent x1"
    using px_fields(6) [of "rw_idem io'" key "MethodKind method" x1]
    by (auto simp: CallRawWithChat_split split: prod.splits dest: claim_key_quiet)
  with x1 show ?thesis by (simp add: jsonResp_def)
qed

definition busy_px :: "string px" where
  "busy_px = map_guard (Report429 0 0 (Some 7) 30) demo_px"

lemma form_refusal_loses_message_example:
  "\<exists>x1 r1 x2 r2. CallRawWithChat (\<lambda>_. None) (demo_raw 200) ''sendMessage'' ''chat_id=7'' [] (Some 7) ''k1'' busy_px = (x1, r1) \<and>
     CallRawWithChat (\<lambda>_. None) (demo_raw 200) ''sendMessage'' ''chat_id=7'' [] (Some 7) ''k1'' x1 = (x2, r2) \<and>
     gw_status r1 = 429 \<and> gw_status r2 = 200 \<and> x_sent x2 = x_sent busy_px"
proof -
  obtain st where k: "claim_key (rw_idem (demo_raw 200)) ''k1'' (MethodKind ''sendMessage'') busy_px = (busy_px\<lparr>x_store := st\<rparr>, None)"
    by (simp add: claim_key_def idemActive_def busy_px_def map_guard_def demo_px_def demo_raw_def demo_idem_def
        IdempotencyClaim_def new_gateway_def idem_claim_def idem_delete_def)
  have p: "chat_paused 30 7 (sguard (x_sess busy_px))"
    by (simp add: busy_px_def map_guard_def chat_paused_def Report429_def case_prod_unfold chatTable_setChat)
  have ok: "gateway_ok (x_store busy_px)" using demo_store_ok by (simp add: busy_px_def)
  have no: "\<not> snd (TryAcquire (fst (rw_try (demo_raw 200))) (snd (rw_try (demo_raw 200))) ''sendMessage'' (Some 7) (sguard (x_sess busy_px)))"
    by (rule chat_paused_refuses [OF p]) (simp_all add: demo_raw_def)
  obtain x1 r1 where c1: "CallRawWithChat (\<lambda>_. None) (demo_raw 200) ''sendMessage'' ''chat_id=7'' [] (Some 7) ''k1'' busy_px = (x1, r1)"
    by (rule prod.exhaust)
  obtain x2 r2 where c2: "CallRawWithChat (\<lambda>_. None) (demo_raw 200) ''sendMessage'' ''chat_id=7'' [] (Some 7) ''k1'' x1 = (x2, r2)"
    by (rule prod.exhaust)
  have "gw_status r1 = 429 \<and> gw_status r2 = 200 \<and> jsonBody r2 = replay_body \<and> x_sent x2 = x_sent busy_px"
    by (rule form_refusal_loses_message [OF k _ _ ok no c1 c2]) simp_all
  with c1 c2 show ?thesis by blast
qed

end
