(* ===== verification/Manager_Lifecycle.thy ===== *)
theory Manager_Lifecycle
  imports Manager Guard_Pacing
begin

text \<open>
  What the manager and its pollers guarantee: an update batch reaches the queue before the offset
  passes it, a pause learnt from Telegram survives a restart of the gateway, and what resuming a
  paused session does to its poller.
\<close>

subsection \<open>From the poll to the queue\<close>

definition ids_of :: "obj list \<Rightarrow> int set" where
  "ids_of us = {n. \<exists>u\<in>set us. toInt64 (obj_get u ''update_id'') = Some n}"

lemma ids_of_simps [simp]:
  "ids_of [] = {}"
  "ids_of (u # us) = set_option (toInt64 (obj_get u ''update_id'')) \<union> ids_of us"
  by (auto simp: ids_of_def)

lemma finite_ids_of [simp]: "finite (ids_of us)"
  by (induction us) auto

lemma identify_id: "toInt64 (obj_get u ''update_id'') = Some n \<Longrightarrow> fst (identify q u) = n"
  by (simp add: identify_def)

text \<open>Of the ids wanted so far, those not in the queue have been dropped, and counted.\<close>

lemma push_loop_missing:
  assumes "push_loop us q batch = Some (q', batch', r)" "overflow q \<noteq> ''reject_new''" "finite X"
  shows "int (card (X \<union> ids_of (map snd us) - seen q')) \<le> int (card (X - seen q)) + (dropped q' - dropped q)"
  using assms
proof (induction us q batch arbitrary: X rule: push_loop.induct)
  case (1 q batch)
  then show ?case by simp
next
  case (2 t u0 us q batch)
  obtain uid u where id: "identify q u0 = (uid, u)" by (cases "identify q u0")
  let ?Y = "X \<union> set_option (toInt64 (obj_get u0 ''update_id''))"
  have Y: "?Y \<subseteq> insert uid X" "finite ?Y" using identify_id [of u0 _ q] id "2.prems"(3) by auto
  have sum: "X \<union> ids_of (map snd ((t, u0) # us)) = ?Y \<union> ids_of (map snd us)" by auto
  consider (seen) "uid \<in> seen q" | (full) "uid \<notin> seen q" "int (length (items q)) \<ge> maxsize q"
    | (room) "uid \<notin> seen q" "int (length (items q)) < maxsize q" by linarith
  then show ?case
  proof cases
    case seen
    have "card (?Y - seen q) \<le> card (X - seen q)"
      by (rule card_mono) (use Y seen "2.prems"(3) in auto)
    with "2.IH"(1) [OF id [symmetric] refl seen _ "2.prems"(2) Y(2)] "2.prems"(1) id seen show ?thesis
      unfolding sum by simp
  next
    case full
    then obtain old rest where it: "items q = old # rest"
      using "2.prems"(1,2) id by (cases "items q") auto
    let ?q = "append_item t uid u (q\<lparr>items := rest, seen := seen q - {UpdateID old}, dropped := dropped q + 1\<rparr>)"
    have "card (?Y - seen ?q) \<le> card (insert (UpdateID old) (X - seen q))"
      by (rule card_mono) (use Y "2.prems"(3) in auto)
    also have "\<dots> \<le> card (X - seen q) + 1"
      using "2.prems"(3) by (simp add: card_insert_if)
    finally have c: "int (card (?Y - seen ?q)) \<le> int (card (X - seen q)) + 1" by simp
    have p: "push_loop us ?q (batch @ [(uid, u)]) = Some (q', batch', r)"
      using "2.prems"(1,2) full it id by simp
    have "int (card (?Y \<union> ids_of (map snd us) - seen q')) \<le> int (card (?Y - seen ?q)) + (dropped q' - dropped ?q)"
      by (rule "2.IH"(2) [OF id [symmetric] refl full(1) full(2) "2.prems"(2) it p _ Y(2)])
        (use "2.prems"(2) in \<open>simp add: append_item_def\<close>)
    with c show ?thesis unfolding sum by simp
  next
    case room
    let ?q = "append_item t uid u q"
    have c: "card (?Y - seen ?q) \<le> card (X - seen q)"
      by (rule card_mono) (use Y "2.prems"(3) in auto)
    have p: "push_loop us ?q (batch @ [(uid, u)]) = Some (q', batch', r)"
      using "2.prems"(1) room id by simp
    have "int (card (?Y \<union> ids_of (map snd us) - seen q')) \<le> int (card (?Y - seen ?q)) + (dropped q' - dropped ?q)"
      by (rule "2.IH"(3) [OF id [symmetric] refl room(1) _ p _ Y(2)])
        (use "2.prems"(2) room in \<open>simp_all add: append_item_def\<close>)
    with c show ?thesis unfolding sum by simp
  qed
qed

lemma PushAll_missing:
  assumes "PushAll io us q = Some (q', r)" "overflow q \<noteq> ''reject_new''"
  shows "int (card (ids_of (map snd us) - seen q')) \<le> dropped q' - dropped q"
proof -
  obtain q1 batch rej where l: "push_loop us (pruneExpired io q) [] = Some (q1, batch, rej)"
    using assms(1) by (auto simp: PushAll_def split: option.splits)
  have ov: "overflow (pruneExpired io q) = overflow q" "dropped (pruneExpired io q) = dropped q"
    by (simp_all add: pruneExpired_def case_prod_unfold Let_def)
  have "seen q' = seen q1" "dropped q' = dropped q1"
    using assms(1) l by (auto simp: PushAll_def Let_def signal_def split: if_splits)
  with push_loop_missing [OF l, of "{}"] assms(2) ov show ?thesis by simp
qed

lemma squeue_onUpdate: "squeue (fst (onUpdate eff clk u st)) = squeue (fst st)"
  by (simp add: onUpdate_def case_prod_unfold Let_def split: option.split)

lemma squeue_OnUpdates: "squeue (fst (OnUpdates us st)) = squeue (fst st)"
proof -
  have "squeue (fst (fold (\<lambda>(clk, u). onUpdate eff clk u) us st)) = squeue (fst st)" for eff
    by (induction us arbitrary: st) (simp_all add: case_prod_unfold squeue_onUpdate)
  then show ?thesis by (simp add: OnUpdates_def Let_def)
qed

lemma raise_offset_fold:
  "off \<le> fold (raise_offset sg) us off \<and>
   (\<forall>u\<in>set us. int64_of_float (numberOf sg (obj_get u ''update_id'')) \<le> fold (raise_offset sg) us off)"
proof (induction us arbitrary: off)
  case Nil
  then show ?case by simp
next
  case (Cons u us)
  have "off \<le> raise_offset sg u off" "int64_of_float (numberOf sg (obj_get u ''update_id'')) \<le> raise_offset sg u off"
    by (auto simp: raise_offset_def Let_def)
  with Cons.IH [of "raise_offset sg u off"] show ?case by auto
qed

definition telegram_update :: "obj \<Rightarrow> bool" where
  "telegram_update u \<longleftrightarrow> (\<exists>r. obj_get u ''update_id'' = JNum r)"

lemma telegram_update_id:
  assumes "telegram_update u"
  shows "toInt64 (obj_get u ''update_id'') = Some (int64_of_float (numberOf sg (obj_get u ''update_id'')))"
  using assms by (auto simp: telegram_update_def)

lemma telegram_update_go: "telegram_update u \<Longrightarrow> go_update u"
  by (auto simp: telegram_update_def go_int_def)

lemma poller_reply_PollOk:
  assumes "us \<noteq> []" "PushAll (po_push io) (zip (po_times io) us) (squeue s) = Some (q, res)"
  shows "\<exists>s' ty' out. poller_reply sg io c (PollOk us) p (s, store, ty) =
      Some (Some (p\<lparr>p_backoff := 1, p_offset := fold (raise_offset sg) us (p_offset p), p_phase := AtTop\<rparr>),
        (s', fst (SaveOffset (po_save_ok io) (sAlias s) (fold (raise_offset sg) us (p_offset p)) store), ty'), out) \<and>
      squeue s' = q"
proof -
  obtain u rest where us: "us = u # rest" using assms(1) by (cases us) auto
  have q: "squeue (fst (OnUpdates ts (s\<lparr>squeue := q\<rparr>, ty))) = q" for ts by (simp add: squeue_OnUpdates)
  show ?thesis using assms(2) q [of "zip (po_typing io) us"]
    by (simp add: poller_reply_def us Let_def case_prod_unfold)
qed

text \<open>
  C31. Nothing is skipped between Telegram and the consumers: after a batch, every update id of it is
  in the queue, except for at most as many as the queue's drop counter has grown by, and the
  offset of the next request (and the stored one, where the write succeeds) has passed them all and
  never goes back. The poller neither returns nor fails on the batch.
\<close>

theorem poll_batch_queued_or_counted:
  assumes "queue_inv (squeue s)" "overflow (squeue s) = ''drop_oldest''"
    and "us \<noteq> []" "\<forall>u\<in>set us. telegram_update u" "length (po_times io) = length us"
  shows "\<exists>p1 s1 store1 ty1 out.
    poller_reply sg io c (PollOk us) p (s, store, ty) = Some (Some p1, (s1, store1, ty1), out) \<and>
    int (card (ids_of us - seen (squeue s1))) \<le> dropped (squeue s1) - dropped (squeue s) \<and>
    (\<forall>n\<in>ids_of us. n \<le> p_offset p1) \<and> p_offset p \<le> p_offset p1 \<and>
    GetOffset (sAlias s) store1 \<in> {p_offset p1, GetOffset (sAlias s) store} \<and> queue_inv (squeue s1)"
proof -
  let ?us = "zip (po_times io) us" and ?off = "fold (raise_offset sg) us (p_offset p)"
  have snd_us: "map snd ?us = us" using assms(5) by simp
  have "\<forall>(t, u)\<in>set ?us. go_update u"
    using assms(4) by (auto dest!: set_zip_rightD intro: telegram_update_go)
  from PushAll_inv [OF assms(1) this, of "po_push io"]
  obtain q r where q: "PushAll (po_push io) ?us (squeue s) = Some (q, r)" "queue_inv q" by blast
  have miss: "int (card (ids_of us - seen q)) \<le> dropped q - dropped (squeue s)"
    using PushAll_missing [OF q(1)] assms(2) by (simp add: snd_us)
  have ids: "n \<le> ?off" if "n \<in> ids_of us" for n
    using that raise_offset_fold [of "p_offset p" sg us] assms(4)
    by (force simp: ids_of_def telegram_update_id [where sg = sg])
  have "GetOffset (sAlias s) (fst (SaveOffset (po_save_ok io) (sAlias s) ?off store)) \<in> {?off, GetOffset (sAlias s) store}"
    using SaveOffset_law [of "sAlias s" "sAlias s" ?off store]
    by (cases "po_save_ok io") (auto simp: SaveOffset_def)
  moreover obtain s1 ty1 out where "poller_reply sg io c (PollOk us) p (s, store, ty) =
      Some (Some (p\<lparr>p_backoff := 1, p_offset := ?off, p_phase := AtTop\<rparr>),
        (s1, fst (SaveOffset (po_save_ok io) (sAlias s) ?off store), ty1), out)" "squeue s1 = q"
    using poller_reply_PollOk [OF assms(3) q(1)] by blast
  ultimately show ?thesis
    using miss ids raise_offset_fold [of "p_offset p" sg us] q(2) by (intro exI conjI ballI) auto
qed

definition demo_poll :: poll_io where
  "demo_poll = \<lparr>po_push = calm_push, po_times = [0, 0], po_save_ok = True, po_guard = (0, 0), po_wall = 0,
     po_ledger_ok = True, po_typing = [(0, 0, 0), (0, 0, 0)]\<rparr>"

definition demo_poller :: poller where
  "demo_poller = \<lparr>p_ctx = 0, p_sess = 0, p_offset = 0, p_backoff = 1, p_phase = InFlight\<rparr>"

theorem poll_batch_queued_or_counted_witness:
  "\<exists>p1 s1 store1 ty1 out.
    poller_reply (\<lambda>_. None) demo_poll False (PollOk [upd 5, upd 7]) demo_poller
      (demo_session, new_gateway ''k'', NewTypingManager (DefaultTyping (\<lambda>_. None) (\<lambda>_. None))) =
      Some (Some p1, (s1, store1, ty1), out) \<and> (\<forall>n\<in>ids_of [upd 5, upd 7]. n \<le> p_offset p1)"
proof -
  have "queue_inv (squeue demo_session)" "overflow (squeue demo_session) = ''drop_oldest''"
    by (simp_all add: demo_session_def demo_queue_def queue_inv_def int64_def)
  moreover have "\<forall>u\<in>set [upd 5, upd 7]. telegram_update u" by (simp add: telegram_update_def)
  moreover have "length (po_times demo_poll) = length [upd 5, upd 7]" by (simp add: demo_poll_def)
  ultimately show ?thesis
    using poll_batch_queued_or_counted [where s = demo_session and us = "[upd 5, upd 7]" and io = demo_poll
        and sg = "\<lambda>_. None" and c = False and p = demo_poller and store = "new_gateway ''k''"
        and ty = "NewTypingManager (DefaultTyping (\<lambda>_. None) (\<lambda>_. None))"]
    by blast
qed

subsection \<open>Pauses across a restart\<close>

lemma chat_paused_restore_row:
  assumes "chat_paused P d g" "rb_mono io < P"
  shows "chat_paused P d (restore_row io r g)"
  using chat_paused_exec [OF assms(1), of "Restore (rb_mono io) (rb_second io) (if fst r = 0 then None else Some (fst r)) (snd r - rb_wall io)"]
    assms(2) by (simp add: restore_row_def)

lemma restore_row_pauses:
  assumes "d \<noteq> 0" "rb_wall io < u"
  shows "chat_paused (rb_mono io + (u - rb_wall io)) d (restore_row io (d, u) g)"
  using assms
  by (simp add: restore_row_def RestoreBackoff_def chat_paused_def Report429_def case_prod_unfold chatTable_setChat)

lemma restore_rows_pause:
  assumes "(d, u) \<in> set rows" "d \<noteq> 0" "rb_wall io < u"
  shows "chat_paused (rb_mono io + (u - rb_wall io)) d (fold (restore_row io) rows g)"
proof -
  have keep: "chat_paused P d (fold (restore_row io) rs h)"
    if "chat_paused P d h" "rb_mono io < P" for P rs h
    using that by (induction rs arbitrary: h) (auto intro: chat_paused_restore_row)
  obtain before rest where rows: "rows = before @ (d, u) # rest" using assms(1) by (meson split_list)
  show ?thesis
    unfolding rows fold_append fold_simps comp_apply
    by (rule keep [OF restore_row_pauses]) (use assms in auto)
qed

text \<open>What the ledger holds after later records for other chats.\<close>

definition record_all :: "(rat \<times> string \<times> int option \<times> rat) list \<Rightarrow> 'k gateway \<Rightarrow> 'k gateway" where
  "record_all rs st = fold (\<lambda>(w, a, c, r). RecordBackoff True w a c r) rs st"

lemma map_of_record_all:
  assumes "\<forall>(w, a, c, r)\<in>set rs. (a, backoff_row c) \<noteq> k"
  shows "map_of (chat_backoff (record_all rs st)) k = map_of (chat_backoff st) k"
  using assms
  by (induction rs arbitrary: st)
    (auto simp: record_all_def RecordBackoff_def SaveBackoff_def update_conv')

lemma LoadBackoffs_row:
  assumes "map_of (chat_backoff st) (a, d) = Some u" "prune < u"
  shows "(d, u) \<in> set (snd (LoadBackoffs del True prune a st))"
  using map_of_SomeD [OF assms(1)] assms(2) by (force simp: LoadBackoffs_def Let_def)

text \<open>
  A pause learnt from a real 429 survives a restart: when the gateway recorded a retry time for
  a chat and restarts before it is over, whatever it recorded for other chats and bots in between,
  the guard of the new session admits no write to the chat before the recorded time (seen from the
  clock of the new process), whatever requests it gets.
\<close>

lemma backoff_survives_restart:
  assumes "d \<noteq> 0" "rb_wall io < wall + r" "rb_prune io < wall + r" "rb_query_ok io"
    and "\<forall>(w, a, c, x)\<in>set rs. (a, backoff_row c) \<noteq> (alias, d)"
    and "\<forall>e\<in>set es. \<forall>t. entry_clock e = Some t \<longrightarrow> t < rb_mono io + (wall + r - rb_wall io)"
  shows "admitted (chat_step d)
    (snd (restoreBackoffs io alias (record_all rs (RecordBackoff True wall alias (Some d) r st)) g)) es = 0"
proof (rule chat_paused_run [OF _ assms(6)])
  let ?st = "record_all rs (RecordBackoff True wall alias (Some d) r st)"
  have "map_of (chat_backoff ?st) (alias, d) = Some (wall + r)"
    unfolding map_of_record_all [OF assms(5)]
    by (simp add: RecordBackoff_def SaveBackoff_def backoff_row_def update_conv')
  from LoadBackoffs_row [OF this assms(3), of "rb_delete_ok io"] assms(4)
  have "(d, wall + r) \<in> set (snd (LoadBackoffs (rb_delete_ok io) (rb_query_ok io) (rb_prune io) alias ?st))" by simp
  from restore_rows_pause [OF this assms(1,2)]
  show "chat_paused (rb_mono io + (wall + r - rb_wall io)) d (snd (restoreBackoffs io alias ?st g))"
    by (simp add: restoreBackoffs_def case_prod_unfold Let_def)
qed

subsection \<open>Pausing and resuming\<close>

lemma map_of_sess_modify [simp]:
  "map_of (sess (sess_modify i f m)) j = map_option (\<lambda>s. if j = i then f s else s) (map_of (sess m) j)"
proof -
  have "map_of (map (\<lambda>(j, s). (j, if j = i then f s else s)) xs) j =
      map_option (\<lambda>s. if j = i then f s else s) (map_of xs j)" for xs
    by (induction xs) auto
  then show ?thesis by (simp add: sess_modify_def)
qed

lemma sess_modify_fields [simp]:
  "m_sessions (sess_modify i f m) = m_sessions m" "pollers (sess_modify i f m) = pollers m"
  "done_ctx (sess_modify i f m) = done_ctx m"
  by (simp_all add: sess_modify_def)

lemma cancel_ctx_fields [simp]:
  "m_sessions (cancel_ctx c m) = m_sessions m" "pollers (cancel_ctx c m) = pollers m"
  "sess (cancel_ctx c m) = sess m" "done_ctx (cancel_ctx c m) = (case c of None \<Rightarrow> [] | Some i \<Rightarrow> [i]) @ done_ctx m"
  by (simp_all add: cancel_ctx_def split: option.split)

lemma Get_iff: "Get alias m = Some (i, s) \<longleftrightarrow> map_of (m_sessions m) alias = Some i \<and> map_of (sess m) i = Some s"
  by (auto simp: Get_def split: option.splits)

text \<open>
  Resuming does not bring a paused bot back: \<open>Pause\<close> cancels the poller but keeps its cancel
  function, and \<open>Resume\<close> starts a poller only where there is none. So after a pause and a resume
  the session reports \<open>Live\<close> while every poller of it is cancelled and will return.
\<close>

lemma resume_leaves_no_poller:
  assumes "Get alias m = Some (i, s)" "pollCancel s = Some c"
    and "\<forall>p\<in>set (pollers m). p_sess p = i \<longrightarrow> p_ctx p = c"
  shows "\<exists>s'. Get alias (fst (Resume ok' alias (fst (Manager_Pause ok alias m)))) = Some (i, s') \<and> sstate s' = Live \<and>
    (\<forall>p\<in>set (pollers (fst (Resume ok' alias (fst (Manager_Pause ok alias m))))). p_sess p = i \<longrightarrow>
       p_ctx p \<in> set (done_ctx (fst (Resume ok' alias (fst (Manager_Pause ok alias m))))) \<and> poller_top True p s' = None)"
proof -
  let ?m = "fst (Manager_Pause ok alias m)"
  have m: "Get alias ?m = Some (i, setState PausedState s)" "pollers ?m = pollers m" "c \<in> set (done_ctx ?m)"
    using assms(1,2) by (simp_all add: Manager_Pause_def Let_def) (simp add: Get_iff)
  then have "fst (Resume ok' alias ?m) = sess_modify i (setState Live) (?m\<lparr>m_store := fst (SetPaused ok' alias False (m_store ?m))\<rparr>)"
    using assms(2) by (simp add: Resume_def Let_def setState_def)
  with m assms(3) show ?thesis by (auto simp: Get_iff setState_def poller_top_def)
qed

definition demo_manager :: "string manager" where
  "demo_manager = (NewManager (BotAPIFromEnv (\<lambda>_. None) (\<lambda>_. None)) (new_gateway ''k'') NewStorage)
     \<lparr>sess := [(0, demo_session\<lparr>pollCancel := Some 4\<rparr>)], m_sessions := [(''b1'', 0)],
      pollers := [demo_poller\<lparr>p_ctx := 4\<rparr>]\<rparr>"

end
