(* ===== verification/App_Safety.thy ===== *)
theory App_Safety
  imports BotAdmin Proxy_Keys Manager_Lifecycle
begin

text \<open>
  Properties of the Bot API plane as a whole: the operator's surface is closed without the secret,
  consumer traffic reaches Telegram only through the rate guard, a crash loop connects nothing,
  and what the hourly maintenance does to the readiness probe.
\<close>

subsection \<open>The operator's surface\<close>

datatype 'k admin_op =
  ARegister "'k attach_io" audit_io "int list" "register_body option"
| AStatus "string \<Rightarrow> rat \<times> int \<times> rat \<times> rat"
| APause bool audit_io string
| AResume bool audit_io string
| ADrain audit_io string
| ADelete bool audit_io string
| ASetPush audit_io string "string option"
| ASetPaid audit_io string bool
| ASetBotTyping "rat \<Rightarrow> string" audit_io string "TypingPatch option"
| AGetTyping
| ASetTyping "rat \<Rightarrow> string" audit_io "TypingPatch option"
| AAckSafeMode "'k restore_all_io" audit_io
| AAudit bool

fun admin_exec :: "'k admin_op \<Rightarrow> http_req \<Rightarrow> 'k app \<Rightarrow> 'k app \<times> reply" where
  "admin_exec (ARegister io aio ts b) r a = adminRegister io aio ts b r a"
| "admin_exec (AStatus clk) r a = adminStatus clk r a"
| "admin_exec (APause ok io alias) r a = adminPause ok io alias r a"
| "admin_exec (AResume ok io alias) r a = adminResume ok io alias r a"
| "admin_exec (ADrain io alias) r a = adminDrain io alias r a"
| "admin_exec (ADelete ok io alias) r a = adminDelete ok io alias r a"
| "admin_exec (ASetPush io alias u) r a = adminSetPush io alias u r a"
| "admin_exec (ASetPaid io alias b) r a = adminSetPaid io alias b r a"
| "admin_exec (ASetBotTyping fv io alias p) r a = adminSetBotTyping fv io alias p r a"
| "admin_exec AGetTyping r a = adminGetTypingSettings r a"
| "admin_exec (ASetTyping fv io p) r a = adminSetTypingSettings fv io p r a"
| "admin_exec (AAckSafeMode io aio) r a = adminSafeModeAck io aio r a"
| "admin_exec (AAudit ok) r a = adminAudit ok r a"

lemmas admin_defs = adminRegister_def adminStatus_def adminPause_def adminResume_def adminDrain_def adminDelete_def
  adminSetPush_def adminSetPaid_def adminSetBotTyping_def adminGetTypingSettings_def adminSetTypingSettings_def
  adminSafeModeAck_def adminAudit_def

lemma bearerOK_iff:
  "bearerOK header secret \<longleftrightarrow> (if has_prefix header ''Bearer '' then header = ''Bearer '' @ secret else header = secret)"
proof -
  have "bearerOK header secret \<longleftrightarrow> trim_prefix header ''Bearer '' = secret" by (auto simp: bearerOK_def Let_def)
  then show ?thesis by (simp only: trim_prefix_eq_iff)
qed

text \<open>The consumer's table holds no handler of the operator when the listeners are split.\<close>

definition public_handler :: "handler \<Rightarrow> bool" where
  "public_handler h \<longleftrightarrow> h \<in> {TGAPIPost, TGAPIGet, ByAlias, FileRoute, Healthz, Readyz}"


definition demo_cfg :: BotAPI where
  "demo_cfg = (BotAPIFromEnv (\<lambda>_. None) (\<lambda>_. None))\<lparr>baAdminSecret := ''s3cret'', baAppSecret := ''app'', baAdminPort := 9000\<rparr>"

definition demo_app :: "string app" where
  "demo_app = \<lparr>a_cfg = demo_cfg, a_mgr = demo_manager, a_beat = NewBeat 0, a_boot = \<lparr>WindowS = 0, MaxBoots = 0\<rparr>,
     a_boot_file = None, SafeMode = False, a_unresolved = 0, a_sent = [], a_closed = False\<rparr>"

definition demo_req :: http_req where
  "demo_req = \<lparr>rq_path = ''/admin/bots/b1/drain'', rq_auth = ''Bearer guess'', rq_ctype = [], rq_length = 0, rq_body = [],
     rq_json = None, rq_idem = [], rq_query = []\<rparr>"

lemma demo_cfg_valid: "BotAPI_Validate demo_cfg = None"
  by (simp add: BotAPI_Validate_None_iff demo_cfg_def validatePolicyStorage_None_iff config_defs)


subsection \<open>Consumer traffic\<close>

lemma map_of_put_session:
  assumes "map_of (sess m) i \<noteq> None"
  shows "\<exists>s'. map_of (sess (put_session i s m)) i = Some s' \<and> sguard s' = sguard s \<and> sAlias s' = sAlias s"
proof -
  have mm: "map_of (map (\<lambda>(j, x). (j, x\<lparr>squeue := (squeue x)\<lparr>qhealth := h\<rparr>\<rparr>)) xs) i =
      map_option (\<lambda>x. x\<lparr>squeue := (squeue x)\<lparr>qhealth := h\<rparr>\<rparr>) (map_of xs i)" for xs h
    by (induction xs) auto
  show ?thesis using assms by (auto simp: put_session_def Let_def mm split: option.split)
qed

lemma px_back_fields [simp]: "a_sent (px_back i x a) = x_sent x" "a_cfg (px_back i x a) = a_cfg a"
  by (simp_all add: px_back_def)

definition route_ok :: "route_io \<Rightarrow> bool" where
  "route_ok io \<longleftrightarrow> script_ok (ci_admit (ri_call io))"

text \<open>A body whose chat is no user name, so that nothing is looked up.\<close>

definition plain_body :: "obj \<Rightarrow> bool" where
  "plain_body b \<longleftrightarrow> (\<forall>cid. obj_get b ''chat_id'' = JStr cid \<longrightarrow> \<not> has_prefix cid ''@'')"

definition plain_request :: "http_req \<Rightarrow> bool" where
  "plain_request r \<longleftrightarrow> plain_body (parseFormBody (rq_body r)) \<and> (case rq_json r of None \<Rightarrow> True | Some b \<Rightarrow> plain_body b)"

lemma plain_no_lookup: "plain_body b \<Longrightarrow> \<not> looks_up b x"
  by (auto simp: plain_body_def looks_up_def)

lemma plain_empty [simp]: "plain_body []"
  by (simp add: plain_body_def obj_get_def)

text \<open>One request: \<open>n\<close> requests went upstream and the guard admitted at least as many.\<close>

definition metered_step :: "nat \<Rightarrow> 'k app \<Rightarrow> 'k app \<Rightarrow> bool" where
  "metered_step i a a' \<longleftrightarrow> (\<forall>s. map_of (sess (a_mgr a)) i = Some s \<longrightarrow>
     (\<exists>s'. map_of (sess (a_mgr a')) i = Some s' \<and> length (a_sent a) \<le> length (a_sent a') \<and>
        paced (length (a_sent a') - length (a_sent a)) (sguard s) (sguard s')))"

lemma metered_refl [simp]: "metered_step i a a"
  by (auto simp: metered_step_def)

lemma metered_trans:
  assumes "metered_step i a b" "metered_step i b c"
  shows "metered_step i a c"
  unfolding metered_step_def
proof (intro allI impI)
  fix s assume "map_of (sess (a_mgr a)) i = Some s"
  with assms obtain s1 s2 where
    1: "map_of (sess (a_mgr b)) i = Some s1" "length (a_sent a) \<le> length (a_sent b)"
       "paced (length (a_sent b) - length (a_sent a)) (sguard s) (sguard s1)"
    and 2: "map_of (sess (a_mgr c)) i = Some s2" "length (a_sent b) \<le> length (a_sent c)"
       "paced (length (a_sent c) - length (a_sent b)) (sguard s1) (sguard s2)"
    unfolding metered_step_def by metis
  have "paced (length (a_sent c) - length (a_sent a)) (sguard s) (sguard s2)"
    using paced_trans [OF 1(3) 2(3)] 1(2) 2(2) by simp
  with 1 2 show "\<exists>s'. map_of (sess (a_mgr c)) i = Some s' \<and> length (a_sent a) \<le> length (a_sent c) \<and>
      paced (length (a_sent c) - length (a_sent a)) (sguard s) (sguard s')" by auto
qed

lemma served_metered:
  assumes "map_of (sess (a_mgr a)) i = Some s" "served 0 (px_of s a) x'"
  shows "metered_step i a (px_back i x' a)"
proof -
  have "map_of (sess ((a_mgr a)\<lparr>m_store := x_store x', m_typing := x_typing x'\<rparr>)) i \<noteq> None" using assms(1) by simp
  from map_of_put_session [OF this, of "x_sess x'"] assms show ?thesis
    by (auto simp: metered_step_def px_back_def served_def px_of_def)
qed

lemma callRoute_metered:
  assumes "callRoute sg io r i s method a = Some (a', rep)" "map_of (sess (a_mgr a)) i = Some s" "route_ok io" "plain_request r"
  shows "metered_step i a a'"
proof -
  have call: "metered_step i a (px_back i x' a)"
    if "Call sg limit (ri_call io) method body ct rb key (px_of s a) = Some (x', q)" "plain_body body"
    for limit body ct rb key x' q
    using Call_served [OF that(1)] assms(2,3) plain_no_lookup [OF that(2), of "px_of s a"]
    by (intro served_metered) (simp_all add: route_ok_def)
  have body: "plain_body (case rq_json r of None \<Rightarrow> [] | Some b \<Rightarrow> b)" "plain_body (parseFormBody (rq_body r))"
    using assms(4) by (simp_all add: plain_request_def split: option.splits)
  have fwd: "metered_step i a (px_back i (fst (ForwardStream sg (ri_raw io) method p q n ct (px_of s a))) a)" for p q n ct
    by (rule served_metered [OF assms(2)]) (simp add: ForwardStream_def forwardMultipart_served)
  have raw: "metered_step i a (px_back i (fst (CallRawWithChat sg (ri_raw io) method b ct c key (px_of s a))) a)" for b ct c key
    by (rule served_metered [OF assms(2) CallRawWithChat_served])
  show ?thesis
    using assms(1) call fwd raw body
    by (auto simp: callRoute_def Let_def answer_def split: if_splits)
qed

text \<open>Requests of consumers to one session, one after the other.\<close>

record consumer_request =
  cr_io :: route_io
  cr_req :: http_req
  cr_method :: string

fun traffic :: "(string \<Rightarrow> rat option) \<Rightarrow> nat \<Rightarrow> consumer_request list \<Rightarrow> 'k app \<Rightarrow> 'k app option" where
  "traffic sg i [] a = Some a"
| "traffic sg i (c # cs) a =
     (case map_of (sess (a_mgr a)) i of
        None \<Rightarrow> None
      | Some s \<Rightarrow>
          (case callRoute sg (cr_io c) (cr_req c) i s (cr_method c) a of
             None \<Rightarrow> None
           | Some (a', rep) \<Rightarrow> traffic sg i cs a'))"


definition json_request :: http_req where
  "json_request = demo_req\<lparr>rq_body := ''{}'', rq_json := Some demo_body\<rparr>"


subsection \<open>Crash loops\<close>

text \<open>
  C36. In a crash loop nothing connects: when the boot count exceeds the limit, the new process has no
  session and no poller, sends nothing, leaves the store as it was and reports not ready; the
  operator's acknowledgement clears the boot history, so that the next boot is a normal one.
\<close>

theorem crash_loop_connects_nothing:
  assumes "fst (snd (RecordBoot (bo_now io) (bo_write_ok io) \<lparr>WindowS = 0, MaxBoots = 0\<rparr> file))"
  shows "\<exists>a bad. NewApp io cfg (Inr st) file now = Inr (a, bad) \<and> m_sessions (a_mgr a) = [] \<and> pollers (a_mgr a) = [] \<and>
    a_sent a = [] \<and> m_store (a_mgr a) = st \<and> reply_status (handleReadyz None None a) = 503 \<and>
    (\<forall>rio aio r now' ok. adminAuthed r a \<longrightarrow>
       (let a' = fst (adminSafeModeAck rio aio r a) in
        \<not> SafeMode a' \<and> \<not> fst (snd (RecordBoot now' ok (a_boot a') (a_boot_file a')))))"
proof -
  let ?a = "\<lparr>a_cfg = cfg, a_mgr = NewManager cfg st NewStorage, a_beat = NewBeat now,
    a_boot = fst (fst (RecordBoot (bo_now io) (bo_write_ok io) \<lparr>WindowS = 0, MaxBoots = 0\<rparr> file)),
    a_boot_file = snd (fst (RecordBoot (bo_now io) (bo_write_ok io) \<lparr>WindowS = 0, MaxBoots = 0\<rparr> file)),
    SafeMode = True, a_unresolved = 0, a_sent = [], a_closed = False\<rparr>"
  have "\<exists>bad. NewApp io cfg (Inr st) file now = Inr (?a, bad)"
    using assms by (simp add: NewApp_def buildLifecycle_def case_prod_unfold Let_def)
  moreover have "reply_status (handleReadyz None None ?a) = 503"
    by (simp add: handleReadyz_def reply_status_def)
  moreover have "\<not> SafeMode (fst (adminSafeModeAck rio aio r ?a)) \<and>
      \<not> fst (snd (RecordBoot now' ok (a_boot (fst (adminSafeModeAck rio aio r ?a))) (a_boot_file (fst (adminSafeModeAck rio aio r ?a)))))"
    if "adminAuthed r ?a" for rio aio r now' ok
    using that
    by (simp add: adminSafeModeAck_def with_admin_def restore_app_def audit_def on_mgr_def case_prod_unfold Let_def
        RecordBoot_def BootTracker_Clear_def boot_defaults_def keep_last_def)
  ultimately show ?thesis by (auto simp: NewManager_def Let_def)
qed

definition six_boots :: "rat list" where
  "six_boots = [100, 101, 102, 103, 104, 105]"

definition demo_boot :: "string boot_io" where
  "demo_boot = \<lparr>bo_now = 106000000000, bo_write_ok = True,
     bo_restore = \<lparr>ra_lib = tag_fernet, ra_list_ok = True, ra_attach = (\<lambda>_. undefined)\<rparr>\<rparr>"

lemma six_boots_safe: "fst (snd (RecordBoot 106000000000 True \<lparr>WindowS = 0, MaxBoots = 0\<rparr> (Some six_boots)))"
proof -
  have "boot_recent 106000000000 600 b" if "b \<in> set six_boots" for b
    using that by (auto simp: six_boots_def boot_recent_def dur_sub_def int64_of_float_def trunc_rat_def int64_def)
  then have "filter (boot_recent 106000000000 600) six_boots = six_boots" by (intro filter_True) blast
  then show ?thesis by (simp add: RecordBoot_def boot_defaults_def keep_last_def six_boots_def Let_def)
qed

theorem crash_loop_connects_nothing_witness:
  "\<exists>a bad. NewApp demo_boot demo_cfg (Inr (new_gateway ''k'')) (Some six_boots) 0 = Inr (a, bad) \<and>
     pollers (a_mgr a) = [] \<and> reply_status (handleReadyz None None a) = 503"
  using crash_loop_connects_nothing [of demo_boot "Some six_boots" demo_cfg "new_gateway ''k''" 0] six_boots_safe
  by (auto simp: demo_boot_def)

subsection \<open>Maintenance and readiness\<close>

lemma joinSorted_nonempty:
  assumes "x \<in> set m" "x \<noteq> []"
  shows "joinSorted m \<noteq> []"
proof
  assume e: "joinSorted m = []"
  have "set (sortStrings m) = set m" by (simp add: sortStrings_eq_sort)
  with e assms show False
    by (cases "sortStrings m") (auto simp: joinSorted_def split: if_splits)
qed

lemma reasons_mono: "x \<in> set (reasons h) \<Longrightarrow> x \<in> set (reasons (fold storage_exec es h))"
  using storage_run_reasons(1) [of es h] by blast

lemma maintain_one_events: "\<exists>es. maintain_one io f ret path h = fold storage_exec es h"
proof -
  have "\<exists>es. h = fold storage_exec es h" "\<exists>es. NotePersistFailure w e h = fold storage_exec es h"
    "\<exists>es. NotePersistFailure w e (NotePersistFailure w' e' h) = fold storage_exec es h" for w e w' e'
    by (rule exI [of _ "[]"], simp) (rule exI [of _ "[PersistFailed w e]"], simp,
        rule exI [of _ "[PersistFailed w' e', PersistFailed w e]"], simp)
  then show ?thesis by (auto simp: maintain_one_def Let_def split: option.split)
qed

lemma maintain_keeps_reason:
  "x \<in> set (reasons h) \<Longrightarrow> x \<in> set (reasons (fold (maintain_one io f ret) ps h))"
proof (induction ps arbitrary: h)
  case (Cons p ps)
  obtain es where "maintain_one io f ret p h = fold storage_exec es h" using maintain_one_events by blast
  with Cons reasons_mono show ?case by simp
qed simp

text \<open>The reason that a failing retention statement leaves.\<close>

lemma maintain_one_retention:
  assumes "map_of f path \<noteq> None" "open_ok (io path)" "retention_err (io path) = Some e"
  shows "''persist:maintenance:'' @ filepathBase path \<in> set (reasons (maintain_one io f True path h))"
  using assms by (auto simp: maintain_one_def Let_def NotePersistFailure_def note_reason_def split: option.split)

text \<open>
  Maintenance spoils readiness: the pass runs the audit-retention statement on every database file,
  also on the queue's, which has no audit table. Where that statement fails, the pass leaves the
  storage degraded, the readiness probe answers 503, and no later storage event ever clears it.
\<close>

lemma maintenance_degrades_forever:
  assumes "app_maintenance io vac stamp now path (a, f) = Some (a', f')"
    and "map_of f (baDataDir (a_cfg a) @ ''/queue.db'') \<noteq> None" "open_ok (io (baDataDir (a_cfg a) @ ''/queue.db''))"
    and "retention_err (io (baDataDir (a_cfg a) @ ''/queue.db'')) = Some err"
  shows "reply_status (handleReadyz None None a') = 503 \<and> Degraded (fold storage_exec es (m_health (a_mgr a'))) \<noteq> []"
proof -
  let ?p = "baDataDir (a_cfg a) @ ''/queue.db''" and ?x = "''persist:maintenance:'' @ filepathBase (baDataDir (a_cfg a) @ ''/queue.db'')"
  let ?h = "fold (maintain_one io f True) [path, ?p] (m_health (a_mgr a))"
  have h: "?x \<in> set (reasons ?h)"
    using maintain_one_retention [where io = io and f = f and path = ?p, OF assms(2-4)] by simp
  have a': "m_health (a_mgr a') = NoteMaintenanceDone now ?h"
    using assms(1) by (auto simp: app_maintenance_def MaintenancePass_def Let_def on_mgr_def split: option.splits if_splits)
  have "?x \<in> set (reasons (fold storage_exec (MaintenanceDone now # es) ?h))" for es
    using reasons_mono [OF h] by blast
  then have x: "?x \<in> set (reasons (fold storage_exec es (m_health (a_mgr a'))))" for es
    by (simp only: a' fold_simps storage_exec.simps)
  have deg: "Degraded (fold storage_exec es (m_health (a_mgr a'))) \<noteq> []" for es
    using joinSorted_nonempty [OF x] by (simp add: Degraded_def)
  from deg [of "[]"] have "reply_status (handleReadyz None None a') = 503" by (simp add: handleReadyz_def reply_status_def)
  with deg show ?thesis by blast
qed

definition demo_disk :: "nat fs" where
  "demo_disk = [(''/data/queue.db'', \<lparr>bytes = 1, mtime = 50\<rparr>), (''/data/backups/gateway-1.db'', \<lparr>bytes = 1, mtime = 100\<rparr>)]"

definition no_audit_table :: "string \<Rightarrow> check_io" where
  "no_audit_table p = \<lparr>open_ok = True, integrity = Some ''ok'',
     retention_err = (if p = ''/data/queue.db'' then Some ''no such table: admin_audit'' else None)\<rparr>"

lemma maintenance_degrades_forever_example:
  "\<exists>a' f'. app_maintenance no_audit_table Some (\<lambda>_. ''s'') 101 ''/data/gateway.db'' (demo_app, demo_disk) = Some (a', f') \<and>
     reply_status (handleReadyz None None a') = 503"
proof -
  have d: "baDataDir (a_cfg demo_app) = ''/data''" by (simp add: demo_app_def demo_cfg_def config_defs)
  have l: "lastBackupAt ''/data/backups'' demo_disk = 100" by code_simp
  have "BackupsDir (a_cfg demo_app) = ''/data/backups''" using d by (simp add: BackupsDir_def)
  moreover have "\<not> dur_sub 101 100 \<ge> BackupInterval (baStorage (a_cfg demo_app))"
    by (simp add: dur_sub_def demo_app_def demo_cfg_def config_defs)
  ultimately obtain a' f' where r: "app_maintenance no_audit_table Some (\<lambda>_. ''s'') 101 ''/data/gateway.db'' (demo_app, demo_disk) = Some (a', f')"
    using l by (simp add: app_maintenance_def MaintenancePass_def Let_def)
  have "reply_status (handleReadyz None None a') = 503 \<and> Degraded (fold storage_exec [] (m_health (a_mgr a'))) \<noteq> []"
    by (rule maintenance_degrades_forever [OF r]) (simp_all add: d demo_disk_def no_audit_table_def)
  with r show ?thesis by blast
qed

end
