(* ===== verification/Lock.thy ===== *)
theory Lock
  imports Config "HOL-Library.AList"
begin

text \<open>
  The singleton session lock of \<^verbatim>\<open>internal/lock\<close>: an exclusive, non-blocking \<^verbatim>\<open>flock\<close> on
  \<^verbatim>\<open><dir>/<alias>.lock\<close>.

  The kernel's side (the language's \<^verbatim>\<open>os\<close> and \<^verbatim>\<open>syscall\<close> packages) is the record \<open>kernel\<close>:
  a directory from paths to inodes, the bytes of each inode and, for each locked inode, the
  open file description that holds the lock. A lock belongs to the open file description:
  closing it, or the death of its process, drops the lock. Nothing in the package unlinks a lock
  file, so the directory only grows; the properties at the end rest on that.

  \<^verbatim>\<open>strconv.ParseFloat\<close> is the parameter \<open>pf\<close>, as in the configuration; the formatted time stamp
  of the holder line is an argument.
\<close>

subsection \<open>The kernel\<close>

record osfile =
  f_ino :: nat
  f_ofd :: nat

record kernel =
  k_dir :: "(string \<times> nat) list"
  k_data :: "(nat \<times> string) list"
  k_flocks :: "(nat \<times> nat) list"
  k_next :: nat

definition os_OpenFile :: "string \<Rightarrow> kernel \<Rightarrow> kernel \<times> osfile" where
  "os_OpenFile p k =
     (case map_of (k_dir k) p of
        Some ino \<Rightarrow> (k\<lparr>k_next := k_next k + 1\<rparr>, \<lparr>f_ino = ino, f_ofd = k_next k\<rparr>)
      | None \<Rightarrow>
          (k\<lparr>k_dir := AList.update p (k_next k) (k_dir k), k_data := AList.update (k_next k) [] (k_data k),
             k_next := k_next k + 2\<rparr>,
           \<lparr>f_ino = k_next k, f_ofd = k_next k + 1\<rparr>))"

text \<open>\<open>None\<close>: \<^verbatim>\<open>EWOULDBLOCK\<close>, another open file description holds the lock.\<close>

definition flockExclusive :: "osfile \<Rightarrow> kernel \<Rightarrow> kernel option" where
  "flockExclusive f k =
     (case map_of (k_flocks k) (f_ino f) of
        None \<Rightarrow> Some (k\<lparr>k_flocks := AList.update (f_ino f) (f_ofd f) (k_flocks k)\<rparr>)
      | Some d \<Rightarrow> if d = f_ofd f then Some k else None)"

definition flockUnlock :: "osfile \<Rightarrow> kernel \<Rightarrow> kernel" where
  "flockUnlock f k =
     (if map_of (k_flocks k) (f_ino f) = Some (f_ofd f)
      then k\<lparr>k_flocks := AList.delete (f_ino f) (k_flocks k)\<rparr> else k)"

text \<open>The last close of an open file description drops its lock.\<close>

definition closeFile :: "osfile \<Rightarrow> kernel \<Rightarrow> kernel" where
  "closeFile f k = flockUnlock f k"

definition fileBytes :: "string \<Rightarrow> kernel \<Rightarrow> string option" where
  "fileBytes p k = (case map_of (k_dir k) p of None \<Rightarrow> None | Some ino \<Rightarrow> map_of (k_data k) ino)"

subsection \<open>The lock\<close>

record Lock =
  l_alias :: string
  l_dir :: string
  l_fd :: "osfile option"
  l_path :: string
  l_token :: int

text \<open>
  \<^verbatim>\<open>filepath.Join\<close> of two elements: empty ones are dropped, the rest is joined and cleaned lexically (an
  empty segment and a dot vanish, a double dot removes the segment before it), so an alias with slashes
  may name the lock file of another one.
\<close>

fun segments :: "string \<Rightarrow> string \<Rightarrow> string list" where
  "segments [] cur = [cur]"
| "segments (c # cs) cur = (if c = CHR ''/'' then cur # segments cs [] else segments cs (cur @ [c]))"

fun clean_segs :: "bool \<Rightarrow> string list \<Rightarrow> string list \<Rightarrow> string list" where
  "clean_segs rooted out [] = rev out"
| "clean_segs rooted out (x # xs) =
     (if x = [] \<or> x = ''.'' then clean_segs rooted out xs
      else if x = ''..'' then
        (if out \<noteq> [] \<and> List.hd out \<noteq> ''..'' then clean_segs rooted (tl out) xs
         else if rooted then clean_segs rooted out xs
         else clean_segs rooted (x # out) xs)
      else clean_segs rooted (x # out) xs)"

fun slashed :: "string list \<Rightarrow> string" where
  "slashed [] = []"
| "slashed [x] = x"
| "slashed (x # y # zs) = x @ ''/'' @ slashed (y # zs)"

definition filepath_Clean :: "string \<Rightarrow> string" where
  "filepath_Clean p =
     (let rooted = has_prefix p ''/''; body = slashed (clean_segs rooted [] (segments p []))
      in if rooted then ''/'' @ body else if body = [] then ''.'' else body)"

definition filepath_Join :: "string \<Rightarrow> string \<Rightarrow> string" where
  "filepath_Join a b = (if a = [] then filepath_Clean b else filepath_Clean (a @ ''/'' @ b))"

definition Path :: "Lock \<Rightarrow> string" where
  "Path l = filepath_Join (l_dir l) (l_alias l @ ''.lock'')"

definition Held :: "Lock \<Rightarrow> bool" where
  "Held l \<longleftrightarrow> l_fd l \<noteq> None"

definition StaleAfter :: int where
  "StaleAfter = 60 * 10 ^ 9"

abbreviation newline :: char where
  "newline \<equiv> CHR 0x0A"

fun splitLines_loop :: "string \<Rightarrow> string \<Rightarrow> string list \<Rightarrow> string list" where
  "splitLines_loop [] cur out = (if cur = [] then out else out @ [cur])"
| "splitLines_loop (b # bs) cur out =
     (if b = newline then splitLines_loop bs [] (out @ [cur])
      else splitLines_loop bs (cur @ [b]) out)"

definition splitLines :: "string \<Rightarrow> string list" where
  "splitLines raw = splitLines_loop raw [] []"

text \<open>
  What one call sees of its surroundings: whether the file opens, reads and is written, the
  process id, host name and boot id, the clock in nanoseconds and its \<^verbatim>\<open>%f\<close> text.
\<close>

record lock_env =
  le_open_ok :: bool
  le_read_ok :: bool
  le_write_ok :: bool
  le_pid :: int
  hostname :: string
  bootID :: string
  le_now :: int
  le_stamp :: string

definition pythonHolderFresh :: "float_parser \<Rightarrow> lock_env \<Rightarrow> Lock \<Rightarrow> kernel \<Rightarrow> bool" where
  "pythonHolderFresh pf env l k =
     (case (if le_read_ok env then fileBytes (l_path l) k else None) of
        None \<Rightarrow> False
      | Some raw \<Rightarrow>
          let lines = splitLines raw in
          if raw = [] then False
          else if 5 \<le> length lines \<and> lines ! 4 = ''tggw'' then False
          else if length lines < 4 \<or> lines ! 3 = [] \<or> lines ! 0 = [] then False
          else case pf (trim_space (lines ! 3)) of
              None \<Rightarrow> False
            | Some ts \<Rightarrow>
                let age = le_now env - int64_of_float (ts * 10 ^ 9)
                in 0 \<le> age \<and> age < StaleAfter)"

definition readHolder :: "lock_env \<Rightarrow> Lock \<Rightarrow> kernel \<Rightarrow> string" where
  "readHolder env l k =
     (case (if le_read_ok env then fileBytes (l_path l) k else None) of
        None \<Rightarrow> ''unknown''
      | Some raw \<Rightarrow>
          let lines = splitLines raw in
          if lines = [] \<or> lines ! 0 = [] then ''unknown''
          else ''pid='' @ lines ! 0 @ ''@'' @
            (if 2 \<le> length lines \<and> lines ! 1 \<noteq> [] then lines ! 1 else ''unknown-host''))"

definition holder_text :: "lock_env \<Rightarrow> string" where
  "holder_text env =
     itoa (le_pid env) @ [newline] @ hostname env @ [newline] @ bootID env @ [newline] @
     le_stamp env @ [newline] @ ''tggw'' @ [newline]"

text \<open>
  \<open>Acquire\<close> in the two system-call steps another process can get in between of: opening the file,
  then everything from the \<^verbatim>\<open>flock\<close> on. \<open>tok\<close> is the process's \<^verbatim>\<open>tokenCounter\<close>.
\<close>

definition Acquire_open :: "lock_env \<Rightarrow> Lock \<Rightarrow> kernel \<Rightarrow> Lock \<times> kernel \<times> osfile option" where
  "Acquire_open env l k =
     (let l1 = l\<lparr>l_path := Path l\<rparr> in
      if \<not> le_open_ok env then (l1, k, None)
      else let (k1, f) = os_OpenFile (l_path l1) k in (l1, k1, Some f))"

definition Acquire_take ::
  "float_parser \<Rightarrow> lock_env \<Rightarrow> osfile \<Rightarrow> Lock \<Rightarrow> int \<Rightarrow> kernel \<Rightarrow> Lock \<times> int \<times> kernel \<times> bool" where
  "Acquire_take pf env f l tok k =
     (case flockExclusive f k of
        None \<Rightarrow> (l, tok, closeFile f k, False)
      | Some k1 \<Rightarrow>
          if pythonHolderFresh pf env l k1 then (l, tok, closeFile f (flockUnlock f k1), False)
          else (l\<lparr>l_fd := Some f, l_token := tok + 1\<rparr>, tok + 1,
            k1\<lparr>k_data := AList.update (f_ino f) (if le_write_ok env then holder_text env else []) (k_data k1)\<rparr>,
            True))"

definition Acquire ::
  "float_parser \<Rightarrow> lock_env \<Rightarrow> Lock \<Rightarrow> int \<Rightarrow> kernel \<Rightarrow> Lock \<times> int \<times> kernel \<times> bool" where
  "Acquire pf env l tok k =
     (case Acquire_open env l k of
        (l1, k1, None) \<Rightarrow> (l1, tok, k1, False)
      | (l1, k1, Some f) \<Rightarrow> Acquire_take pf env f l1 tok k1)"

definition Release :: "Lock \<Rightarrow> kernel \<Rightarrow> Lock \<times> kernel" where
  "Release l k =
     (case l_fd l of
        None \<Rightarrow> (l, k)
      | Some f \<Rightarrow> (l\<lparr>l_fd := None\<rparr>, closeFile f (flockUnlock f k)))"

subsection \<open>Processes on one volume\<close>

text \<open>
  Every process runs its calls on lock instances of its own; \<open>i_open\<close> is the file an instance
  has open between the two steps of \<open>Acquire\<close>. A crash closes every file of the process.
\<close>

record lock_inst =
  i_pid :: nat
  i_lock :: Lock
  i_open :: "osfile option"

record lock_host =
  h_kernel :: kernel
  h_inst :: "nat \<Rightarrow> lock_inst option"
  h_tokens :: "nat \<Rightarrow> int"

definition inst_files :: "lock_inst \<Rightarrow> osfile set" where
  "inst_files x = set_option (l_fd (i_lock x)) \<union> set_option (i_open x)"

definition crash :: "nat \<Rightarrow> lock_host \<Rightarrow> lock_host" where
  "crash p h =
     h\<lparr>h_kernel := (h_kernel h)\<lparr>k_flocks :=
           filter (\<lambda>(i, d). \<forall>n x f. h_inst h n = Some x \<and> i_pid x = p \<and> f \<in> inst_files x \<longrightarrow> f_ofd f \<noteq> d)
             (k_flocks (h_kernel h))\<rparr>,
       h_inst := (\<lambda>n. case h_inst h n of Some x \<Rightarrow> if i_pid x = p then None else Some x | None \<Rightarrow> None)\<rparr>"

definition env_ok :: "lock_env \<Rightarrow> bool" where
  "env_ok env \<longleftrightarrow> newline \<notin> set (hostname env) \<and> newline \<notin> set (bootID env) \<and> newline \<notin> set (le_stamp env)"

inductive lock_step :: "float_parser \<Rightarrow> lock_host \<Rightarrow> lock_host \<Rightarrow> bool" for pf where
  new_lock:
    "h_inst h n = None \<Longrightarrow>
     lock_step pf h (h\<lparr>h_inst := (h_inst h)(n \<mapsto>
       \<lparr>i_pid = p, i_lock = \<lparr>l_alias = a, l_dir = d, l_fd = None, l_path = [], l_token = 0\<rparr>, i_open = None\<rparr>)\<rparr>)"
| acquire_open:
    "h_inst h n = Some x \<Longrightarrow> i_open x = None \<Longrightarrow> Acquire_open env (i_lock x) (h_kernel h) = (l, k, f) \<Longrightarrow>
     lock_step pf h (h\<lparr>h_kernel := k, h_inst := (h_inst h)(n \<mapsto> x\<lparr>i_lock := l, i_open := f\<rparr>)\<rparr>)"
| acquire_take:
    "h_inst h n = Some x \<Longrightarrow> i_open x = Some f \<Longrightarrow> env_ok env \<Longrightarrow>
     Acquire_take pf env f (i_lock x) (h_tokens h (i_pid x)) (h_kernel h) = (l, t, k, ok) \<Longrightarrow>
     lock_step pf h (h\<lparr>h_kernel := k, h_inst := (h_inst h)(n \<mapsto> x\<lparr>i_lock := l, i_open := None\<rparr>),
       h_tokens := (h_tokens h)(i_pid x := t)\<rparr>)"
| lock_release:
    "h_inst h n = Some x \<Longrightarrow> i_open x = None \<Longrightarrow> Release (i_lock x) (h_kernel h) = (l, k) \<Longrightarrow>
     lock_step pf h (h\<lparr>h_kernel := k, h_inst := (h_inst h)(n \<mapsto> x\<lparr>i_lock := l\<rparr>)\<rparr>)"
| lock_crash: "lock_step pf h (crash p h)"

definition fresh_volume :: lock_host where
  "fresh_volume = \<lparr>h_kernel = \<lparr>k_dir = [], k_data = [], k_flocks = [], k_next = 0\<rparr>,
     h_inst = Map.empty, h_tokens = (\<lambda>_. 0)\<rparr>"

definition holds :: "lock_host \<Rightarrow> nat \<Rightarrow> string \<Rightarrow> bool" where
  "holds h n p \<longleftrightarrow> (\<exists>x. h_inst h n = Some x \<and> Held (i_lock x) \<and> Path (i_lock x) = p)"

subsection \<open>The invariant of the volume\<close>

definition our_text :: "string \<Rightarrow> bool" where
  "our_text raw \<longleftrightarrow> raw = [] \<or> (5 \<le> length (splitLines raw) \<and> splitLines raw ! 4 = ''tggw'')"

lemma splitLines_loop_line:
  "newline \<notin> set s \<Longrightarrow> splitLines_loop (s @ newline # r) cur out = splitLines_loop r [] (out @ [cur @ s])"
  by (induction s arbitrary: cur) auto

lemma itoa_no_newline: "newline \<notin> set (itoa n)"
proof -
  have l: "newline \<notin> set (itoa_loop m [])" for m
  proof (cases "0 \<le> m")
    case True
    then have "list_all is_digit (itoa_loop m [])" using itoa_loop_digits by blast
    then show ?thesis by (auto simp: list_all_iff is_digit_def)
  qed simp
  then show ?thesis by (simp add: itoa_def Let_def)
qed

lemma holder_text_ours: "env_ok env \<Longrightarrow> our_text (holder_text env)"
proof -
  assume e: "env_ok env"
  have "splitLines (holder_text env) = [itoa (le_pid env), hostname env, bootID env, le_stamp env, ''tggw'']"
    using e by (simp add: itoa_no_newline splitLines_def holder_text_def env_ok_def splitLines_loop_line
        splitLines_loop_line [where s = "''tggw''", simplified])
  then show ?thesis by (simp add: our_text_def)
qed

lemma python_guard_quiet:
  "fileBytes (l_path l) k = Some raw \<Longrightarrow> our_text raw \<Longrightarrow> \<not> pythonHolderFresh pf env l k"
  by (auto simp: pythonHolderFresh_def our_text_def Let_def)

definition kernel_inv :: "kernel \<Rightarrow> bool" where
  "kernel_inv k \<longleftrightarrow> distinct (map fst (k_flocks k)) \<and>
     (\<forall>p i. map_of (k_dir k) p = Some i \<longrightarrow> i < k_next k \<and> (\<forall>q. map_of (k_dir k) q = Some i \<longrightarrow> q = p)) \<and>
     (\<forall>i raw. map_of (k_data k) i = Some raw \<longrightarrow> our_text raw)"

definition files_inv :: "lock_host \<Rightarrow> bool" where
  "files_inv h \<longleftrightarrow>
     (\<forall>n x f. h_inst h n = Some x \<and> f \<in> inst_files x \<longrightarrow>
        map_of (k_dir (h_kernel h)) (Path (i_lock x)) = Some (f_ino f) \<and> f_ofd f < k_next (h_kernel h)) \<and>
     (\<forall>n m x y f g. h_inst h n = Some x \<and> h_inst h m = Some y \<and> f \<in> inst_files x \<and> g \<in> inst_files y \<and>
        f_ofd f = f_ofd g \<longrightarrow> n = m) \<and>
     (\<forall>n x f g. h_inst h n = Some x \<and> l_fd (i_lock x) = Some f \<and> i_open x = Some g \<longrightarrow> f_ofd f \<noteq> f_ofd g) \<and>
     (\<forall>n x. h_inst h n = Some x \<and> i_open x \<noteq> None \<longrightarrow> l_path (i_lock x) = Path (i_lock x))"

definition flocks_inv :: "lock_host \<Rightarrow> bool" where
  "flocks_inv h \<longleftrightarrow>
     (\<forall>i d. map_of (k_flocks (h_kernel h)) i = Some d \<longleftrightarrow>
        (\<exists>n x f. h_inst h n = Some x \<and> l_fd (i_lock x) = Some f \<and> f_ino f = i \<and> f_ofd f = d))"

definition lock_inv :: "lock_host \<Rightarrow> bool" where
  "lock_inv h \<longleftrightarrow> kernel_inv (h_kernel h) \<and> files_inv h \<and> flocks_inv h"

lemma lock_exclusive_inv:
  assumes "lock_inv h" "holds h n p" "holds h m p"
  shows "n = m"
proof -
  obtain x f where x: "h_inst h n = Some x" "l_fd (i_lock x) = Some f" "Path (i_lock x) = p"
    using assms(2) by (auto simp: holds_def Held_def)
  obtain y g where y: "h_inst h m = Some y" "l_fd (i_lock y) = Some g" "Path (i_lock y) = p"
    using assms(3) by (auto simp: holds_def Held_def)
  have i: "files_inv h" "flocks_inv h" using assms(1) by (auto simp: lock_inv_def)
  have m: "f \<in> inst_files x" "g \<in> inst_files y" using x(2) y(2) by (auto simp: inst_files_def)
  then have "f_ino f = f_ino g" using i(1) x y unfolding files_inv_def by (metis option.inject)
  moreover have "map_of (k_flocks (h_kernel h)) (f_ino f) = Some (f_ofd f)"
      "map_of (k_flocks (h_kernel h)) (f_ino g) = Some (f_ofd g)"
    using i(2) x y unfolding flocks_inv_def by blast+
  ultimately have "f_ofd f = f_ofd g" by simp
  with i(1) x(1) y(1) m show ?thesis unfolding files_inv_def by blast
qed

lemma ex_inst_upd:
  "(\<exists>m y. (I(n \<mapsto> x)) m = Some y \<and> P y) \<longleftrightarrow> P x \<or> (\<exists>m y. m \<noteq> n \<and> I m = Some y \<and> P y)"
  by (auto split: if_splits)

lemma ex_inst_at:
  "(\<exists>m y. I m = Some y \<and> P y) \<longleftrightarrow> (\<exists>y. I n = Some y \<and> P y) \<or> (\<exists>m y. m \<noteq> n \<and> I m = Some y \<and> P y)"
  by metis

lemma inv_new_lock:
  assumes "lock_inv h" "h_inst h n = None" "l_fd (i_lock x) = None" "i_open x = None"
  shows "lock_inv (h\<lparr>h_inst := (h_inst h)(n \<mapsto> x)\<rparr>)"
proof -
  have e: "inst_files x = {}" using assms(3,4) by (simp add: inst_files_def)
  have "files_inv (h\<lparr>h_inst := (h_inst h)(n \<mapsto> x)\<rparr>)"
    using assms(1,2,4) e unfolding lock_inv_def files_inv_def by (auto split: if_splits)
  moreover have "flocks_inv (h\<lparr>h_inst := (h_inst h)(n \<mapsto> x)\<rparr>)"
    using assms(1-3) unfolding lock_inv_def flocks_inv_def
    by (simp add: ex_inst_upd del: fun_upd_apply) (simp add: ex_inst_at [where n = n])
  ultimately show ?thesis using assms(1) by (simp add: lock_inv_def)
qed

lemma kernel_inv_open:
  "kernel_inv k \<Longrightarrow> os_OpenFile p k = (k', f) \<Longrightarrow> kernel_inv k' \<and> k_flocks k' = k_flocks k \<and>
     map_of (k_dir k') p = Some (f_ino f) \<and> k_next k \<le> f_ofd f \<and> f_ofd f < k_next k' \<and> k_next k \<le> k_next k' \<and>
     (\<forall>q i. map_of (k_dir k) q = Some i \<longrightarrow> map_of (k_dir k') q = Some i)"
  by (auto simp: kernel_inv_def os_OpenFile_def update_conv' our_text_def less_Suc_eq
      split: option.splits if_splits) (metis less_irrefl trans_less_add1)+

text \<open>Opening the lock file: its path is noted, locks and older open files stay, the new file has a number of its own.\<close>

lemma acquire_open_lock:
  assumes "Acquire_open env l0 k0 = (l, k, f)"
  shows "l = l0\<lparr>l_path := Path l0\<rparr>" "Path l = Path l0" "l_fd l = l_fd l0" "l_path l = Path l0"
  using assms by (auto simp: Acquire_open_def Path_def Let_def split: if_splits prod.splits)

lemma acquire_open_kernel:
  assumes "kernel_inv k0" "Acquire_open env l0 k0 = (l, k, f)"
  shows "kernel_inv k \<and> k_flocks k = k_flocks k0 \<and> k_next k0 \<le> k_next k \<and>
    (\<forall>q i. map_of (k_dir k0) q = Some i \<longrightarrow> map_of (k_dir k) q = Some i) \<and>
    (\<forall>g. f = Some g \<longrightarrow> map_of (k_dir k) (Path l0) = Some (f_ino g) \<and> k_next k0 \<le> f_ofd g \<and> f_ofd g < k_next k)"
  using assms kernel_inv_open [of k0 "Path l0"] by (auto simp: Acquire_open_def Let_def split: if_splits prod.splits)

lemma inv_acquire_open:
  assumes inv: "lock_inv h" and x: "h_inst h n = Some x" "i_open x = None"
    and opn: "Acquire_open env (i_lock x) (h_kernel h) = (l, k, f)"
  shows "lock_inv (h\<lparr>h_kernel := k, h_inst := (h_inst h)(n \<mapsto> x\<lparr>i_lock := l, i_open := f\<rparr>)\<rparr>)"
proof -
  let ?x = "x\<lparr>i_lock := l, i_open := f\<rparr>"
  let ?h = "h\<lparr>h_kernel := k, h_inst := (h_inst h)(n \<mapsto> ?x)\<rparr>"
  note l = acquire_open_lock [OF opn]
  have "kernel_inv (h_kernel h)" using inv by (simp add: lock_inv_def)
  note k = acquire_open_kernel [OF this opn]
  have i: "files_inv h" "flocks_inv h" using inv by (auto simp: lock_inv_def)
  have old: "f_ofd g < k_next (h_kernel h)" "map_of (k_dir k) (Path (i_lock y)) = Some (f_ino g)"
    if "h_inst h m = Some y" "g \<in> inst_files y" for m y g
    using i(1) k that unfolding files_inv_def by blast+
  have new: "inst_files ?x = set_option (l_fd (i_lock x)) \<union> set_option f" by (simp add: inst_files_def l)
  have oldx: "inst_files x = set_option (l_fd (i_lock x))" by (simp add: inst_files_def x(2))
  have whence: "(y = ?x \<and> f = Some g) \<or>
      (\<exists>z. h_inst h m = Some z \<and> g \<in> inst_files z \<and> Path (i_lock y) = Path (i_lock z))"
    if "h_inst ?h m = Some y \<and> g \<in> inst_files y" for m y g
    using that x(1) by (cases "m = n") (auto simp: new oldx l(2))
  have origin: "(m = n \<and> k_next (h_kernel h) \<le> f_ofd g) \<or> (\<exists>z. h_inst h m = Some z \<and> g \<in> inst_files z)"
    if "h_inst ?h m = Some y" "g \<in> inst_files y" for m y g
    using that x(1) k by (auto simp: new oldx split: if_splits)
  have "files_inv ?h"
    unfolding files_inv_def
  proof (intro conjI allI impI)
    fix m y g
    assume "h_inst ?h m = Some y \<and> g \<in> inst_files y"
    then show "map_of (k_dir (h_kernel ?h)) (Path (i_lock y)) = Some (f_ino g)" "f_ofd g < k_next (h_kernel ?h)"
      using whence [of m y g] old k by (fastforce simp: l(2))+
  next
    fix m m' y y' g g'
    assume "h_inst ?h m = Some y \<and> h_inst ?h m' = Some y' \<and> g \<in> inst_files y \<and> g' \<in> inst_files y' \<and> f_ofd g = f_ofd g'"
    then have a: "h_inst ?h m = Some y" "h_inst ?h m' = Some y'" "g \<in> inst_files y" "g' \<in> inst_files y'"
      "f_ofd g = f_ofd g'" by auto
    from origin [OF a(1,3)] show "m = m'"
    proof
      assume m: "m = n \<and> k_next (h_kernel h) \<le> f_ofd g"
      with origin [OF a(2,4)] old(1) a(5) show ?thesis by fastforce
    next
      assume m: "\<exists>z. h_inst h m = Some z \<and> g \<in> inst_files z"
      from origin [OF a(2,4)] show ?thesis
        using m old(1) a(5) i(1) unfolding files_inv_def by (metis not_le)
    qed
  next
    fix m y g g'
    assume "h_inst ?h m = Some y \<and> l_fd (i_lock y) = Some g \<and> i_open y = Some g'"
    then show "f_ofd g \<noteq> f_ofd g'"
      using i(1) old [OF x(1)] k unfolding files_inv_def by (fastforce simp: oldx l split: if_splits)
  next
    fix m y
    assume "h_inst ?h m = Some y \<and> i_open y \<noteq> None"
    then show "l_path (i_lock y) = Path (i_lock y)"
      using i(1) unfolding files_inv_def by (auto simp: l(2,4) split: if_splits)
  qed
  moreover have "flocks_inv ?h"
    using i(2) k x(1) unfolding flocks_inv_def
    by (simp add: ex_inst_upd l del: fun_upd_apply) (simp add: ex_inst_at [where n = n])
  ultimately show ?thesis using k by (simp add: lock_inv_def)
qed

lemma files_inv_shrink:
  assumes "files_inv h" "h_inst h n = Some x" "inst_files y \<subseteq> inst_files x" "i_open y = None"
    and "Path (i_lock y) = Path (i_lock x)" "k_dir k = k_dir (h_kernel h)" "k_next k = k_next (h_kernel h)"
  shows "files_inv (h\<lparr>h_kernel := k, h_inst := (h_inst h)(n \<mapsto> y)\<rparr>)"
  unfolding files_inv_def
proof (intro conjI allI impI)
  let ?h = "h\<lparr>h_kernel := k, h_inst := (h_inst h)(n \<mapsto> y)\<rparr>"
  have old: "\<exists>z'. h_inst h m = Some z' \<and> g \<in> inst_files z' \<and> Path (i_lock z') = Path (i_lock z)"
    if "h_inst ?h m = Some z" "g \<in> inst_files z" for m z g
    using that assms(2,3,5) by (auto split: if_splits)
  fix m z g
  show "map_of (k_dir (h_kernel ?h)) (Path (i_lock z)) = Some (f_ino g)" "f_ofd g < k_next (h_kernel ?h)"
    if "h_inst ?h m = Some z \<and> g \<in> inst_files z"
    using old [of m z g] that assms(1,6,7) unfolding files_inv_def by simp_all metis+
  fix m' z' g'
  show "m = m'" if "h_inst ?h m = Some z \<and> h_inst ?h m' = Some z' \<and> g \<in> inst_files z \<and> g' \<in> inst_files z' \<and> f_ofd g = f_ofd g'"
    using old [of m z g] old [of m' z' g'] that assms(1) unfolding files_inv_def by metis
next
  fix m z g g'
  show "f_ofd g \<noteq> f_ofd g'"
    if "h_inst (h\<lparr>h_kernel := k, h_inst := (h_inst h)(n \<mapsto> y)\<rparr>) m = Some z \<and> l_fd (i_lock z) = Some g \<and> i_open z = Some g'"
    using that assms(1,4) unfolding files_inv_def by (auto split: if_splits)
next
  fix m z
  show "l_path (i_lock z) = Path (i_lock z)"
    if "h_inst (h\<lparr>h_kernel := k, h_inst := (h_inst h)(n \<mapsto> y)\<rparr>) m = Some z \<and> i_open z \<noteq> None"
    using that assms(1,4) unfolding files_inv_def by (auto split: if_splits)
qed

lemma flock_of_open:
  assumes "lock_inv h" "h_inst h n = Some x" "i_open x = Some f"
  shows "map_of (k_flocks (h_kernel h)) (f_ino f) \<noteq> Some (f_ofd f)"
proof
  assume "map_of (k_flocks (h_kernel h)) (f_ino f) = Some (f_ofd f)"
  then obtain m y g where g: "h_inst h m = Some y" "l_fd (i_lock y) = Some g" "f_ofd g = f_ofd f"
    using assms(1) unfolding lock_inv_def flocks_inv_def by blast
  have f: "f \<in> inst_files x" "g \<in> inst_files y" using assms(3) g(2) by (auto simp: inst_files_def)
  have i: "files_inv h" using assms(1) by (simp add: lock_inv_def)
  from i have "m = n" using assms(2) g f unfolding files_inv_def by blast
  with i assms(2,3) g show False unfolding files_inv_def by auto
qed

lemma lock_inv_tokens: "lock_inv (h\<lparr>h_tokens := T\<rparr>) = lock_inv h"
  unfolding lock_inv_def files_inv_def flocks_inv_def by simp

lemma inv_acquire_take:
  assumes inv: "lock_inv h" and x: "h_inst h n = Some x" "i_open x = Some f" and env: "env_ok env"
    and take: "Acquire_take pf env f (i_lock x) tok (h_kernel h) = (l, t, k, ok)"
  shows "lock_inv (h\<lparr>h_kernel := k, h_inst := (h_inst h)(n \<mapsto> x\<lparr>i_lock := l, i_open := None\<rparr>), h_tokens := T\<rparr>)"
proof -
  let ?y = "x\<lparr>i_lock := l, i_open := None\<rparr>" and ?k = "h_kernel h"
  let ?h = "h\<lparr>h_kernel := k, h_inst := (h_inst h)(n \<mapsto> ?y)\<rparr>"
  have i: "kernel_inv ?k" "files_inv h" "flocks_inv h" using inv by (auto simp: lock_inv_def)
  note ne = flock_of_open [OF inv x]
  have f: "f \<in> inst_files x" using x by (simp add: inst_files_def)
  have shape: "inst_files ?y \<subseteq> inst_files x \<and> Path l = Path (i_lock x) \<and> k_dir k = k_dir ?k \<and> k_next k = k_next ?k"
    using take x(2)
    by (auto simp: Acquire_take_def flockExclusive_def closeFile_def flockUnlock_def inst_files_def Path_def
        split: option.splits if_splits)
  then have "files_inv ?h" by (intro files_inv_shrink [OF i(2) x(1)]) simp_all
  moreover have "flocks_inv ?h \<and> kernel_inv k"
  proof (cases ok)
    case True
    then have free: "map_of (k_flocks ?k) (f_ino f) = None"
      using take ne by (auto simp: Acquire_take_def flockExclusive_def split: option.splits if_splits)
    have none: "l_fd (i_lock x) = None"
    proof (rule ccontr)
      assume "l_fd (i_lock x) \<noteq> None"
      then obtain g where g: "l_fd (i_lock x) = Some g" by blast
      then have "map_of (k_flocks ?k) (f_ino g) = Some (f_ofd g)" using i(3) x(1) unfolding flocks_inv_def by blast
      moreover have "g \<in> inst_files x" using g by (simp add: inst_files_def)
      then have "f_ino g = f_ino f" using i(2) x(1) f unfolding files_inv_def by (metis option.inject)
      ultimately show False using free by simp
    qed
    from True take ne have k: "k = ?k\<lparr>k_flocks := AList.update (f_ino f) (f_ofd f) (k_flocks ?k),
        k_data := AList.update (f_ino f) (if le_write_ok env then holder_text env else []) (k_data ?k)\<rparr>"
      "l_fd l = Some f"
      by (auto simp: Acquire_take_def flockExclusive_def split: option.splits if_splits)
    have "kernel_inv k"
      using i(1) holder_text_ours [OF env] by (simp add: k kernel_inv_def update_conv' distinct_update our_text_def)
    moreover have other: "f_ino g \<noteq> f_ino f" if "h_inst h m = Some y" "l_fd (i_lock y) = Some g" for m y g
      using i(3) free that unfolding flocks_inv_def by (metis option.distinct(1))
    have "flocks_inv ?h"
      using i(3) x(1) none free unfolding flocks_inv_def
      by (simp add: ex_inst_upd k update_conv' del: fun_upd_apply)
        (auto simp: ex_inst_at [where n = n] dest: other)
    ultimately show ?thesis by blast
  next
    case False
    with take ne have "l = i_lock x" "map_of (k_flocks k) = map_of (k_flocks ?k)"
        "k_data k = k_data ?k" "k_dir k = k_dir ?k" "k_next k = k_next ?k" "distinct (map fst (k_flocks k))"
      using i(1) by (auto simp: Acquire_take_def flockExclusive_def closeFile_def flockUnlock_def kernel_inv_def
          update_conv' delete_conv' distinct_update distinct_delete fun_upd_idem split: option.splits if_splits)
    with i x(1) show ?thesis
      unfolding flocks_inv_def kernel_inv_def
      by (simp add: ex_inst_upd del: fun_upd_apply) (simp add: ex_inst_at [where n = n])
  qed
  ultimately have "lock_inv ?h" by (simp add: lock_inv_def)
  then show ?thesis using lock_inv_tokens [where h = ?h and T = T] by simp
qed

lemma inv_release:
  assumes inv: "lock_inv h" and x: "h_inst h n = Some x" "i_open x = None"
    and rel: "Release (i_lock x) (h_kernel h) = (l, k)"
  shows "lock_inv (h\<lparr>h_kernel := k, h_inst := (h_inst h)(n \<mapsto> x\<lparr>i_lock := l\<rparr>)\<rparr>)"
proof (cases "l_fd (i_lock x)")
  case None
  with rel have "l = i_lock x" "k = h_kernel h" by (simp_all add: Release_def)
  moreover have "(h_inst h)(n \<mapsto> x) = h_inst h" using x(1) by (rule fun_upd_idem)
  ultimately show ?thesis using inv by simp
next
  case (Some f)
  let ?y = "x\<lparr>i_lock := l\<rparr>" and ?k = "h_kernel h"
  let ?h = "h\<lparr>h_kernel := k, h_inst := (h_inst h)(n \<mapsto> ?y)\<rparr>"
  have i: "kernel_inv ?k" "files_inv h" "flocks_inv h" using inv by (auto simp: lock_inv_def)
  have held: "map_of (k_flocks ?k) (f_ino f) = Some (f_ofd f)" using i(3) x(1) Some unfolding flocks_inv_def by blast
  then have k: "k = ?k\<lparr>k_flocks := AList.delete (f_ino f) (k_flocks ?k)\<rparr>" "l_fd l = None" "Path l = Path (i_lock x)"
    using rel Some by (auto simp: Release_def closeFile_def flockUnlock_def delete_conv' Path_def)
  have "inst_files ?y \<subseteq> inst_files x" using x(2) k(2) by (auto simp: inst_files_def)
  then have "files_inv ?h" using x(2) k by (intro files_inv_shrink [OF i(2) x(1)]) simp_all
  moreover have "kernel_inv k" using i(1) by (auto simp: k(1) kernel_inv_def distinct_delete)
  moreover have other: "f_ino g \<noteq> f_ino f" if "m \<noteq> n" "h_inst h m = Some y" "l_fd (i_lock y) = Some g" for m y g
  proof
    assume "f_ino g = f_ino f"
    then have "f_ofd g = f_ofd f" using i(3) that held unfolding flocks_inv_def by (metis option.inject)
    moreover have "g \<in> inst_files y" "f \<in> inst_files x" using that Some by (auto simp: inst_files_def)
    ultimately show False using i(2) that x(1) unfolding files_inv_def by blast
  qed
  have "flocks_inv ?h"
    using i(3) x(1) Some unfolding flocks_inv_def
    by (simp add: ex_inst_upd k delete_conv' del: fun_upd_apply)
      (auto simp: ex_inst_at [where n = n] dest: other)
  ultimately show ?thesis by (simp add: lock_inv_def)
qed

lemma inv_crash:
  assumes inv: "lock_inv h"
  shows "lock_inv (crash p h)"
proof -
  let ?h = "crash p h"
  have i: "kernel_inv (h_kernel h)" "files_inv h" "flocks_inv h" using inv by (auto simp: lock_inv_def)
  have inst: "h_inst ?h n = Some x \<longleftrightarrow> h_inst h n = Some x \<and> i_pid x \<noteq> p" for n x
    by (auto simp: crash_def split: option.splits if_splits)
  have kern: "k_dir (h_kernel ?h) = k_dir (h_kernel h)" "k_next (h_kernel ?h) = k_next (h_kernel h)"
      "k_data (h_kernel ?h) = k_data (h_kernel h)" by (simp_all add: crash_def)
  have d: "distinct (map fst (k_flocks (h_kernel h)))" using i(1) by (simp add: kernel_inv_def)
  have "files_inv ?h" using i(2) unfolding files_inv_def inst kern by blast
  moreover have "kernel_inv (h_kernel ?h)"
    using i(1) by (simp add: kernel_inv_def kern) (simp add: crash_def distinct_map_filter)
  moreover have fl: "map_of (k_flocks (h_kernel ?h)) j = Some e \<longleftrightarrow> map_of (k_flocks (h_kernel h)) j = Some e \<and>
      (\<forall>n x f. h_inst h n = Some x \<and> i_pid x = p \<and> f \<in> inst_files x \<longrightarrow> f_ofd f \<noteq> e)" for j e
    using d by (auto simp: crash_def map_of_eq_Some_iff distinct_map_filter)
  have "flocks_inv ?h"
    unfolding flocks_inv_def
  proof (intro allI iffI)
    fix j e
    assume a: "map_of (k_flocks (h_kernel ?h)) j = Some e"
    then obtain n x f where "h_inst h n = Some x" "l_fd (i_lock x) = Some f" "f_ino f = j" "f_ofd f = e"
      using i(3) unfolding fl flocks_inv_def by blast
    moreover from this have "f \<in> inst_files x" by (simp add: inst_files_def)
    ultimately show "\<exists>n x f. h_inst ?h n = Some x \<and> l_fd (i_lock x) = Some f \<and> f_ino f = j \<and> f_ofd f = e"
      using a unfolding fl inst by blast
  next
    fix j e
    assume "\<exists>n x f. h_inst ?h n = Some x \<and> l_fd (i_lock x) = Some f \<and> f_ino f = j \<and> f_ofd f = e"
    then obtain n x f where x: "h_inst h n = Some x" "i_pid x \<noteq> p" "l_fd (i_lock x) = Some f" "f_ino f = j" "f_ofd f = e"
      unfolding inst by blast
    then have "map_of (k_flocks (h_kernel h)) j = Some e" using i(3) unfolding flocks_inv_def by blast
    moreover have "f \<in> inst_files x" using x(3) by (simp add: inst_files_def)
    then have "f_ofd g \<noteq> e" if "h_inst h m = Some y" "i_pid y = p" "g \<in> inst_files y" for m y g
      using i(2) x(1,2,5) that unfolding files_inv_def by (metis option.inject)
    ultimately show "map_of (k_flocks (h_kernel ?h)) j = Some e" unfolding fl by blast
  qed
  ultimately show ?thesis by (simp add: lock_inv_def)
qed

lemma lock_step_inv: "lock_step pf h h' \<Longrightarrow> lock_inv h \<Longrightarrow> lock_inv h'"
proof (induction rule: lock_step.induct)
  case (new_lock h n p a d)
  then show ?case by (intro inv_new_lock) simp_all
next
  case (acquire_open h n x env l k f)
  then show ?case by (intro inv_acquire_open)
next
  case (acquire_take h n x f env l t k ok)
  then show ?case by (intro inv_acquire_take [where t = t and ok = ok])
next
  case (lock_release h n x l k)
  then show ?case by (intro inv_release)
next
  case (lock_crash h p)
  then show ?case by (rule inv_crash)
qed

lemma fresh_volume_inv: "lock_inv fresh_volume"
  by (simp add: lock_inv_def kernel_inv_def files_inv_def flocks_inv_def fresh_volume_def)

lemma lock_reach_inv: "(lock_step pf)\<^sup>*\<^sup>* fresh_volume h \<Longrightarrow> lock_inv h"
  by (induction rule: rtranclp_induct) (auto intro: fresh_volume_inv lock_step_inv)

subsection \<open>What the lock promises\<close>

lemma lock_free_acquires:
  assumes inv: "lock_inv h" and env: "le_open_ok env" "env_ok env" and free: "\<forall>m. \<not> holds h m (Path l)"
    and acq: "Acquire pf env l tok (h_kernel h) = (l', tok', k', ok)"
  shows "ok \<and> Held l' \<and> l_token l' = tok + 1"
proof -
  obtain k f where o: "os_OpenFile (Path l) (h_kernel h) = (k, f)" by (metis prod.exhaust)
  have i: "kernel_inv (h_kernel h)" "files_inv h" "flocks_inv h" using inv by (auto simp: lock_inv_def)
  note k = kernel_inv_open [OF i(1) o]
  have "map_of (k_flocks (h_kernel h)) (f_ino f) = None"
  proof (rule ccontr)
    assume "map_of (k_flocks (h_kernel h)) (f_ino f) \<noteq> None"
    then obtain m y g where y: "h_inst h m = Some y" "l_fd (i_lock y) = Some g" "f_ino g = f_ino f"
      using i(3) unfolding flocks_inv_def by blast
    then have "g \<in> inst_files y" by (simp add: inst_files_def)
    then have "map_of (k_dir k) (Path (i_lock y)) = Some (f_ino f)"
      using i(2) y k unfolding files_inv_def by metis
    with k have "Path (i_lock y) = Path l" by (auto simp: kernel_inv_def)
    with y free show False unfolding holds_def Held_def by blast
  qed
  moreover have "\<not> pythonHolderFresh pf env (l\<lparr>l_path := Path l\<rparr>) j"
    if "k_dir j = k_dir k" "k_data j = k_data k" for j
  proof (cases "fileBytes (Path l) j")
    case None
    then show ?thesis by (simp add: pythonHolderFresh_def)
  next
    case (Some raw)
    then have "our_text raw" using k that by (auto simp: fileBytes_def kernel_inv_def split: option.splits)
    with Some show ?thesis by (intro python_guard_quiet) simp_all
  qed
  ultimately show ?thesis
    using acq env k o
    by (auto simp: Acquire_def Acquire_open_def Acquire_take_def flockExclusive_def Held_def)
qed

lemma lock_taken_refuses:
  assumes inv: "lock_inv h" and held: "holds h n (Path l)"
  shows "\<not> snd (snd (snd (Acquire pf env l tok (h_kernel h))))"
proof -
  obtain k f where o: "os_OpenFile (Path l) (h_kernel h) = (k, f)" by (metis prod.exhaust)
  have i: "kernel_inv (h_kernel h)" "files_inv h" "flocks_inv h" using inv by (auto simp: lock_inv_def)
  note k = kernel_inv_open [OF i(1) o]
  obtain x g where x: "h_inst h n = Some x" "l_fd (i_lock x) = Some g" "Path (i_lock x) = Path l"
    using held by (auto simp: holds_def Held_def)
  then have "g \<in> inst_files x" by (simp add: inst_files_def)
  then have "map_of (k_dir (h_kernel h)) (Path l) = Some (f_ino g)" "f_ofd g < k_next (h_kernel h)"
    using i(2) x unfolding files_inv_def by metis+
  with k have "f_ino g = f_ino f" "f_ofd g \<noteq> f_ofd f" by auto
  moreover have "map_of (k_flocks (h_kernel h)) (f_ino g) = Some (f_ofd g)"
    using i(3) x unfolding flocks_inv_def by blast
  ultimately show ?thesis
    using k o by (simp add: Acquire_def Acquire_open_def Acquire_take_def flockExclusive_def Let_def)
qed

text \<open>
  C4. Whatever processes share the volume and however their calls interleave (opens, locks, releases and
  crashes in any order), no two of them hold the lock of one session at the same time, and no \<open>Acquire\<close>
  of it succeeds while one holds it.
\<close>

theorem lock_exclusive:
  assumes "(lock_step pf)\<^sup>*\<^sup>* fresh_volume h" "holds h n (Path l)"
  shows "(\<forall>m. holds h m (Path l) \<longrightarrow> m = n) \<and> \<not> snd (snd (snd (Acquire pf env l tok (h_kernel h))))"
  using lock_reach_inv [OF assms(1)] lock_exclusive_inv [OF _ _ assms(2)] lock_taken_refuses [OF _ assms(2)]
  by blast

definition demo_lock :: Lock where
  "demo_lock = \<lparr>l_alias = ''a'', l_dir = ''/s'', l_fd = None, l_path = [], l_token = 0\<rparr>"

definition demo_lock_env :: lock_env where
  "demo_lock_env = \<lparr>le_open_ok = True, le_read_ok = True, le_write_ok = True, le_pid = 1, hostname = ''pod-0'',
     bootID = ''b'', le_now = 0, le_stamp = ''0.000000''\<rparr>"

definition demo_host :: "float_parser \<Rightarrow> lock_host" where
  "demo_host pf =
     (case Acquire pf demo_lock_env demo_lock 0 (h_kernel fresh_volume) of
        (l, t, k, ok) \<Rightarrow> \<lparr>h_kernel = k, h_inst = [5 \<mapsto> \<lparr>i_pid = 1, i_lock = l, i_open = None\<rparr>],
          h_tokens = (\<lambda>_. 0)(1 := t)\<rparr>)"

lemma demo_host_reachable: "(lock_step pf)\<^sup>*\<^sup>* fresh_volume (demo_host pf)" "holds (demo_host pf) 5 (Path demo_lock)"
proof -
  let ?h1 = "fresh_volume\<lparr>h_inst := (h_inst fresh_volume)(5 \<mapsto> \<lparr>i_pid = 1, i_lock = demo_lock, i_open = None\<rparr>)\<rparr>"
  have s1: "lock_step pf fresh_volume ?h1"
    unfolding demo_lock_def by (rule new_lock) (simp add: fresh_volume_def)
  obtain l1 k1 f where o: "Acquire_open demo_lock_env demo_lock (h_kernel ?h1) = (l1, k1, Some f)"
    by (simp add: Acquire_open_def demo_lock_env_def case_prod_unfold Let_def)
  let ?h2 = "?h1\<lparr>h_kernel := k1, h_inst := (h_inst ?h1)(5 \<mapsto> \<lparr>i_pid = 1, i_lock = l1, i_open = Some f\<rparr>)\<rparr>"
  have s2: "lock_step pf ?h1 ?h2"
    using acquire_open [of ?h1 5 "\<lparr>i_pid = 1, i_lock = demo_lock, i_open = None\<rparr>" demo_lock_env l1 k1 "Some f" pf] o by simp
  obtain l2 t k2 ok where t: "Acquire_take pf demo_lock_env f l1 0 k1 = (l2, t, k2, ok)" by (metis prod.exhaust)
  let ?h3 = "?h2\<lparr>h_kernel := k2, h_inst := (h_inst ?h2)(5 \<mapsto> \<lparr>i_pid = 1, i_lock = l2, i_open = None\<rparr>),
       h_tokens := (h_tokens ?h2)(1 := t)\<rparr>"
  have "lock_step pf ?h2 ?h3"
    using acquire_take [of ?h2 5 "\<lparr>i_pid = 1, i_lock = l1, i_open = Some f\<rparr>" f demo_lock_env pf l2 t k2 ok] t
    by (simp add: env_ok_def demo_lock_env_def fresh_volume_def)
  moreover have acq: "Acquire pf demo_lock_env demo_lock 0 (h_kernel fresh_volume) = (l2, t, k2, ok)"
    using o t by (simp add: Acquire_def)
  then have "?h3 = demo_host pf" by (simp add: demo_host_def fresh_volume_def)
  ultimately show "(lock_step pf)\<^sup>*\<^sup>* fresh_volume (demo_host pf)"
    using s1 s2 by (metis (no_types, lifting) rtranclp.rtrancl_refl rtranclp.rtrancl_into_rtrancl)
  have "ok \<and> Held l2 \<and> l_token l2 = 0 + 1"
    by (rule lock_free_acquires [OF fresh_volume_inv _ _ _ acq])
      (simp_all add: demo_lock_env_def env_ok_def holds_def fresh_volume_def)
  moreover have "Path l2 = Path demo_lock"
    using o t by (auto simp: Acquire_open_def Acquire_take_def Path_def Let_def case_prod_unfold
        split: option.splits if_splits)
  ultimately show "holds (demo_host pf) 5 (Path demo_lock)" using acq by (simp add: holds_def demo_host_def)
qed

theorem lock_exclusive_witness:
  "{m. holds (demo_host (\<lambda>_. None)) m (Path demo_lock)} = {5} \<and>
   \<not> snd (snd (snd (Acquire (\<lambda>_. None) demo_lock_env demo_lock 0 (h_kernel (demo_host (\<lambda>_. None))))))"
  using lock_exclusive [OF demo_host_reachable, where env = demo_lock_env and tok = 0] demo_host_reachable(2) by blast

text \<open>
  C37. When the process that holds a session's lock dies, the kernel frees it: the next \<open>Acquire\<close> of the session
  succeeds at once, without a staleness window, and the file the dead holder left behind never passes for
  a live Python sidecar. Releasing does the same, and leaves every other session's lock alone.
\<close>

theorem lock_survives_crash:
  assumes "(lock_step pf)\<^sup>*\<^sup>* fresh_volume h" "h_inst h n = Some x" "holds h n (Path l)"
    and "le_open_ok env" "env_ok env"
  shows "snd (snd (snd (Acquire pf env l tok (h_kernel (crash (i_pid x) h))))) \<and>
    (i_open x = None \<longrightarrow> snd (snd (snd (Acquire pf env l tok (snd (Release (i_lock x) (h_kernel h)))))))"
proof -
  have inv: "lock_inv h" by (rule lock_reach_inv [OF assms(1)])
  note only = lock_exclusive_inv [OF inv _ assms(3)]
  have acq: "snd (snd (snd (Acquire pf env l tok (h_kernel g))))" if "lock_inv g" "\<forall>m. \<not> holds g m (Path l)" for g
    using lock_free_acquires [OF that(1) assms(4,5) that(2)] by (metis prod.collapse)
  have "\<not> holds (crash (i_pid x) h) m (Path l)" for m
  proof
    assume "holds (crash (i_pid x) h) m (Path l)"
    then obtain y where y: "h_inst h m = Some y" "i_pid y \<noteq> i_pid x" "holds h m (Path l)"
      by (auto simp: holds_def crash_def split: option.splits if_splits)
    with only [of m] assms(2) show False by simp
  qed
  then have "snd (snd (snd (Acquire pf env l tok (h_kernel (crash (i_pid x) h)))))"
    using acq [OF inv_crash [OF inv]] by blast
  moreover have "snd (snd (snd (Acquire pf env l tok (snd (Release (i_lock x) (h_kernel h))))))" if "i_open x = None"
  proof -
    obtain l' k' where r: "Release (i_lock x) (h_kernel h) = (l', k')" by (metis prod.exhaust)
    let ?g = "h\<lparr>h_kernel := k', h_inst := (h_inst h)(n \<mapsto> x\<lparr>i_lock := l'\<rparr>)\<rparr>"
    have "l_fd l' = None" using r by (auto simp: Release_def split: option.splits)
    then have "\<not> holds ?g m (Path l)" for m
      using only [of m] by (auto simp: holds_def Held_def split: if_splits)
    then have "snd (snd (snd (Acquire pf env l tok (h_kernel ?g))))"
      using acq [OF inv_release [OF inv assms(2) that r]] by blast
    then show ?thesis using r by simp
  qed
  ultimately show ?thesis by blast
qed

theorem lock_survives_crash_witness:
  "\<exists>x. h_inst (demo_host (\<lambda>_. None)) 5 = Some x \<and> i_pid x = 1 \<and>
     snd (snd (snd (Acquire (\<lambda>_. None) demo_lock_env demo_lock 0 (h_kernel (crash 1 (demo_host (\<lambda>_. None)))))))"
proof -
  obtain x where x: "h_inst (demo_host (\<lambda>_. None)) 5 = Some x" "i_pid x = 1"
    by (simp add: demo_host_def case_prod_unfold)
  with lock_survives_crash [OF demo_host_reachable(1) x(1) demo_host_reachable(2), of demo_lock_env]
  show ?thesis by (simp add: demo_lock_env_def env_ok_def)
qed

end
