(* ===== verification/MTSession.thy ===== *)
theory MTSession
  imports MTGuard MTStore Health Lock
begin

text \<open>
  One session of the MTProto plane (\<^verbatim>\<open>internal/mtproto/sessions.go\<close>): its record, the update belt, the
  web-socket consumers, the fast-path idempotency cache, the small lifecycle setters and the
  classification of start errors. The manager and the supervisor are in \<open>MTManager\<close>.

  The Telegram client is a pointer here; a Go channel with its capacity is a list, full when it is as
  long as the capacity. A \<^verbatim>\<open>*lock.Lock\<close> is the pointer of a lock instance of \<open>Lock\<close>'s volume.
  Times are the readings of the clock the call takes, given as arguments.
\<close>

subsection \<open>Start errors\<close>

definition terminalMarkers :: "string list" where
  "terminalMarkers = [
     ''AUTH_KEY_DUPLICATED'', ''AUTH_KEY_INVALID'', ''AuthKeyUnregistered'',
     ''AuthKeyInvalid'', ''SessionDuplicated'', ''SESSION_REVOKED'',
     ''SessionRevoked'', ''ACCESS_TOKEN_EXPIRED'', ''ACCESS_TOKEN_INVALID'',
     ''UNAUTHORIZED'']"

fun contains :: "string \<Rightarrow> string \<Rightarrow> bool" where
  "contains [] m = (m = [])"
| "contains (c # cs) m = (has_prefix (c # cs) m \<or> contains cs m)"

datatype start_error = Flood | Terminal | Retry

definition ClassifyStartError :: "string \<Rightarrow> start_error" where
  "ClassifyStartError err =
     (if ParseFloodWait err \<noteq> None then Flood
      else if list_ex (contains err) terminalMarkers then Terminal
      else Retry)"

subsection \<open>The session\<close>

datatype SessionState = StateConnecting | StateLive | StatePaused | StateDraining | StateError

record Consumer =
  c_ID :: string
  c_chan :: nat
  c_ConnectedAt :: rat

record Session =
  ss_alias :: string
  ss_token :: string
  ss_state :: SessionState
  ss_guard :: mtguard
  ss_client :: "nat option"
  ConnectedSince :: rat
  LastError :: string
  RealFloodWait :: int
  Synthetic429 :: int
  LastFloodWait :: "(FloodInfo \<times> rat \<times> int option) option"
  terminalError :: bool
  nextRetryAt :: rat
  stopSupervisor :: bool
  ss_reconnects :: int
  startAttempts :: int
  LastPingOKAt :: rat
  pingAt :: rat
  LastUpdateAt :: rat
  IdempotencyClaims :: int
  PersistFailures :: int
  SendPaused :: bool
  sessionLock :: "nat option"
  updateCh :: "obj list"
  updateCap :: nat
  consumers :: "Consumer list"
  nextSeq :: int
  activeConsumer :: string
  seenIdemKeys :: "(string \<times> rat) list"
  firstSendAt :: rat

text \<open>The capacity is clipped at zero: \<^verbatim>\<open>make\<close> panics on a negative \<^verbatim>\<open>UpdateQueueMax\<close>, which no validation excludes.\<close>

definition NewSession :: "MTProto \<Rightarrow> secs \<times> secs \<times> secs \<times> secs \<Rightarrow> string \<Rightarrow> string \<Rightarrow> Session" where
  "NewSession cfg t alias token =
     \<lparr>ss_alias = alias, ss_token = token, ss_state = StateConnecting,
      ss_guard = NewMTGuard (mtRate cfg) (MTRate cfg) (fst t) (fst (snd t)) (fst (snd (snd t))) (snd (snd (snd t))),
      ss_client = None, ConnectedSince = 0, LastError = [], RealFloodWait = 0, Synthetic429 = 0,
      LastFloodWait = None, terminalError = False, nextRetryAt = 0, stopSupervisor = False,
      ss_reconnects = 0, startAttempts = 0, LastPingOKAt = 0, pingAt = 0, LastUpdateAt = 0,
      IdempotencyClaims = 0, PersistFailures = 0, SendPaused = False, sessionLock = None,
      updateCh = [], updateCap = nat (UpdateQueueMax (mtPolicy cfg)), consumers = [], nextSeq = 0,
      activeConsumer = [], seenIdemKeys = [], firstSendAt = 0\<rparr>"

definition LiveClient :: "Session \<Rightarrow> nat option" where
  "LiveClient s = (if ss_state s = StateLive then ss_client s else None)"

subsection \<open>Dynamic numbers\<close>

fun anyToInt64 :: "json \<Rightarrow> int option" where
  "anyToInt64 (JInt n) = Some n"
| "anyToInt64 (JNum r) = Some (int64_of_float r)"
| "anyToInt64 _ = None"

fun anyToFloat :: "json \<Rightarrow> rat option" where
  "anyToFloat (JNum r) = Some r"
| "anyToFloat (JInt n) = Some (of_int n)"
| "anyToFloat _ = None"

subsection \<open>The update belt\<close>

text \<open>A send on the buffered channel in a \<^verbatim>\<open>select\<close> with a default branch.\<close>

definition offer :: "obj \<Rightarrow> Session \<Rightarrow> Session \<times> bool" where
  "offer u s =
     (if length (updateCh s) < updateCap s then (s\<lparr>updateCh := updateCh s @ [u]\<rparr>, True) else (s, False))"

definition belt_push :: "obj \<Rightarrow> Session \<Rightarrow> Session" where
  "belt_push u s =
     (let (s1, ok) = offer u s in
      if ok then s1 else fst (offer u (s1\<lparr>updateCh := tl (updateCh s1)\<rparr>)))"

record push_env =
  pu_at :: rat
  pu_last :: rat
  pu_marshal_err :: "string option"
  pu_text :: string
  pu_dead_at :: rat
  pu_dead_ok :: bool
  pu_row_at :: rat
  pu_row_ok :: bool
  pu_row_err :: string

definition stamp_update :: "push_env \<Rightarrow> obj \<Rightarrow> Session \<Rightarrow> Session \<times> obj" where
  "stamp_update env u s =
     (let n = wrap64 (nextSeq s + 1) in
      (s\<lparr>nextSeq := n, LastUpdateAt := pu_last env\<rparr>,
       obj_put ''_gw_enqueued_at'' (JNum (pu_at env)) (obj_put ''_gw_seq'' (JInt n) u)))"

text \<open>
  \<^verbatim>\<open>pushUpdate\<close> up to and including the copy of the consumer list, and the fan-out over that copy.
  Sending on a web socket's closed channel panics (\<open>None\<close>); a full buffer (64 messages) refuses the
  message. \<open>None\<close> as the list of consumers: the update could not be serialized and went to the dead
  letters.
\<close>

definition push_queue ::
  "push_env \<Rightarrow> obj \<Rightarrow> Session \<times> 'k mtstore \<times> Storage \<Rightarrow>
   (Session \<times> 'k mtstore \<times> Storage) \<times> obj \<times> Consumer list option" where
  "push_queue env u0 w =
     (case w of (s0, st, h) \<Rightarrow>
        let (s1, u) = stamp_update env u0 s0 in
        case pu_marshal_err env of
          Some err \<Rightarrow>
            ((s1, DeadLetter (pu_dead_at env) (pu_dead_ok env) (ss_alias s1) (take 10000 (pu_text env))
                (''unserializable: '' @ err) st, h), u, None)
        | None \<Rightarrow>
            let sequ = (case anyToInt64 (obj_get u ''_gw_seq'') of Some v \<Rightarrow> v | None \<Rightarrow> 0);
                (st1, ok) = QueuePush (pu_row_at env) (pu_row_ok env) (ss_alias s1) sequ (ObjText (decoded_obj u)) st;
                s2 = (if ok then s1 else s1\<lparr>PersistFailures := PersistFailures s1 + 1\<rparr>);
                h2 = (if ok then h else NotePersistFailure (''queue.push:'' @ ss_alias s1) (pu_row_err env) h);
                s3 = belt_push u s2
            in ((s3, st1, h2), u, Some (consumers s3)))"

type_synonym chans = "(nat \<times> (obj list \<times> bool)) list"

definition trySend :: "nat \<Rightarrow> obj \<Rightarrow> chans \<Rightarrow> (chans \<times> bool) option" where
  "trySend ch u cs =
     (case map_of cs ch of
        None \<Rightarrow> Some (cs, False)
      | Some (buf, shut) \<Rightarrow>
          if shut then None
          else if length buf < 64 then Some (AList.update ch (buf @ [u], shut) cs, True)
          else Some (cs, False))"

fun fan_out :: "obj \<Rightarrow> Consumer list \<Rightarrow> chans \<Rightarrow> chans option" where
  "fan_out u [] cs = Some cs"
| "fan_out u (c # rest) cs =
     (case trySend (c_chan c) u cs of None \<Rightarrow> None | Some (cs', _) \<Rightarrow> fan_out u rest cs')"

definition pushUpdate ::
  "push_env \<Rightarrow> obj \<Rightarrow> Session \<times> 'k mtstore \<times> Storage \<Rightarrow> chans \<Rightarrow>
   ((Session \<times> 'k mtstore \<times> Storage) \<times> chans) option" where
  "pushUpdate env u w cs =
     (case push_queue env u w of
        (w', u', None) \<Rightarrow> Some (w', cs)
      | (w', u', Some cons) \<Rightarrow> map_option (Pair w') (fan_out u' cons cs))"

text \<open>\<open>PruneExpiredUpdates\<close>: the belt is emptied and what is young enough is put back.\<close>

definition PruneExpiredUpdates :: "rat \<Rightarrow> rat \<Rightarrow> Session \<Rightarrow> Session \<times> nat" where
  "PruneExpiredUpdates now ttl s =
     (if ttl \<le> 0 then (s, 0)
      else
        let old = (\<lambda>u. case anyToFloat (obj_get u ''_gw_enqueued_at'') of Some t \<Rightarrow> t < now - ttl | None \<Rightarrow> False);
            kept = filter (\<lambda>u. \<not> old u) (updateCh s)
        in (fold (\<lambda>u x. fst (offer u x)) kept (s\<lparr>updateCh := []\<rparr>), length (filter old (updateCh s))))"

subsection \<open>Idempotency\<close>

definition drop_stale :: "rat \<Rightarrow> (string \<times> rat) list \<Rightarrow> (string \<times> rat) list" where
  "drop_stale cutoff ks = filter (\<lambda>(k, t). \<not> t < cutoff) ks"

definition CheckIdempotency ::
  "claim_io \<Rightarrow> rat \<Rightarrow> rat \<Rightarrow> string \<Rightarrow> Session \<times> 'k mtstore \<Rightarrow> (Session \<times> 'k mtstore) \<times> verdict" where
  "CheckIdempotency io now claim_at key w =
     (case w of (s, st) \<Rightarrow>
        if (case map_of (seenIdemKeys s) key of Some ts \<Rightarrow> now - ts < 300 | None \<Rightarrow> False)
        then ((s, st), Replay)
        else
          let (st1, verdict) = MT_IdempotencyClaim io claim_at (ss_alias s) key st;
              s1 = (if verdict = Replay then s\<lparr>seenIdemKeys := AList.update key now (seenIdemKeys s)\<rparr>
                    else s\<lparr>IdempotencyClaims := IdempotencyClaims s + 1\<rparr>)
          in ((s1\<lparr>seenIdemKeys := drop_stale (now - 300) (seenIdemKeys s1)\<rparr>, st1), verdict))"

definition NoteIdempotencyDone :: "rat \<Rightarrow> string \<Rightarrow> Session \<Rightarrow> Session" where
  "NoteIdempotencyDone now key s = s\<lparr>seenIdemKeys := AList.update key now (seenIdemKeys s)\<rparr>"

subsection \<open>Consumers\<close>

definition AddConsumer :: "Consumer \<Rightarrow> Session \<Rightarrow> Session" where
  "AddConsumer c s = s\<lparr>consumers := consumers s @ [c], activeConsumer := c_ID c\<rparr>"

definition RemoveConsumer :: "string \<Rightarrow> Session \<Rightarrow> Session" where
  "RemoveConsumer i s =
     (let kept = filter (\<lambda>c. c_ID c \<noteq> i) (consumers s) in
      s\<lparr>consumers := kept,
        activeConsumer := (if activeConsumer s = i then (if kept \<noteq> [] then c_ID (last kept) else [])
          else activeConsumer s)\<rparr>)"

definition NoteFirstSend :: "rat \<Rightarrow> Session \<Rightarrow> Session" where
  "NoteFirstSend now s = (if firstSendAt s = 0 \<and> consumers s \<noteq> [] then s\<lparr>firstSendAt := now\<rparr> else s)"

definition DeployToFirstMessageS :: "Session \<Rightarrow> rat" where
  "DeployToFirstMessageS s =
     (if firstSendAt s = 0 \<or> consumers s = [] then 0
      else firstSendAt s - c_ConnectedAt (last (consumers s)))"

subsection \<open>Counters and the status view\<close>

definition mt_noteSynthetic429 :: "Session \<Rightarrow> Session" where
  "mt_noteSynthetic429 s = s\<lparr>Synthetic429 := Synthetic429 s + 1\<rparr>"

definition noteRealFloodWait :: "Session \<Rightarrow> Session" where
  "noteRealFloodWait s = s\<lparr>RealFloodWait := RealFloodWait s + 1\<rparr>"

definition noteLastFloodWait :: "rat \<Rightarrow> FloodInfo \<Rightarrow> int option \<Rightarrow> Session \<Rightarrow> Session" where
  "noteLastFloodWait now info chatRef s = s\<lparr>LastFloodWait := Some (info, now, chatRef)\<rparr>"

record session_stats =
  st_alias :: string
  st_state :: SessionState
  st_connection_age :: "rat option"
  st_queue_depth :: nat
  st_consumers :: nat
  st_active :: "string option"
  st_real_flood :: int
  st_synthetic :: int
  st_last_flood :: "(FloodInfo \<times> rat \<times> int option) option"
  st_last_error :: string
  st_send_paused :: bool
  st_terminal :: bool
  st_reconnects :: int
  st_start_attempts :: int
  st_persist_failures :: int
  st_claims :: int
  st_update_age :: "rat option"
  st_ping_age :: "rat option"
  st_slo :: "rat option"

definition age_since :: "rat \<Rightarrow> rat \<Rightarrow> rat option" where
  "age_since now t = (if t > 0 then Some (round1 (now - t)) else None)"

definition MT_Stats :: "rat \<Rightarrow> rat \<Rightarrow> rat \<Rightarrow> Session \<Rightarrow> session_stats" where
  "MT_Stats wall1 wall2 mono_at s =
     \<lparr>st_alias = ss_alias s, st_state = ss_state s, st_connection_age = age_since wall1 (ConnectedSince s),
      st_queue_depth = length (updateCh s), st_consumers = length (consumers s),
      st_active = nilIfEmpty (activeConsumer s), st_real_flood = RealFloodWait s, st_synthetic = Synthetic429 s,
      st_last_flood = LastFloodWait s, st_last_error = take 200 (LastError s), st_send_paused = SendPaused s,
      st_terminal = terminalError s, st_reconnects = ss_reconnects s, st_start_attempts = startAttempts s,
      st_persist_failures = PersistFailures s, st_claims = IdempotencyClaims s,
      st_update_age = age_since wall2 (LastUpdateAt s), st_ping_age = age_since mono_at (LastPingOKAt s),
      st_slo = (if DeployToFirstMessageS s > 0 then Some (round1 (DeployToFirstMessageS s)) else None)\<rparr>"

end
