(* ===== verification/MTManager.thy ===== *)
theory MTManager
  imports MTSession
begin

text \<open>
  The session manager of the MTProto plane and the supervisor goroutine of each session
  (\<^verbatim>\<open>internal/mtproto/sessions.go\<close>).

  Sessions are heap objects: \<open>mm_sessions\<close> is the manager's map from aliases to pointers, and a
  supervisor keeps its pointer after the session has left the map. A supervisor is modelled by the
  points at which it can be interrupted: the top of its loop, the \<^verbatim>\<open>Connect\<close> call that may take a minute
  and the warm-up after it. Between two steps of a supervisor every other operation may run.

  \<open>mm_conns\<close> is the set of Telegram connections the process holds open: the clients whose \<^verbatim>\<open>Connect\<close>
  succeeded and that nobody has disconnected, each with the session it was opened for. What Telegram
  answers (connect and ping errors, whether the socket is still up) is an argument of the step.
\<close>

subsection \<open>State\<close>

datatype sup_point = SupTop | SupConnecting nat bool | SupWarming nat bool | SupReturned

record supervisor =
  sp_backoff :: rat
  sp_at :: sup_point

record 'k mtmgr =
  mm_cfg :: MTProto
  mm_pid :: nat
  mm_store :: "'k mtstore"
  mm_health :: Storage
  mm_heap :: "(nat \<times> Session) list"
  mm_sessions :: "(string \<times> nat) list"
  mm_sups :: "(nat \<times> supervisor) list"
  mm_conns :: "(nat \<times> nat) list"
  mm_next :: nat
  mm_chans :: chans

type_synonym 'k mtworld = "'k mtmgr \<times> lock_host"

definition MM_New :: "MTProto \<Rightarrow> nat \<Rightarrow> 'k mtstore \<Rightarrow> Storage \<Rightarrow> 'k mtmgr" where
  "MM_New cfg pid st h = \<lparr>mm_cfg = cfg, mm_pid = pid, mm_store = st, mm_health = h, mm_heap = [],
     mm_sessions = [], mm_sups = [], mm_conns = [], mm_next = 0, mm_chans = []\<rparr>"

definition deref :: "nat \<Rightarrow> 'k mtmgr \<Rightarrow> Session option" where
  "deref i m = map_of (mm_heap m) i"

definition on_session :: "nat \<Rightarrow> (Session \<Rightarrow> Session) \<Rightarrow> 'k mtmgr \<Rightarrow> 'k mtmgr" where
  "on_session i f m = (case deref i m of None \<Rightarrow> m | Some s \<Rightarrow> m\<lparr>mm_heap := AList.update i (f s) (mm_heap m)\<rparr>)"

definition set_sup :: "nat \<Rightarrow> supervisor \<Rightarrow> 'k mtmgr \<Rightarrow> 'k mtmgr" where
  "set_sup i p m = m\<lparr>mm_sups := AList.update i p (mm_sups m)\<rparr>"

definition MM_Get :: "string \<Rightarrow> 'k mtmgr \<Rightarrow> nat option" where
  "MM_Get alias m = map_of (mm_sessions m) alias"

text \<open>The iteration order of a Go map is arbitrary; the token of a session is unique in practice.\<close>

definition MM_FindByToken :: "string \<Rightarrow> 'k mtmgr \<Rightarrow> nat option" where
  "MM_FindByToken token m =
     map_option snd (find (\<lambda>(a, i). case deref i m of Some s \<Rightarrow> ss_token s = token | None \<Rightarrow> False) (mm_sessions m))"

subsection \<open>The session lock\<close>

definition new_lock_obj :: "string \<Rightarrow> string \<Rightarrow> Lock" where
  "new_lock_obj alias d = \<lparr>l_alias = alias, l_dir = d, l_fd = None, l_path = [], l_token = 0\<rparr>"

text \<open>\<open>ptr\<close> is the address of the freshly allocated lock.\<close>

definition acquireLock ::
  "float_parser \<Rightarrow> lock_env \<Rightarrow> nat \<Rightarrow> nat \<Rightarrow> 'k mtworld \<Rightarrow> 'k mtworld \<times> bool" where
  "acquireLock pf env ptr i w =
     (case w of (m, h) \<Rightarrow>
        case deref i m of
          None \<Rightarrow> ((m, h), False)
        | Some s \<Rightarrow>
            (case Acquire pf env (new_lock_obj (ss_alias s) (SessionDir (mm_cfg m))) (h_tokens h (mm_pid m)) (h_kernel h) of
               (l, t, k, ok) \<Rightarrow>
                 let h1 = h\<lparr>h_kernel := k, h_inst := (h_inst h)(ptr \<mapsto> \<lparr>i_pid = mm_pid m, i_lock = l, i_open = None\<rparr>),
                            h_tokens := (h_tokens h)(mm_pid m := t)\<rparr>
                 in if \<not> ok then ((m, h1), False)
                    else ((on_session i (\<lambda>s. s\<lparr>sessionLock := Some ptr\<rparr>) m, h1), True)))"

definition release_obj :: "nat \<Rightarrow> lock_host \<Rightarrow> lock_host" where
  "release_obj ptr h =
     (case h_inst h ptr of
        None \<Rightarrow> h
      | Some x \<Rightarrow>
          let (l, k) = Release (i_lock x) (h_kernel h)
          in h\<lparr>h_kernel := k, h_inst := (h_inst h)(ptr \<mapsto> x\<lparr>i_lock := l\<rparr>)\<rparr>)"

definition releaseLock :: "nat \<Rightarrow> 'k mtworld \<Rightarrow> 'k mtworld" where
  "releaseLock i w =
     (case w of (m, h) \<Rightarrow>
        case deref i m of
          None \<Rightarrow> (m, h)
        | Some s \<Rightarrow>
            (on_session i (\<lambda>s. s\<lparr>sessionLock := None\<rparr>) m,
             case sessionLock s of None \<Rightarrow> h | Some ptr \<Rightarrow> release_obj ptr h))"

definition lockHeld :: "lock_host \<Rightarrow> Session \<Rightarrow> bool" where
  "lockHeld h s =
     (case sessionLock s of
        None \<Rightarrow> False
      | Some ptr \<Rightarrow> (case h_inst h ptr of None \<Rightarrow> False | Some x \<Rightarrow> Held (i_lock x)))"

subsection \<open>Connections\<close>

definition disconnect :: "nat option \<Rightarrow> 'k mtmgr \<Rightarrow> 'k mtmgr" where
  "disconnect c m =
     (case c of None \<Rightarrow> m | Some n \<Rightarrow> m\<lparr>mm_conns := filter (\<lambda>x. fst x \<noteq> n) (mm_conns m)\<rparr>)"

subsection \<open>The supervisor\<close>

record sup_io =
  si_up :: bool
  si_mono :: rat
  si_ping_at :: rat
  si_ping_err :: bool
  si_ping_ok_at :: rat
  si_retry_now :: rat
  si_lock :: lock_env
  si_ptr :: nat
  si_refused_at :: rat

definition lock_refused :: "string \<Rightarrow> string" where
  "lock_refused alias = ''session lock refused: another process holds '' @ [CHR 0x27] @ alias @ [CHR 0x27] @
     ''. A second connection would trigger AUTH_KEY_DUPLICATED.''"

text \<open>Marking the attempt, then the head of \<^verbatim>\<open>startClient\<close>: the old client is disconnected, a new one made.\<close>

definition begin_connect :: "nat \<Rightarrow> supervisor \<Rightarrow> 'k mtmgr \<Rightarrow> 'k mtmgr" where
  "begin_connect i p m =
     (case deref i m of
        None \<Rightarrow> m
      | Some s \<Rightarrow>
          let m1 = on_session i (\<lambda>s. s\<lparr>ss_state := StateConnecting, startAttempts := startAttempts s + 1\<rparr>) m;
              m2 = disconnect (ss_client s) m1
          in set_sup i (p\<lparr>sp_at := SupConnecting (mm_next m2) (ConnectedSince s > 0)\<rparr>) (m2\<lparr>mm_next := mm_next m2 + 1\<rparr>))"

definition sup_ping :: "sup_io \<Rightarrow> nat \<Rightarrow> Session \<Rightarrow> 'k mtmgr \<Rightarrow> 'k mtmgr" where
  "sup_ping io i s m =
     (if si_mono io - pingAt s > 60 then
        let m1 = on_session i (\<lambda>s. s\<lparr>pingAt := si_ping_at io\<rparr>) m in
        if si_ping_err io then disconnect (ss_client s) m1
        else on_session i (\<lambda>s. s\<lparr>LastPingOKAt := si_ping_ok_at io\<rparr>) m1
      else m)"

text \<open>One pass through the loop of \<^verbatim>\<open>supervise\<close>, up to the \<^verbatim>\<open>Connect\<close> call.\<close>

definition sup_top :: "float_parser \<Rightarrow> sup_io \<Rightarrow> nat \<Rightarrow> 'k mtworld \<Rightarrow> 'k mtworld" where
  "sup_top pf io i w =
     (case w of (m, h) \<Rightarrow>
        case (deref i m, map_of (mm_sups m) i) of
          (Some s, Some p) \<Rightarrow>
            if sp_at p \<noteq> SupTop then (m, h)
            else if stopSupervisor s \<or> terminalError s then (set_sup i (p\<lparr>sp_at := SupReturned\<rparr>) m, h)
            else if ss_state s = StatePaused \<or> ss_state s = StateDraining then (m, h)
            else if ss_client s \<noteq> None \<and> si_up io \<and> ss_state s = StateLive then (sup_ping io i s m, h)
            else if si_retry_now io < nextRetryAt s then (m, h)
            else
              (case (if lockHeld h s then ((m, h), True) else acquireLock pf (si_lock io) (si_ptr io) i (m, h)) of
                 ((m1, h1), ok) \<Rightarrow>
                   if \<not> ok then
                     (on_session i (\<lambda>s. s\<lparr>ss_state := StateError, LastError := lock_refused (ss_alias s),
                        nextRetryAt := si_refused_at io + 60\<rparr>) m1, h1)
                   else (begin_connect i p m1, h1))
        | _ \<Rightarrow> (m, h))"

record conn_io =
  ci_err :: "string option"
  ci_wall :: rat
  ci_mono :: rat
  ci_rand :: rat

definition start_done :: "bool \<Rightarrow> nat \<Rightarrow> supervisor \<Rightarrow> 'k mtmgr \<Rightarrow> 'k mtmgr" where
  "start_done wasLive i p m =
     set_sup i (p\<lparr>sp_at := SupTop, sp_backoff := 1\<rparr>)
       (if wasLive then on_session i (\<lambda>s. s\<lparr>ss_reconnects := ss_reconnects s + 1\<rparr>) m else m)"

definition start_failed :: "conn_io \<Rightarrow> string \<Rightarrow> bool \<Rightarrow> nat \<Rightarrow> supervisor \<Rightarrow> 'k mtmgr \<Rightarrow> 'k mtmgr" where
  "start_failed io err wasLive i p m =
     (case ClassifyStartError err of
        Terminal \<Rightarrow>
          set_sup i (p\<lparr>sp_at := SupTop\<rparr>) (on_session i (\<lambda>s. s\<lparr>ss_state := StateError, terminalError := True,
            LastError := ''terminal (quarantined): '' @ err\<rparr>) m)
      | Flood \<Rightarrow>
          (case ParseFloodWait err of
             None \<Rightarrow> start_done wasLive i p m
           | Some info \<Rightarrow>
               let wait = Jittered (ci_rand io) (of_int (Wait info) + 60) 60
               in set_sup i (p\<lparr>sp_at := SupTop\<rparr>) (on_session i (\<lambda>s. s\<lparr>ss_state := StateConnecting,
                    LastError := ''auth flood: retrying in '' @ itoa (int64_of_float wait) @ ''s'',
                    nextRetryAt := ci_mono io + wait\<rparr>) m))
      | Retry \<Rightarrow>
          set_sup i (p\<lparr>sp_at := SupTop, sp_backoff := min (sp_backoff p * 2) 300\<rparr>)
            (on_session i (\<lambda>s. s\<lparr>ss_state := StateError,
               LastError := ''start failed (retry in '' @ itoa (int64_of_float (sp_backoff p)) @ ''s): '' @ err,
               nextRetryAt := ci_mono io + sp_backoff p\<rparr>) m))"

text \<open>The \<^verbatim>\<open>Connect\<close> call returns.\<close>

definition sup_connect :: "conn_io \<Rightarrow> nat \<Rightarrow> 'k mtworld \<Rightarrow> 'k mtworld" where
  "sup_connect io i w =
     (case w of (m, h) \<Rightarrow>
        case map_of (mm_sups m) i of
          None \<Rightarrow> (m, h)
        | Some p \<Rightarrow>
            (case sp_at p of
               SupConnecting c wasLive \<Rightarrow>
                 (case ci_err io of
                    Some err \<Rightarrow> (case releaseLock i (m, h) of (m1, h1) \<Rightarrow> (start_failed io err wasLive i p m1, h1))
                  | None \<Rightarrow>
                      (set_sup i (p\<lparr>sp_at := SupWarming c wasLive\<rparr>)
                         (on_session i (\<lambda>s. s\<lparr>ss_client := Some c, ss_state := StateLive, ConnectedSince := ci_wall io\<rparr>)
                            (m\<lparr>mm_conns := (c, i) # mm_conns m\<rparr>)), h))
             | _ \<Rightarrow> (m, h)))"

text \<open>The persisted backlog is put back on the belt; the sequence counter continues after its largest number.\<close>

definition restored_seq :: "obj list \<Rightarrow> int \<Rightarrow> int" where
  "restored_seq us n =
     fold (\<lambda>u m. case anyToInt64 (obj_get u ''_gw_seq'') of Some q \<Rightarrow> if q > m then q else m | None \<Rightarrow> m) us n"

definition replay_backlog :: "obj list \<Rightarrow> Session \<Rightarrow> Session" where
  "replay_backlog us s =
     (if us = [] then s
      else fold (\<lambda>u x. fst (offer u x)) us (s\<lparr>nextSeq := restored_seq us (nextSeq s)\<rparr>))"

definition sup_warm :: "bool \<Rightarrow> nat \<Rightarrow> 'k mtworld \<Rightarrow> 'k mtworld" where
  "sup_warm pull_ok i w =
     (case w of (m, h) \<Rightarrow>
        case (deref i m, map_of (mm_sups m) i) of
          (Some s, Some p) \<Rightarrow>
            (case sp_at p of
               SupWarming c wasLive \<Rightarrow>
                 (start_done wasLive i p
                    (on_session i (replay_backlog (QueuePull pull_ok (ss_alias s) 0 5000 (mm_store m))) m), h)
             | _ \<Rightarrow> (m, h))
        | _ \<Rightarrow> (m, h))"

subsection \<open>Lifecycle operations\<close>

definition MM_Unregister :: "bool \<Rightarrow> string \<Rightarrow> 'k mtworld \<Rightarrow> 'k mtworld \<times> bool" where
  "MM_Unregister del_ok alias w =
     (case w of (m, h) \<Rightarrow>
        case MM_Get alias m of
          None \<Rightarrow> ((m, h), False)
        | Some i \<Rightarrow>
            let m1 = on_session i (\<lambda>s. s\<lparr>ss_state := StateDraining, stopSupervisor := True\<rparr>)
                       (m\<lparr>mm_sessions := AList.delete alias (mm_sessions m)\<rparr>);
                m2 = disconnect (case deref i m1 of Some s \<Rightarrow> ss_client s | None \<Rightarrow> None) m1
            in (case releaseLock i (m2, h) of
                  (m3, h3) \<Rightarrow> ((m3\<lparr>mm_store := fst (Delete del_ok alias (mm_store m3))\<rparr>, h3), True)))"

record mt_reg_io =
  rg_iv :: nat
  rg_now :: string
  rg_ok :: bool
  rg_del_ok :: bool
  rg_guard :: "secs \<times> secs \<times> secs \<times> secs"

definition register_new ::
  "'k fernet_lib \<Rightarrow> mt_reg_io \<Rightarrow> string \<Rightarrow> string \<Rightarrow> 'k mtworld \<Rightarrow> 'k mtworld \<times> nat option" where
  "register_new F io alias token w =
     (case w of (m, h) \<Rightarrow>
        (case Register F (rg_iv io) (rg_now io) (rg_ok io) alias token (mm_store m) of
           (st, ok) \<Rightarrow>
             if \<not> ok then ((m\<lparr>mm_store := st\<rparr>, h), None)
             else
               let i = mm_next m in
               ((m\<lparr>mm_store := st, mm_heap := AList.update i (NewSession (mm_cfg m) (rg_guard io) alias token) (mm_heap m),
                   mm_sessions := AList.update alias i (mm_sessions m),
                   mm_sups := AList.update i \<lparr>sp_backoff = 1, sp_at = SupTop\<rparr> (mm_sups m),
                   mm_next := i + 1\<rparr>, h), Some i)))"

definition MM_Register ::
  "'k fernet_lib \<Rightarrow> mt_reg_io \<Rightarrow> string \<Rightarrow> string \<Rightarrow> 'k mtworld \<Rightarrow> 'k mtworld \<times> nat option" where
  "MM_Register F io alias token w =
     (let existing = (case MM_Get alias (fst w) of None \<Rightarrow> None | Some i \<Rightarrow> map_option (Pair i) (deref i (fst w))) in
      case existing of
        Some (i, s) \<Rightarrow>
          if ss_token s = token then (w, Some i)
          else register_new F io alias token (fst (MM_Unregister (rg_del_ok io) alias w))
      | None \<Rightarrow> register_new F io alias token w)"

definition MM_Pause :: "bool \<Rightarrow> string \<Rightarrow> 'k mtmgr \<Rightarrow> 'k mtmgr \<times> bool" where
  "MM_Pause ok alias m =
     (case MM_Get alias m of
        None \<Rightarrow> (m, False)
      | Some i \<Rightarrow>
          let m1 = on_session i (\<lambda>s. s\<lparr>ss_state := StatePaused\<rparr>) m
          in (m1\<lparr>mm_store := fst (MT_SetPaused ok alias True (mm_store m1))\<rparr>, True))"

definition MM_Resume :: "bool \<Rightarrow> string \<Rightarrow> 'k mtmgr \<Rightarrow> 'k mtmgr \<times> bool" where
  "MM_Resume ok alias m =
     (case MM_Get alias m of
        None \<Rightarrow> (m, False)
      | Some i \<Rightarrow>
          let m1 = m\<lparr>mm_store := fst (MT_SetPaused ok alias False (mm_store m))\<rparr>
          in (on_session i (\<lambda>s. s\<lparr>ss_state := StateLive\<rparr>) m1, True))"

definition on_alias :: "string \<Rightarrow> (Session \<Rightarrow> Session) \<Rightarrow> 'k mtmgr \<Rightarrow> 'k mtmgr \<times> bool" where
  "on_alias alias f m = (case MM_Get alias m of None \<Rightarrow> (m, False) | Some i \<Rightarrow> (on_session i f m, True))"

definition MM_Drain :: "string \<Rightarrow> 'k mtmgr \<Rightarrow> 'k mtmgr \<times> bool" where
  "MM_Drain alias m = on_alias alias (\<lambda>s. s\<lparr>ss_state := StateDraining\<rparr>) m"

definition MM_PauseSending :: "string \<Rightarrow> 'k mtmgr \<Rightarrow> 'k mtmgr \<times> bool" where
  "MM_PauseSending alias m = on_alias alias (\<lambda>s. s\<lparr>SendPaused := True\<rparr>) m"

definition MM_ResumeSending :: "string \<Rightarrow> 'k mtmgr \<Rightarrow> 'k mtmgr \<times> bool" where
  "MM_ResumeSending alias m = on_alias alias (\<lambda>s. s\<lparr>SendPaused := False\<rparr>) m"

definition MM_Restart :: "string \<Rightarrow> 'k mtmgr \<Rightarrow> 'k mtmgr \<times> bool" where
  "MM_Restart alias m =
     (case MM_Get alias m of
        None \<Rightarrow> (m, False)
      | Some i \<Rightarrow>
          (case deref i m of
             None \<Rightarrow> (m, False)
           | Some s \<Rightarrow>
               if terminalError s then (m, False) else (on_session i (\<lambda>s. s\<lparr>nextRetryAt := 0\<rparr>) m, True)))"

text \<open>
  \<open>RestoreAll\<close>: the supervisor of a restored session runs from the moment \<open>MM_Register\<close> returns, so
  the steps of other goroutines may come in between the rows; this is the sequence of one call.
\<close>

fun restore_sessions ::
  "'k fernet_lib \<Rightarrow> (SessionRow \<times> mt_reg_io) list \<Rightarrow> 'k mtworld \<Rightarrow> 'k mtworld \<times> nat" where
  "restore_sessions F [] w = (w, 0)"
| "restore_sessions F ((row, io) # rest) w =
     (case MT_GetToken F (sr_alias row) (mm_store (fst w)) of
        None \<Rightarrow> restore_sessions F rest w
      | Some token \<Rightarrow>
          (case MM_Register F io (sr_alias row) token w of
             (w1, None) \<Rightarrow> restore_sessions F rest w1
           | (w1, Some _) \<Rightarrow>
               let w2 = (if sr_paused row
                         then (fst (on_alias (sr_alias row) (\<lambda>s. s\<lparr>ss_state := StatePaused\<rparr>) (fst w1)), snd w1) else w1);
                   (w3, n) = restore_sessions F rest w2
               in (w3, n + 1)))"

definition MM_RestoreAll ::
  "'k fernet_lib \<Rightarrow> bool \<Rightarrow> (SessionRow \<Rightarrow> mt_reg_io) \<Rightarrow> 'k mtworld \<Rightarrow> 'k mtworld \<times> nat" where
  "MM_RestoreAll F list_ok io w =
     (if list_ok then restore_sessions F (map (\<lambda>r. (r, io r)) (ListSessions (mm_store (fst w)))) w else (w, 0))"

text \<open>\<open>ust\<close> is the state the gotd client reports for a connection.\<close>

definition persist_one :: "(nat \<Rightarrow> MTState) \<Rightarrow> bool \<Rightarrow> string \<times> nat \<Rightarrow> 'k mtmgr \<Rightarrow> 'k mtmgr" where
  "persist_one ust ok e m =
     (case deref (snd e) m of
        None \<Rightarrow> m
      | Some s \<Rightarrow>
          if ss_state s \<noteq> StateLive then m
          else case ss_client s of
              None \<Rightarrow> m
            | Some c \<Rightarrow>
                if PTS (ust c) \<noteq> 0 \<or> QTS (ust c) \<noteq> 0
                then m\<lparr>mm_store := fst (SaveState ok (ss_alias s) (ust c) (mm_store m))\<rparr> else m)"

definition MM_PersistStates :: "(nat \<Rightarrow> MTState) \<Rightarrow> bool \<Rightarrow> 'k mtmgr \<Rightarrow> 'k mtmgr" where
  "MM_PersistStates ust ok m = fold (persist_one ust ok) (mm_sessions m) m"

definition mt_shutdown_one :: "string \<times> nat \<Rightarrow> 'k mtworld \<Rightarrow> 'k mtworld" where
  "mt_shutdown_one e w =
     (case w of (m, h) \<Rightarrow>
        let i = snd e;
            m1 = on_session i (\<lambda>s. s\<lparr>ss_state := StateDraining, stopSupervisor := True\<rparr>) m;
            m2 = disconnect (case deref i m1 of Some s \<Rightarrow> ss_client s | None \<Rightarrow> None) m1
        in releaseLock i (m2, h))"

definition MM_Shutdown :: "'k mtworld \<Rightarrow> 'k mtworld" where
  "MM_Shutdown w = fold mt_shutdown_one (mm_sessions (fst w)) w"

text \<open>The session-level operations on the heap.\<close>

definition MM_push :: "push_env \<Rightarrow> obj \<Rightarrow> nat \<Rightarrow> 'k mtmgr \<Rightarrow> ('k mtmgr \<times> obj \<times> Consumer list option)" where
  "MM_push env u i m =
     (case deref i m of
        None \<Rightarrow> (m, u, None)
      | Some s \<Rightarrow>
          (case push_queue env u (s, mm_store m, mm_health m) of
             ((s1, st1, h1), u1, cons) \<Rightarrow>
               (on_session i (\<lambda>_. s1) (m\<lparr>mm_store := st1, mm_health := h1\<rparr>), u1, cons)))"

end
