(* ===== verification/MTSafety.thy ===== *)
theory MTSafety
  imports MTManager
begin

text \<open>
  Several sidecar processes on one session volume. Each process runs the operations of its manager and
  the steps of its supervisors in any order; processes boot and die at any moment. The invariant ties
  every open Telegram connection to the session lock its process holds, and with the exclusion of
  \<open>Lock\<close> gives the property the lock exists for: one auth key is never connected twice.
\<close>

subsection \<open>Operations of one process\<close>

datatype mt_op =
  OpTop sup_io nat
| OpConnect conn_io nat
| OpWarm bool nat
| OpRegister mt_reg_io string string
| OpUnregister bool string
| OpPause bool string
| OpResume bool string
| OpDrain string
| OpRestart string
| OpPauseSending string
| OpResumeSending string
| OpRestoreAll bool "SessionRow \<Rightarrow> mt_reg_io"
| OpPersist "nat \<Rightarrow> MTState" bool
| OpShutdown
| OpPush push_env obj nat

fun mt_op_exec :: "float_parser \<Rightarrow> 'k fernet_lib \<Rightarrow> mt_op \<Rightarrow> 'k mtworld \<Rightarrow> 'k mtworld" where
  "mt_op_exec pf F (OpTop io i) w = sup_top pf io i w"
| "mt_op_exec pf F (OpConnect io i) w = sup_connect io i w"
| "mt_op_exec pf F (OpWarm ok i) w = sup_warm ok i w"
| "mt_op_exec pf F (OpRegister io alias token) w = fst (MM_Register F io alias token w)"
| "mt_op_exec pf F (OpUnregister ok alias) w = fst (MM_Unregister ok alias w)"
| "mt_op_exec pf F (OpPause ok alias) w = (fst (MM_Pause ok alias (fst w)), snd w)"
| "mt_op_exec pf F (OpResume ok alias) w = (fst (MM_Resume ok alias (fst w)), snd w)"
| "mt_op_exec pf F (OpDrain alias) w = (fst (MM_Drain alias (fst w)), snd w)"
| "mt_op_exec pf F (OpRestart alias) w = (fst (MM_Restart alias (fst w)), snd w)"
| "mt_op_exec pf F (OpPauseSending alias) w = (fst (MM_PauseSending alias (fst w)), snd w)"
| "mt_op_exec pf F (OpResumeSending alias) w = (fst (MM_ResumeSending alias (fst w)), snd w)"
| "mt_op_exec pf F (OpRestoreAll ok io) w = fst (MM_RestoreAll F ok io w)"
| "mt_op_exec pf F (OpPersist ust ok) w = (MM_PersistStates ust ok (fst w), snd w)"
| "mt_op_exec pf F OpShutdown w = MM_Shutdown w"
| "mt_op_exec pf F (OpPush env u i) w = (fst (MM_push env u i (fst w)), snd w)"

definition connecting :: "nat \<Rightarrow> 'k mtmgr \<Rightarrow> bool" where
  "connecting i m \<longleftrightarrow> (\<exists>p c wl. map_of (mm_sups m) i = Some p \<and> sp_at p = SupConnecting c wl)"

text \<open>The session of the alias is not in the middle of a \<^verbatim>\<open>Connect\<close> call.\<close>

definition settled :: "string \<Rightarrow> 'k mtmgr \<Rightarrow> bool" where
  "settled alias m \<longleftrightarrow> (\<forall>i. MM_Get alias m = Some i \<longrightarrow> \<not> connecting i m)"

fun mt_op_ok :: "mt_op \<Rightarrow> 'k mtworld \<Rightarrow> bool" where
  "mt_op_ok (OpTop io i) w = (h_inst (snd w) (si_ptr io) = None \<and> env_ok (si_lock io))"
| "mt_op_ok (OpRegister io alias token) w = settled alias (fst w)"
| "mt_op_ok (OpUnregister ok alias) w = settled alias (fst w)"
| "mt_op_ok (OpRestoreAll ok io) w = (\<forall>alias. settled alias (fst w))"
| "mt_op_ok OpShutdown w = (\<forall>e\<in>set (mm_sessions (fst w)). \<not> connecting (snd e) (fst w))"
| "mt_op_ok _ w = True"

subsection \<open>Processes on the volume\<close>

record 'k volume =
  v_procs :: "nat \<Rightarrow> 'k mtmgr option"
  v_host :: lock_host

inductive vol_step :: "float_parser \<Rightarrow> 'k fernet_lib \<Rightarrow> string \<Rightarrow> 'k volume \<Rightarrow> 'k volume \<Rightarrow> bool" for pf F d where
  boot:
    "v_procs v p = None \<Longrightarrow> SessionDir cfg = d \<Longrightarrow>
     vol_step pf F d v (v\<lparr>v_procs := (v_procs v)(p \<mapsto> MM_New cfg p st hl)\<rparr>)"
| oper:
    "v_procs v p = Some m \<Longrightarrow> mt_op_ok x (m, v_host v) \<Longrightarrow> mt_op_exec pf F x (m, v_host v) = (m', h') \<Longrightarrow>
     vol_step pf F d v \<lparr>v_procs = (v_procs v)(p \<mapsto> m'), v_host = h'\<rparr>"
| death:
    "v_procs v p = Some m \<Longrightarrow>
     vol_step pf F d v \<lparr>v_procs = (v_procs v)(p := None), v_host = crash p (v_host v)\<rparr>"

definition empty_volume :: "'k volume" where
  "empty_volume = \<lparr>v_procs = Map.empty, v_host = fresh_volume\<rparr>"

text \<open>Process \<open>p\<close> has client \<open>c\<close> connected with the auth key of session \<open>alias\<close>.\<close>

definition connected :: "'k volume \<Rightarrow> nat \<Rightarrow> nat \<Rightarrow> string \<Rightarrow> bool" where
  "connected v p c alias \<longleftrightarrow>
     (\<exists>m i s. v_procs v p = Some m \<and> (c, i) \<in> set (mm_conns m) \<and> deref i m = Some s \<and> ss_alias s = alias)"

subsection \<open>The invariant of one process\<close>

definition own_lock :: "nat \<Rightarrow> string \<Rightarrow> lock_host \<Rightarrow> nat \<Rightarrow> string \<Rightarrow> bool" where
  "own_lock p d h n alias \<longleftrightarrow>
     (\<exists>x. h_inst h n = Some x \<and> i_pid x = p \<and> i_open x = None \<and> Path (i_lock x) = Path (new_lock_obj alias d))"

definition held :: "lock_host \<Rightarrow> nat \<Rightarrow> bool" where
  "held h n \<longleftrightarrow> (\<exists>x. h_inst h n = Some x \<and> Held (i_lock x))"

text \<open>What the invariant reads of a session: its client, its lock and its alias.\<close>

definition core :: "'k mtmgr \<Rightarrow> nat \<Rightarrow> (nat option \<times> nat option \<times> string) option" where
  "core m i = map_option (\<lambda>s. (ss_client s, sessionLock s, ss_alias s)) (deref i m)"

definition proc_inv :: "nat \<Rightarrow> string \<Rightarrow> 'k mtworld \<Rightarrow> bool" where
  "proc_inv p d w \<longleftrightarrow> (case w of (m, h) \<Rightarrow>
     mm_pid m = p \<and> SessionDir (mm_cfg m) = d \<and>
     (\<forall>i. core m i \<noteq> None \<longrightarrow> i < mm_next m) \<and>
     (\<forall>i c n a. core m i = Some (c, Some n, a) \<longrightarrow> own_lock p d h n a) \<and>
     (\<forall>i j c n a c' a'. core m i = Some (c, Some n, a) \<and> core m j = Some (c', Some n, a') \<longrightarrow> i = j) \<and>
     (\<forall>c i. (c, i) \<in> set (mm_conns m) \<longrightarrow> (\<exists>n a. core m i = Some (Some c, Some n, a) \<and> held h n)) \<and>
     (\<forall>i. connecting i m \<longrightarrow> (\<exists>c n a. core m i = Some (c, Some n, a) \<and> held h n)) \<and>
     (\<forall>i c. connecting i m \<longrightarrow> (c, i) \<notin> set (mm_conns m)))"

text \<open>A change of the session that keeps its client, its lock and its alias.\<close>

definition quiet :: "(Session \<Rightarrow> Session) \<Rightarrow> bool" where
  "quiet f \<longleftrightarrow> (\<forall>s. ss_client (f s) = ss_client s \<and> sessionLock (f s) = sessionLock s \<and> ss_alias (f s) = ss_alias s)"

lemma deref_on_session [simp]:
  "deref j (on_session i f m) = (if i = j then map_option f (deref i m) else deref j m)"
  by (auto simp: on_session_def deref_def update_conv' split: option.split)

lemma on_session_frame [simp]:
  "mm_pid (on_session i f m) = mm_pid m" "mm_cfg (on_session i f m) = mm_cfg m" "mm_next (on_session i f m) = mm_next m"
  "mm_conns (on_session i f m) = mm_conns m" "mm_sups (on_session i f m) = mm_sups m"
  "mm_sessions (on_session i f m) = mm_sessions m" "mm_store (on_session i f m) = mm_store m"
  by (simp_all add: on_session_def split: option.split)

lemma deref_frame [simp]:
  "deref i (m\<lparr>mm_store := st\<rparr>) = deref i m" "deref i (m\<lparr>mm_health := hl\<rparr>) = deref i m"
  "deref i (m\<lparr>mm_sessions := ss\<rparr>) = deref i m" "deref i (m\<lparr>mm_sups := sp\<rparr>) = deref i m"
  "deref i (m\<lparr>mm_conns := cs\<rparr>) = deref i m" "deref i (m\<lparr>mm_next := nx\<rparr>) = deref i m"
  "deref i (set_sup k q m) = deref i m" "deref i (disconnect c m) = deref i m"
  by (simp_all add: deref_def set_sup_def disconnect_def split: option.split)

lemma set_sup_frame [simp]:
  "mm_pid (set_sup i q m) = mm_pid m" "mm_cfg (set_sup i q m) = mm_cfg m" "mm_next (set_sup i q m) = mm_next m"
  "mm_conns (set_sup i q m) = mm_conns m" "mm_sessions (set_sup i q m) = mm_sessions m"
  "mm_store (set_sup i q m) = mm_store m"
  by (simp_all add: set_sup_def)

lemma disconnect_frame [simp]:
  "mm_pid (disconnect c m) = mm_pid m" "mm_cfg (disconnect c m) = mm_cfg m" "mm_next (disconnect c m) = mm_next m"
  "mm_sups (disconnect c m) = mm_sups m" "mm_sessions (disconnect c m) = mm_sessions m"
  "mm_store (disconnect c m) = mm_store m"
  "set (mm_conns (disconnect c m)) = {x \<in> set (mm_conns m). Some (fst x) \<noteq> c}"
  by (auto simp: disconnect_def split: option.split)

lemma connecting_frame [simp]:
  "connecting j (on_session i f m) = connecting j m"
  "connecting j (m\<lparr>mm_store := st\<rparr>) = connecting j m" "connecting j (m\<lparr>mm_health := hl\<rparr>) = connecting j m"
  "connecting j (m\<lparr>mm_sessions := ss\<rparr>) = connecting j m" "connecting j (m\<lparr>mm_conns := cs\<rparr>) = connecting j m"
  "connecting j (m\<lparr>mm_next := nx\<rparr>) = connecting j m" "connecting j (disconnect c m) = connecting j m"
  "connecting j (set_sup i q m) = (if i = j then (\<exists>c wl. sp_at q = SupConnecting c wl) else connecting j m)"
  by (auto simp: connecting_def set_sup_def update_conv' disconnect_def split: option.splits)

lemma core_quiet [simp]: "quiet f \<Longrightarrow> core (on_session i f m) = core m"
  by (rule ext) (auto simp: core_def quiet_def option.map_comp comp_def)

lemma core_frame [simp]:
  "core (m\<lparr>mm_store := st\<rparr>) = core m" "core (m\<lparr>mm_health := hl\<rparr>) = core m" "core (m\<lparr>mm_sessions := ss\<rparr>) = core m"
  "core (m\<lparr>mm_conns := cs\<rparr>) = core m" "core (m\<lparr>mm_next := nx\<rparr>) = core m" "core (set_sup k q m) = core m"
  "core (disconnect c m) = core m"
  by (simp_all add: core_def fun_eq_iff)

lemma lockHeld_iff: "lockHeld h s \<longleftrightarrow> (\<exists>n. sessionLock s = Some n \<and> held h n)"
  by (auto simp: lockHeld_def held_def split: option.splits)

lemma proc_invD:
  assumes "proc_inv p d (m, h)"
  shows "mm_pid m = p" "SessionDir (mm_cfg m) = d" "core m i = Some k \<Longrightarrow> i < mm_next m"
    "core m i = Some (c, Some n, a) \<Longrightarrow> own_lock p d h n a"
    "core m i = Some (c, Some n, a) \<Longrightarrow> core m j = Some (c', Some n, a') \<Longrightarrow> i = j"
    "(e, i) \<in> set (mm_conns m) \<Longrightarrow> \<exists>n a. core m i = Some (Some e, Some n, a) \<and> held h n"
    "connecting i m \<Longrightarrow> \<exists>c n a. core m i = Some (c, Some n, a) \<and> held h n"
    "connecting i m \<Longrightarrow> (e, i) \<notin> set (mm_conns m)"
proof -
  note i = assms [unfolded proc_inv_def prod.case]
  show "mm_pid m = p" "SessionDir (mm_cfg m) = d" using i by simp_all
  show "i < mm_next m" if "core m i = Some k" using i that by (metis option.distinct(1))
  show "own_lock p d h n a" if "core m i = Some (c, Some n, a)" using i that by meson
  show "i = j" if "core m i = Some (c, Some n, a)" "core m j = Some (c', Some n, a')" using i that by meson
  show "\<exists>n a. core m i = Some (Some e, Some n, a) \<and> held h n" if "(e, i) \<in> set (mm_conns m)" using i that by meson
  show "\<exists>c n a. core m i = Some (c, Some n, a) \<and> held h n" if "connecting i m" using i that by meson
  show "(e, i) \<notin> set (mm_conns m)" if "connecting i m" using i that by meson
qed

lemma proc_invI:
  assumes "mm_pid m = p" "SessionDir (mm_cfg m) = d" "\<And>i k. core m i = Some k \<Longrightarrow> i < mm_next m"
    "\<And>i c n a. core m i = Some (c, Some n, a) \<Longrightarrow> own_lock p d h n a"
    "\<And>i j c n a c' a'. core m i = Some (c, Some n, a) \<Longrightarrow> core m j = Some (c', Some n, a') \<Longrightarrow> i = j"
    "\<And>i e. (e, i) \<in> set (mm_conns m) \<Longrightarrow> \<exists>n a. core m i = Some (Some e, Some n, a) \<and> held h n"
    "\<And>i. connecting i m \<Longrightarrow> \<exists>c n a. core m i = Some (c, Some n, a) \<and> held h n"
    "\<And>i e. connecting i m \<Longrightarrow> (e, i) \<notin> set (mm_conns m)"
  shows "proc_inv p d (m, h)"
  unfolding proc_inv_def prod.case
  by (intro conjI allI impI; (elim exE conjE)?; (rule assms(1,2) | erule assms(4-) | erule (1) assms(5) | use assms(3) in blast))

text \<open>Steps that open no connection, begin none and leave the sessions' cores alone.\<close>

lemma proc_inv_calm:
  assumes "proc_inv p d (m, h)" "core m' = core m" "mm_pid m' = mm_pid m" "mm_cfg m' = mm_cfg m"
    and "mm_next m \<le> mm_next m'" "set (mm_conns m') \<subseteq> set (mm_conns m)" "\<And>i. connecting i m' \<Longrightarrow> connecting i m"
  shows "proc_inv p d (m', h)"
proof (rule proc_invI)
  note D = proc_invD [OF assms(1)]
  show "mm_pid m' = p" "SessionDir (mm_cfg m') = d" using D(1,2) assms(3,4) by simp_all
  show "i < mm_next m'" if "core m' i = Some k" for i k using D(3) that assms(2,5) by (metis order_less_le_trans)
  show "own_lock p d h n a" if "core m' i = Some (c, Some n, a)" for i c n a using D(4) that assms(2) by simp
  show "i = j" if "core m' i = Some (c, Some n, a)" "core m' j = Some (c', Some n, a')" for i j c n a c' a'
    using D(5) that assms(2) by simp
  show "\<exists>n a. core m' i = Some (Some e, Some n, a) \<and> held h n" if "(e, i) \<in> set (mm_conns m')" for i e
    using D(6) that assms(2,6) by auto
  show "\<exists>c n a. core m' i = Some (c, Some n, a) \<and> held h n" if "connecting i m'" for i
    using D(7) that assms(2,7) by simp
  show "(e, i) \<notin> set (mm_conns m')" if "connecting i m'" for i e using D(8) that assms(6,7) by blast
qed

lemma quiet_simps [simp]:
  "quiet (\<lambda>s. s\<lparr>ss_state := x\<rparr>)" "quiet (\<lambda>s. s\<lparr>nextRetryAt := r\<rparr>)" "quiet (\<lambda>s. s\<lparr>SendPaused := b\<rparr>)"
  "quiet (\<lambda>s. s\<lparr>pingAt := r\<rparr>)" "quiet (\<lambda>s. s\<lparr>LastPingOKAt := r\<rparr>)" "quiet (\<lambda>s. s\<lparr>ss_reconnects := f s\<rparr>)"
  "quiet (\<lambda>s. s\<lparr>ss_state := x, startAttempts := f s\<rparr>)" "quiet (\<lambda>s. s\<lparr>ss_state := x, stopSupervisor := b\<rparr>)"
  "quiet (\<lambda>s. s\<lparr>ss_state := x, LastError := g s, nextRetryAt := r\<rparr>)"
  "quiet (\<lambda>s. s\<lparr>ss_state := x, terminalError := b, LastError := g s\<rparr>)"
  by (simp_all add: quiet_def)

lemma quiet_offer [simp]: "quiet (\<lambda>s. fst (offer u s))"
  by (simp add: quiet_def offer_def)

lemma quiet_offers: "quiet (fold (\<lambda>u x. fst (offer u x)) us)"
  by (induction us) (auto simp: quiet_def offer_def)

lemma quiet_replay [simp]: "quiet (replay_backlog us)"
  using quiet_offers [of us] by (auto simp: quiet_def replay_backlog_def)

lemma stop_offers: "stopSupervisor (fold (\<lambda>u x. fst (offer u x)) us s) = stopSupervisor s"
  by (induction us arbitrary: s) (auto simp: offer_def)

lemma stop_replay [simp]: "stopSupervisor (replay_backlog us s) = stopSupervisor s"
  by (simp add: replay_backlog_def stop_offers)

lemma push_queue_core:
  assumes "push_queue env u (s, st, hl) = ((s1, st1, h1), u1, cons)"
  shows "ss_client s1 = ss_client s \<and> sessionLock s1 = sessionLock s \<and> ss_alias s1 = ss_alias s"
  using assms by (auto simp: push_queue_def stamp_update_def belt_push_def offer_def Let_def
      split: option.splits prod.splits if_splits)

lemma core_push: "core (fst (MM_push env u i m)) = core m"
  by (rule ext) (auto simp: MM_push_def core_def split: option.split prod.splits dest!: push_queue_core)

lemma MM_push_frame [simp]:
  "mm_pid (fst (MM_push env u i m)) = mm_pid m" "mm_cfg (fst (MM_push env u i m)) = mm_cfg m"
  "mm_next (fst (MM_push env u i m)) = mm_next m" "mm_conns (fst (MM_push env u i m)) = mm_conns m"
  "connecting j (fst (MM_push env u i m)) = connecting j m"
  by (simp_all add: MM_push_def split: option.split prod.split)

lemma persist_one_frame [simp]:
  "core (persist_one ust ok e m) = core m" "mm_pid (persist_one ust ok e m) = mm_pid m"
  "mm_cfg (persist_one ust ok e m) = mm_cfg m" "mm_next (persist_one ust ok e m) = mm_next m"
  "mm_conns (persist_one ust ok e m) = mm_conns m" "connecting j (persist_one ust ok e m) = connecting j m"
  by (simp_all add: persist_one_def split: option.split)

lemma persist_inv: "proc_inv p d (m, h) \<Longrightarrow> proc_inv p d (fold (persist_one ust ok) es m, h)"
proof (induction es arbitrary: m)
  case (Cons e es)
  from Cons.prems have "proc_inv p d (persist_one ust ok e m, h)" by (rule proc_inv_calm) simp_all
  then show ?case using Cons.IH by simp
qed simp

lemma sup_warm_inv: "proc_inv p d (m, h) \<Longrightarrow> proc_inv p d (sup_warm ok i (m, h))"
  by (auto simp: sup_warm_def start_done_def intro!: proc_inv_calm [where m = m]
      split: option.split sup_point.split if_splits)

subsection \<open>The lock operations\<close>

text \<open>A step of process \<open>p\<close> leaves the lock objects of the other processes alone.\<close>

definition frame :: "nat \<Rightarrow> lock_host \<Rightarrow> lock_host \<Rightarrow> bool" where
  "frame p h h' \<longleftrightarrow> (\<forall>n x. h_inst h n = Some x \<and> i_pid x \<noteq> p \<longrightarrow> h_inst h' n = Some x)"

lemma host_frame_refl [simp]: "frame p h h"
  by (simp add: frame_def)

lemma host_frame_trans: "frame p h h' \<Longrightarrow> frame p h' h'' \<Longrightarrow> frame p h h''"
  by (simp add: frame_def)

lemma proc_inv_other:
  assumes "proc_inv q d (m, h)" "\<And>n x. h_inst h n = Some x \<Longrightarrow> i_pid x = q \<Longrightarrow> h_inst h' n = Some x"
  shows "proc_inv q d (m, h')"
proof (rule proc_invI)
  note D = proc_invD [OF assms(1)]
  have lk: "own_lock q d h' n a" if "own_lock q d h n a" for n a using that assms(2) unfolding own_lock_def by blast
  have hd: "held h' n" if "own_lock q d h n a" "held h n" for n a
    using that assms(2) unfolding own_lock_def held_def by (metis option.inject)
  show "mm_pid m = q" "SessionDir (mm_cfg m) = d" using D(1,2) by simp_all
  show "i < mm_next m" if "core m i = Some k" for i k using D(3) that by blast
  show "own_lock q d h' n a" if "core m i = Some (c, Some n, a)" for i c n a using D(4) that lk by blast
  show "i = j" if "core m i = Some (c, Some n, a)" "core m j = Some (c', Some n, a')" for i j c n a c' a'
    using D(5) that by blast
  show "\<exists>n a. core m i = Some (Some e, Some n, a) \<and> held h' n" if "(e, i) \<in> set (mm_conns m)" for i e
    using D(6) [OF that] D(4) hd by blast
  show "\<exists>c n a. core m i = Some (c, Some n, a) \<and> held h' n" if "connecting i m" for i
    using D(7) [OF that] D(4) hd by blast
  show "(e, i) \<notin> set (mm_conns m)" if "connecting i m" for i e using D(8) that by blast
qed

lemma Acquire_path:
  "Acquire pf env l tok k = (l', t, k', ok) \<Longrightarrow> Path l' = Path l \<and> (Held l' \<longleftrightarrow> ok \<or> Held l)"
  by (auto simp: Acquire_def Acquire_open_def Acquire_take_def Path_def Held_def Let_def
      split: prod.splits option.splits if_splits)

lemma Acquire_steps:
  assumes fresh: "h_inst h n = None" and env: "env_ok env"
    and acq: "Acquire pf env (new_lock_obj a d) (h_tokens h p) (h_kernel h) = (l, t, k, ok)"
  shows "(lock_step pf)\<^sup>*\<^sup>* h (h\<lparr>h_kernel := k, h_inst := (h_inst h)(n \<mapsto> \<lparr>i_pid = p, i_lock = l, i_open = None\<rparr>),
      h_tokens := (h_tokens h)(p := t)\<rparr>)"
proof -
  let ?h' = "h\<lparr>h_kernel := k, h_inst := (h_inst h)(n \<mapsto> \<lparr>i_pid = p, i_lock = l, i_open = None\<rparr>),
      h_tokens := (h_tokens h)(p := t)\<rparr>"
  let ?x = "\<lparr>i_pid = p, i_lock = new_lock_obj a d, i_open = None\<rparr>"
  let ?h1 = "h\<lparr>h_inst := (h_inst h)(n \<mapsto> ?x)\<rparr>"
  have s1: "lock_step pf h ?h1" unfolding new_lock_obj_def by (rule new_lock [where h = h and n = n, OF fresh])
  obtain l1 k1 f where o: "Acquire_open env (new_lock_obj a d) (h_kernel h) = (l1, k1, f)" by (metis prod.exhaust)
  let ?h2 = "?h1\<lparr>h_kernel := k1, h_inst := (h_inst ?h1)(n \<mapsto> ?x\<lparr>i_lock := l1, i_open := f\<rparr>)\<rparr>"
  have s2: "lock_step pf ?h1 ?h2"
    using acquire_open [of ?h1 n ?x env l1 k1 f pf] o by simp
  show ?thesis
  proof (cases f)
    case None
    with acq o have "l = l1" "t = h_tokens h p" "k = k1" by (simp_all add: Acquire_def)
    with None have "?h2 = ?h'" by simp
    with s1 s2 show ?thesis by (metis (no_types, lifting) rtranclp.simps)
  next
    case (Some g)
    with acq o have t: "Acquire_take pf env g l1 (h_tokens h p) k1 = (l, t, k, ok)" by (simp add: Acquire_def)
    have "lock_step pf ?h2 ?h'"
      using acquire_take [of ?h2 n "?x\<lparr>i_lock := l1, i_open := f\<rparr>" g env pf l t k ok] Some env t by simp
    with s1 s2 show ?thesis by (metis (no_types, lifting) rtranclp.simps)
  qed
qed

lemma acquireLock_spec:
  assumes "proc_inv p d (m, h)" "deref i m = Some s" "\<not> lockHeld h s" "h_inst h n = None" "env_ok env"
    and "acquireLock pf env n i (m, h) = ((m', h'), ok)"
  shows "(lock_step pf)\<^sup>*\<^sup>* h h' \<and> frame p h h' \<and> proc_inv p d (m', h') \<and> (\<exists>s'. deref i m' = Some s' \<and> ss_client s' = ss_client s \<and>
     (ok \<longrightarrow> lockHeld h' s')) \<and> (\<forall>e. (e, i) \<notin> set (mm_conns m')) \<and> \<not> connecting i m' \<and> mm_next m' = mm_next m"
proof -
  note D = proc_invD [OF assms(1)]
  obtain l t k ok' where a: "Acquire pf env (new_lock_obj (ss_alias s) d) (h_tokens h p) (h_kernel h) = (l, t, k, ok')"
    by (metis prod.exhaust)
  let ?x = "\<lparr>i_pid = p, i_lock = l, i_open = None\<rparr>"
  let ?h' = "h\<lparr>h_kernel := k, h_inst := (h_inst h)(n \<mapsto> ?x), h_tokens := (h_tokens h)(p := t)\<rparr>"
  have r: "h' = ?h'" "ok' = ok" "m' = (if ok then on_session i (\<lambda>s. s\<lparr>sessionLock := Some n\<rparr>) m else m)"
    using assms(2,6) a D(1,2) by (auto simp: acquireLock_def Let_def split: if_splits)
  have x: "Path l = Path (new_lock_obj (ss_alias s) d)" "Held l = ok"
    using Acquire_path [OF a] r(2) by (simp_all add: new_lock_obj_def Held_def)
  have steps: "(lock_step pf)\<^sup>*\<^sup>* h h'" unfolding r(1) by (rule Acquire_steps [OF assms(4,5) a])
  have keep: "h_inst h' j = Some y" if "h_inst h j = Some y" for j y using that assms(4) by (auto simp: r(1))
  have fr: "frame p h h'" using keep by (simp add: frame_def)
  have inv: "proc_inv p d (m, h')" using proc_inv_other [OF assms(1)] keep by blast
  note E = proc_invD [OF inv]
  have ci: "core m i = Some (ss_client s, sessionLock s, ss_alias s)" using assms(2) by (simp add: core_def)
  have none: "\<not> connecting i m" "(e, i) \<notin> set (mm_conns m)" for e
    using D(6,7) ci assms(3) unfolding lockHeld_iff by fastforce+
  have used: "core m j = Some (c, Some u, b) \<Longrightarrow> u \<noteq> n" for j c u b
    using D(4) assms(4) by (fastforce simp: own_lock_def)
  have "proc_inv p d (m', h')"
  proof (cases ok)
    case False
    with inv show ?thesis by (simp add: r)
  next
    case True
    have core: "core m' = (core m)(i \<mapsto> (ss_client s, Some n, ss_alias s))"
      using assms(2) True by (auto simp: r core_def fun_eq_iff)
    have m': "mm_pid m' = mm_pid m" "mm_cfg m' = mm_cfg m" "mm_next m' = mm_next m" "mm_conns m' = mm_conns m"
      "\<And>j. connecting j m' = connecting j m" by (simp_all add: r)
    have mine: "own_lock p d h' n (ss_alias s)" using x by (simp add: own_lock_def r)
    show ?thesis
    proof (rule proc_invI)
      show "own_lock p d h' u b" if "core m' j = Some (c, Some u, b)" for j c u b
        using that E(4) mine by (auto simp: core split: if_splits)
      show "j = j'" if "core m' j = Some (c, Some u, b)" "core m' j' = Some (c', Some u, b')" for j j' c u b c' b'
        using that E(5) by (auto simp: core dest: used split: if_splits)
      show "\<exists>u b. core m' j = Some (Some e, Some u, b) \<and> held h' u" if "(e, j) \<in> set (mm_conns m')" for j e
        using E(6) that none(2) by (auto simp: core m')
      show "\<exists>c u b. core m' j = Some (c, Some u, b) \<and> held h' u" if "connecting j m'" for j
        using E(7) that none(1) by (auto simp: core m')
    qed (use E(1-3,8) ci in \<open>auto simp: m' core split: if_splits\<close>)
  qed
  moreover have "\<exists>s'. deref i m' = Some s' \<and> ss_client s' = ss_client s \<and> (ok \<longrightarrow> lockHeld h' s')"
    using assms(2) x by (auto simp: r lockHeld_def)
  ultimately show ?thesis using steps fr none by (simp add: r)
qed

lemma releaseLock_spec:
  assumes "proc_inv p d (m, h)" "deref i m = Some s" "\<not> connecting i m" "\<forall>e. (e, i) \<notin> set (mm_conns m)"
    and "releaseLock i (m, h) = (m', h')"
  shows "(lock_step pf)\<^sup>*\<^sup>* h h' \<and> frame p h h' \<and> proc_inv p d (m', h')"
proof -
  note D = proc_invD [OF assms(1)]
  have ci: "core m i = Some (ss_client s, sessionLock s, ss_alias s)" using assms(2) by (simp add: core_def)
  have m': "m' = on_session i (\<lambda>s. s\<lparr>sessionLock := None\<rparr>) m" using assms(2,5) by (simp add: releaseLock_def)
  have core: "core m' = (core m)(i \<mapsto> (ss_client s, None, ss_alias s))"
    using assms(2) by (auto simp: m' core_def fun_eq_iff)
  have fields: "mm_pid m' = mm_pid m" "mm_cfg m' = mm_cfg m" "mm_next m' = mm_next m" "mm_conns m' = mm_conns m"
      "\<And>j. connecting j m' = connecting j m" by (simp_all add: m')
  have inv: "proc_inv p d (m', h)"
  proof (rule proc_invI)
    show "own_lock p d h u b" if "core m' j = Some (c, Some u, b)" for j c u b
      using that D(4) by (auto simp: core split: if_splits)
    show "j = j'" if "core m' j = Some (c, Some u, b)" "core m' j' = Some (c', Some u, b')" for j j' c u b c' b'
      using that D(5) by (auto simp: core split: if_splits)
    show "\<exists>u b. core m' j = Some (Some e, Some u, b) \<and> held h u" if "(e, j) \<in> set (mm_conns m')" for j e
      using D(6) that assms(4) by (auto simp: core fields)
    show "\<exists>c u b. core m' j = Some (c, Some u, b) \<and> held h u" if "connecting j m'" for j
      using D(7) that assms(3) by (auto simp: core fields)
  qed (use D(1-3,8) ci in \<open>auto simp: fields core split: if_splits\<close>)
  show ?thesis
  proof (cases "sessionLock s")
    case None
    then have "h' = h" using assms(2,5) by (simp add: releaseLock_def)
    with inv show ?thesis by simp
  next
    case (Some n)
    with ci D(4) have "own_lock p d h n (ss_alias s)" by simp
    then obtain x where x: "h_inst h n = Some x" "i_pid x = p" "i_open x = None" by (auto simp: own_lock_def)
    obtain l k where r: "Release (i_lock x) (h_kernel h) = (l, k)" by (metis prod.exhaust)
    have h': "h' = h\<lparr>h_kernel := k, h_inst := (h_inst h)(n \<mapsto> x\<lparr>i_lock := l\<rparr>)\<rparr>"
      using assms(2,5) Some x(1) r by (simp add: releaseLock_def release_obj_def)
    have "lock_step pf h h'" unfolding h' by (rule lock_release [OF x(1,3) r])
    moreover have "frame p h h'" using x by (auto simp: frame_def h')
    moreover have other: "u \<noteq> n" if "core m' j = Some (c, Some u, b)" for j c u b
      using that D(5) ci Some by (auto simp: core split: if_splits)
    have "proc_inv p d (m', h')"
    proof (rule proc_invI)
      note E = proc_invD [OF inv]
      show "own_lock p d h' u b" if "core m' j = Some (c, Some u, b)" for j c u b
        using E(4) [OF that] other [OF that] by (simp add: own_lock_def h')
      show "\<exists>u b. core m' j = Some (Some e, Some u, b) \<and> held h' u" if "(e, j) \<in> set (mm_conns m')" for j e
        using E(6) [OF that] other by (fastforce simp: held_def h')
      show "\<exists>c u b. core m' j = Some (c, Some u, b) \<and> held h' u" if "connecting j m'" for j
        using E(7) [OF that] other by (fastforce simp: held_def h')
    qed (use proc_invD [OF inv] in blast)+
    ultimately show ?thesis by blast
  qed
qed

subsection \<open>The supervisor's steps\<close>

definition good :: "float_parser \<Rightarrow> nat \<Rightarrow> string \<Rightarrow> 'k mtworld \<Rightarrow> 'k mtworld \<Rightarrow> bool" where
  "good pf p d w w' \<longleftrightarrow> (lock_step pf)\<^sup>*\<^sup>* (snd w) (snd w') \<and> frame p (snd w) (snd w') \<and> proc_inv p d w'"

lemma good_calm: "proc_inv p d (m', h) \<Longrightarrow> good pf p d (m, h) (m', h)"
  by (simp add: good_def)

lemma good_trans: "good pf p d w w' \<Longrightarrow> good pf p d w' w'' \<Longrightarrow> good pf p d w w''"
  unfolding good_def by (meson host_frame_trans rtranclp_trans)

lemma begin_connect_inv:
  assumes inv: "proc_inv p d (m, h)" and s: "deref i m = Some s" "lockHeld h s"
    and c: "\<forall>e. (e, i) \<in> set (mm_conns m) \<longrightarrow> ss_client s = Some e"
  shows "proc_inv p d (begin_connect i q m, h)"
proof -
  let ?m = "begin_connect i q m"
  note D = proc_invD [OF inv]
  have f: "core ?m = core m" "mm_pid ?m = mm_pid m" "mm_cfg ?m = mm_cfg m" "mm_next ?m = mm_next m + 1"
    "set (mm_conns ?m) = {x \<in> set (mm_conns m). Some (fst x) \<noteq> ss_client s}"
    "\<And>j. connecting j ?m \<longleftrightarrow> j = i \<or> connecting j m"
    using s(1) by (auto simp: begin_connect_def Let_def)
  obtain n where n: "core m i = Some (ss_client s, Some n, ss_alias s)" "held h n"
    using s by (auto simp: core_def lockHeld_iff)
  show ?thesis
  proof (rule proc_invI)
    show "j < mm_next ?m" if "core ?m j = Some k" for j k using D(3) that f by fastforce
    show "\<exists>u b. core ?m j = Some (Some e, Some u, b) \<and> held h u" if "(e, j) \<in> set (mm_conns ?m)" for j e
      using D(6) that f by auto
    show "\<exists>c u b. core ?m j = Some (c, Some u, b) \<and> held h u" if "connecting j ?m" for j
      using D(7) that f n by auto
    show "(e, j) \<notin> set (mm_conns ?m)" if "connecting j ?m" for j e
      using D(8) that f c by auto
    show "own_lock p d h u b" if "core ?m j = Some (c, Some u, b)" for j c u b using D(4) that f by simp
    show "j = j'" if "core ?m j = Some (c, Some u, b)" "core ?m j' = Some (c', Some u, b')" for j j' c u b c' b'
      using D(5) that f by simp
  qed (simp_all add: f D(1,2))
qed

lemma sup_top_good:
  assumes inv: "proc_inv p d (m, h)" and fresh: "h_inst h (si_ptr io) = None" "env_ok (si_lock io)"
  shows "good pf p d (m, h) (sup_top pf io i (m, h))"
proof (cases "deref i m")
  case None
  then show ?thesis using inv by (simp add: sup_top_def good_def)
next
  case (Some s)
  show ?thesis
  proof (cases "map_of (mm_sups m) i")
    case None
    then show ?thesis using inv Some by (simp add: sup_top_def good_def)
  next
    case sup: (Some q)
    have sup_inv: "proc_inv p d (sup_ping io i s m, h)"
      using inv by (rule proc_inv_calm) (auto simp: sup_ping_def Let_def split: if_splits)
    have ret: "proc_inv p d (set_sup i (q\<lparr>sp_at := SupReturned\<rparr>) m, h)"
      using inv by (rule proc_inv_calm) (auto split: if_splits)
    have conn: "(e, i) \<in> set (mm_conns m) \<Longrightarrow> ss_client s = Some e" for e
      using proc_invD(6) [OF inv] Some by (fastforce simp: core_def)
    obtain m1 h1 ok where a: "(if lockHeld h s then ((m, h), True) else acquireLock pf (si_lock io) (si_ptr io) i (m, h))
        = ((m1, h1), ok)" by (metis prod.exhaust)
    have "good pf p d (m, h) (m1, h1) \<and> (\<exists>s'. deref i m1 = Some s' \<and> (ok \<longrightarrow> lockHeld h1 s') \<and>
        (\<forall>e. (e, i) \<in> set (mm_conns m1) \<longrightarrow> ss_client s' = Some e))"
    proof (cases "lockHeld h s")
      case True
      with a inv Some conn show ?thesis by (auto simp: good_def)
    next
      case False
      with a have "acquireLock pf (si_lock io) (si_ptr io) i (m, h) = ((m1, h1), ok)" by simp
      from acquireLock_spec [OF inv Some False fresh this] show ?thesis by (auto simp: good_def)
    qed
    then obtain s1 where g: "good pf p d (m, h) (m1, h1)" "deref i m1 = Some s1" "ok \<longrightarrow> lockHeld h1 s1"
        "\<forall>e. (e, i) \<in> set (mm_conns m1) \<longrightarrow> ss_client s1 = Some e" by blast
    have m1: "proc_inv p d (m1, h1)" using g(1) by (simp add: good_def)
    have "proc_inv p d (on_session i (\<lambda>s. s\<lparr>ss_state := StateError, LastError := lock_refused (ss_alias s),
        nextRetryAt := si_refused_at io + 60\<rparr>) m1, h1)"
      using m1 by (rule proc_inv_calm) simp_all
    then have refused: "good pf p d (m, h) (on_session i (\<lambda>s. s\<lparr>ss_state := StateError, LastError := lock_refused (ss_alias s),
        nextRetryAt := si_refused_at io + 60\<rparr>) m1, h1)" using good_trans [OF g(1)] good_calm by blast
    have begun: "good pf p d (m, h) (begin_connect i q m1, h1)" if ok
    proof -
      have "proc_inv p d (begin_connect i q m1, h1)" using begin_connect_inv [OF m1 g(2) _ g(4)] g(3) that by blast
      then show ?thesis using good_trans [OF g(1)] good_calm by blast
    qed
    show ?thesis
      unfolding sup_top_def prod.case Some sup option.case a
      using inv ret sup_inv refused begun by (auto intro: good_calm)
  qed
qed

lemma start_done_frame [simp]:
  "core (start_done wl i q m) = core m" "mm_pid (start_done wl i q m) = mm_pid m"
  "mm_cfg (start_done wl i q m) = mm_cfg m" "mm_next (start_done wl i q m) = mm_next m"
  "mm_conns (start_done wl i q m) = mm_conns m"
  "connecting j (start_done wl i q m) \<longleftrightarrow> j \<noteq> i \<and> connecting j m"
  by (auto simp: start_done_def)

lemma start_failed_frame [simp]:
  "core (start_failed io err wl i q m) = core m" "mm_pid (start_failed io err wl i q m) = mm_pid m"
  "mm_cfg (start_failed io err wl i q m) = mm_cfg m" "mm_next (start_failed io err wl i q m) = mm_next m"
  "mm_conns (start_failed io err wl i q m) = mm_conns m"
  "connecting j (start_failed io err wl i q m) \<longleftrightarrow> j \<noteq> i \<and> connecting j m"
  by (cases "ClassifyStartError err"; cases "ParseFloodWait err"; simp add: start_failed_def Let_def; fail)+

lemma sup_connect_good:
  assumes inv: "proc_inv p d (m, h)"
  shows "good pf p d (m, h) (sup_connect io i (m, h))"
proof (cases "connecting i m")
  case False
  then show ?thesis
    using inv by (auto simp: sup_connect_def connecting_def good_def split: option.split sup_point.split)
next
  case True
  then obtain q c wl where q: "map_of (mm_sups m) i = Some q" "sp_at q = SupConnecting c wl"
    by (auto simp: connecting_def)
  note D = proc_invD [OF inv]
  obtain n where n: "\<exists>c a. core m i = Some (c, Some n, a)" "held h n" using D(7) [OF True] by blast
  then obtain s where s: "deref i m = Some s" "sessionLock s = Some n" by (auto simp: core_def)
  show ?thesis
  proof (cases "ci_err io")
    case (Some err)
    obtain m1 h1 where r: "releaseLock i (m, h) = (m1, h1)" by (metis prod.exhaust)
    have idle: "proc_inv p d (set_sup i (q\<lparr>sp_at := SupTop\<rparr>) m, h)"
      using inv by (rule proc_inv_calm) (auto split: if_splits)
    have r': "releaseLock i (set_sup i (q\<lparr>sp_at := SupTop\<rparr>) m, h) = (set_sup i (q\<lparr>sp_at := SupTop\<rparr>) m1, h1)"
      using r s by (auto simp: releaseLock_def on_session_def deref_def set_sup_def)
    from releaseLock_spec [OF idle _ _ _ r', of s] s D(8) [OF True]
    have g: "(lock_step pf)\<^sup>*\<^sup>* h h1" "frame p h h1" "proc_inv p d (set_sup i (q\<lparr>sp_at := SupTop\<rparr>) m1, h1)"
      by simp_all
    have "proc_inv p d (start_failed io err wl i q m1, h1)"
      using g(3) by (rule proc_inv_calm) simp_all
    with g(1,2) show ?thesis
      unfolding sup_connect_def prod.case q option.case sup_point.case Some r by (simp add: good_def)
  next
    case None
    let ?m = "set_sup i (q\<lparr>sp_at := SupWarming c wl\<rparr>)
       (on_session i (\<lambda>s. s\<lparr>ss_client := Some c, ss_state := StateLive, ConnectedSince := ci_wall io\<rparr>)
          (m\<lparr>mm_conns := (c, i) # mm_conns m\<rparr>))"
    have core: "core ?m = (core m)(i \<mapsto> (Some c, Some n, ss_alias s))"
      using s by (auto simp: core_def fun_eq_iff)
    have f: "mm_pid ?m = mm_pid m" "mm_cfg ?m = mm_cfg m" "mm_next ?m = mm_next m"
      "set (mm_conns ?m) = insert (c, i) (set (mm_conns m))" "\<And>j. connecting j ?m \<longleftrightarrow> j \<noteq> i \<and> connecting j m"
      by auto
    have ci: "core m i = Some (ss_client s, Some n, ss_alias s)" using s by (simp add: core_def)
    have "proc_inv p d (?m, h)"
    proof (rule proc_invI)
      show "own_lock p d h u b" if "core ?m j = Some (e, Some u, b)" for j e u b
        using that D(4) [OF ci] D(4) unfolding core by (auto split: if_splits)
      show "j = j'" if "core ?m j = Some (e, Some u, b)" "core ?m j' = Some (e', Some u, b')" for j j' e u b e' b'
        using that D(5) ci unfolding core by (auto split: if_splits)
      show "\<exists>u b. core ?m j = Some (Some e, Some u, b) \<and> held h u" if "(e, j) \<in> set (mm_conns ?m)" for j e
        using D(6) D(8) [OF True] that n(2) unfolding f core by auto
      show "\<exists>e u b. core ?m j = Some (e, Some u, b) \<and> held h u" if "connecting j ?m" for j
        using D(7) that unfolding f core by auto
      show "(e, j) \<notin> set (mm_conns ?m)" if "connecting j ?m" for j e
        using D(8) that unfolding f by auto
      show "j < mm_next ?m" if "core ?m j = Some k" for j k
        using that D(3) [OF ci] D(3) unfolding f core by (auto split: if_splits)
    qed (simp_all only: f D(1,2))
    then have "good pf p d (m, h) (?m, h)" by (rule good_calm)
    then show ?thesis unfolding sup_connect_def prod.case q option.case sup_point.case None .
  qed
qed

subsection \<open>The lifecycle operations\<close>

lemma releaseLock_frame:
  assumes "releaseLock i (m, h) = (m', h')"
  shows "mm_sessions m' = mm_sessions m \<and> mm_sups m' = mm_sups m \<and> mm_next m' = mm_next m"
  using assms by (auto simp: releaseLock_def split: option.splits)

text \<open>Stopping a session that is not connecting: what \<open>MM_Unregister\<close> and \<open>MM_Shutdown\<close> share.\<close>

definition stop_session :: "nat \<Rightarrow> 'k mtworld \<Rightarrow> 'k mtworld" where
  "stop_session i w = mt_shutdown_one ([], i) w"

lemma stop_session_good:
  assumes "proc_inv p d (m, h)" "\<not> connecting i m"
  shows "good pf p d (m, h) (stop_session i (m, h))"
proof (cases "deref i m")
  case None
  have "on_session i f m = m" for f using None by (simp add: on_session_def)
  with None assms show ?thesis
    by (simp add: stop_session_def mt_shutdown_one_def Let_def releaseLock_def disconnect_def good_def)
next
  case (Some s)
  let ?m2 = "disconnect (ss_client s) (on_session i (\<lambda>s. s\<lparr>ss_state := StateDraining, stopSupervisor := True\<rparr>) m)"
  obtain m3 h3 where r: "releaseLock i (?m2, h) = (m3, h3)" by (metis prod.exhaust)
  have inv: "proc_inv p d (?m2, h)" using assms(1) by (rule proc_inv_calm) auto
  have "(e, i) \<notin> set (mm_conns ?m2)" for e
    using proc_invD(6) [OF assms(1), of e i] Some by (auto simp: core_def)
  with releaseLock_spec [OF inv _ _ _ r, of "s\<lparr>ss_state := StateDraining, stopSupervisor := True\<rparr>"] Some assms(2)
  have "good pf p d (m, h) (m3, h3)" by (simp add: good_def)
  then show ?thesis using Some r by (simp add: stop_session_def mt_shutdown_one_def Let_def)
qed

lemma stop_session_frame:
  "mm_sessions (fst (stop_session i w)) = mm_sessions (fst w)" "mm_sups (fst (stop_session i w)) = mm_sups (fst w)"
  by (cases w; simp add: stop_session_def mt_shutdown_one_def Let_def;
      metis (no_types, lifting) releaseLock_frame disconnect_frame(4,5) on_session_frame(5,6) prod.collapse)+

lemma MM_Unregister_eq:
  assumes "MM_Get alias (fst w) = Some i"
  shows "fst (MM_Unregister ok alias w) =
    (let (m3, h3) = stop_session i ((fst w)\<lparr>mm_sessions := AList.delete alias (mm_sessions (fst w))\<rparr>, snd w)
     in (m3\<lparr>mm_store := fst (Delete ok alias (mm_store m3))\<rparr>, h3))"
  using assms by (cases w) (simp add: MM_Unregister_def stop_session_def mt_shutdown_one_def Let_def case_prod_unfold)

lemma proc_inv_store:
  assumes "proc_inv p d (m, h)"
  shows "proc_inv p d (m\<lparr>mm_store := st\<rparr>, h)" "proc_inv p d (m\<lparr>mm_sessions := ss\<rparr>, h)"
  by (rule proc_inv_calm [OF assms]; simp)+

lemma MM_Unregister_good:
  assumes "proc_inv p d (m, h)" "settled alias m"
  shows "good pf p d (m, h) (fst (MM_Unregister ok alias (m, h)))"
proof (cases "MM_Get alias m")
  case None
  then show ?thesis using assms(1) by (simp add: MM_Unregister_def good_def)
next
  case (Some i)
  let ?m = "m\<lparr>mm_sessions := AList.delete alias (mm_sessions m)\<rparr>"
  obtain m3 h3 where r: "stop_session i (?m, h) = (m3, h3)" by (metis prod.exhaust)
  have "\<not> connecting i ?m" using assms(2) Some by (simp add: settled_def)
  from stop_session_good [where pf = pf, OF proc_inv_store(2) [OF assms(1)] this] r
  have g: "good pf p d (m, h) (m3, h3)" by (simp add: good_def)
  moreover have "proc_inv p d (m3\<lparr>mm_store := fst (Delete ok alias (mm_store m3))\<rparr>, h3)"
    using g proc_inv_store(1) unfolding good_def by blast
  ultimately have "good pf p d (m, h) (m3\<lparr>mm_store := fst (Delete ok alias (mm_store m3))\<rparr>, h3)"
    by (simp add: good_def)
  then show ?thesis using MM_Unregister_eq [of "alias" "(m, h)"] Some r by simp
qed

lemma register_new_good:
  assumes inv: "proc_inv p d (m, h)"
  shows "good pf p d (m, h) (fst (register_new F io alias token (m, h)))"
proof -
  obtain st ok where r: "Register F (rg_iv io) (rg_now io) (rg_ok io) alias token (mm_store m) = (st, ok)"
    by (metis prod.exhaust)
  let ?i = "mm_next m"
  let ?m = "m\<lparr>mm_store := st, mm_heap := AList.update ?i (NewSession (mm_cfg m) (rg_guard io) alias token) (mm_heap m),
     mm_sessions := AList.update alias ?i (mm_sessions m),
     mm_sups := AList.update ?i \<lparr>sp_backoff = 1, sp_at = SupTop\<rparr> (mm_sups m), mm_next := ?i + 1\<rparr>"
  note D = proc_invD [OF inv]
  have core: "core ?m = (core m)(?i \<mapsto> (None, None, alias))"
    by (auto simp: core_def deref_def update_conv' NewSession_def fun_eq_iff)
  have f: "mm_pid ?m = mm_pid m" "mm_cfg ?m = mm_cfg m" "mm_next ?m = ?i + 1" "mm_conns ?m = mm_conns m"
      "\<And>j. connecting j ?m \<longleftrightarrow> j \<noteq> ?i \<and> connecting j m"
    by (auto simp: connecting_def update_conv')
  have fresh: "core m ?i = None" using D(3) [of ?i] by (cases "core m ?i") auto
  have "proc_inv p d (?m, h)"
  proof (rule proc_invI)
    show "own_lock p d h u b" if "core ?m j = Some (e, Some u, b)" for j e u b
      using that D(4) unfolding core by (auto split: if_splits)
    show "j = j'" if "core ?m j = Some (e, Some u, b)" "core ?m j' = Some (e', Some u, b')" for j j' e u b e' b'
      using that D(5) unfolding core by (auto split: if_splits)
    show "\<exists>u b. core ?m j = Some (Some e, Some u, b) \<and> held h u" if "(e, j) \<in> set (mm_conns ?m)" for j e
      using D(6) [of e j] that fresh unfolding f core by auto
    show "\<exists>e u b. core ?m j = Some (e, Some u, b) \<and> held h u" if "connecting j ?m" for j
      using D(7) that unfolding f core by auto
    show "(e, j) \<notin> set (mm_conns ?m)" if "connecting j ?m" for j e using D(8) that unfolding f by auto
    show "j < mm_next ?m" if "core ?m j = Some k" for j k
      using that D(3) [of j] unfolding f core by (fastforce split: if_splits)
  qed (simp_all only: f D(1,2))
  then show ?thesis
    using r proc_inv_store(1) [OF inv] by (simp add: register_new_def Let_def good_calm)
qed

lemma MM_Register_good:
  assumes "proc_inv p d w" "settled alias (fst w)"
  shows "good pf p d w (fst (MM_Register F io alias token w))"
proof -
  obtain m h where w: "w = (m, h)" by (metis prod.exhaust)
  obtain m1 h1 where u: "fst (MM_Unregister (rg_del_ok io) alias (m, h)) = (m1, h1)" by (metis prod.exhaust)
  have g: "good pf p d (m, h) (m1, h1)"
    using MM_Unregister_good [of p d m h "alias" pf "rg_del_ok io"] assms w u by simp
  then have "proc_inv p d (m1, h1)" by (simp add: good_def)
  then have "good pf p d (m, h) (fst (register_new F io alias token (m1, h1)))"
    using register_new_good good_trans [OF g] by blast
  moreover have "good pf p d (m, h) (m, h)" using assms w by (simp add: good_def)
  moreover have "good pf p d (m, h) (fst (register_new F io alias token (m, h)))"
    using register_new_good assms w by blast
  ultimately show ?thesis by (simp add: MM_Register_def w u Let_def split: option.split)
qed

definition calm_all :: "'k mtmgr \<Rightarrow> bool" where
  "calm_all m \<longleftrightarrow> (\<forall>alias. settled alias m)"

lemma calm_all_iff: "calm_all m \<longleftrightarrow> (\<forall>alias i. map_of (mm_sessions m) alias = Some i \<longrightarrow> \<not> connecting i m)"
  by (simp add: calm_all_def settled_def MM_Get_def)

lemma connecting_cong: "mm_sups m = mm_sups m' \<Longrightarrow> connecting i m = connecting i m'"
  by (simp add: connecting_def)

lemma Unregister_calm:
  assumes "calm_all (fst w)"
  shows "calm_all (fst (fst (MM_Unregister ok alias w)))"
proof (cases "MM_Get alias (fst w)")
  case None
  then show ?thesis using assms by (cases w) (simp add: MM_Unregister_def)
next
  case (Some i)
  have m: "mm_sessions (fst (fst (MM_Unregister ok alias w))) = AList.delete alias (mm_sessions (fst w))"
    "mm_sups (fst (fst (MM_Unregister ok alias w))) = mm_sups (fst w)"
    unfolding MM_Unregister_eq [OF Some] by (simp_all add: case_prod_unfold Let_def stop_session_frame)
  show ?thesis
    using assms connecting_cong [OF m(2)] unfolding calm_all_iff m(1) by (auto simp: delete_conv' split: if_splits)
qed

lemma register_new_calm: "calm_all (fst w) \<Longrightarrow> calm_all (fst (fst (register_new F io alias token w)))"
  by (cases w) (auto simp: register_new_def Let_def calm_all_iff connecting_def update_conv' split: prod.splits if_splits)

lemma Register_calm:
  assumes "calm_all (fst w)"
  shows "calm_all (fst (fst (MM_Register F io alias token w)))"
  by (simp add: MM_Register_def Let_def assms register_new_calm Unregister_calm split: option.split)

lemma on_alias_frame:
  "quiet f \<Longrightarrow> core (fst (on_alias a f m)) = core m" "mm_pid (fst (on_alias a f m)) = mm_pid m"
  "mm_cfg (fst (on_alias a f m)) = mm_cfg m" "mm_next (fst (on_alias a f m)) = mm_next m"
  "mm_conns (fst (on_alias a f m)) = mm_conns m" "mm_sups (fst (on_alias a f m)) = mm_sups m"
  "mm_sessions (fst (on_alias a f m)) = mm_sessions m" "connecting j (fst (on_alias a f m)) = connecting j m"
  by (simp_all add: on_alias_def split: option.split)

lemma on_alias_inv: "proc_inv p d (m, h) \<Longrightarrow> quiet f \<Longrightarrow> proc_inv p d (fst (on_alias a f m), h)"
  by (erule proc_inv_calm) (simp_all add: on_alias_frame)

lemma restore_good:
  "proc_inv p d w \<Longrightarrow> calm_all (fst w) \<Longrightarrow> good pf p d w (fst (restore_sessions F rows w))"
proof (induction F rows w rule: restore_sessions.induct)
  case (1 F w)
  then show ?case by (simp add: good_def)
next
  case (2 F row io rest w)
  show ?case
  proof (cases "MT_GetToken F (sr_alias row) (mm_store (fst w))")
    case None
    with "2.IH"(1) "2.prems" show ?thesis by simp
  next
    case (Some token)
    obtain w1 r where reg: "MM_Register F io (sr_alias row) token w = (w1, r)" by (metis prod.exhaust)
    have g: "good pf p d w w1"
      using MM_Register_good [OF "2.prems"(1), where pf = pf and F = F and io = io and token = token] "2.prems"(2) reg
      by (metis calm_all_def fst_conv)
    have c: "calm_all (fst w1)" using Register_calm [OF "2.prems"(2)] reg by (metis fst_conv)
    have i: "proc_inv p d w1" using g by (simp add: good_def)
    let ?w2 = "if sr_paused row
       then (fst (on_alias (sr_alias row) (\<lambda>s. s\<lparr>ss_state := StatePaused\<rparr>) (fst w1)), snd w1) else w1"
    have i2: "proc_inv p d ?w2" using i on_alias_inv [of p d "fst w1" "snd w1"] by simp
    have c2: "calm_all (fst ?w2)" using c by (simp add: calm_all_iff on_alias_frame)
    have g2: "good pf p d w ?w2" using g i2 by (simp add: good_def)
    show ?thesis
    proof (cases r)
      case None
      with "2.IH"(2) [OF Some reg [symmetric] _ i c] reg Some good_trans [OF g] show ?thesis by simp
    next
      case (Some x)
      have tok: "MT_GetToken F (sr_alias row) (mm_store (fst w)) = Some token" by fact
      have "good pf p d ?w2 (fst (restore_sessions F rest ?w2))"
        by (rule "2.IH"(3) [OF tok reg [symmetric] Some refl i2 c2])
      with good_trans [OF g2] have "good pf p d w (fst (restore_sessions F rest ?w2))" by blast
      then show ?thesis using reg tok Some by (cases "sr_paused row") (simp_all add: Let_def case_prod_unfold)
    qed
  qed
qed

lemma shutdown_good:
  "proc_inv p d w \<Longrightarrow> \<forall>e\<in>set es. \<not> connecting (snd e) (fst w) \<Longrightarrow> good pf p d w (fold mt_shutdown_one es w)"
proof (induction es arbitrary: w)
  case Nil
  then show ?case by (simp add: good_def)
next
  case (Cons e es)
  have e: "mt_shutdown_one e w = stop_session (snd e) w"
    by (cases w) (simp add: stop_session_def mt_shutdown_one_def)
  have g: "good pf p d w (mt_shutdown_one e w)"
    using stop_session_good [of p d "fst w" "snd w" "snd e" pf] Cons.prems e by simp
  have "connecting j (fst (mt_shutdown_one e w)) = connecting j (fst w)" for j
    unfolding e by (rule connecting_cong) (rule stop_session_frame)
  with Cons.IH [of "mt_shutdown_one e w"] Cons.prems g good_trans [OF g] show ?case by (simp add: good_def)
qed

lemma op_good:
  assumes inv: "proc_inv p d w" and ok: "mt_op_ok x w"
  shows "good pf p d w (mt_op_exec pf F x w)"
proof -
  obtain m h where w: "w = (m, h)" by (metis prod.exhaust)
  have quiets: "good pf p d (m, h) (m', h)" if "core m' = core m" "mm_pid m' = mm_pid m" "mm_cfg m' = mm_cfg m"
      "mm_next m' = mm_next m" "mm_conns m' = mm_conns m" "\<And>j. connecting j m' = connecting j m" for m'
    by (rule good_calm, rule proc_inv_calm [OF inv [unfolded w]]) (use that in simp_all)
  show ?thesis
  proof (cases x)
    case (OpTop io i)
    with ok w inv show ?thesis by (auto intro: sup_top_good)
  next
    case (OpConnect io i)
    with w inv show ?thesis by (auto intro: sup_connect_good)
  next
    case (OpWarm b i)
    have "snd (sup_warm b i (m, h)) = h" by (auto simp: sup_warm_def split: option.split sup_point.split)
    with OpWarm w inv sup_warm_inv [of p d m h b i] show ?thesis by (simp add: good_def)
  next
    case (OpRegister io a t)
    with w inv ok show ?thesis by (auto intro: MM_Register_good)
  next
    case (OpUnregister b a)
    with w inv ok show ?thesis by (auto intro: MM_Unregister_good)
  next
    case (OpRestoreAll b io)
    then show ?thesis using w inv ok restore_good [of p d w pf] by (auto simp: MM_RestoreAll_def calm_all_def good_def)
  next
    case (OpPersist ust b)
    have "proc_inv p d (fold (persist_one ust b) (mm_sessions m) m, h)" by (rule persist_inv) (use inv w in simp)
    then show ?thesis using OpPersist w by (simp add: MM_PersistStates_def good_calm)
  next
    case OpShutdown
    then show ?thesis using ok w shutdown_good [OF inv, of "mm_sessions m" pf] by (simp add: MM_Shutdown_def)
  next
    case (OpPush env u i)
    with w show ?thesis by (auto intro!: quiets simp: core_push)
  qed (use w in \<open>auto intro!: quiets simp: MM_Pause_def MM_Resume_def MM_Drain_def MM_Restart_def MM_PauseSending_def
        MM_ResumeSending_def on_alias_frame Let_def split: option.split\<close>)
qed

subsection \<open>One connection per session on the volume\<close>

definition vol_inv :: "string \<Rightarrow> 'k volume \<Rightarrow> bool" where
  "vol_inv d v \<longleftrightarrow> lock_inv (v_host v) \<and> (\<forall>p m. v_procs v p = Some m \<longrightarrow> proc_inv p d (m, v_host v))"

lemma lock_steps_inv: "(lock_step pf)\<^sup>*\<^sup>* h h' \<Longrightarrow> lock_inv h \<Longrightarrow> lock_inv h'"
  by (induction rule: rtranclp_induct) (auto intro: lock_step_inv)

lemma proc_inv_new: "SessionDir cfg = d \<Longrightarrow> proc_inv p d (MM_New cfg p st hl, h)"
  by (rule proc_invI) (simp_all add: MM_New_def core_def deref_def connecting_def)

lemma vol_step_inv:
  assumes "vol_step pf F d v v'" "vol_inv d v"
  shows "vol_inv d v'"
  using assms
proof (induction rule: vol_step.induct)
  case (boot v p cfg st hl)
  then show ?case by (auto simp: vol_inv_def proc_inv_new)
next
  case (oper v p m x m' h')
  then have g: "good pf p d (m, v_host v) (m', h')"
    using op_good [of p d "(m, v_host v)" x pf F] by (simp add: vol_inv_def)
  then have g': "(lock_step pf)\<^sup>*\<^sup>* (v_host v) h'" "frame p (v_host v) h'" "proc_inv p d (m', h')"
    by (simp_all add: good_def)
  have "proc_inv q d (n, h')" if "v_procs v q = Some n" "q \<noteq> p" for q n
  proof (rule proc_inv_other)
    show "proc_inv q d (n, v_host v)" using oper.prems that by (simp add: vol_inv_def)
    show "h_inst h' k = Some y" if "h_inst (v_host v) k = Some y" "i_pid y = q" for k y
      using g'(2) that \<open>q \<noteq> p\<close> by (simp add: frame_def)
  qed
  moreover have "lock_inv h'" using oper.prems lock_steps_inv [OF g'(1)] by (simp add: vol_inv_def)
  ultimately show ?case using g'(3) by (simp add: vol_inv_def)
next
  case (death v p m)
  have "proc_inv q d (n, crash p (v_host v))" if "v_procs v q = Some n" "q \<noteq> p" for q n
  proof (rule proc_inv_other)
    show "proc_inv q d (n, v_host v)" using death.prems that by (simp add: vol_inv_def)
    show "h_inst (crash p (v_host v)) k = Some y" if "h_inst (v_host v) k = Some y" "i_pid y = q" for k y
      using that \<open>q \<noteq> p\<close> by (simp add: crash_def)
  qed
  moreover have "lock_inv (crash p (v_host v))" using death.prems inv_crash by (simp add: vol_inv_def)
  ultimately show ?case by (simp add: vol_inv_def)
qed

lemma vol_reach_inv:
  assumes "(vol_step pf F d)\<^sup>*\<^sup>* empty_volume v"
  shows "vol_inv d v"
  using assms
proof (induction rule: rtranclp_induct)
  case base
  then show ?case by (simp add: vol_inv_def empty_volume_def fresh_volume_inv)
next
  case (step y z)
  then show ?case using vol_step_inv by blast
qed

lemma connected_holds:
  assumes "vol_inv d v" "v_procs v p = Some m" "(c, i) \<in> set (mm_conns m)" "deref i m = Some s"
  obtains n x where "sessionLock s = Some n" "holds (v_host v) n (Path (new_lock_obj (ss_alias s) d))"
    "h_inst (v_host v) n = Some x" "i_pid x = p" "ss_client s = Some c"
proof -
  have inv: "proc_inv p d (m, v_host v)" using assms(1,2) by (simp add: vol_inv_def)
  obtain n a where n: "core m i = Some (Some c, Some n, a)" "held (v_host v) n"
    using proc_invD(6) [OF inv assms(3)] by blast
  with proc_invD(4) [OF inv] have o: "own_lock p d (v_host v) n a" by blast
  have s: "ss_client s = Some c" "sessionLock s = Some n" "ss_alias s = a" using n(1) assms(4) by (auto simp: core_def)
  from o obtain x where "h_inst (v_host v) n = Some x" "i_pid x = p" "Path (i_lock x) = Path (new_lock_obj a d)"
    by (auto simp: own_lock_def)
  with n(2) s that show thesis by (auto simp: holds_def held_def)
qed


subsection \<open>Unregistering in the middle of a connect\<close>

lemma release_frees:
  assumes li: "lock_inv h" and x: "h_inst h n = Some x" "i_open x = None" and "holds h n p"
  shows "lock_inv (release_obj n h) \<and> (\<forall>k. \<not> holds (release_obj n h) k p)"
proof -
  obtain l k' where r: "Release (i_lock x) (h_kernel h) = (l, k')" by (metis prod.exhaust)
  let ?g = "h\<lparr>h_kernel := k', h_inst := (h_inst h)(n \<mapsto> x\<lparr>i_lock := l\<rparr>)\<rparr>"
  have g: "release_obj n h = ?g" using x r by (simp add: release_obj_def)
  have "l_fd l = None" using r by (auto simp: Release_def split: option.splits)
  then have "\<not> holds ?g k p" for k
    using lock_exclusive_inv [OF li _ assms(4), of k] by (auto simp: holds_def Held_def split: if_splits)
  then show ?thesis unfolding g using inv_release [OF li x r] by blast
qed

text \<open>
  The exception in the previous property is needed. An \<^verbatim>\<open>Unregister\<close> that lands while the session's
  \<^verbatim>\<open>Connect\<close> call is in flight releases the lock and disconnects only the previous client; when the call then
  succeeds the process is connected for a session it no longer knows, its supervisor returns without ever
  closing that connection, and any other process can take the session's lock and connect a second time.
\<close>

lemma unregister_race_leaks_connection:
  assumes "(vol_step pf F d)\<^sup>*\<^sup>* empty_volume v" "v_procs v p = Some m" "MM_Get alias m = Some i"
    and "deref i m = Some s" "ss_alias s = alias" "connecting i m"
    and "MM_Unregister ok alias (m, v_host v) = ((m1, h1), b)" "ci_err cio = None" "sup_connect cio i (m1, h1) = (m2, h2)"
    and "le_open_ok env" "env_ok env"
  shows "\<exists>c. MM_Get alias m2 = None \<and> (c, i) \<in> set (mm_conns (fst (sup_top pf io i (sup_warm pull i (m2, h2))))) \<and>
    map_option sp_at (map_of (mm_sups (fst (sup_top pf io i (sup_warm pull i (m2, h2))))) i) = Some SupReturned \<and>
    snd (snd (snd (Acquire pf env (new_lock_obj alias d) tok (h_kernel h2))))"
proof -
  have inv: "vol_inv d v" by (rule vol_reach_inv [OF assms(1)])
  then have li: "lock_inv (v_host v)" and pinv: "proc_inv p d (m, v_host v)" using assms(2) by (simp_all add: vol_inv_def)
  obtain q c wl where q: "map_of (mm_sups m) i = Some q" "sp_at q = SupConnecting c wl"
    using assms(6) by (auto simp: connecting_def)
  obtain n where n: "sessionLock s = Some n" "held (v_host v) n"
    using proc_invD(7) [OF pinv assms(6)] assms(4) by (auto simp: core_def)
  have "core m i = Some (ss_client s, Some n, alias)" using assms(4,5) n(1) by (simp add: core_def)
  then have "own_lock p d (v_host v) n alias" by (rule proc_invD(4) [OF pinv])
  then obtain x where x: "h_inst (v_host v) n = Some x" "i_open x = None" "Path (i_lock x) = Path (new_lock_obj alias d)"
    by (auto simp: own_lock_def)
  then have "holds (v_host v) n (Path (new_lock_obj alias d))" using n(2) by (auto simp: holds_def held_def)
  note free = release_frees [OF li x(1,2) this]
  let ?s = "s\<lparr>ss_state := StateDraining, stopSupervisor := True, sessionLock := None\<rparr>"
  have m1: "h1 = release_obj n (v_host v)" "deref i m1 = Some ?s" "mm_sups m1 = mm_sups m"
      "mm_sessions m1 = AList.delete alias (mm_sessions m)"
    using assms(3,4,7) n(1) by (auto simp: MM_Unregister_def Let_def releaseLock_def)
  have m2: "h2 = h1" "mm_sessions m2 = mm_sessions m1" "(c, i) \<in> set (mm_conns m2)"
      "map_of (mm_sups m2) i = Some (q\<lparr>sp_at := SupWarming c wl\<rparr>)"
      "deref i m2 = Some (?s\<lparr>ss_client := Some c, ss_state := StateLive, ConnectedSince := ci_wall cio\<rparr>)"
    using assms(8,9) q m1 by (auto simp: sup_connect_def set_sup_def update_conv')
  obtain m3 where m3: "sup_warm pull i (m2, h2) = (m3, h2)" "mm_conns m3 = mm_conns m2"
      "map_of (mm_sups m3) i = Some (q\<lparr>sp_at := SupTop, sp_backoff := 1\<rparr>)" "\<exists>t. deref i m3 = Some t \<and> stopSupervisor t"
    using m2(4,5) by (simp add: sup_warm_def start_done_def set_sup_def update_conv')
  then have "sup_top pf io i (sup_warm pull i (m2, h2)) = (set_sup i (q\<lparr>sp_backoff := 1, sp_at := SupReturned\<rparr>) m3, h2)"
    by (auto simp: sup_top_def)
  moreover have "MM_Get alias m2 = None" using m1 m2 by (simp add: MM_Get_def delete_conv')
  moreover have "snd (snd (snd (Acquire pf env (new_lock_obj alias d) tok (h_kernel h2))))"
    using lock_free_acquires [of h2 env "new_lock_obj alias d" pf tok] free m1 m2 assms(10,11)
    by (metis prod.collapse)
  ultimately show ?thesis using m2(3) m3 by (auto simp: set_sup_def update_conv')
qed

subsection \<open>A concrete volume\<close>

definition demo_cfg :: MTProto where
  "demo_cfg = MTProtoFromEnv (\<lambda>_. None) (\<lambda>_. None)"

definition demo_reg :: mt_reg_io where
  "demo_reg = \<lparr>rg_iv = 0, rg_now = ''now'', rg_ok = True, rg_del_ok = True, rg_guard = (0, 0, 0, 0)\<rparr>"

definition demo_sup :: sup_io where
  "demo_sup = \<lparr>si_up = True, si_mono = 0, si_ping_at = 0, si_ping_err = False, si_ping_ok_at = 0, si_retry_now = 1,
     si_lock = demo_lock_env, si_ptr = 7, si_refused_at = 0\<rparr>"

definition demo_conn :: conn_io where
  "demo_conn = \<lparr>ci_err = None, ci_wall = 5, ci_mono = 5, ci_rand = 0\<rparr>"

definition demo_boot :: "string mtmgr" where
  "demo_boot = MM_New demo_cfg 1 (new_mtstore ''k'') NewStorage"

definition demo_after :: "mt_op list \<Rightarrow> string mtworld" where
  "demo_after ops = fold (mt_op_exec (\<lambda>_. None) tag_fernet) ops (demo_boot, fresh_volume)"

fun ops_ok :: "mt_op list \<Rightarrow> string mtworld \<Rightarrow> bool" where
  "ops_ok [] w = True"
| "ops_ok (x # xs) w = (mt_op_ok x w \<and> ops_ok xs (mt_op_exec (\<lambda>_. None) tag_fernet x w))"

definition solo :: "string mtworld \<Rightarrow> string volume" where
  "solo w = \<lparr>v_procs = [1 \<mapsto> fst w], v_host = snd w\<rparr>"

lemma solo_run:
  "ops_ok xs w \<Longrightarrow> (vol_step (\<lambda>_. None) tag_fernet d)\<^sup>*\<^sup>* (solo w) (solo (fold (mt_op_exec (\<lambda>_. None) tag_fernet) xs w))"
proof (induction xs arbitrary: w)
  case Nil
  then show ?case by simp
next
  case (Cons x xs)
  obtain m h where w: "w = (m, h)" by (metis prod.exhaust)
  obtain m' h' where e: "mt_op_exec (\<lambda>_. None) tag_fernet x w = (m', h')" by (metis prod.exhaust)
  have "vol_step (\<lambda>_. None) tag_fernet d (solo w) (solo (m', h'))"
    using oper [of "solo w" 1 m x "\<lambda>_. None" tag_fernet m' h' d] Cons.prems e w by (simp add: solo_def)
  moreover have "(vol_step (\<lambda>_. None) tag_fernet d)\<^sup>*\<^sup>* (solo (m', h'))
      (solo (fold (mt_op_exec (\<lambda>_. None) tag_fernet) (x # xs) w))"
    using Cons.IH [of "(m', h')"] Cons.prems e by simp
  ultimately show ?case by (rule converse_rtranclp_into_rtranclp)
qed

lemma demo_volume_reachable:
  assumes "ops_ok ops (demo_boot, fresh_volume)"
  shows "(vol_step (\<lambda>_. None) tag_fernet (SessionDir demo_cfg))\<^sup>*\<^sup>* empty_volume (solo (demo_after ops))"
proof (rule converse_rtranclp_into_rtranclp)
  show "vol_step (\<lambda>_. None) tag_fernet (SessionDir demo_cfg) empty_volume (solo (demo_boot, fresh_volume))"
    using boot [of empty_volume 1 demo_cfg "SessionDir demo_cfg" "\<lambda>_. None" tag_fernet "new_mtstore ''k''" NewStorage]
    by (simp add: demo_boot_def empty_volume_def solo_def)
  show "(vol_step (\<lambda>_. None) tag_fernet (SessionDir demo_cfg))\<^sup>*\<^sup>* (solo (demo_boot, fresh_volume)) (solo (demo_after ops))"
    unfolding demo_after_def by (rule solo_run [OF assms])
qed

lemma demo_registered:
  obtains m s where "mt_op_exec (\<lambda>_. None) tag_fernet (OpRegister demo_reg ''a'' ''t'') (demo_boot, fresh_volume) = (m, fresh_volume)"
    "deref 0 m = Some s" "ss_alias s = ''a''" "sessionLock s = None" "ss_client s = None" "stopSupervisor s = False"
    "terminalError s = False" "ss_state s = StateConnecting" "nextRetryAt s = 0" "mm_conns m = []" "mm_pid m = 1"
    "SessionDir (mm_cfg m) = SessionDir demo_cfg" "map_of (mm_sups m) 0 = Some \<lparr>sp_backoff = 1, sp_at = SupTop\<rparr>"
    "MM_Get ''a'' m = Some 0" "mm_next m = 1" "ConnectedSince s = 0"
proof -
  have "snd (Register tag_fernet 0 ''now'' True ''a'' ''t'' (new_mtstore ''k''))"
    by (simp add: Register_def Encrypt_def tag_fernet_def new_mtstore_def)
  then obtain st where "Register tag_fernet 0 ''now'' True ''a'' ''t'' (new_mtstore ''k'') = (st, True)"
    by (metis prod.collapse)
  then have e: "mt_op_exec (\<lambda>_. None) tag_fernet (OpRegister demo_reg ''a'' ''t'') (demo_boot, fresh_volume) =
      (demo_boot\<lparr>mm_store := st, mm_heap := [(0, NewSession demo_cfg (0, 0, 0, 0) ''a'' ''t'')], mm_sessions := [(''a'', 0)],
        mm_sups := [(0, \<lparr>sp_backoff = 1, sp_at = SupTop\<rparr>)], mm_next := 1\<rparr>, fresh_volume)"
    by (simp add: MM_Register_def register_new_def demo_reg_def demo_boot_def MM_New_def MM_Get_def Let_def)
  show thesis
    by (rule that [OF e, of "NewSession demo_cfg (0, 0, 0, 0) ''a'' ''t''"])
      (simp_all add: demo_boot_def MM_New_def MM_Get_def deref_def NewSession_def)
qed

lemma demo_acquires:
  obtains l t k where "Acquire (\<lambda>_. None) demo_lock_env (new_lock_obj a d) 0 (h_kernel fresh_volume) = (l, t, k, True)"
proof -
  obtain l t k ok where a: "Acquire (\<lambda>_. None) demo_lock_env (new_lock_obj a d) 0 (h_kernel fresh_volume) = (l, t, k, ok)"
    by (metis prod.exhaust)
  have "ok" using lock_free_acquires [OF fresh_volume_inv _ _ _ a]
    by (simp add: demo_lock_env_def env_ok_def holds_def fresh_volume_def)
  with a that show thesis by simp
qed

text \<open>The session is registered and its supervisor is in the \<^verbatim>\<open>Connect\<close> call.\<close>

definition demo_start :: "mt_op list" where
  "demo_start = [OpRegister demo_reg ''a'' ''t'', OpTop demo_sup 0]"

lemma demo_start_ok: "ops_ok demo_start (demo_boot, fresh_volume)"
proof -
  obtain m s where r: "mt_op_exec (\<lambda>_. None) tag_fernet (OpRegister demo_reg ''a'' ''t'') (demo_boot, fresh_volume) = (m, fresh_volume)"
    by (rule demo_registered)
  have "settled ''a'' demo_boot" by (simp add: settled_def MM_Get_def demo_boot_def MM_New_def)
  moreover have "mt_op_ok (OpTop demo_sup 0) (m, fresh_volume)"
    by (simp add: demo_sup_def fresh_volume_def env_ok_def demo_lock_env_def)
  ultimately show ?thesis by (simp only: demo_start_def ops_ok.simps mt_op_ok.simps fst_conv r)
qed

lemma demo_connecting:
  obtains m h s where "demo_after demo_start = (m, h)" "deref 0 m = Some s" "ss_alias s = ''a''" "MM_Get ''a'' m = Some 0"
    "connecting 0 m"
proof -
  obtain m s where r: "mt_op_exec (\<lambda>_. None) tag_fernet (OpRegister demo_reg ''a'' ''t'') (demo_boot, fresh_volume) = (m, fresh_volume)"
    "deref 0 m = Some s" "ss_alias s = ''a''" "sessionLock s = None" "ss_client s = None" "stopSupervisor s = False"
    "terminalError s = False" "ss_state s = StateConnecting" "nextRetryAt s = 0" "mm_conns m = []" "mm_pid m = 1"
    "SessionDir (mm_cfg m) = SessionDir demo_cfg" "map_of (mm_sups m) 0 = Some \<lparr>sp_backoff = 1, sp_at = SupTop\<rparr>"
    "MM_Get ''a'' m = Some 0" "mm_next m = 1" "ConnectedSince s = 0"
    by (rule demo_registered)
  obtain l t k where a: "Acquire (\<lambda>_. None) demo_lock_env (new_lock_obj ''a'' (SessionDir demo_cfg)) 0 (h_kernel fresh_volume)
      = (l, t, k, True)" by (rule demo_acquires)
  have tok: "h_tokens fresh_volume 1 = 0" by (simp add: fresh_volume_def)
  obtain m2 h2 where e: "demo_after demo_start = (m2, h2)" by (metis prod.exhaust)
  then have "sup_top (\<lambda>_. None) demo_sup 0 (m, fresh_volume) = (m2, h2)"
    using r(1) by (simp add: demo_after_def demo_start_def)
  then have "\<exists>s. deref 0 m2 = Some s \<and> ss_alias s = ''a''" "connecting 0 m2" "mm_sessions m2 = mm_sessions m"
    using r(2-) a tok
    by (auto simp: sup_top_def lockHeld_def demo_sup_def acquireLock_def begin_connect_def Let_def)
  with e r(14) that show thesis by (auto simp: MM_Get_def)
qed


lemma unregister_race_leaks_connection_example:
  "\<exists>m h c m1 h1 b m2 h2. demo_after demo_start = (m, h) \<and> MM_Unregister True ''a'' (m, h) = ((m1, h1), b) \<and>
     sup_connect demo_conn 0 (m1, h1) = (m2, h2) \<and> MM_Get ''a'' m2 = None \<and>
     (c, 0) \<in> set (mm_conns (fst (sup_top (\<lambda>_. None) demo_sup 0 (sup_warm True 0 (m2, h2)))))"
proof -
  obtain m h s where m: "demo_after demo_start = (m, h)" "deref 0 m = Some s" "ss_alias s = ''a''" "MM_Get ''a'' m = Some 0"
    "connecting 0 m" by (rule demo_connecting)
  obtain m1 h1 b where u: "MM_Unregister True ''a'' (m, h) = ((m1, h1), b)" by (metis prod.exhaust)
  obtain m2 h2 where c: "sup_connect demo_conn 0 (m1, h1) = (m2, h2)" by (metis prod.exhaust)
  have v: "v_procs (solo (demo_after demo_start)) 1 = Some m" "v_host (solo (demo_after demo_start)) = h"
    using m(1) by (simp_all add: solo_def)
  have "ci_err demo_conn = None" "le_open_ok demo_lock_env" "env_ok demo_lock_env"
    by (simp_all add: demo_conn_def demo_lock_env_def env_ok_def)
  from unregister_race_leaks_connection [OF demo_volume_reachable [OF demo_start_ok] v(1) m(4,2,3,5) _ this(1) c this(2,3),
      of True b demo_sup True 0] u v(2)
  show ?thesis using m(1) u c by metis
qed

end
