(* ===== verification/MTAdapters.thy ===== *)
theory MTAdapters
  imports Json
begin

text \<open>
  The method adapters of the MTProto plane (\<^verbatim>\<open>internal/mtproto/client.go\<close>): the allowlist, the coercion
  of JSON arguments into typed calls on the Telegram client, and the rate-guard scope that
  \<^verbatim>\<open>app.go\<close> reads out of the same body (\<^verbatim>\<open>extractChatRef\<close>).

  The client is the Go interface \<^verbatim>\<open>Client\<close>, a record of functions; an adapter returns the calls it makes,
  in order, with its result. \<open>scan_int\<close> is \<^verbatim>\<open>fmt.Sscanf(s, "%d", &i)\<close>; \<^verbatim>\<open>base64\<close>'s \<^verbatim>\<open>DecodeString\<close> is the
  parameter \<open>b64\<close>.
\<close>

subsection \<open>The client interface\<close>

record SentMessage =
  sm_ID :: int
  sm_ChatID :: int

record MediaAttach =
  ma_Kind :: string
  ma_Handle :: string
  ma_URL :: string
  ma_FileName :: string

record SendParams =
  sp_ChatID :: int
  sp_Text :: string
  sp_ParseMode :: string
  sp_ReplyMarkup :: "obj option"
  sp_ReplyToMsgID :: int
  sp_DisableNotify :: bool
  sp_Media :: "MediaAttach option"

record EditTextParams =
  et_ChatID :: int
  et_MessageID :: int
  et_Text :: string
  et_ParseMode :: string
  et_ReplyMarkup :: "obj option"
  et_NoWebpage :: bool

record EditMarkupParams =
  em_ChatID :: int
  em_MessageID :: int
  em_ReplyMarkup :: "obj option"

record ForwardParams =
  fp_FromChatID :: int
  fp_ToChatID :: int
  fp_IDs :: "int list"
  fp_NoQuote :: bool

datatype client_call =
  SendMessage SendParams
| EditMessageText EditTextParams
| EditMessageReplyMarkup EditMarkupParams
| SendChatAction int string
| DeleteMessages int "int list" bool
| ForwardMessages ForwardParams
| SendMediaGroup int "MediaAttach list" bool
| GetChat int
| ResolveUsername string
| AnswerCallbackQuery string string bool string int
| UploadMedia string string string
| Me

record BotInfo =
  bi_Username :: string
  bi_ID :: int

text \<open>What the client answers to each call: an error text or a result.\<close>

record client =
  onSend :: "SendParams \<Rightarrow> string + SentMessage"
  onEdit :: "client_call \<Rightarrow> string + bool"
  onForward :: "ForwardParams \<Rightarrow> string + SentMessage list"
  onGroup :: "int \<Rightarrow> MediaAttach list \<Rightarrow> bool \<Rightarrow> string + SentMessage list"
  onGetChat :: "int \<Rightarrow> string + obj"
  onResolve :: "string \<Rightarrow> string + int"
  onUpload :: "string \<Rightarrow> string \<Rightarrow> string \<Rightarrow> string + string"
  onMe :: "string + BotInfo"

datatype dispatch_error = ErrUnsupported | DispatchErr string

type_synonym outcome = "client_call list \<times> (dispatch_error + json)"

subsection \<open>Reading arguments\<close>

definition is_blank :: "char \<Rightarrow> bool" where
  "is_blank c \<longleftrightarrow> c \<in> {CHR '' '', CHR 0x09, CHR 0x0B, CHR 0x0C, CHR 0x0D}"

definition scan_int :: "string \<Rightarrow> int option" where
  "scan_int s =
     (let t = dropWhile is_blank s;
          sign = (if t \<noteq> [] \<and> (hd t = CHR ''-'' \<or> hd t = CHR ''+'') then [hd t] else []);
          digits = takeWhile is_digit (drop (length sign) t)
      in if digits = [] then None else parse_int (sign @ digits))"

fun num_arg :: "json \<Rightarrow> int option" where
  "num_arg (JNum r) = Some (int64_of_float r)"
| "num_arg (JInt n) = Some n"
| "num_arg (JStr s) = scan_int s"
| "num_arg _ = None"

fun argInt :: "obj \<Rightarrow> string list \<Rightarrow> int option" where
  "argInt args [] = None"
| "argInt args (k # ks) =
     (case map_of args k of
        None \<Rightarrow> argInt args ks
      | Some v \<Rightarrow> (case num_arg v of Some n \<Rightarrow> Some n | None \<Rightarrow> argInt args ks))"

definition argStr :: "obj \<Rightarrow> string \<Rightarrow> string" where
  "argStr args k = (case map_of args k of Some (JStr s) \<Rightarrow> s | _ \<Rightarrow> [])"

definition argBool :: "obj \<Rightarrow> string \<Rightarrow> bool" where
  "argBool args k = (case map_of args k of Some (JBool b) \<Rightarrow> b | _ \<Rightarrow> False)"

definition argMarkup :: "obj \<Rightarrow> obj option" where
  "argMarkup args = (case map_of args ''reply_markup'' of Some (JObj m) \<Rightarrow> Some m | _ \<Rightarrow> None)"

fun int_items :: "json list \<Rightarrow> int list option" where
  "int_items [] = Some []"
| "int_items (JNum r # xs) = map_option (Cons (int64_of_float r)) (int_items xs)"
| "int_items (JInt n # xs) = map_option (Cons n) (int_items xs)"
| "int_items (_ # xs) = None"

definition argIntSlice :: "json option \<Rightarrow> int list option" where
  "argIntSlice v = (case v of Some (JArr xs) \<Rightarrow> int_items xs | _ \<Rightarrow> None)"

definition chat_keys :: "string list" where
  "chat_keys = [''chat_id'', ''chat_username'', ''chat'']"

text \<open>A missing number reads as zero where the source ignores the second result.\<close>

definition or_zero :: "int option \<Rightarrow> int" where
  "or_zero n = (case n of Some v \<Rightarrow> v | None \<Rightarrow> 0)"

subsection \<open>The adapters\<close>

definition fails :: "string \<Rightarrow> outcome" where
  "fails e = ([], Inl (DispatchErr e))"

definition sent_json :: "SentMessage \<Rightarrow> json" where
  "sent_json m = JObj [(''id'', JInt (sm_ID m)), (''chat_id'', JInt (sm_ChatID m))]"

definition ok_json :: "bool \<Rightarrow> json" where
  "ok_json b = JObj [(''ok'', JBool b)]"

definition calling :: "client_call list \<Rightarrow> string + 'a \<Rightarrow> ('a \<Rightarrow> json) \<Rightarrow> outcome" where
  "calling cs r f = (cs, case r of Inl e \<Rightarrow> Inl (DispatchErr e) | Inr v \<Rightarrow> Inr (f v))"

definition adaptSendMessage :: "client \<Rightarrow> obj \<Rightarrow> outcome" where
  "adaptSendMessage c args =
     (case argInt args chat_keys of
        None \<Rightarrow> fails ''chat_id required''
      | Some chatID \<Rightarrow>
          let p = \<lparr>sp_ChatID = chatID, sp_Text = argStr args ''text'', sp_ParseMode = argStr args ''parse_mode'',
                   sp_ReplyMarkup = argMarkup args, sp_ReplyToMsgID = or_zero (argInt args [''reply_to_message_id'']),
                   sp_DisableNotify = argBool args ''disable_notification'', sp_Media = None\<rparr>
          in calling [SendMessage p] (onSend c p) sent_json)"

definition adaptEditText :: "client \<Rightarrow> obj \<Rightarrow> outcome" where
  "adaptEditText c args =
     (case argInt args [''message_id''] of
        None \<Rightarrow> fails ''message_id required''
      | Some msgID \<Rightarrow>
          let p = EditMessageText \<lparr>et_ChatID = or_zero (argInt args chat_keys), et_MessageID = msgID,
                   et_Text = argStr args ''text'', et_ParseMode = argStr args ''parse_mode'',
                   et_ReplyMarkup = argMarkup args, et_NoWebpage = argBool args ''disable_web_page_preview''\<rparr>
          in calling [p] (onEdit c p) ok_json)"

definition adaptEditMarkup :: "client \<Rightarrow> obj \<Rightarrow> outcome" where
  "adaptEditMarkup c args =
     (case argInt args [''message_id''] of
        None \<Rightarrow> fails ''message_id required''
      | Some msgID \<Rightarrow>
          let p = EditMessageReplyMarkup \<lparr>em_ChatID = or_zero (argInt args chat_keys), em_MessageID = msgID,
                   em_ReplyMarkup = argMarkup args\<rparr>
          in calling [p] (onEdit c p) ok_json)"

definition adaptChatAction :: "client \<Rightarrow> obj \<Rightarrow> outcome" where
  "adaptChatAction c args =
     (case argInt args chat_keys of
        None \<Rightarrow> fails ''chat_id required''
      | Some chatID \<Rightarrow>
          let p = SendChatAction chatID (argStr args ''action'') in calling [p] (onEdit c p) ok_json)"

definition adaptDeleteMessages :: "client \<Rightarrow> obj \<Rightarrow> outcome" where
  "adaptDeleteMessages c args =
     (case (case argIntSlice (map_of args ''message_ids'') of
              Some ids \<Rightarrow> Some ids
            | None \<Rightarrow> argIntSlice (map_of args ''ids'')) of
        None \<Rightarrow> fails ''message_ids required''
      | Some ids \<Rightarrow>
          let p = DeleteMessages (or_zero (argInt args [''chat_id''])) ids (argBool args ''revoke'')
          in calling [p] (onEdit c p) ok_json)"

definition adaptForwardMessages :: "client \<Rightarrow> obj \<Rightarrow> outcome" where
  "adaptForwardMessages c args =
     (case argInt args [''from_chat_id''] of
        None \<Rightarrow> fails ''from_chat_id required''
      | Some source \<Rightarrow>
          (case argInt args chat_keys of
             None \<Rightarrow> fails ''chat_id required''
           | Some dest \<Rightarrow>
               (case argIntSlice (map_of args ''message_ids'') of
                  None \<Rightarrow> fails ''message_ids required''
                | Some ids \<Rightarrow>
                    let p = \<lparr>fp_FromChatID = source, fp_ToChatID = dest, fp_IDs = ids,
                             fp_NoQuote = (argBool args ''no_quote'' \<or> argBool args ''copy'')\<rparr>
                    in calling [ForwardMessages p] (onForward c p) (\<lambda>ms. JArr (map sent_json ms)))))"

definition adaptGetChat :: "client \<Rightarrow> obj \<Rightarrow> outcome" where
  "adaptGetChat c args =
     (case argInt args chat_keys of
        None \<Rightarrow> fails ''chat_id required''
      | Some chatID \<Rightarrow> calling [GetChat chatID] (onGetChat c chatID) JObj)"

definition strip_at :: "string \<Rightarrow> string" where
  "strip_at s = (if has_prefix s ''@'' then tl s else s)"

definition adaptResolveUsername :: "client \<Rightarrow> obj \<Rightarrow> outcome" where
  "adaptResolveUsername c args =
     (let username = strip_at (argStr args ''username'') in
      if username = [] then fails ''username required''
      else calling [ResolveUsername username] (onResolve c username)
        (\<lambda>i. JObj [(''peer_id'', JInt i), (''username'', JStr username)]))"

definition adaptAnswerCallback :: "client \<Rightarrow> obj \<Rightarrow> outcome" where
  "adaptAnswerCallback c args =
     (let i = (if argStr args ''callback_query_id'' = [] then argStr args ''id'' else argStr args ''callback_query_id'') in
      if i = [] then fails ''callback_query_id required''
      else
        let p = AnswerCallbackQuery i (argStr args ''text'') (argBool args ''show_alert'') (argStr args ''url'')
                  (or_zero (argInt args [''cache_time'']))
        in calling [p] (onEdit c p) ok_json)"

text \<open>
  The three ways to name a medium, shared by the single sends and the albums: an upload handle, a
  URL, or base64 data that is uploaded first. The error texts are arguments.
\<close>

definition media_source ::
  "(string \<Rightarrow> string + string) \<Rightarrow> client \<Rightarrow> string \<Rightarrow> string \<Rightarrow> string \<Rightarrow> obj \<Rightarrow>
   client_call list \<times> (string + MediaAttach)" where
  "media_source b64 c bad_data missing kind args =
     (let item = \<lparr>ma_Kind = kind, ma_Handle = [], ma_URL = [], ma_FileName = argStr args ''file_name''\<rparr> in
      if has_prefix (argStr args ''file_id'') ''upload:'' then ([], Inr (item\<lparr>ma_Handle := argStr args ''file_id''\<rparr>))
      else if argStr args ''url'' \<noteq> [] then ([], Inr (item\<lparr>ma_URL := argStr args ''url''\<rparr>))
      else if argStr args ''data'' \<noteq> [] then
        (case b64 (argStr args ''data'') of
           Inl e \<Rightarrow> ([], Inl (bad_data @ e))
         | Inr raw \<Rightarrow>
             let name = (if ma_FileName item = [] then ''upload.'' @ kind else ma_FileName item)
             in ([UploadMedia kind name raw],
                 case onUpload c kind name raw of Inl e \<Rightarrow> Inl e | Inr handle \<Rightarrow> Inr (item\<lparr>ma_Handle := handle\<rparr>)))
      else ([], Inl missing))"

definition adaptUploadSend :: "(string \<Rightarrow> string + string) \<Rightarrow> string \<Rightarrow> client \<Rightarrow> obj \<Rightarrow> outcome" where
  "adaptUploadSend b64 kind c args =
     (case argInt args chat_keys of
        None \<Rightarrow> fails ''chat_id required''
      | Some chatID \<Rightarrow>
          (case media_source b64 c ''data must be base64: ''
              ''media required: file_id (upload handle from /upload), base64 data, or url'' kind args of
             (ups, Inl e) \<Rightarrow> (ups, Inl (DispatchErr e))
           | (ups, Inr attach) \<Rightarrow>
               let p = \<lparr>sp_ChatID = chatID, sp_Text = argStr args ''caption'', sp_ParseMode = argStr args ''parse_mode'',
                        sp_ReplyMarkup = argMarkup args, sp_ReplyToMsgID = or_zero (argInt args [''reply_to_message_id'']),
                        sp_DisableNotify = argBool args ''disable_notification'', sp_Media = Some attach\<rparr>
               in calling (ups @ [SendMessage p]) (onSend c p) sent_json))"

definition media_at :: "nat \<Rightarrow> string" where
  "media_at i = ''media['' @ itoa (int i) @ '']''"

fun album_items ::
  "(string \<Rightarrow> string + string) \<Rightarrow> client \<Rightarrow> nat \<Rightarrow> json list \<Rightarrow> client_call list \<times> (string + MediaAttach list)" where
  "album_items b64 c i [] = ([], Inr [])"
| "album_items b64 c i (JObj entry # rest) =
     (let kind = (if argStr entry ''type'' = [] then ''photo'' else argStr entry ''type'') in
      case media_source b64 c (media_at i @ ''.data must be base64: '')
          (media_at i @ '': file_id (upload handle), base64 data, or url required'') kind entry of
        (ups, Inl e) \<Rightarrow> (ups, Inl e)
      | (ups, Inr item) \<Rightarrow>
          (case album_items b64 c (i + 1) rest of
             (later, Inl e) \<Rightarrow> (ups @ later, Inl e)
           | (later, Inr items) \<Rightarrow> (ups @ later, Inr (item # items))))"
| "album_items b64 c i (_ # rest) = ([], Inl (media_at i @ '' must be an object''))"

definition adaptSendMediaGroup :: "(string \<Rightarrow> string + string) \<Rightarrow> client \<Rightarrow> obj \<Rightarrow> outcome" where
  "adaptSendMediaGroup b64 c args =
     (case argInt args chat_keys of
        None \<Rightarrow> fails ''chat_id required''
      | Some chatID \<Rightarrow>
          (case map_of args ''media'' of
             Some (JArr (m # ms)) \<Rightarrow>
               (case album_items b64 c 0 (m # ms) of
                  (ups, Inl e) \<Rightarrow> (ups, Inl (DispatchErr e))
                | (ups, Inr items) \<Rightarrow>
                    calling (ups @ [SendMediaGroup chatID items (argBool args ''disable_notification'')])
                      (onGroup c chatID items (argBool args ''disable_notification''))
                      (\<lambda>out. JArr (map (\<lambda>x. JObj [(''message_id'', JInt (sm_ID x)), (''chat_id'', JInt (sm_ChatID x))]) out)))
           | _ \<Rightarrow> fails ''media array required''))"

definition adaptCopyMessage :: "client \<Rightarrow> obj \<Rightarrow> outcome" where
  "adaptCopyMessage c args =
     (case argInt args [''from_chat_id'', ''chat_id''] of
        None \<Rightarrow> fails ''from_chat_id required''
      | Some source \<Rightarrow>
          (case argInt args [''chat_id'', ''to_chat_id''] of
             None \<Rightarrow> fails ''chat_id required''
           | Some dest \<Rightarrow>
               (case argInt args [''message_id''] of
                  None \<Rightarrow> fails ''message_id required''
                | Some msgID \<Rightarrow>
                    let p = \<lparr>fp_FromChatID = source, fp_ToChatID = dest, fp_IDs = [msgID], fp_NoQuote = True\<rparr>
                    in ([ForwardMessages p],
                        case onForward c p of
                          Inl e \<Rightarrow> Inl (DispatchErr e)
                        | Inr [] \<Rightarrow> Inl (DispatchErr ''copy produced no message'')
                        | Inr (x # _) \<Rightarrow>
                            Inr (JObj [(''message_id'', JInt (sm_ID x)), (''chat_id'', JInt (sm_ChatID x))])))))"

definition adaptEditCaption :: "client \<Rightarrow> obj \<Rightarrow> outcome" where
  "adaptEditCaption c args = adaptEditText c args"

definition adaptGetMe :: "client \<Rightarrow> obj \<Rightarrow> outcome" where
  "adaptGetMe c args =
     calling [Me] (onMe c)
       (\<lambda>me. JObj [(''id'', JInt (bi_ID me)), (''username'', JStr (bi_Username me)), (''is_bot'', JBool True)])"

definition adapters :: "(string \<Rightarrow> string + string) \<Rightarrow> (string \<times> (client \<Rightarrow> obj \<Rightarrow> outcome)) list" where
  "adapters b64 = [
     (''send_message'', adaptSendMessage),
     (''edit_message_text'', adaptEditText),
     (''edit_message_reply_markup'', adaptEditMarkup),
     (''send_chat_action'', adaptChatAction),
     (''delete_messages'', adaptDeleteMessages),
     (''forward_messages'', adaptForwardMessages),
     (''get_chat'', adaptGetChat),
     (''resolve_username'', adaptResolveUsername),
     (''answer_callback_query'', adaptAnswerCallback),
     (''send_photo'', adaptUploadSend b64 ''photo''),
     (''send_video'', adaptUploadSend b64 ''video''),
     (''send_document'', adaptUploadSend b64 ''document''),
     (''send_audio'', adaptUploadSend b64 ''audio''),
     (''send_voice'', adaptUploadSend b64 ''voice''),
     (''send_animation'', adaptUploadSend b64 ''animation''),
     (''send_media_group'', adaptSendMediaGroup b64),
     (''copy_message'', adaptCopyMessage),
     (''edit_message_caption'', adaptEditCaption),
     (''get_me'', adaptGetMe)]"

definition SupportedMethods :: "(string \<Rightarrow> string + string) \<Rightarrow> string list" where
  "SupportedMethods b64 = sort (map fst (adapters b64))"

definition Dispatch :: "(string \<Rightarrow> string + string) \<Rightarrow> client \<Rightarrow> string \<Rightarrow> obj \<Rightarrow> outcome" where
  "Dispatch b64 c m args =
     (case map_of (adapters b64) (to_lower m) of
        None \<Rightarrow> ([], Inl ErrUnsupported)
      | Some a \<Rightarrow> a c args)"

subsection \<open>The rate-guard scope\<close>

definition isAllDigits :: "string \<Rightarrow> bool" where
  "isAllDigits s = list_all is_digit s"

fun first_ref :: "obj \<Rightarrow> string list \<Rightarrow> json option" where
  "first_ref body [] = None"
| "first_ref body (k # ks) =
     (case map_of body k of
        Some v \<Rightarrow> if v \<noteq> JNull \<and> v \<noteq> JStr [] then Some v else first_ref body ks
      | None \<Rightarrow> first_ref body ks)"

definition extractChatRef :: "obj \<Rightarrow> int option" where
  "extractChatRef body =
     (case first_ref body chat_keys of
        Some (JNum r) \<Rightarrow> Some (int64_of_float r)
      | Some (JInt n) \<Rightarrow> Some n
      | Some (JStr s) \<Rightarrow>
          (let numeric = dropWhile (\<lambda>c. c = CHR ''-'') s in
           if numeric \<noteq> [] \<and> isAllDigits numeric then parse_int s else None)
      | _ \<Rightarrow> None)"

subsection \<open>Messages go where they were metered\<close>

lemma scan_int_numeric:
  assumes "parse_int s = Some n" "isAllDigits (dropWhile (\<lambda>c. c = CHR ''-'') s)" "dropWhile (\<lambda>c. c = CHR ''-'') s \<noteq> []"
  shows "scan_int s = Some n"
proof -
  obtain c cs where s: "s = c # cs" using assms(3) by (cases s) auto
  have m: "\<not> is_digit (CHR ''-'')" "\<not> is_digit (CHR ''+'')" by (simp_all add: is_digit_def)
  show ?thesis
  proof (cases "c = CHR ''-''")
    case True
    with assms(1) s have d: "parse_digits cs \<noteq> None" by (auto simp: parse_int_def Let_def split: option.splits)
    then have "cs \<noteq> []" "list_all is_digit cs" by (auto simp: parse_digits_def split: if_splits)
    moreover from this have t: "takeWhile is_digit cs = cs" by (simp add: takeWhile_eq_all_conv list_all_iff)
    ultimately show ?thesis using assms(1) True s by (simp add: scan_int_def is_blank_def Let_def t)
  next
    case False
    with assms(2) s have d: "is_digit c" "list_all is_digit cs" by (simp_all add: isAllDigits_def)
    then have t: "takeWhile is_digit (c # cs) = c # cs" by (simp add: takeWhile_eq_all_conv list_all_iff)
    moreover have "\<not> is_blank c" "c \<noteq> CHR ''+''" using d(1) m by (auto simp: is_blank_def is_digit_def)
    ultimately show ?thesis using assms(1) False by (simp add: scan_int_def s Let_def t del: takeWhile.simps)
  qed
qed

lemma scan_int_empty [simp]: "scan_int [] = None"
  by (simp add: scan_int_def)

lemma argInt_first_ref:
  assumes "first_ref body ks = Some v" "num_arg v = Some n"
  shows "argInt body ks = Some n"
  using assms by (induction ks) (auto split: option.splits if_splits)

lemma scope_is_argInt:
  assumes "extractChatRef body = Some c"
  shows "argInt body chat_keys = Some c"
proof -
  obtain v where v: "first_ref body chat_keys = Some v" using assms by (auto simp: extractChatRef_def split: option.splits)
  have "num_arg v = Some c"
    using assms v by (cases v) (auto simp: extractChatRef_def Let_def intro: scan_int_numeric split: if_splits)
  then show ?thesis by (rule argInt_first_ref [OF v])
qed

text \<open>The chat a call acts in.\<close>

fun target :: "client_call \<Rightarrow> int option" where
  "target (SendMessage p) = Some (sp_ChatID p)"
| "target (EditMessageText p) = Some (et_ChatID p)"
| "target (EditMessageReplyMarkup p) = Some (em_ChatID p)"
| "target (SendChatAction c a) = Some c"
| "target (DeleteMessages c ids r) = Some c"
| "target (ForwardMessages p) = Some (fp_ToChatID p)"
| "target (SendMediaGroup c items b) = Some c"
| "target (GetChat c) = Some c"
| "target _ = None"

definition all_target :: "int \<Rightarrow> outcome \<Rightarrow> bool" where
  "all_target c r \<longleftrightarrow> (\<forall>x\<in>set (fst r). target x = None \<or> target x = Some c)"

lemma all_target_simps [simp]:
  "all_target c (fails e)" "all_target c (calling cs r f) = (\<forall>x\<in>set cs. target x = None \<or> target x = Some c)"
  "all_target c (cs, res) = (\<forall>x\<in>set cs. target x = None \<or> target x = Some c)"
  by (simp_all add: all_target_def fails_def calling_def)

lemma media_source_quiet:
  "media_source b64 c bad missing kind args = (ups, r) \<Longrightarrow> \<forall>x\<in>set ups. target x = None"
  by (auto simp: media_source_def Let_def split: if_splits sum.splits)

lemma album_quiet: "album_items b64 c i es = (ups, r) \<Longrightarrow> \<forall>x\<in>set ups. target x = None"
proof (induction b64 c i es arbitrary: ups r rule: album_items.induct)
  case (2 b64 c i entry rest)
  let ?kind = "if argStr entry ''type'' = [] then ''photo'' else argStr entry ''type''"
  obtain ups1 r1 where m: "media_source b64 c (media_at i @ ''.data must be base64: '')
      (media_at i @ '': file_id (upload handle), base64 data, or url required'') ?kind entry = (ups1, r1)"
    by (metis prod.exhaust)
  obtain ups2 r2 where a: "album_items b64 c (i + 1) rest = (ups2, r2)" by (metis prod.exhaust)
  show ?case
  proof (cases r1)
    case (Inl e)
    with "2.prems" m media_source_quiet [OF m] show ?thesis by (simp add: Let_def)
  next
    case (Inr item)
    then have "\<forall>x\<in>set ups2. target x = None" using "2.IH" [OF refl m [symmetric] Inr a] by simp
    moreover have "ups = ups1 @ ups2" using "2.prems" m Inr a by (cases r2) (simp_all add: Let_def)
    ultimately show ?thesis using media_source_quiet [OF m] by auto
  qed
qed auto

lemmas adapter_defs = adaptSendMessage_def adaptEditText_def adaptEditMarkup_def adaptChatAction_def
  adaptForwardMessages_def adaptGetChat_def adaptResolveUsername_def adaptAnswerCallback_def adaptEditCaption_def
  adaptGetMe_def

lemma adapters_target:
  assumes "extractChatRef args = Some chat" "map_of (adapters b64) k = Some a" "k \<noteq> ''copy_message''" "k \<noteq> ''delete_messages''"
  shows "all_target chat (a c args)"
proof -
  note s = scope_is_argInt [OF assms(1)]
  have simple: "all_target chat (adaptSendMessage c args)" "all_target chat (adaptEditText c args)"
    "all_target chat (adaptEditMarkup c args)" "all_target chat (adaptChatAction c args)"
    "all_target chat (adaptForwardMessages c args)" "all_target chat (adaptGetChat c args)"
    "all_target chat (adaptResolveUsername c args)" "all_target chat (adaptAnswerCallback c args)"
    "all_target chat (adaptEditCaption c args)" "all_target chat (adaptGetMe c args)"
    using s by (simp_all add: adapter_defs Let_def or_zero_def del: argInt.simps split: option.split)
  have upload: "all_target chat (adaptUploadSend b64 kind c args)" for kind
    using s by (auto simp: adaptUploadSend_def Let_def split: prod.split sum.split dest: media_source_quiet)
  have album: "all_target chat (adaptSendMediaGroup b64 c args)"
    using s by (auto simp: adaptSendMediaGroup_def split: prod.split sum.split option.split json.split list.split
        dest: album_quiet)
  show ?thesis
    using assms(2-4) simple upload album by (auto simp: adapters_def split: if_splits)
qed

text \<open>
  A call whose rate-guard scope is chat \<open>c\<close> acts in chat \<open>c\<close> and in no other: every Telegram call the
  adapter of the method makes either addresses no chat or addresses \<open>c\<close>, whichever of the three keys the
  number came from and whether it was a number or a numeric string. The exceptions are \<^verbatim>\<open>copy_message\<close> and
  \<^verbatim>\<open>delete_messages\<close>, which read other keys. A method outside the allowlist makes no call at all.
\<close>

lemma metered_where_delivered:
  assumes "extractChatRef args = Some chat" "to_lower m \<noteq> ''copy_message''" "to_lower m \<noteq> ''delete_messages''"
  shows "\<forall>x\<in>set (fst (Dispatch b64 c m args)). target x = None \<or> target x = Some chat"
proof (cases "map_of (adapters b64) (to_lower m)")
  case None
  then show ?thesis by (simp add: Dispatch_def)
next
  case (Some a)
  from adapters_target [OF assms(1) Some assms(2,3), of c] show ?thesis
    using Some by (simp add: Dispatch_def all_target_def)
qed

definition demo_client :: client where
  "demo_client = \<lparr>onSend = (\<lambda>p. Inr \<lparr>sm_ID = 1, sm_ChatID = sp_ChatID p\<rparr>), onEdit = (\<lambda>_. Inr True),
     onForward = (\<lambda>p. Inr []), onGroup = (\<lambda>_ _ _. Inr []), onGetChat = (\<lambda>_. Inr []), onResolve = (\<lambda>_. Inl ''x''),
     onUpload = (\<lambda>_ _ _. Inr ''upload:1''), onMe = Inr \<lparr>bi_Username = ''b'', bi_ID = 3\<rparr>\<rparr>"

definition demo_send :: obj where
  "demo_send = [(''chat_id'', JStr ''-100''), (''text'', JStr ''hi'')]"

text \<open>
  The scope can be evaded. When the first non-empty chat key holds a user name and a later key holds a
  number, the guard sees no chat at all, so neither the chat's bucket nor its flood-wait pause applies,
  and the message still goes to that number: the adapter keeps looking where the guard gave up.
\<close>

lemma chat_scope_evaded:
  assumes "map_of args ''chat_id'' = Some (JStr u)" "u \<noteq> []" "\<not> isAllDigits (dropWhile (\<lambda>c. c = CHR ''-'') u)"
    and "scan_int u = None" "map_of args ''chat_username'' = None" "map_of args ''chat'' = Some (JInt n)"
  shows "extractChatRef args = None \<and> (\<exists>p. fst (Dispatch b64 c ''send_message'' args) = [SendMessage p] \<and> sp_ChatID p = n)"
proof
  show "extractChatRef args = None" using assms(1-3) by (simp add: extractChatRef_def chat_keys_def Let_def)
  have "argInt args chat_keys = Some n" using assms(1,4-6) by (simp add: chat_keys_def)
  moreover have "Dispatch b64 c ''send_message'' args = adaptSendMessage c args"
  proof -
    have "to_lower ''send_message'' = ''send_message''" by code_simp
    then show ?thesis by (simp add: Dispatch_def adapters_def)
  qed
  ultimately show "\<exists>p. fst (Dispatch b64 c ''send_message'' args) = [SendMessage p] \<and> sp_ChatID p = n"
    by (simp add: adaptSendMessage_def Let_def calling_def)
qed

lemma chat_scope_evaded_example:
  "extractChatRef [(''chat_id'', JStr ''@x''), (''chat'', JInt 12)] = None \<and>
   (\<exists>p. fst (Dispatch Inl demo_client ''send_message'' [(''chat_id'', JStr ''@x''), (''chat'', JInt 12)]) = [SendMessage p] \<and>
      sp_ChatID p = 12)"
proof (rule chat_scope_evaded [where u = "''@x''"])
  show "\<not> isAllDigits (dropWhile (\<lambda>c. c = CHR ''-'') ''@x'')" "scan_int ''@x'' = None" by code_simp+
qed simp_all

end
