(* ===== verification/MTApp.thy ===== *)
theory MTApp
  imports MTManager MTAdapters
begin

text \<open>
  The consumer surface of the MTProto sidecar (\<^verbatim>\<open>internal/mtproto/app.go\<close>): the method proxy, the two modes
  of \<^verbatim>\<open>getUpdates\<close>, the web-socket push and the file proxy. The operator's surface is in \<open>MTAdmin\<close>.

  A request arrives parsed: its \<^verbatim>\<open>Authorization\<close> header, its path and its body as the JSON decoder left it.
  Waiting loops take a script: the clock readings of each turn and how its sleep ended, with what the other
  goroutines did to the application meanwhile. \<open>None\<close> as a result: still waiting when the script ends.
\<close>

subsection \<open>State, requests, replies\<close>

record 'k mtapp =
  ma_mgr :: "'k mtmgr"
  ma_host :: lock_host
  ma_beat :: Beat
  ma_boot :: BootTracker
  ma_boot_file :: "rat list option"
  ma_safe :: bool
  ma_calls :: "(nat \<times> client_call) list"
  ma_closed :: bool

datatype mt_body = BodyTooLarge | BodyBad | BodyEmpty | BodyObj obj

record mt_req =
  mq_auth :: string
  mq_path :: string
  mq_body :: mt_body

text \<open>\<open>MGoneReply\<close>: the client hung up; \<open>MPanic\<close>: the handler panicked and the connection was aborted.\<close>

datatype mt_reply =
  MJson int obj
| MSplice "(int \<times> json_text) list"
| MBytes string
| MStatsReply session_stats mt_snapshot
| MStatus "session_stats list"
| MDead "DeadLetterRow list"
| MAuditLog "AuditEntry list"
| MDegraded storage_snapshot
| MReady "(string \<times> SessionState) list" nat
| MMetrics "(string \<times> string option \<times> rat) list"
| MNotFound
| MGoneReply
| MPanic

definition mt_err :: "int \<Rightarrow> obj" where
  "mt_err code = [(''ok'', JBool False), (''error_code'', JInt code)]"

definition mt_err_d :: "int \<Rightarrow> string \<Rightarrow> obj" where
  "mt_err_d code txt = mt_err code @ [(''description'', JStr txt)]"

definition mt_bearerOK :: "string \<Rightarrow> string \<Rightarrow> bool" where
  "mt_bearerOK header secret =
     (let got = trim_prefix header ''Bearer '' in if length got \<noteq> length secret then False else got = secret)"

definition mt_appAuthed :: "mt_req \<Rightarrow> 'k mtapp \<Rightarrow> bool" where
  "mt_appAuthed r a = mt_bearerOK (mq_auth r) (mtAppSecret (mm_cfg (ma_mgr a)))"

definition mt_adminAuthed :: "mt_req \<Rightarrow> 'k mtapp \<Rightarrow> bool" where
  "mt_adminAuthed r a = mt_bearerOK (mq_auth r) (mtAdminSecret (mm_cfg (ma_mgr a)))"

definition mt_splitBotTokenPath :: "string \<Rightarrow> string \<Rightarrow> (string \<times> string) option" where
  "mt_splitBotTokenPath path prefix =
     (let p = trim_prefix (trim_prefix path prefix) ''/'' in
      if \<not> has_prefix p ''bot'' then None
      else
        let remainder = drop 3 p in
        if CHR ''/'' \<notin> set remainder then None
        else Some (takeWhile (\<lambda>c. c \<noteq> CHR ''/'') remainder, tl (dropWhile (\<lambda>c. c \<noteq> CHR ''/'') remainder)))"

definition state_text :: "SessionState \<Rightarrow> string" where
  "state_text st =
     (case st of StateConnecting \<Rightarrow> ''connecting'' | StateLive \<Rightarrow> ''live'' | StatePaused \<Rightarrow> ''paused''
      | StateDraining \<Rightarrow> ''draining'' | StateError \<Rightarrow> ''error'')"

definition sess_at :: "nat \<Rightarrow> 'k mtapp \<Rightarrow> Session option" where
  "sess_at i a = deref i (ma_mgr a)"

definition upd_sess :: "nat \<Rightarrow> (Session \<Rightarrow> Session) \<Rightarrow> 'k mtapp \<Rightarrow> 'k mtapp" where
  "upd_sess i f a = a\<lparr>ma_mgr := on_session i f (ma_mgr a)\<rparr>"

definition upd_store :: "('k mtstore \<Rightarrow> 'k mtstore) \<Rightarrow> 'k mtapp \<Rightarrow> 'k mtapp" where
  "upd_store f a = a\<lparr>ma_mgr := (ma_mgr a)\<lparr>mm_store := f (mm_store (ma_mgr a))\<rparr>\<rparr>"

definition upd_guard :: "(mtguard \<Rightarrow> mtguard) \<Rightarrow> Session \<Rightarrow> Session" where
  "upd_guard f s = s\<lparr>ss_guard := f (ss_guard s)\<rparr>"

subsection \<open>The method proxy\<close>

definition isReadMethod :: "string \<Rightarrow> bool" where
  "isReadMethod m \<longleftrightarrow> to_lower m \<in> {''answer_callback_query'', ''answer_inline_query'', ''get_updates'', ''getupdates'',
     ''get_me'', ''get_chat'', ''resolve_username''}"

datatype 'k mt_sleep = MHungUp | MSlept "'k mtapp \<Rightarrow> 'k mtapp"

record 'k mt_turn =
  tr_try :: "secs \<times> secs"
  tr_wait :: "secs \<times> secs"
  tr_end :: "'k mt_sleep"

definition clamp :: "rat option \<Rightarrow> rat \<Rightarrow> rat" where
  "clamp w c = (case w of None \<Rightarrow> c | Some x \<Rightarrow> min x c)"

definition retry_after_reply :: "string \<Rightarrow> int \<Rightarrow> mt_reply" where
  "retry_after_reply txt n =
     MJson 429 (mt_err_d 429 (txt @ itoa n) @ [(''parameters'', JObj [(''retry_after'', JInt n)])])"

text \<open>The admission loop. \<open>Some (a, None)\<close>: admitted.\<close>

fun mt_admit ::
  "string \<Rightarrow> int option \<Rightarrow> nat \<Rightarrow> 'k mt_turn list \<Rightarrow> rat \<Rightarrow> 'k mtapp \<Rightarrow> ('k mtapp \<times> mt_reply option) option"
where
  "mt_admit m chatRef i [] waited a = None"
| "mt_admit m chatRef i (t # ts) waited a =
     (case sess_at i a of
        None \<Rightarrow> None
      | Some s \<Rightarrow>
          let (g, ok) = MT_TryAcquire (fst (tr_try t)) (snd (tr_try t)) m chatRef (ss_guard s);
              a1 = upd_sess i (upd_guard (\<lambda>_. g)) a
          in if ok then Some (a1, None)
             else
               let (g2, w) = MT_WaitTime (fst (tr_wait t)) (snd (tr_wait t)) m chatRef g;
                   a2 = upd_sess i (upd_guard (\<lambda>_. g2)) a1;
                   pol = mtPolicy (mm_cfg (ma_mgr a))
               in if OnLimit pol = ''reject'' \<or> waited > QueueWaitTimeout pol
                  then Some (upd_sess i mt_noteSynthetic429 a2,
                    Some (retry_after_reply ''Too Many Requests: retry after '' (int64_of_float (max 1 (clamp w 60)))))
                  else case tr_end t of
                      MHungUp \<Rightarrow> Some (a2, Some MGoneReply)
                    | MSlept others \<Rightarrow> mt_admit m chatRef i ts (waited + clamp w 2) (others a2))"

record 'k proxy_io =
  pr_claim :: claim_io
  pr_seen_now :: rat
  pr_claim_at :: rat
  pr_script :: "'k mt_turn list"
  pr_client :: client
  pr_b64 :: "string \<Rightarrow> string + string"
  pr_fail_ok :: bool
  pr_flood :: "secs \<times> secs"
  pr_flood_wall :: rat
  pr_finish_ok :: bool
  pr_finish_at :: rat
  pr_done_at :: rat
  pr_first_at :: rat

definition idem_key :: "obj \<Rightarrow> string" where
  "idem_key body = (case map_of body ''_idempotency_key'' of Some (JStr k) \<Rightarrow> k | _ \<Rightarrow> [])"

definition strip_key :: "obj \<Rightarrow> obj" where
  "strip_key body =
     (case map_of body ''_idempotency_key'' of
        Some (JStr k) \<Rightarrow> AList.delete ''_idempotency_key'' body | _ \<Rightarrow> body)"

definition replay_reply :: mt_reply where
  "replay_reply = MJson 200 [(''ok'', JBool True), (''result'', JNull), (''idempotent_replay'', JBool True),
     (''description'', JStr ''duplicate send suppressed (idempotency key already seen)'')]"

fun join_with :: "string \<Rightarrow> string list \<Rightarrow> string" where
  "join_with sep [] = []"
| "join_with sep [x] = x"
| "join_with sep (x # y # zs) = x @ sep @ join_with sep (y # zs)"

text \<open>A send that failed: the claim is released, a flood wait is learnt.\<close>

definition send_failed ::
  "'k proxy_io \<Rightarrow> string \<Rightarrow> int option \<Rightarrow> string \<Rightarrow> nat \<Rightarrow> 'k mtapp \<Rightarrow> 'k mtapp \<times> mt_reply" where
  "send_failed io err chatRef key i a0 =
     (case sess_at i a0 of
        None \<Rightarrow> (a0, MPanic)
      | Some s \<Rightarrow>
          let a = (if key \<noteq> [] then upd_store (MT_IdempotencyFail (pr_fail_ok io) (ss_alias s) key) a0 else a0) in
          case ParseFloodWait err of
            Some info \<Rightarrow>
              let (g1, adaptive) = ReportFloodWait (fst (pr_flood io)) (snd (pr_flood io)) err chatRef (ss_guard s);
                  (g2, aw) = (case adaptive of None \<Rightarrow> (g1, 0) | Some _ \<Rightarrow> AdaptiveWait adaptive chatRef g1);
                  retry = (if aw > 0 then aw else Wait info)
              in (upd_sess i (\<lambda>s. noteLastFloodWait (pr_flood_wall io) info chatRef (upd_guard (\<lambda>_. g2) (noteRealFloodWait s))) a,
                  retry_after_reply ''FLOOD_WAIT: retry after '' retry)
          | None \<Rightarrow> (a, MJson 500 (mt_err_d 500 (take 200 err))))"

definition send_done :: "'k proxy_io \<Rightarrow> json \<Rightarrow> int option \<Rightarrow> string \<Rightarrow> nat \<Rightarrow> 'k mtapp \<Rightarrow> 'k mtapp \<times> mt_reply" where
  "send_done io result chatRef key i a0 =
     (case sess_at i a0 of
        None \<Rightarrow> (a0, MPanic)
      | Some s \<Rightarrow>
          let a1 = (if key \<noteq> []
                    then upd_sess i (NoteIdempotencyDone (pr_done_at io) key)
                           (upd_store (MT_IdempotencyFinish (pr_finish_ok io) (pr_finish_at io) (ss_alias s) key) a0)
                    else a0);
              a2 = (case chatRef of Some c \<Rightarrow> upd_sess i (upd_guard (ClearPeerBackoff c)) a1 | None \<Rightarrow> a1)
          in (upd_sess i (NoteFirstSend (pr_first_at io)) a2, MJson 200 [(''ok'', JBool True), (''result'', result)]))"

text \<open>
  After admission. The client is read again: when the session is no longer live the interface value is nil,
  and the first call on it panics; an adapter that refuses its arguments never touches it.
\<close>

definition proxy_call ::
  "'k proxy_io \<Rightarrow> string \<Rightarrow> obj \<Rightarrow> int option \<Rightarrow> string \<Rightarrow> nat \<Rightarrow> 'k mtapp \<Rightarrow> 'k mtapp \<times> mt_reply" where
  "proxy_call io m body chatRef key i a =
     (case sess_at i a of
        None \<Rightarrow> (a, MPanic)
      | Some s \<Rightarrow>
          (case Dispatch (pr_b64 io) (pr_client io) m body of
             (calls, result) \<Rightarrow>
               if LiveClient s = None \<and> calls \<noteq> [] then (a, MPanic)
               else
                 let a1 = (case LiveClient s of None \<Rightarrow> a | Some c \<Rightarrow> a\<lparr>ma_calls := ma_calls a @ map (Pair c) calls\<rparr>) in
                 (case result of
                    Inl ErrUnsupported \<Rightarrow>
                      (a1, MJson 501 (mt_err_d 501 (''unsupported method (not in the adapter allowlist): '' @ m @
                         ''; supported: '' @ join_with '', '' (SupportedMethods (pr_b64 io)))))
                  | Inl (DispatchErr err) \<Rightarrow> send_failed io err chatRef key i a1
                  | Inr v \<Rightarrow> send_done io v chatRef key i a1)))"

text \<open>Between the paid lane's entry and its deferred exit.\<close>

definition proxy_admitted ::
  "'k proxy_io \<Rightarrow> string \<Rightarrow> obj \<Rightarrow> int option \<Rightarrow> string \<Rightarrow> nat \<Rightarrow> 'k mtapp \<Rightarrow> ('k mtapp \<times> mt_reply) option" where
  "proxy_admitted io m body chatRef key i a =
     (case sess_at i a of
        None \<Rightarrow> None
      | Some s \<Rightarrow>
          let paidRequested = (obj_get body ''allow_paid_broadcast'' = JBool True);
              a1 = upd_sess i (upd_guard (EnterPaidLane paidRequested)) a;
              leave = (\<lambda>(a', r). (upd_sess i (upd_guard ExitPaidLane) a', r))
          in if paidRequested \<and> \<not> PaidEnabled (ss_guard s)
             then Some (leave (a1, MJson 403 (mt_err_d 403 ''paid broadcast requires gateway opt-in'')))
             else case mt_admit m chatRef i (pr_script io) 0 a1 of
                 None \<Rightarrow> None
               | Some (a2, Some r) \<Rightarrow> Some (leave (a2, r))
               | Some (a2, None) \<Rightarrow> Some (leave (proxy_call io m body chatRef key i a2)))"

definition mt_claim ::
  "'k proxy_io \<Rightarrow> string \<Rightarrow> nat \<Rightarrow> 'k mtapp \<Rightarrow> 'k mtapp \<times> verdict" where
  "mt_claim io key i a =
     (case sess_at i a of
        None \<Rightarrow> (a, Claimed)
      | Some s \<Rightarrow>
          (case CheckIdempotency (pr_claim io) (pr_seen_now io) (pr_claim_at io) key (s, mm_store (ma_mgr a)) of
             ((s1, st1), v) \<Rightarrow> (upd_store (\<lambda>_. st1) (upd_sess i (\<lambda>_. s1) a), v)))"

definition dispatchProxy ::
  "'k proxy_io \<Rightarrow> nat \<Rightarrow> string \<Rightarrow> mt_req \<Rightarrow> 'k mtapp \<Rightarrow> ('k mtapp \<times> mt_reply) option" where
  "dispatchProxy io i m r a =
     (case sess_at i a of
        None \<Rightarrow> None
      | Some s \<Rightarrow>
          if LiveClient s = None
          then Some (a, MJson 503 (mt_err_d 503 (''session state: '' @ state_text (ss_state s)) @ [(''retry_in'', JInt 3)]))
          else case mq_body r of
              BodyTooLarge \<Rightarrow> Some (a, MJson 413 (mt_err_d 413 ''request body exceeds the gateway limit''))
            | BodyBad \<Rightarrow> Some (a, MJson 400 (mt_err_d 400 ''invalid JSON body''))
            | b \<Rightarrow>
                let body0 = (case b of BodyObj x \<Rightarrow> x | _ \<Rightarrow> []);
                    chatRef = extractChatRef body0;
                    key = idem_key body0;
                    body = strip_key body0;
                    (a1, v) = (if key \<noteq> [] then mt_claim io key i a else (a, Claimed))
                in if key \<noteq> [] \<and> v = Replay then Some (a1, replay_reply)
                   else if (case sess_at i a1 of Some s \<Rightarrow> SendPaused s | None \<Rightarrow> False) \<and> \<not> isReadMethod m
                   then Some (a1, MJson 423 (mt_err_d 423 ''sending is paused for this session (E4)''))
                   else proxy_admitted io m body chatRef key i a1)"

definition handleProxyMethod ::
  "'k proxy_io \<Rightarrow> string \<Rightarrow> string \<Rightarrow> mt_req \<Rightarrow> 'k mtapp \<Rightarrow> ('k mtapp \<times> mt_reply) option" where
  "handleProxyMethod io alias m r a =
     (if \<not> mt_appAuthed r a then Some (a, MJson 401 (mt_err 401))
      else case MM_Get alias (ma_mgr a) of
          None \<Rightarrow> Some (a, MJson 404 (mt_err_d 404 (''unknown session: '' @ alias)))
        | Some i \<Rightarrow> dispatchProxy io i m r a)"

definition handleProxyByToken :: "'k proxy_io \<Rightarrow> mt_req \<Rightarrow> 'k mtapp \<Rightarrow> ('k mtapp \<times> mt_reply) option" where
  "handleProxyByToken io r a =
     (if \<not> mt_appAuthed r a then Some (a, MJson 401 (mt_err 401))
      else case mt_splitBotTokenPath (mq_path r) ''/v1/token'' of
          None \<Rightarrow> Some (a, MJson 404 (mt_err 404))
        | Some (token, m) \<Rightarrow>
            (case MM_FindByToken token (ma_mgr a) of
               None \<Rightarrow> Some (a, MJson 404 (mt_err_d 404 ''unknown bot token''))
             | Some i \<Rightarrow> dispatchProxy io i m r a))"

subsection \<open>Pulling updates\<close>

definition drainUpdateCh :: "int \<Rightarrow> Session \<Rightarrow> Session \<times> obj list" where
  "drainUpdateCh limit s = (s\<lparr>updateCh := drop (nat limit) (updateCh s)\<rparr>, take (nat limit) (updateCh s))"

definition maxSeq :: "obj list \<Rightarrow> int" where
  "maxSeq us =
     fold (\<lambda>u m. case anyToInt64 (obj_get u ''_gw_seq'') of Some v \<Rightarrow> if v > m then v else m | None \<Rightarrow> m) us 0"

text \<open>One turn of a pull loop: the outcome of the statements, the clock, and how the sleep ended.\<close>

record 'k pull_turn =
  pl_ok :: bool
  pl_now :: rat
  pl_end :: "'k mt_sleep"

definition empty_result :: mt_reply where
  "empty_result = MJson 200 [(''ok'', JBool True), (''result'', JArr [])]"

fun offset_loop ::
  "string \<Rightarrow> int \<Rightarrow> int \<Rightarrow> rat \<Rightarrow> 'k pull_turn list \<Rightarrow> 'k mtapp \<Rightarrow> ('k mtapp \<times> mt_reply) option"
where
  "offset_loop alias off limit deadline [] a = None"
| "offset_loop alias off limit deadline (t # ts) a =
     (let raws = QueuePullRaw (pl_ok t) alias (wrap64 (off - 1)) limit (mm_store (ma_mgr a)) in
      if raws \<noteq> [] then Some (a, MSplice raws)
      else if deadline - pl_now t \<le> 0 then Some (a, empty_result)
      else case pl_end t of
          MHungUp \<Rightarrow> Some (a, MGoneReply)
        | MSlept others \<Rightarrow> offset_loop alias off limit deadline ts (others a))"

definition take_belt :: "bool \<Rightarrow> int \<Rightarrow> nat \<Rightarrow> Session \<Rightarrow> 'k mtapp \<Rightarrow> 'k mtapp \<times> obj list" where
  "take_belt ack_ok limit i s a =
     (let (s1, us) = drainUpdateCh limit s; a1 = upd_sess i (\<lambda>_. s1) a
      in (upd_store (\<lambda>st. fst (QueueAck ack_ok (ss_alias s) (maxSeq us) st)) a1, us))"

fun belt_loop :: "int \<Rightarrow> rat \<Rightarrow> nat \<Rightarrow> 'k pull_turn list \<Rightarrow> 'k mtapp \<Rightarrow> ('k mtapp \<times> mt_reply) option"
where
  "belt_loop limit deadline i [] a = None"
| "belt_loop limit deadline i (t # ts) a =
     (case sess_at i a of
        None \<Rightarrow> None
      | Some s \<Rightarrow>
          if snd (drainUpdateCh limit s) \<noteq> []
          then (let (a1, us) = take_belt (pl_ok t) limit i s a
                in Some (a1, MJson 200 [(''ok'', JBool True), (''result'', JArr (map JObj us))]))
          else if deadline - pl_now t \<le> 0 then Some (a, empty_result)
          else case pl_end t of
              MHungUp \<Rightarrow> Some (a, MGoneReply)
            | MSlept others \<Rightarrow> belt_loop limit deadline i ts (others a))"

record 'k updates_io =
  gu_ack_ok :: bool
  gu_start :: rat
  gu_turns :: "'k pull_turn list"

definition handleGetUpdates ::
  "'k updates_io \<Rightarrow> string \<Rightarrow> mt_req \<Rightarrow> 'k mtapp \<Rightarrow> ('k mtapp \<times> mt_reply) option" where
  "handleGetUpdates io alias r a =
     (if \<not> mt_appAuthed r a then Some (a, MJson 401 (mt_err 401))
      else case MM_Get alias (ma_mgr a) of
          None \<Rightarrow> Some (a, MJson 404 (mt_err 404))
        | Some i \<Rightarrow>
            (case sess_at i a of
               None \<Rightarrow> None
             | Some s \<Rightarrow>
                 let body = (case mq_body r of BodyObj x \<Rightarrow> x | _ \<Rightarrow> []);
                     timeout = (case anyToFloat (obj_get body ''timeout'') of Some v \<Rightarrow> min v 50 | None \<Rightarrow> 0);
                     limit = (case anyToInt64 (obj_get body ''limit'') of Some v \<Rightarrow> if v > 0 then v else 100 | None \<Rightarrow> 100)
                 in case anyToInt64 (obj_get body ''offset'') of
                      Some off \<Rightarrow>
                        offset_loop (ss_alias s) off limit (gu_start io + timeout) (gu_turns io)
                          (upd_store (\<lambda>st. fst (QueueAck (gu_ack_ok io) (ss_alias s) (wrap64 (off - 1)) st)) a)
                    | None \<Rightarrow>
                        if timeout = 0
                        then (let (a1, us) = take_belt (gu_ack_ok io) limit i s a
                              in Some (a1, MJson 200 [(''ok'', JBool True), (''result'', JArr (map JObj us))]))
                        else belt_loop limit (gu_start io + timeout) i (gu_turns io) a))"

subsection \<open>Web sockets\<close>

text \<open>
  The connection's life: attach, a message from the consumer, the writer goroutine, and the deferred
  detach that closes the channel. \<open>ch\<close> is the channel made for the connection.
\<close>

definition ws_attach :: "string \<Rightarrow> nat \<Rightarrow> rat \<Rightarrow> nat \<Rightarrow> 'k mtmgr \<Rightarrow> 'k mtmgr" where
  "ws_attach cid ch now i m =
     (on_session i (AddConsumer \<lparr>c_ID = cid, c_chan = ch, c_ConnectedAt = now\<rparr>) m)\<lparr>mm_chans :=
        AList.update ch ([], False) (mm_chans m)\<rparr>"

definition ws_ping :: "nat \<Rightarrow> obj \<Rightarrow> 'k mtmgr \<Rightarrow> 'k mtmgr option" where
  "ws_ping ch msg m =
     (if obj_get msg ''type'' = JStr ''ping''
      then map_option (\<lambda>(cs, ok). m\<lparr>mm_chans := cs\<rparr>) (trySend ch [(''type'', JStr ''pong'')] (mm_chans m))
      else Some m)"

definition ws_detach :: "string \<Rightarrow> nat \<Rightarrow> nat \<Rightarrow> 'k mtmgr \<Rightarrow> 'k mtmgr" where
  "ws_detach cid ch i m =
     (on_session i (RemoveConsumer cid) m)\<lparr>mm_chans :=
        (case map_of (mm_chans m) ch of Some (buf, shut) \<Rightarrow> AList.update ch (buf, True) (mm_chans m) | None \<Rightarrow> mm_chans m)\<rparr>"

datatype ws_answer = WsUnknown | WsUnauthorized | WsJoined string SessionState

definition handleWSUpdates ::
  "string \<Rightarrow> nat \<Rightarrow> rat \<Rightarrow> string \<Rightarrow> mt_req \<Rightarrow> 'k mtapp \<Rightarrow> 'k mtapp \<times> ws_answer" where
  "handleWSUpdates cid ch now alias r a =
     (case MM_Get alias (ma_mgr a) of
        None \<Rightarrow> (a, WsUnknown)
      | Some i \<Rightarrow>
          if \<not> mt_appAuthed r a then (a, WsUnauthorized)
          else (a\<lparr>ma_mgr := ws_attach cid ch now i (ma_mgr a)\<rparr>,
                WsJoined cid (case sess_at i a of Some s \<Rightarrow> ss_state s | None \<Rightarrow> StateError)))"

subsection \<open>Session health and files\<close>

definition handleSessionHealth ::
  "rat \<times> rat \<times> rat \<Rightarrow> secs \<Rightarrow> string \<Rightarrow> mt_req \<Rightarrow> 'k mtapp \<Rightarrow> 'k mtapp \<times> mt_reply" where
  "handleSessionHealth clk now alias r a =
     (if \<not> mt_appAuthed r a then (a, MJson 401 (mt_err 401))
      else case MM_Get alias (ma_mgr a) of
          None \<Rightarrow> (a, MJson 404 (mt_err 404))
        | Some i \<Rightarrow>
            (case sess_at i a of
               None \<Rightarrow> (a, MPanic)
             | Some s \<Rightarrow>
                 let (g, snap) = MT_Snapshot now (ss_guard s)
                 in (upd_sess i (upd_guard (\<lambda>_. g)) a, MStatsReply (MT_Stats (fst clk) (fst (snd clk)) (snd (snd clk)) s) snap)))"

text \<open>\<open>dl\<close> is the client's answer: an error, or the bytes (\<open>None\<close>: nil).\<close>

definition handleDownloadFile ::
  "string + string option \<Rightarrow> string \<Rightarrow> mt_req \<Rightarrow> 'k mtapp \<Rightarrow> 'k mtapp \<times> mt_reply" where
  "handleDownloadFile dl alias r a =
     (if \<not> mt_appAuthed r a then (a, MJson 401 (mt_err 401))
      else case MM_Get alias (ma_mgr a) of
          None \<Rightarrow> (a, MJson 404 (mt_err 404))
        | Some i \<Rightarrow>
            (case map_option LiveClient (sess_at i a) of
               Some (Some c) \<Rightarrow>
                 (case dl of
                    Inl err \<Rightarrow> (a, MJson 500 (mt_err_d 500 (take 200 err)))
                  | Inr None \<Rightarrow> (a, MJson 404 (mt_err_d 404 ''media not found''))
                  | Inr (Some payload) \<Rightarrow> (a, MBytes payload))
             | _ \<Rightarrow> (a, MJson 404 (mt_err 404))))"

end
