(* ===== verification/MTAdmin.thy ===== *)
theory MTAdmin
  imports MTApp Routes Db
begin

text \<open>
  The operator's surface of the MTProto sidecar (\<^verbatim>\<open>internal/mtproto/app.go\<close>): the admin handlers, the
  probes and metrics, boot, housekeeping, maintenance and shutdown, and the route tables.
\<close>

subsection \<open>The operator's handlers\<close>

definition upd_mgr :: "('k mtmgr \<Rightarrow> 'k mtmgr) \<Rightarrow> 'k mtapp \<Rightarrow> 'k mtapp" where
  "upd_mgr f a = a\<lparr>ma_mgr := f (ma_mgr a)\<rparr>"

definition upd_world :: "'k mtworld \<Rightarrow> 'k mtapp \<Rightarrow> 'k mtapp" where
  "upd_world w a = a\<lparr>ma_mgr := fst w, ma_host := snd w\<rparr>"

definition world_of :: "'k mtapp \<Rightarrow> 'k mtworld" where
  "world_of a = (ma_mgr a, ma_host a)"

record mt_audit_io =
  ma_ts :: string
  ma_ok :: bool

definition mt_note :: "mt_audit_io \<Rightarrow> string \<Rightarrow> string \<Rightarrow> string \<Rightarrow> 'k mtapp \<Rightarrow> 'k mtapp" where
  "mt_note io action alias detail = upd_store (MT_Audit (ma_ts io) (ma_ok io) action alias detail)"

definition mt_with_admin ::
  "mt_req \<Rightarrow> ('k mtapp \<Rightarrow> 'k mtapp \<times> mt_reply) \<Rightarrow> 'k mtapp \<Rightarrow> 'k mtapp \<times> mt_reply" where
  "mt_with_admin r f a = (if \<not> mt_adminAuthed r a then (a, MJson 401 (mt_err 401)) else f a)"

definition mt_ok_reply :: "bool \<Rightarrow> mt_reply" where
  "mt_ok_reply b = MJson 200 [(''ok'', JBool b)]"

definition last4 :: "string \<Rightarrow> string" where
  "last4 s = (if length s \<le> 4 then s else drop (length s - 4) s)"

text \<open>\<open>body\<close>: what the decoder left of alias and token, \<open>None\<close> on an error; \<open>reg_err\<close>: the error text.\<close>

definition mt_adminRegister ::
  "'k fernet_lib \<Rightarrow> mt_reg_io \<Rightarrow> string \<Rightarrow> mt_audit_io \<Rightarrow> (string \<times> string) option \<Rightarrow> mt_req \<Rightarrow> 'k mtapp \<Rightarrow> 'k mtapp \<times> mt_reply" where
  "mt_adminRegister F io reg_err aio body r = mt_with_admin r (\<lambda>a.
     case body of
       None \<Rightarrow> (a, MJson 400 (mt_err_d 400 ''alias and token required''))
     | Some (alias, token) \<Rightarrow>
         if alias = [] \<or> token = [] then (a, MJson 400 (mt_err_d 400 ''alias and token required''))
         else
           (case MM_Register F io alias token (world_of a) of
              (w, None) \<Rightarrow> (upd_world w a, MJson 500 (mt_err_d 500 reg_err))
            | (w, Some i) \<Rightarrow>
                let a1 = mt_note aio ''register'' alias (''token='' @ [CHR 0xE2, CHR 0x80, CHR 0xA6] @ last4 token) (upd_world w a)
                in (a1, MJson 200 [(''ok'', JBool True), (''alias'', JStr alias),
                     (''state'', JStr (case sess_at i a1 of Some s \<Rightarrow> state_text (ss_state s) | None \<Rightarrow> []))])))"

definition mt_sortedAliases :: "'k mtmgr \<Rightarrow> string list" where
  "mt_sortedAliases m = sort (map fst (mm_sessions m))"

definition mt_adminStatus :: "(string \<Rightarrow> rat \<times> rat \<times> rat) \<Rightarrow> mt_req \<Rightarrow> 'k mtapp \<Rightarrow> 'k mtapp \<times> mt_reply" where
  "mt_adminStatus clk r = mt_with_admin r (\<lambda>a.
     (a, MStatus (List.map_filter (\<lambda>alias. case MM_Get alias (ma_mgr a) of
            None \<Rightarrow> None
          | Some i \<Rightarrow> map_option (MT_Stats (fst (clk alias)) (fst (snd (clk alias))) (snd (snd (clk alias)))) (sess_at i a))
        (mt_sortedAliases (ma_mgr a)))))"

datatype lifecycle = LcPause | LcResume | LcDrain | LcPauseSending | LcResumeSending

definition lifecycle_name :: "lifecycle \<Rightarrow> string" where
  "lifecycle_name x = (case x of LcPause \<Rightarrow> ''pause'' | LcResume \<Rightarrow> ''resume'' | LcDrain \<Rightarrow> ''drain''
     | LcPauseSending \<Rightarrow> ''pause_sending'' | LcResumeSending \<Rightarrow> ''resume_sending'')"

definition adminLifecycle ::
  "lifecycle \<Rightarrow> bool \<Rightarrow> mt_audit_io \<Rightarrow> string \<Rightarrow> mt_req \<Rightarrow> 'k mtapp \<Rightarrow> 'k mtapp \<times> mt_reply" where
  "adminLifecycle act set_ok aio alias r = mt_with_admin r (\<lambda>a.
     let (m, ok) = (case act of
            LcPause \<Rightarrow> MM_Pause set_ok alias (ma_mgr a)
          | LcResume \<Rightarrow> MM_Resume set_ok alias (ma_mgr a)
          | LcDrain \<Rightarrow> MM_Drain alias (ma_mgr a)
          | LcPauseSending \<Rightarrow> MM_PauseSending alias (ma_mgr a)
          | LcResumeSending \<Rightarrow> MM_ResumeSending alias (ma_mgr a));
         a1 = a\<lparr>ma_mgr := m\<rparr>
     in (if ok then mt_note aio (lifecycle_name act) alias [] a1 else a1, mt_ok_reply ok))"

definition adminRestart :: "mt_audit_io \<Rightarrow> string \<Rightarrow> mt_req \<Rightarrow> 'k mtapp \<Rightarrow> 'k mtapp \<times> mt_reply" where
  "adminRestart aio alias r = mt_with_admin r (\<lambda>a.
     case MM_Get alias (ma_mgr a) of
       None \<Rightarrow> (a, MJson 404 (mt_err 404))
     | Some i \<Rightarrow>
         if (case sess_at i a of Some s \<Rightarrow> terminalError s | None \<Rightarrow> False)
         then (a, MJson 409 (mt_err_d 409 (''session quarantined (terminal error) '' @ [CHR 0xE2, CHR 0x80, CHR 0x94] @
            '' unregister and re-register instead'')))
         else
           let (m, ok) = MM_Restart alias (ma_mgr a); a1 = a\<lparr>ma_mgr := m\<rparr>
           in (if ok then mt_note aio ''restart'' alias [] a1 else a1, mt_ok_reply ok))"

record 'k mt_restore_io =
  mr_lib :: "'k fernet_lib"
  mr_list_ok :: bool
  mr_reg :: "SessionRow \<Rightarrow> mt_reg_io"

definition mt_restore_app :: "'k mt_restore_io \<Rightarrow> 'k mtapp \<Rightarrow> 'k mtapp \<times> nat" where
  "mt_restore_app io a =
     (let (w, n) = MM_RestoreAll (mr_lib io) (mr_list_ok io) (mr_reg io) (world_of a) in (upd_world w a, n))"

definition mt_adminSafeModeAck :: "'k mt_restore_io \<Rightarrow> mt_audit_io \<Rightarrow> mt_req \<Rightarrow> 'k mtapp \<Rightarrow> 'k mtapp \<times> mt_reply" where
  "mt_adminSafeModeAck io aio r = mt_with_admin r (\<lambda>a.
     let (a1, n) = mt_restore_app io (a\<lparr>ma_boot_file := BootTracker_Clear (ma_boot_file a), ma_safe := False\<rparr>)
     in (mt_note aio ''safe_mode_ack'' ''global'' (''restored='' @ itoa (int n)) a1,
         MJson 200 [(''ok'', JBool True), (''safe_mode'', JBool False), (''restored'', JInt (int n))]))"

definition adminListDeadLetters :: "bool \<Rightarrow> string \<Rightarrow> mt_req \<Rightarrow> 'k mtapp \<Rightarrow> 'k mtapp \<times> mt_reply" where
  "adminListDeadLetters ok alias r = mt_with_admin r (\<lambda>a.
     if MM_Get alias (ma_mgr a) = None then (a, MJson 404 (mt_err 404))
     else (a, MDead (ListDeadLetters ok alias 200 (mm_store (ma_mgr a)))))"

definition adminClearDeadLetters :: "bool \<Rightarrow> mt_audit_io \<Rightarrow> string \<Rightarrow> mt_req \<Rightarrow> 'k mtapp \<Rightarrow> 'k mtapp \<times> mt_reply" where
  "adminClearDeadLetters ok aio alias r = mt_with_admin r (\<lambda>a.
     let (st, n) = ClearDeadLetters ok alias (mm_store (ma_mgr a))
     in (mt_note aio ''deadletters_clear'' alias (''count='' @ itoa n) (upd_store (\<lambda>_. st) a),
         MJson 200 [(''ok'', JBool True), (''cleared'', JInt n)]))"

definition mt_adminDelete :: "bool \<Rightarrow> mt_audit_io \<Rightarrow> string \<Rightarrow> mt_req \<Rightarrow> 'k mtapp \<Rightarrow> 'k mtapp \<times> mt_reply" where
  "mt_adminDelete ok aio alias r = mt_with_admin r (\<lambda>a.
     case MM_Unregister ok alias (world_of a) of
       (w, True) \<Rightarrow> (mt_note aio ''delete'' alias [] (upd_world w a), mt_ok_reply True)
     | (w, False) \<Rightarrow> (upd_world w a, mt_ok_reply False))"

definition mt_adminSetPaid :: "mt_audit_io \<Rightarrow> string \<Rightarrow> bool \<Rightarrow> mt_req \<Rightarrow> 'k mtapp \<Rightarrow> 'k mtapp \<times> mt_reply" where
  "mt_adminSetPaid aio alias enabled r = mt_with_admin r (\<lambda>a.
     case MM_Get alias (ma_mgr a) of
       None \<Rightarrow> (a, MJson 404 (mt_err 404))
     | Some i \<Rightarrow>
         (mt_note aio ''set_paid'' alias (''enabled='' @ (if enabled then ''true'' else ''false''))
            (upd_sess i (upd_guard (\<lambda>g. g\<lparr>PaidEnabled := enabled\<rparr>)) a),
          MJson 200 [(''ok'', JBool True), (''paid_broadcasts'', JBool enabled)]))"

definition mt_adminAudit :: "bool \<Rightarrow> mt_req \<Rightarrow> 'k mtapp \<Rightarrow> 'k mtapp \<times> mt_reply" where
  "mt_adminAudit ok r = mt_with_admin r (\<lambda>a. (a, MAuditLog (MT_GetAudit ok 100 (mm_store (ma_mgr a)))))"

subsection \<open>Boot, housekeeping, maintenance, shutdown\<close>

record 'k mt_boot_io =
  mb_now :: int
  mb_write_ok :: bool
  mb_restore :: "'k mt_restore_io"

text \<open>The tokens that do not decrypt are only logged; they are the second result.\<close>

definition mt_buildLifecycle :: "'k mt_boot_io \<Rightarrow> bool \<Rightarrow> 'k mtapp \<Rightarrow> 'k mtapp \<times> string list" where
  "mt_buildLifecycle io skipRestore a =
     (let ((t, f), safe, boots) = RecordBoot (mb_now io) (mb_write_ok io) (ma_boot a) (ma_boot_file a);
          a1 = a\<lparr>ma_boot := t, ma_boot_file := f, ma_safe := safe\<rparr>;
          a2 = (if safe \<or> skipRestore then a1 else fst (mt_restore_app (mb_restore io) a1))
      in (a2, MT_VerifyTokens (mr_lib (mb_restore io)) (mm_store (ma_mgr a2))))"

text \<open>The volume and the process number are those the process finds; \<open>opened\<close> is the outcome of \<^verbatim>\<open>OpenMT\<close>.\<close>

definition newApp ::
  "'k mt_boot_io \<Rightarrow> MTProto \<Rightarrow> nat \<Rightarrow> lock_host \<Rightarrow> 'e + 'k mtstore \<Rightarrow> rat list option \<Rightarrow> int \<Rightarrow> bool \<Rightarrow> 'e + ('k mtapp \<times> string list)" where
  "newApp io cfg pid h opened boot_file now skipRestore =
     (case opened of
        Inl err \<Rightarrow> Inl err
      | Inr st \<Rightarrow>
          Inr (mt_buildLifecycle io skipRestore
            \<lparr>ma_mgr = MM_New cfg pid st NewStorage, ma_host = h, ma_beat = NewBeat now, ma_boot = \<lparr>WindowS = 0, MaxBoots = 0\<rparr>,
             ma_boot_file = boot_file, ma_safe = False, ma_calls = [], ma_closed = False\<rparr>))"

text \<open>One tick of the housekeeping loop.\<close>

record house_io =
  hk_state :: "nat \<Rightarrow> MTState"
  hk_save_ok :: bool
  hk_idem_ok :: bool
  hk_idem_now :: rat
  hk_now :: rat
  hk_prune_now :: rat
  hk_ttl_ok :: bool

definition house_one :: "house_io \<Rightarrow> rat \<Rightarrow> string \<times> nat \<Rightarrow> 'k mtmgr \<Rightarrow> 'k mtmgr" where
  "house_one io ttl e m =
     (case deref (snd e) m of
        None \<Rightarrow> m
      | Some s \<Rightarrow>
          let m1 = on_session (snd e) (\<lambda>s. fst (PruneExpiredUpdates (hk_prune_now io) ttl s)) m
          in m1\<lparr>mm_store := fst (QueueTTLCleanup (hk_ttl_ok io) (ss_alias s) (hk_now io - ttl) (mm_store m1))\<rparr>)"

definition housekeeping :: "house_io \<Rightarrow> 'k mtapp \<Rightarrow> 'k mtapp" where
  "housekeeping io a =
     (let a1 = upd_mgr (MM_PersistStates (hk_state io) (hk_save_ok io)) a;
          a2 = upd_store (IdempotencyCleanup (hk_idem_ok io) (hk_idem_now io)) a1;
          ttl = UpdateTTLS (mtPolicy (mm_cfg (ma_mgr a2)))
      in upd_mgr (\<lambda>m. fold (house_one io ttl) (mm_sessions m) m) a2)"

definition mt_maintenance ::
  "(string \<Rightarrow> check_io) \<Rightarrow> ('c disk_file \<Rightarrow> 'c disk_file option) \<Rightarrow> (string \<Rightarrow> string) \<Rightarrow> rat \<Rightarrow> string \<Rightarrow> 'k mtapp \<times> 'c fs \<Rightarrow>
    ('k mtapp \<times> 'c fs) option" where
  "mt_maintenance io vac stamp now path st =
     (let (a, f) = st; c = mm_cfg (ma_mgr a) in
      map_option (\<lambda>(f', h). (upd_mgr (\<lambda>m. m\<lparr>mm_health := h\<rparr>) a, f'))
        (MaintenancePass io vac stamp now [path] (mtDataDir c @ ''/backups'')
           (BackupKeep (mtStorage c)) (BackupInterval (mtStorage c)) True (f, mm_health (ma_mgr a))))"

definition mt_Close :: "(nat \<Rightarrow> MTState) \<Rightarrow> bool \<Rightarrow> 'k mtapp \<Rightarrow> 'k mtapp" where
  "mt_Close ust ok a =
     (if ma_closed a then a
      else
        let a1 = upd_mgr (MM_PersistStates ust ok) (a\<lparr>ma_closed := True, ma_beat := Beat_Stop (ma_beat a)\<rparr>)
        in upd_world (MM_Shutdown (world_of a1)) a1)"

subsection \<open>Probes and metrics\<close>

definition mt_round2 :: "rat \<Rightarrow> rat" where
  "mt_round2 f = of_int (int64_of_float (f * 100 + 1 / 2)) / 100"

definition mt_handleHealthz :: "int \<Rightarrow> int \<Rightarrow> 'k mtapp \<Rightarrow> mt_reply" where
  "mt_handleHealthz now1 now2 a =
     MJson 200 [(''ok'', JBool (Alive now1 (ma_beat a))), (''version'', JStr Version), (''loop_lag_s'', JNum (mt_round2 (Lag now2 (ma_beat a))))]"

definition mt_handleReadyz :: "string option \<Rightarrow> string option \<Rightarrow> 'k mtapp \<Rightarrow> mt_reply" where
  "mt_handleReadyz begin_probe rollback_probe a =
     (case begin_probe of
        Some err \<Rightarrow> MJson 503 [(''ok'', JBool False), (''error'', JStr err)]
      | None \<Rightarrow>
          (case rollback_probe of
             Some err \<Rightarrow> MJson 503 [(''ok'', JBool False), (''error'', JStr err)]
           | None \<Rightarrow>
               if Degraded (mm_health (ma_mgr a)) \<noteq> [] then MDegraded (Storage_Snapshot (mm_health (ma_mgr a)))
               else if ma_safe a then MJson 503 [(''ok'', JBool False), (''safe_mode'', JBool True)]
               else
                 let states = List.map_filter (\<lambda>(alias, i). map_option (\<lambda>s. (alias, ss_state s)) (sess_at i a))
                       (mm_sessions (ma_mgr a))
                 in MReady states (length (filter (\<lambda>(al, st). st = StateLive) states))))"

definition mt_status :: "mt_reply \<Rightarrow> int" where
  "mt_status r = (case r of MJson c b \<Rightarrow> c | MDegraded s \<Rightarrow> 503 | MNotFound \<Rightarrow> 404 | _ \<Rightarrow> 200)"

definition mt_b2i :: "bool \<Rightarrow> rat" where
  "mt_b2i b = (if b then 1 else 0)"

definition gauge_if :: "string \<Rightarrow> string option \<Rightarrow> bool \<Rightarrow> rat \<Rightarrow> (string \<times> string option \<times> rat) list" where
  "gauge_if name l b v = (if b then [(name, l, v)] else [])"

text \<open>The sample lines as name, label and value; the last three are printed with a fixed number of decimals.\<close>

definition mt_session_metrics :: "rat \<Rightarrow> rat \<Rightarrow> string \<Rightarrow> Session \<Rightarrow> (string \<times> string option \<times> rat) list" where
  "mt_session_metrics wall mono_at alias s =
     (let l = Some alias;
          age = (if ConnectedSince s > 0 then int64_of_float (wall - ConnectedSince s) else 0);
          slo = DeployToFirstMessageS s
      in [(''tg_gateway_session_state'', l, mt_b2i (ss_state s = StateLive)),
          (''tg_gateway_session_connection_age_seconds'', l, of_int age),
          (''tg_gateway_update_queue_depth'', l, of_nat (length (updateCh s))),
          (''tg_gateway_real_flood_wait_total'', l, of_int (RealFloodWait s)),
          (''tg_gateway_synthetic_429_total'', l, of_int (Synthetic429 s)),
          (''tg_gateway_consumers'', l, of_nat (length (consumers s))),
          (''tg_gateway_send_paused'', l, mt_b2i (SendPaused s)),
          (''tg_gateway_session_reconnects_total'', l, of_int (ss_reconnects s)),
          (''tg_gateway_session_start_attempts_total'', l, of_int (startAttempts s)),
          (''tg_gateway_session_terminal'', l, mt_b2i (terminalError s)),
          (''tg_gateway_idempotency_claims_total'', l, of_int (IdempotencyClaims s)),
          (''tg_gateway_persist_failures_total'', l, of_int (Session.PersistFailures s))] @
         gauge_if ''tg_gateway_deploy_to_first_message_seconds'' l (slo > 0) slo @
         gauge_if ''tg_gateway_seconds_since_last_update'' l (LastUpdateAt s > 0) (wall - LastUpdateAt s) @
         gauge_if ''tg_gateway_seconds_since_ping_ok'' l (LastPingOKAt s > 0) (mono_at - LastPingOKAt s))"

definition mt_handleMetrics :: "rat \<Rightarrow> rat \<Rightarrow> int \<Rightarrow> 'k mtapp \<Rightarrow> mt_reply" where
  "mt_handleMetrics wall mono_at now a =
     (let m = ma_mgr a; h = mm_health m; p = Some ''mt'' in
      if \<not> MetricsEnabled (mm_cfg m) then MNotFound
      else MMetrics (concat (map (\<lambda>alias. case MM_Get alias m of
             None \<Rightarrow> []
           | Some i \<Rightarrow> (case deref i m of None \<Rightarrow> [] | Some s \<Rightarrow> mt_session_metrics wall mono_at alias s)) (mt_sortedAliases m))
        @ [(''tg_gateway_persist_failures_total'', p, of_int (Storage.PersistFailures h)),
           (''tg_gateway_corrupt_rows_total'', p, of_int (CorruptRows h)),
           (''tg_gateway_quarantined_files_total'', p, of_int (QuarantinedFiles h)),
           (''tg_gateway_storage_degraded'', p, mt_b2i (Degraded h \<noteq> [])),
           (''tg_gateway_lock_reclaims_total'', p, 0),
           (''tg_gateway_loop_lag_seconds'', p, mt_round2 (Lag now (ma_beat a)))]))"

subsection \<open>Routes\<close>

datatype mt_handler =
  HGetUpdates | HProxyMethod | HProxyByToken | HWSUpdates | HSessionHealth | HDownloadFile | HHealthz | HReadyz
| HRegister | HStatus | HLifecycle lifecycle | HRestart | HSafeModeAck | HListDead | HClearDead | HDelete | HSetPaid
| HAudit | HMetrics | HPprof string

definition mt_pat :: "string \<Rightarrow> seg list \<Rightarrow> pattern" where
  "mt_pat meth segs = \<lparr>pt_method = meth, pt_segs = segs, pt_subtree = False\<rparr>"

definition mt_publicRoutes :: "(pattern \<times> mt_handler) list" where
  "mt_publicRoutes =
     [(mt_pat ''POST'' [Lit ''v1'', Lit ''sessions'', Wild ''alias'', Lit ''getUpdates''], HGetUpdates),
      (mt_pat ''POST'' [Lit ''v1'', Lit ''sessions'', Wild ''alias'', Wild ''method''], HProxyMethod),
      (\<lparr>pt_method = ''POST'', pt_segs = [Lit ''v1'', Lit ''token''], pt_subtree = True\<rparr>, HProxyByToken),
      (mt_pat ''GET'' [Lit ''v1'', Lit ''sessions'', Wild ''alias'', Lit ''updates''], HWSUpdates),
      (mt_pat ''GET'' [Lit ''v1'', Lit ''sessions'', Wild ''alias'', Lit ''health''], HSessionHealth),
      (mt_pat ''GET'' [Lit ''v1'', Lit ''sessions'', Wild ''alias'', Lit ''files'', Wild ''file_id''], HDownloadFile),
      (mt_pat ''GET'' [Lit ''healthz''], HHealthz),
      (mt_pat ''GET'' [Lit ''readyz''], HReadyz)]"

definition mt_mountPprof :: "MTProto \<Rightarrow> (pattern \<times> mt_handler) list" where
  "mt_mountPprof cfg =
     (if \<not> mtPprof cfg then []
      else (\<lparr>pt_method = ''GET'', pt_segs = [Lit ''debug'', Lit ''pprof''], pt_subtree = True\<rparr>, HPprof []) #
        map (\<lambda>n. (mt_pat ''GET'' [Lit ''debug'', Lit ''pprof'', Lit n], HPprof n))
          [''cmdline'', ''profile'', ''symbol'', ''trace''])"

definition mt_sess_route :: "string \<Rightarrow> string \<Rightarrow> mt_handler \<Rightarrow> pattern \<times> mt_handler" where
  "mt_sess_route meth act h = (mt_pat meth [Lit ''v1'', Lit ''admin'', Lit ''sessions'', Wild ''alias'', Lit act], h)"

definition mt_adminRoutes :: "MTProto \<Rightarrow> (pattern \<times> mt_handler) list" where
  "mt_adminRoutes cfg = mt_mountPprof cfg @
     [(mt_pat ''POST'' [Lit ''v1'', Lit ''admin'', Lit ''sessions''], HRegister),
      (mt_pat ''GET'' [Lit ''v1'', Lit ''admin'', Lit ''status''], HStatus),
      mt_sess_route ''POST'' ''pause'' (HLifecycle LcPause), mt_sess_route ''POST'' ''resume'' (HLifecycle LcResume),
      mt_sess_route ''POST'' ''drain'' (HLifecycle LcDrain), mt_sess_route ''POST'' ''restart'' HRestart,
      (mt_pat ''POST'' [Lit ''v1'', Lit ''admin'', Lit ''safe-mode'', Lit ''ack''], HSafeModeAck),
      mt_sess_route ''GET'' ''deadletters'' HListDead, mt_sess_route ''DELETE'' ''deadletters'' HClearDead,
      (mt_pat ''DELETE'' [Lit ''v1'', Lit ''admin'', Lit ''sessions'', Wild ''alias''], HDelete),
      mt_sess_route ''POST'' ''pause_sending'' (HLifecycle LcPauseSending),
      mt_sess_route ''POST'' ''resume_sending'' (HLifecycle LcResumeSending),
      mt_sess_route ''POST'' ''paid'' HSetPaid,
      (mt_pat ''GET'' [Lit ''v1'', Lit ''admin'', Lit ''audit''], HAudit),
      (mt_pat ''GET'' [Lit ''metrics''], HMetrics)]"

definition mt_listeners :: "MTProto \<Rightarrow> (pattern \<times> mt_handler) list \<times> (pattern \<times> mt_handler) list option" where
  "mt_listeners cfg =
     (if mtAdminPort cfg > 0 then (mt_publicRoutes, Some (mt_adminRoutes cfg))
      else (mt_publicRoutes @ mt_adminRoutes cfg, None))"

end
