(* ===== verification/MTKeys.thy ===== *)
theory MTKeys
  imports MTApp MTSafety
begin

text \<open>
  Keyed sends through the MTProto proxy (\<^verbatim>\<open>dispatchProxy\<close> with an \<^verbatim>\<open>_idempotency_key\<close>): a completed send
  suppresses its duplicates; what the fast-path cache and the early returns of the handler do to a key whose
  send never happened.
\<close>

abbreviation app_store :: "'k mtapp \<Rightarrow> 'k mtstore" where
  "app_store a \<equiv> mm_store (ma_mgr a)"

lemma sess_at_upd [simp]:
  "sess_at j (upd_sess i f a) = (if i = j then map_option f (sess_at i a) else sess_at j a)"
  "sess_at j (upd_store g a) = sess_at j a"
  by (simp_all add: sess_at_def upd_sess_def upd_store_def)

lemma app_store_upd [simp]:
  "app_store (upd_sess i f a) = app_store a" "app_store (upd_store g a) = g (app_store a)"
  by (simp_all add: upd_sess_def upd_store_def)

lemma ma_calls_upd [simp]:
  "ma_calls (upd_sess i f a) = ma_calls a" "ma_calls (upd_store g a) = ma_calls a"
  by (simp_all add: upd_sess_def upd_store_def)

lemma ma_cfg_upd [simp]:
  "mm_cfg (ma_mgr (upd_sess i f a)) = mm_cfg (ma_mgr a)" "mm_cfg (ma_mgr (upd_store g a)) = mm_cfg (ma_mgr a)"
  by (simp_all add: upd_sess_def upd_store_def)

lemma ma_calls_frame [simp]:
  "sess_at i (a\<lparr>ma_calls := x\<rparr>) = sess_at i a" by (simp add: sess_at_def)

lemma update_same: "map_of xs k = Some v \<Longrightarrow> AList.update k v xs = xs"
  by (induction xs) (auto split: if_splits)

lemma upd_sess_same: "sess_at i a = Some s \<Longrightarrow> upd_sess i (\<lambda>_. s) a = a"
  by (simp add: upd_sess_def sess_at_def on_session_def deref_def update_same)

lemma upd_store_same: "upd_store (\<lambda>_. app_store a) a = a"
  by (simp add: upd_store_def)

text \<open>The request carries key \<open>key\<close> and finds its session connected.\<close>

definition keyed :: "nat \<Rightarrow> string \<Rightarrow> mt_req \<Rightarrow> 'k mtapp \<Rightarrow> bool" where
  "keyed i key r a \<longleftrightarrow> key \<noteq> [] \<and> (\<exists>body s. mq_body r = BodyObj body \<and> idem_key body = key \<and>
     sess_at i a = Some s \<and> LiveClient s \<noteq> None)"

definition keyed_body :: "mt_req \<Rightarrow> obj" where
  "keyed_body r = (case mq_body r of BodyObj x \<Rightarrow> x | _ \<Rightarrow> [])"

lemma keyed_dispatch:
  assumes "keyed i key r a"
  shows "dispatchProxy io i m r a =
    (case mt_claim io key i a of (a1, v) \<Rightarrow>
       if v = Replay then Some (a1, replay_reply)
       else if (case sess_at i a1 of Some s \<Rightarrow> SendPaused s | None \<Rightarrow> False) \<and> \<not> isReadMethod m
       then Some (a1, MJson 423 (mt_err_d 423 ''sending is paused for this session (E4)''))
       else proxy_admitted io m (strip_key (keyed_body r)) (extractChatRef (keyed_body r)) key i a1)"
proof -
  obtain body s c where "mq_body r = BodyObj body" "idem_key body = key" "sess_at i a = Some s" "LiveClient s = Some c" "key \<noteq> []"
    using assms by (auto simp: keyed_def)
  then show ?thesis by (simp add: dispatchProxy_def keyed_body_def Let_def case_prod_unfold)
qed

text \<open>The verdict of the store on a key it holds, and what the cache answers without asking it.\<close>

lemma mt_claim_cached:
  assumes "sess_at i a = Some s" "map_of (seenIdemKeys s) key = Some ts" "pr_seen_now io - ts < 300"
  shows "snd (mt_claim io key i a) = Replay" "app_store (fst (mt_claim io key i a)) = app_store a"
    "ma_calls (fst (mt_claim io key i a)) = ma_calls a"
  using assms by (simp_all add: mt_claim_def CheckIdempotency_def)

lemma mt_claim_verdict:
  assumes "sess_at i a = Some s" "mt_ok (app_store a)" "snd (mt_claim io key i a) \<noteq> Replay"
  shows "mt_peek (app_store (fst (mt_claim io key i a))) (ss_alias s) key = Some (Pending, pr_claim_at io)"
    "mt_ok (app_store (fst (mt_claim io key i a)))"
  using assms idem_claim_granted [of "mt_keys (app_store a)" "pr_claim io" "pr_claim_at io" "ss_alias s" key]
    idem_claim_inv [of "mt_keys (app_store a)" "pr_claim io" "pr_claim_at io" "ss_alias s" key]
  by (auto simp: mt_claim_def CheckIdempotency_def MT_IdempotencyClaim_def mt_peek_def mt_ok_def Let_def case_prod_unfold
      split: option.splits if_splits)

lemma mt_claim_pending:
  assumes "sess_at i a = Some s" "mt_ok (app_store a)" "mt_peek (app_store a) (ss_alias s) key = Some (Pending, t)"
    "pr_claim_at io \<le> t + 60"
  shows "snd (mt_claim io key i a) = Replay" "ma_calls (fst (mt_claim io key i a)) = ma_calls a"
  using assms idem_claim_laws(2) [of "mt_keys (app_store a)" "ss_alias s" key Pending t "pr_claim_at io" "pr_claim io"]
  by (auto simp: mt_claim_def CheckIdempotency_def MT_IdempotencyClaim_def mt_peek_def mt_ok_def Let_def case_prod_unfold
      split: option.splits)

subsection \<open>A completed send\<close>

lemma mt_admit_reply:
  "mt_admit m chatRef i ts waited a = Some (a1, Some r) \<Longrightarrow>
     r = MGoneReply \<or> (\<exists>n. r = retry_after_reply ''Too Many Requests: retry after '' n)"
  by (induction ts arbitrary: waited a) (auto simp: Let_def case_prod_unfold split: option.splits if_splits mt_sleep.splits)

lemma proxy_call_200:
  assumes "proxy_call io m body chatRef key i a = (a1, MJson 200 b)" "key \<noteq> []"
  shows "\<exists>s1. sess_at i a1 = Some s1 \<and> map_of (seenIdemKeys s1) key = Some (pr_done_at io)"
  using assms
  by (auto simp: proxy_call_def send_failed_def send_done_def retry_after_reply_def Let_def case_prod_unfold update_conv'
      NoteIdempotencyDone_def NoteFirstSend_def upd_guard_def
      split: option.splits if_splits prod.splits sum.splits dispatch_error.splits)

lemma proxy_admitted_200:
  assumes "proxy_admitted io m body chatRef key i a = Some (a1, MJson 200 b)" "key \<noteq> []"
  shows "\<exists>s1. sess_at i a1 = Some s1 \<and> map_of (seenIdemKeys s1) key = Some (pr_done_at io)"
proof -
  obtain s where s: "sess_at i a = Some s" using assms(1) by (auto simp: proxy_admitted_def split: option.splits)
  let ?a1 = "upd_sess i (upd_guard (EnterPaidLane (obj_get body ''allow_paid_broadcast'' = JBool True))) a"
  obtain a2 where ad: "mt_admit m chatRef i (pr_script io) 0 ?a1 = Some (a2, None)"
    and c: "(a1, MJson 200 b) = (\<lambda>(a', r). (upd_sess i (upd_guard ExitPaidLane) a', r)) (proxy_call io m body chatRef key i a2)"
    using assms(1) s
    by (auto simp: proxy_admitted_def Let_def retry_after_reply_def dest!: mt_admit_reply split: if_splits option.splits)
  obtain a3 where a3: "proxy_call io m body chatRef key i a2 = (a3, MJson 200 b)" "a1 = upd_sess i (upd_guard ExitPaidLane) a3"
    using c by (auto simp: case_prod_unfold prod_eq_iff)
  show ?thesis using proxy_call_200 [OF a3(1) assms(2)] by (auto simp: a3(2) upd_guard_def)
qed

text \<open>
  C20. A keyed send that completed suppresses its duplicates: after a request was answered 200 with a result,
  another request with the same key, for whatever method, that arrives less than 300 seconds later is
  answered as a replay, changes nothing and reaches no Telegram client, even when the store lost the row.
\<close>

theorem completed_send_suppresses:
  assumes "keyed i key r a" "dispatchProxy io i m r a = Some (a1, MJson 200 [(''ok'', JBool True), (''result'', v)])"
    and "keyed i key r2 (a1\<lparr>ma_mgr := (ma_mgr a1)\<lparr>mm_store := st\<rparr>\<rparr>)" "pr_seen_now io2 - pr_done_at io < 300"
  shows "dispatchProxy io2 i m2 r2 (a1\<lparr>ma_mgr := (ma_mgr a1)\<lparr>mm_store := st\<rparr>\<rparr>) =
    Some (a1\<lparr>ma_mgr := (ma_mgr a1)\<lparr>mm_store := st\<rparr>\<rparr>, replay_reply)"
proof -
  let ?a = "a1\<lparr>ma_mgr := (ma_mgr a1)\<lparr>mm_store := st\<rparr>\<rparr>"
  have key: "key \<noteq> []" using assms(1) by (simp add: keyed_def)
  have "proxy_admitted io m (strip_key (keyed_body r)) (extractChatRef (keyed_body r)) key i (fst (mt_claim io key i a)) =
      Some (a1, MJson 200 [(''ok'', JBool True), (''result'', v)])"
    using assms(2) unfolding keyed_dispatch [OF assms(1)] by (auto simp: replay_reply_def split: prod.splits if_splits)
  from proxy_admitted_200 [OF this key] obtain s1 where
    s1: "sess_at i ?a = Some s1" "map_of (seenIdemKeys s1) key = Some (pr_done_at io)" by (auto simp: sess_at_def)
  have "mt_claim io2 key i ?a = (?a, Replay)"
    using s1 assms(4) upd_store_same [of ?a] by (simp add: mt_claim_def CheckIdempotency_def upd_sess_same)
  then show ?thesis by (simp add: keyed_dispatch [OF assms(3)])
qed

subsection \<open>A send that never happened\<close>

lemma proxy_admitted_refused:
  assumes "proxy_admitted io m body chatRef key i a = Some (a1, reply)" "OnLimit (mtPolicy (mm_cfg (ma_mgr a))) = ''reject''"
    and "reply = MJson 403 (mt_err_d 403 ''paid broadcast requires gateway opt-in'') \<or>
      (\<exists>n. reply = retry_after_reply ''Too Many Requests: retry after '' n)"
  shows "app_store a1 = app_store a \<and> ma_calls a1 = ma_calls a"
proof -
  obtain s where s: "sess_at i a = Some s" using assms(1) by (auto simp: proxy_admitted_def split: option.splits)
  let ?a = "upd_sess i (upd_guard (EnterPaidLane (obj_get body ''allow_paid_broadcast'' = JBool True))) a"
  have "app_store a2 = app_store ?a \<and> ma_calls a2 = ma_calls ?a" if "mt_admit m chatRef i ts w ?a = Some (a2, r)" for ts w a2 r
    using that assms(2) by (cases ts) (auto simp: Let_def case_prod_unfold split: option.splits if_splits mt_sleep.splits)
  moreover have "snd (proxy_call io m body chatRef key i a2) \<noteq> reply" for a2
    using assms(3) by (auto simp: proxy_call_def send_failed_def send_done_def retry_after_reply_def mt_err_d_def mt_err_def
      Let_def case_prod_unfold split: option.splits sum.splits dispatch_error.splits)
  ultimately show ?thesis using assms(1) s
    by (fastforce simp: proxy_admitted_def Let_def case_prod_unfold split: if_splits option.splits)
qed

lemma proxy_admitted_not_paused: "proxy_admitted io m body chatRef key i a \<noteq> Some (a1, MJson 423 b)"
proof
  assume "proxy_admitted io m body chatRef key i a = Some (a1, MJson 423 b)"
  moreover have "snd (proxy_call io m body chatRef key i a2) \<noteq> MJson 423 b" for a2
    by (auto simp: proxy_call_def send_failed_def send_done_def retry_after_reply_def
      Let_def case_prod_unfold split: option.splits sum.splits dispatch_error.splits)
  ultimately show False
    by (auto simp: proxy_admitted_def Let_def case_prod_unfold retry_after_reply_def dest!: mt_admit_reply
      split: if_splits option.splits)
qed

text \<open>
  A refused send swallows its retries. When a keyed request is refused before anything was sent (sending is
  paused, the paid lane is closed, or the rate guard answers 429 with a \<^verbatim>\<open>retry_after\<close>), the claim on its key stays
  behind: a retry within the next 60 seconds is answered 200 as a replay of a send that was never made,
  whatever became of the pause or the bucket meanwhile.
\<close>

lemma refused_send_swallows_retry:
  assumes "keyed i key r a" "mt_ok (app_store a)" "dispatchProxy io i m r a = Some (a1, reply)"
    and "reply = MJson 423 (mt_err_d 423 ''sending is paused for this session (E4)'') \<or>
      OnLimit (mtPolicy (mm_cfg (ma_mgr a))) = ''reject'' \<and>
      (reply = MJson 403 (mt_err_d 403 ''paid broadcast requires gateway opt-in'') \<or>
       (\<exists>n. reply = retry_after_reply ''Too Many Requests: retry after '' n))"
    and "keyed i key r2 a2" "app_store a2 = app_store a1"
    and "sess_at i a = Some s" "sess_at i a2 = Some s2" "ss_alias s2 = ss_alias s" "pr_claim_at io2 \<le> pr_claim_at io + 60"
  shows "ma_calls a1 = ma_calls a \<and> (\<exists>a3. dispatchProxy io2 i m2 r2 a2 = Some (a3, replay_reply) \<and> ma_calls a3 = ma_calls a2)"
proof -
  let ?c = "mt_claim io key i a"
  have cfg: "mm_cfg (ma_mgr (fst ?c)) = mm_cfg (ma_mgr a)" "ma_calls (fst ?c) = ma_calls a"
    by (simp_all add: mt_claim_def case_prod_unfold split: option.split)
  have "reply \<noteq> replay_reply" using assms(4) by (auto simp: replay_reply_def retry_after_reply_def)
  then have v: "snd ?c \<noteq> Replay" using assms(3) unfolding keyed_dispatch [OF assms(1)] by (auto split: prod.splits)
  have a1: "app_store a1 = app_store (fst ?c) \<and> ma_calls a1 = ma_calls (fst ?c)"
  proof (cases "Some (a1, reply) = Some (fst ?c, MJson 423 (mt_err_d 423 ''sending is paused for this session (E4)''))")
    case False
    then have p: "proxy_admitted io m (strip_key (keyed_body r)) (extractChatRef (keyed_body r)) key i (fst ?c) = Some (a1, reply)"
      using assms(3) v unfolding keyed_dispatch [OF assms(1)] by (auto split: prod.splits if_splits)
    then show ?thesis using proxy_admitted_refused [OF p] assms(4) cfg by (auto simp: proxy_admitted_not_paused)
  qed simp
  have "mt_peek (app_store a1) (ss_alias s) key = Some (Pending, pr_claim_at io)" "mt_ok (app_store a1)"
    using mt_claim_verdict [OF assms(7,2) v] a1 by simp_all
  then have "snd (mt_claim io2 key i a2) = Replay" "ma_calls (fst (mt_claim io2 key i a2)) = ma_calls a2"
    using mt_claim_pending [OF assms(8), of key "pr_claim_at io" io2] assms(6,9,10) by simp_all
  then show ?thesis using a1 cfg by (simp add: keyed_dispatch [OF assms(5)] case_prod_unfold)
qed

lemma drop_stale_keeps: "map_of ks k = Some t \<Longrightarrow> \<not> t < cutoff \<Longrightarrow> map_of (drop_stale cutoff ks) k = Some t"
  by (induction ks) (auto simp: drop_stale_def split: if_splits)

text \<open>
  A failed send can stay suppressed. When a duplicate arrives while the first send is in flight, its replay
  verdict is put into the session's cache; the first send then fails and releases the key in the store, and
  still every retry of the next 300 seconds is answered as a replay, although the store would grant it.
\<close>

lemma failed_send_still_suppressed:
  assumes "mt_ok st" "mt_peek st (ss_alias s) key = Some (Pending, t0)" "claim_at \<le> t0 + 60"
    and "CheckIdempotency io now claim_at key (s, st) = ((s1, st1), v)"
    and "map_of (seenIdemKeys s) key = None" "now2 - now < 300" "claim_insert_ok io2"
  shows "v = Replay \<and> mt_peek (MT_IdempotencyFail True (ss_alias s) key st1) (ss_alias s) key = None \<and>
    snd (CheckIdempotency io2 now2 claim2 key (s1, MT_IdempotencyFail True (ss_alias s) key st1)) = Replay \<and>
    snd (MT_IdempotencyClaim io2 claim2 (ss_alias s) key (MT_IdempotencyFail True (ss_alias s) key st1)) = Claimed"
proof -
  let ?t = "mt_keys st"
  have inv: "idem_inv ?t" using assms(1) by (simp add: mt_ok_def)
  have c: "snd (idem_claim io claim_at (ss_alias s) key ?t) = Replay"
      "map_of (fst (idem_claim io claim_at (ss_alias s) key ?t)) (ss_alias s, key) = Some (Pending, t0)"
    using idem_claim_laws(2) [OF inv, of "ss_alias s" key Pending t0 claim_at io] assms(2,3) by (simp_all add: mt_peek_def)
  have r: "v = Replay" "st1 = st\<lparr>mt_keys := fst (idem_claim io claim_at (ss_alias s) key ?t)\<rparr>"
      "map_of (seenIdemKeys s1) key = Some now"
    using assms(4,5) c(1)
    by (auto simp: CheckIdempotency_def MT_IdempotencyClaim_def Let_def case_prod_unfold drop_stale_keeps update_conv')
  have inv1: "idem_inv (mt_keys st1)" using idem_claim_inv [OF inv] by (simp add: r)
  have free: "map_of (idem_fail True (ss_alias s) key (mt_keys st1)) (ss_alias s, key) = None"
    using idem_fail_law [OF inv1] c(2) by (simp add: r)
  have "snd (idem_claim io2 claim2 (ss_alias s) key (idem_fail True (ss_alias s) key (mt_keys st1))) = Claimed"
    using idem_claim_laws(3) [OF idem_fail_inv [OF inv1] free assms(7)] by blast
  with free r assms(6) show ?thesis
    by (simp add: CheckIdempotency_def MT_IdempotencyFail_def MT_IdempotencyClaim_def mt_peek_def case_prod_unfold)
qed

subsection \<open>Witnesses\<close>

definition demo_session :: Session where
  "demo_session = (NewSession demo_cfg (0, 0, 0, 0) ''a'' ''tok'')\<lparr>ss_state := StateLive, ss_client := Some 7\<rparr>"

definition demo_key_app :: "bool \<Rightarrow> string mtapp" where
  "demo_key_app b = \<lparr>ma_mgr = demo_boot\<lparr>mm_heap := [(0, demo_session\<lparr>SendPaused := b\<rparr>)], mm_sessions := [(''a'', 0)]\<rparr>,
     ma_host = fresh_volume, ma_beat = NewBeat 0, ma_boot = \<lparr>WindowS = 0, MaxBoots = 0\<rparr>, ma_boot_file = None,
     ma_safe = False, ma_calls = [], ma_closed = False\<rparr>"

definition demo_req :: mt_req where
  "demo_req = \<lparr>mq_auth = [], mq_path = [], mq_body = BodyObj [(''chat_id'', JInt 5), (''text'', JStr ''hi''),
     (''_idempotency_key'', JStr ''k'')]\<rparr>"

definition demo_io :: "rat \<Rightarrow> string proxy_io" where
  "demo_io t = \<lparr>pr_claim = \<lparr>claim_delete_ok = True, claim_insert_ok = True, claim_update_ok = True\<rparr>, pr_seen_now = t, pr_claim_at = t,
     pr_script = [\<lparr>tr_try = (0, 0), tr_wait = (0, 0), tr_end = MHungUp\<rparr>], pr_client = demo_client, pr_b64 = Inl, pr_fail_ok = True,
     pr_flood = (0, 0), pr_flood_wall = t, pr_finish_ok = True, pr_finish_at = t, pr_done_at = t, pr_first_at = t\<rparr>"

lemma demo_keyed: "keyed 0 ''k'' demo_req (demo_key_app b)"
  by (simp add: keyed_def demo_req_def demo_key_app_def sess_at_def deref_def demo_session_def LiveClient_def idem_key_def)

lemma demo_key_sends:
  obtains a1 where "dispatchProxy (demo_io 1) 0 ''send_message'' demo_req (demo_key_app False) =
     Some (a1, MJson 200 [(''ok'', JBool True), (''result'', JObj [(''id'', JInt 1), (''chat_id'', JInt 5)])])"
    "map_option LiveClient (sess_at 0 a1) = Some (Some 7)"
proof -
  let ?d = "dispatchProxy (demo_io 1) 0 ''send_message'' demo_req (demo_key_app False)"
  have "map_option snd ?d = Some (MJson 200 [(''ok'', JBool True), (''result'', JObj [(''id'', JInt 1), (''chat_id'', JInt 5)])])"
    and "map_option (\<lambda>(a, r). map_option LiveClient (sess_at 0 a)) ?d = Some (Some (Some 7))" by code_simp+
  then show thesis using that by (cases ?d) auto
qed

theorem completed_send_suppresses_witness:
  "\<exists>a1. dispatchProxy (demo_io 200) 0 ''send_photo'' demo_req (a1 :: string mtapp) = Some (a1, replay_reply)"
proof -
  obtain a1 where a1: "dispatchProxy (demo_io 1) 0 ''send_message'' demo_req (demo_key_app False) =
     Some (a1, MJson 200 [(''ok'', JBool True), (''result'', JObj [(''id'', JInt 1), (''chat_id'', JInt 5)])])"
    "map_option LiveClient (sess_at 0 a1) = Some (Some 7)" by (rule demo_key_sends)
  let ?a = "a1\<lparr>ma_mgr := (ma_mgr a1)\<lparr>mm_store := new_mtstore ''k''\<rparr>\<rparr>"
  have "keyed 0 ''k'' demo_req ?a" using a1(2) by (auto simp: keyed_def demo_req_def idem_key_def sess_at_def)
  with completed_send_suppresses [OF demo_keyed a1(1), where ?io2.0 = "demo_io 200" and st = "new_mtstore ''k''"]
  show ?thesis by (force simp: demo_io_def)
qed

lemma failed_send_still_suppressed_example:
  "\<exists>s1 st1. CheckIdempotency (pr_claim (demo_io 0)) 10 10 ''k'' (demo_session, (new_mtstore ''f'')\<lparr>mt_keys := [((''a'', ''k''), Pending, 5)]\<rparr>) =
      ((s1, st1), Replay) \<and>
    snd (CheckIdempotency (pr_claim (demo_io 0)) 200 200 ''k'' (s1, MT_IdempotencyFail True ''a'' ''k'' st1)) = Replay"
proof -
  let ?st = "(new_mtstore ''f'')\<lparr>mt_keys := [((''a'', ''k''), Pending, 5)]\<rparr> :: string mtstore"
  obtain s1 st1 v where c: "CheckIdempotency (pr_claim (demo_io 0)) 10 10 ''k'' (demo_session, ?st) = ((s1, st1), v)"
    by (metis prod.exhaust)
  have d: "ss_alias demo_session = ''a''" "seenIdemKeys demo_session = []" by (simp_all add: demo_session_def NewSession_def)
  have "mt_ok ?st" "mt_peek ?st (ss_alias demo_session) ''k'' = Some (Pending, 5)"
    by (simp_all add: mt_ok_def idem_inv_def mt_peek_def d)
  from failed_send_still_suppressed [OF this _ c, where ?io2.0 = "pr_claim (demo_io 0)" and ?now2.0 = 200 and ?claim2.0 = 200] c d
  show ?thesis by (auto simp: demo_io_def)
qed

lemma refused_send_swallows_retry_example:
  "\<exists>a1 a3. dispatchProxy (demo_io 1) 0 ''send_message'' demo_req (demo_key_app True) =
      Some (a1, MJson 423 (mt_err_d 423 ''sending is paused for this session (E4)'')) \<and>
    dispatchProxy (demo_io 30) 0 ''send_message'' demo_req (upd_sess 0 (\<lambda>s. s\<lparr>SendPaused := False\<rparr>) a1) = Some (a3, replay_reply) \<and>
    ma_calls a3 = []"
proof -
  let ?d = "dispatchProxy (demo_io 1) 0 ''send_message'' demo_req (demo_key_app True)"
  have "map_option snd ?d = Some (MJson 423 (mt_err_d 423 ''sending is paused for this session (E4)''))"
    and "map_option (\<lambda>(a, r). map_option (\<lambda>s. (LiveClient s, ss_alias s)) (sess_at 0 a)) ?d = Some (Some (Some 7, ''a''))" by code_simp+
  then obtain a1 s1 where a1: "?d = Some (a1, MJson 423 (mt_err_d 423 ''sending is paused for this session (E4)''))"
      "sess_at 0 a1 = Some s1" "LiveClient s1 = Some 7" "ss_alias s1 = ''a''" by (cases ?d) auto
  let ?a = "upd_sess 0 (\<lambda>s. s\<lparr>SendPaused := False\<rparr>) a1"
  have "keyed 0 ''k'' demo_req ?a" using a1 by (auto simp: keyed_def demo_req_def idem_key_def LiveClient_def split: if_splits)
  moreover have "sess_at 0 (demo_key_app True) = Some (demo_session\<lparr>SendPaused := True\<rparr>)"
    by (simp add: demo_key_app_def sess_at_def deref_def)
  moreover have "mt_ok (app_store (demo_key_app True))"
    by (simp add: demo_key_app_def demo_boot_def MM_New_def mt_ok_def new_mtstore_def idem_inv_def)
  moreover have "ss_alias demo_session = ''a''" by (simp add: demo_session_def NewSession_def)
  moreover have "ma_calls (demo_key_app True) = []" by (simp add: demo_key_app_def)
  ultimately show ?thesis
    using refused_send_swallows_retry [OF demo_keyed _ a1(1), where ?a2.0 = ?a and ?io2.0 = "demo_io 30" and ?m2.0 = "''send_message''"
        and ?r2.0 = demo_req and ?s2.0 = "s1\<lparr>SendPaused := False\<rparr>"] a1
    by (auto simp: demo_io_def)
qed

end
