(* ===== verification/MTBelt.thy ===== *)
theory MTBelt
  imports MTKeys
begin

text \<open>
  Updates on the MTProto plane, from \<^verbatim>\<open>pushUpdate\<close> to the consumer: the well-formedness of a session, what
  becomes of a pushed update, that \<^verbatim>\<open>getUpdates\<close> always answers, and the two ways an update is lost unseen
  or a push brings the process down.
\<close>

subsection \<open>Well-formed sessions\<close>

text \<open>
  The belt never exceeds its capacity, the sequence number is a Go integer, the active consumer is one of
  those attached, and the cache has one entry for each key.
\<close>

definition sess_wf :: "Session \<Rightarrow> bool" where
  "sess_wf s \<longleftrightarrow> length (updateCh s) \<le> updateCap s \<and> int64 (nextSeq s) \<and>
     (activeConsumer s = [] \<or> activeConsumer s \<in> c_ID ` set (consumers s)) \<and> distinct (map fst (seenIdemKeys s))"

datatype sess_op =
  SoPush push_env obj
| SoPrune rat rat
| SoDrain int
| SoReplay bool
| SoClaim claim_io rat rat string
| SoDone rat string
| SoAttach Consumer
| SoDetach string
| SoFirstSend rat
| SoSynthetic
| SoFlood rat FloodInfo "int option"

fun sess_exec :: "sess_op \<Rightarrow> Session \<times> 'k mtstore \<times> Storage \<Rightarrow> Session \<times> 'k mtstore \<times> Storage" where
  "sess_exec (SoPush env u) w = fst (push_queue env u w)"
| "sess_exec (SoPrune now ttl) (s, r) = (fst (PruneExpiredUpdates now ttl s), r)"
| "sess_exec (SoDrain limit) (s, r) = (fst (drainUpdateCh limit s), r)"
| "sess_exec (SoReplay ok) (s, st, h) = (replay_backlog (QueuePull ok (ss_alias s) 0 5000 st) s, st, h)"
| "sess_exec (SoClaim io now t key) (s, st, h) = (case fst (CheckIdempotency io now t key (s, st)) of (s1, st1) \<Rightarrow> (s1, st1, h))"
| "sess_exec (SoDone now key) (s, r) = (NoteIdempotencyDone now key s, r)"
| "sess_exec (SoAttach c) (s, r) = (AddConsumer c s, r)"
| "sess_exec (SoDetach i) (s, r) = (RemoveConsumer i s, r)"
| "sess_exec (SoFirstSend now) (s, r) = (NoteFirstSend now s, r)"
| "sess_exec SoSynthetic (s, r) = (mt_noteSynthetic429 s, r)"
| "sess_exec (SoFlood now info c) (s, r) = (noteLastFloodWait now info c (noteRealFloodWait s), r)"

text \<open>The integers of a persisted update are those of a Go value.\<close>

definition rows_typed :: "'k mtstore \<Rightarrow> bool" where
  "rows_typed st \<longleftrightarrow> (\<forall>r\<in>set (mt_queue st). \<forall>u. m_json r = ObjText u \<longrightarrow> go_int (obj_get u ''_gw_seq''))"

lemma sess_wfD:
  assumes "sess_wf s"
  shows "length (updateCh s) \<le> updateCap s" "int64 (nextSeq s)"
    "activeConsumer s = [] \<or> activeConsumer s \<in> c_ID ` set (consumers s)" "distinct (map fst (seenIdemKeys s))"
  using assms by (simp_all add: sess_wf_def)

lemma sess_wf_cong:
  "sess_wf s \<Longrightarrow> updateCap s' = updateCap s \<Longrightarrow> length (updateCh s') \<le> updateCap s \<Longrightarrow> nextSeq s' = nextSeq s \<Longrightarrow>
     activeConsumer s' = activeConsumer s \<Longrightarrow> consumers s' = consumers s \<Longrightarrow> seenIdemKeys s' = seenIdemKeys s \<Longrightarrow> sess_wf s'"
  by (simp add: sess_wf_def)

lemma offer_frame:
  "updateCap (fst (offer u s)) = updateCap s" "nextSeq (fst (offer u s)) = nextSeq s"
  "activeConsumer (fst (offer u s)) = activeConsumer s" "consumers (fst (offer u s)) = consumers s"
  "seenIdemKeys (fst (offer u s)) = seenIdemKeys s" "ss_alias (fst (offer u s)) = ss_alias s"
  "length (updateCh s) \<le> updateCap s \<Longrightarrow> length (updateCh (fst (offer u s))) \<le> updateCap s"
  by (simp_all add: offer_def)

lemma offer_wf: "sess_wf s \<Longrightarrow> sess_wf (fst (offer u s))"
  by (rule sess_wf_cong) (simp_all add: offer_frame sess_wfD)

lemma offers_wf: "sess_wf s \<Longrightarrow> sess_wf (fold (\<lambda>u x. fst (offer u x)) us s)"
  by (induction us arbitrary: s) (simp_all add: offer_wf)

lemma belt_push_wf: "sess_wf s \<Longrightarrow> sess_wf (belt_push u s)"
  using offer_wf [of s u] offer_wf [of "s\<lparr>updateCh := tl (updateCh s)\<rparr>" u]
  by (auto simp: belt_push_def Let_def case_prod_unfold offer_def sess_wf_def)

lemma stamp_wf: "sess_wf s \<Longrightarrow> sess_wf (fst (stamp_update env u s))"
  by (simp add: stamp_update_def Let_def sess_wf_def )

lemma push_queue_wf: "sess_wf s \<Longrightarrow> sess_wf (fst (fst (push_queue env u (s, st, h))))"
  using stamp_wf [of s env u]
  by (auto simp: push_queue_def Let_def case_prod_unfold intro!: belt_push_wf split: option.split)
    (auto simp: sess_wf_def)

lemma anyToInt64_range: "go_int v \<Longrightarrow> anyToInt64 v = Some n \<Longrightarrow> int64 n"
  by (cases v) (auto simp: go_int_def)

lemma restored_seq_range:
  "int64 n \<Longrightarrow> \<forall>u\<in>set us. go_int (obj_get u ''_gw_seq'') \<Longrightarrow> int64 (restored_seq us n)"
  by (induction us arbitrary: n) (auto simp: restored_seq_def anyToInt64_range split: option.split)

lemma pulled_typed: "rows_typed st \<Longrightarrow> u \<in> set (QueuePull ok alias off limit st) \<Longrightarrow> go_int (obj_get u ''_gw_seq'')"
  by (auto simp: QueuePull_def QueuePullRaw_def List.map_filter_def attach_id_def rows_typed_def dest!: in_set_takeD
      split: json_text.splits if_splits)

lemma replay_wf:
  assumes "sess_wf s" "\<forall>u\<in>set us. go_int (obj_get u ''_gw_seq'')"
  shows "sess_wf (replay_backlog us s)"
proof -
  have "sess_wf (s\<lparr>nextSeq := restored_seq us (nextSeq s)\<rparr>)" using assms by (simp add: sess_wf_def restored_seq_range)
  then show ?thesis using assms(1) by (simp add: replay_backlog_def offers_wf)
qed

lemma prune_wf: "sess_wf s \<Longrightarrow> sess_wf (fst (PruneExpiredUpdates now ttl s))"
  by (auto simp: PruneExpiredUpdates_def Let_def intro!: offers_wf) (simp add: sess_wf_def)

lemma distinct_drop_stale: "distinct (map fst ks) \<Longrightarrow> distinct (map fst (drop_stale c ks))"
  by (simp add: drop_stale_def distinct_map_filter)

lemma claim_wf: "sess_wf s \<Longrightarrow> sess_wf (fst (fst (CheckIdempotency io now t key (s, st))))"
  by (auto simp: CheckIdempotency_def Let_def case_prod_unfold sess_wf_def distinct_drop_stale distinct_update split: option.split)

lemma detach_wf: "sess_wf s \<Longrightarrow> sess_wf (RemoveConsumer i s)"
proof -
  assume s: "sess_wf s"
  let ?kept = "filter (\<lambda>c. c_ID c \<noteq> i) (consumers s)"
  have "c_ID (last ?kept) \<in> c_ID ` set ?kept" if "?kept \<noteq> []" using last_in_set [OF that] by blast
  then show ?thesis using s by (auto simp: RemoveConsumer_def Let_def sess_wf_def)
qed

lemma push_typed:
  assumes "rows_typed st" shows "rows_typed (fst (snd (fst (push_queue env u (s, st, h)))))"
  using assms
  by (auto simp: push_queue_def stamp_update_def QueuePush_def DeadLetter_def rows_typed_def Let_def case_prod_unfold obj_get_decoded
      go_int_def split: option.splits if_splits)

text \<open>The identity of a session: its name and the size of its belt.\<close>

definition same_session :: "Session \<Rightarrow> Session \<Rightarrow> bool" where
  "same_session s s' \<longleftrightarrow> updateCap s' = updateCap s \<and> ss_alias s' = ss_alias s"

lemma same_offers: "same_session s (fold (\<lambda>u x. fst (offer u x)) us s)"
  by (induction us arbitrary: s) (simp_all add: same_session_def offer_frame)

lemma same_replay: "same_session s (replay_backlog us s)"
  using same_offers [of "s\<lparr>nextSeq := restored_seq us (nextSeq s)\<rparr>" us] by (auto simp: replay_backlog_def same_session_def)

lemma same_prune: "same_session s (fst (PruneExpiredUpdates now ttl s))"
  using same_offers [of "s\<lparr>updateCh := []\<rparr>"] by (simp add: PruneExpiredUpdates_def same_session_def Let_def)

lemma same_push: "same_session s (fst (fst (push_queue env u (s, st, h))))"
  by (auto simp: push_queue_def stamp_update_def belt_push_def offer_def same_session_def Let_def case_prod_unfold split: option.split)

lemma claim_store: "rows_typed st \<Longrightarrow> rows_typed (snd (fst (CheckIdempotency io now t key (s, st))))"
  by (simp add: CheckIdempotency_def MT_IdempotencyClaim_def rows_typed_def Let_def case_prod_unfold)

lemmas sess_small = NoteIdempotencyDone_def AddConsumer_def NoteFirstSend_def mt_noteSynthetic429_def noteLastFloodWait_def
  noteRealFloodWait_def drainUpdateCh_def

lemma sess_small_wf:
  assumes "sess_wf s"
  shows "sess_wf (fst (drainUpdateCh limit s)) \<and> same_session s (fst (drainUpdateCh limit s))"
    "sess_wf (NoteIdempotencyDone now key s) \<and> same_session s (NoteIdempotencyDone now key s)"
    "sess_wf (AddConsumer c s) \<and> same_session s (AddConsumer c s)"
    "sess_wf (NoteFirstSend now s) \<and> same_session s (NoteFirstSend now s)"
    "sess_wf (mt_noteSynthetic429 s) \<and> same_session s (mt_noteSynthetic429 s)"
    "sess_wf (noteLastFloodWait now info p (noteRealFloodWait s)) \<and> same_session s (noteLastFloodWait now info p (noteRealFloodWait s))"
  using assms by (auto simp: sess_small sess_wf_def same_session_def distinct_update)

lemma sess_exec_wf:
  assumes "sess_wf s" "rows_typed st" "sess_exec x (s, st, h) = (s1, st1, h1)"
  shows "sess_wf s1 \<and> rows_typed st1 \<and> same_session s s1"
proof (cases x)
  case (SoPush env u)
  then show ?thesis
    using push_queue_wf [OF assms(1), of env u st h] push_typed [OF assms(2), of env u s h] same_push [of s env u st h] assms(3) by simp
next
  case (SoReplay ok)
  then show ?thesis using replay_wf [OF assms(1)] pulled_typed [OF assms(2)] assms(2,3) same_replay by auto
next
  case (SoClaim io now t key)
  moreover have "same_session s (fst (fst (CheckIdempotency io now t key (s, st))))"
    by (simp add: CheckIdempotency_def same_session_def Let_def case_prod_unfold)
  ultimately show ?thesis using claim_wf [OF assms(1), of io now t key st] claim_store [OF assms(2), of io now t key s] assms(3)
    by (auto split: prod.splits)
next
  case (SoPrune now ttl)
  then show ?thesis using prune_wf [OF assms(1), of now ttl] same_prune [of s now ttl] assms(2,3) by simp
next
  case (SoDetach i)
  moreover have "same_session s (RemoveConsumer i s)" by (simp add: RemoveConsumer_def same_session_def Let_def)
  ultimately show ?thesis using detach_wf [OF assms(1), of i] assms(2,3) by simp
qed (use assms(2,3) in \<open>auto simp: sess_small_wf [OF assms(1)]\<close>)

text \<open>
  C17. A session is well formed through every run of its operations: pushes with any outcome of serialization
  and persistence, pruning, draining, the replay of the persisted backlog, claims, attaching and detaching
  consumers. Its belt stays within the configured capacity, which never changes, its sequence number stays
  a 64-bit integer, the active consumer is one of those attached and the cache has one entry per key.
\<close>

theorem session_stays_well_formed:
  assumes "sess_wf s" "rows_typed st" "fold sess_exec ops (s, st, h) = (s', st', h')"
  shows "sess_wf s' \<and> updateCap s' = updateCap s \<and> ss_alias s' = ss_alias s"
proof -
  have "sess_wf s' \<and> same_session s s'" using assms
  proof (induction ops arbitrary: s st h)
    case (Cons x ops)
    obtain s1 st1 h1 where x: "sess_exec x (s, st, h) = (s1, st1, h1)" by (cases "sess_exec x (s, st, h)") auto
    with sess_exec_wf [OF Cons.prems(1,2) x] Cons.IH [of s1 st1 h1] Cons.prems(3) show ?case by (auto simp: same_session_def)
  qed (simp add: same_session_def)
  then show ?thesis by (simp add: same_session_def)
qed

subsection \<open>What becomes of a pushed update\<close>

lemma belt_push_keeps_newest:
  "length (updateCh s) \<le> updateCap s \<Longrightarrow>
     updateCh (belt_push u s) = drop (Suc (length (updateCh s)) - updateCap s) (updateCh s @ [u])"
  by (cases "updateCh s") (auto simp: belt_push_def offer_def Let_def not_less le_antisym)

lemma push_queue_row:
  assumes "pu_marshal_err env = None" "pu_row_ok env" "map_of (sessions st) (ss_alias s) \<noteq> None"
    and "push_queue env u (s, st, h) = ((s1, st1, h1), u1, cons)"
  shows "mt_queue st1 = mt_queue st @
    [\<lparr>m_alias = ss_alias s, m_id = wrap64 (nextSeq s + 1), m_json = ObjText (decoded_obj u1), m_at = pu_row_at env\<rparr>]"
  using assms by (auto simp: push_queue_def stamp_update_def QueuePush_def Let_def case_prod_unfold)

text \<open>
  C18. No pushed update vanishes silently. It gets the next sequence number; if it cannot be serialized it goes to the
  dead letters and nowhere else; otherwise either its row is in the session's persisted queue or the failure is
  counted on the session and noted as a reason for degraded storage, and in both cases it is the newest update on the
  belt, from which only the oldest ones had to go.
\<close>

theorem push_persisted_or_counted:
  assumes "sess_wf s" "nextSeq s < max_int64" "push_queue env u (s, st, h) = ((s1, st1, h1), u1, cons)"
  shows "obj_get u1 ''_gw_seq'' = JInt (nextSeq s + 1) \<and> nextSeq s1 = nextSeq s + 1 \<and>
    (case pu_marshal_err env of
       Some err \<Rightarrow> cons = None \<and> mt_queue st1 = mt_queue st \<and> updateCh s1 = updateCh s \<and>
         (pu_dead_ok env \<longrightarrow> (\<exists>d. dead_letters st1 = dead_letters st @ [d] \<and> dl_alias d = ss_alias s))
     | None \<Rightarrow> cons = Some (consumers s) \<and>
         updateCh s1 = drop (Suc (length (updateCh s)) - updateCap s) (updateCh s @ [u1]) \<and>
         (mt_queue st1 = mt_queue st @ [\<lparr>m_alias = ss_alias s, m_id = nextSeq s + 1, m_json = ObjText (decoded_obj u1), m_at = pu_row_at env\<rparr>] \<or>
          mt_queue st1 = mt_queue st \<and> Session.PersistFailures s1 = Session.PersistFailures s + 1 \<and>
            ''persist:queue.push:'' @ ss_alias s \<in> set (reasons h1)))"
proof -
  have r: "wrap64 (nextSeq s + 1) = nextSeq s + 1" using assms(1,2) by (intro wrap64_id) (auto simp: sess_wf_def int64_def)
  have b: "nextSeq (belt_push v x) = nextSeq x" "Session.PersistFailures (belt_push v x) = Session.PersistFailures x"
      "consumers (belt_push v x) = consumers x" for v x
    by (simp_all add: belt_push_def offer_def Let_def)
  show ?thesis
    using assms(3) sess_wfD(1) [OF assms(1)]
    by (auto simp: push_queue_def stamp_update_def r b Let_def case_prod_unfold belt_push_keeps_newest DeadLetter_def QueuePush_def
      NotePersistFailure_def note_reason_def split: option.splits if_splits)
qed

subsection \<open>Pulling\<close>

text \<open>What other goroutines do while the handler sleeps never takes the session object away from it.\<close>

definition keeps_session :: "nat \<Rightarrow> 'k pull_turn \<Rightarrow> bool" where
  "keeps_session i t \<longleftrightarrow> (\<forall>f a. pl_end t = MSlept f \<and> sess_at i a \<noteq> None \<longrightarrow> sess_at i (f a) \<noteq> None)"

lemma offset_loop_answers:
  "\<exists>t\<in>set ts. deadline \<le> pl_now t \<Longrightarrow> offset_loop alias off limit deadline ts a \<noteq> None"
  by (induction ts arbitrary: a) (auto simp: Let_def split: mt_sleep.split)

lemma belt_loop_answers:
  "\<exists>t\<in>set ts. deadline \<le> pl_now t \<Longrightarrow> \<forall>t\<in>set ts. keeps_session i t \<Longrightarrow> sess_at i a \<noteq> None \<Longrightarrow>
     belt_loop limit deadline i ts a \<noteq> None"
proof (induction ts arbitrary: a)
  case (Cons t ts)
  obtain s where s: "sess_at i a = Some s" using Cons.prems(3) by blast
  show ?case
  proof (cases "pl_end t")
    case (MSlept f)
    have "sess_at i (f a) \<noteq> None" using Cons.prems(2,3) MSlept by (simp add: keeps_session_def)
    with Cons s MSlept show ?thesis by (auto simp: case_prod_unfold Let_def)
  qed (simp add: s case_prod_unfold Let_def)
qed simp

text \<open>
  C19. \<^verbatim>\<open>getUpdates\<close> always answers. Whatever the body asks for, in both modes, and whatever the other goroutines do,
  the handler has returned at the latest in the first turn of its loop that reads the clock 50 seconds
  after its start.
\<close>

theorem getUpdates_answers:
  assumes "t \<in> set (gu_turns io)" "gu_start io + 50 \<le> pl_now t"
    and "\<And>i. MM_Get alias (ma_mgr a) = Some i \<Longrightarrow> sess_at i a \<noteq> None"
    and "\<And>i x. MM_Get alias (ma_mgr a) = Some i \<Longrightarrow> x \<in> set (gu_turns io) \<Longrightarrow> keeps_session i x"
  shows "\<exists>a' reply. handleGetUpdates io alias r a = Some (a', reply)"
proof -
  have late: "\<exists>t\<in>set (gu_turns io). gu_start io + d \<le> pl_now t" if "d \<le> 50" for d
    using assms(1,2) that by (intro bexI [of _ t]) auto
  then have late0: "\<exists>t\<in>set (gu_turns io). gu_start io \<le> pl_now t" by (metis add.right_neutral zero_le_numeral)
  have "handleGetUpdates io alias r a \<noteq> None"
  proof (cases "mt_appAuthed r a \<and> MM_Get alias (ma_mgr a) \<noteq> None")
    case True
    then obtain i where i: "MM_Get alias (ma_mgr a) = Some i" by blast
    with assms(3) obtain s where s: "sess_at i a = Some s" by blast
    have k: "\<forall>x\<in>set (gu_turns io). keeps_session i x" using assms(4) [OF i] by blast
    have "offset_loop al off limit (gu_start io + d) (gu_turns io) x \<noteq> None"
        "belt_loop limit (gu_start io + d) i (gu_turns io) a \<noteq> None" if "d \<le> 50" for al off limit d x
      using offset_loop_answers [OF late [OF that]] belt_loop_answers [OF late [OF that] k] s by simp_all
    moreover have "offset_loop al off limit (gu_start io) (gu_turns io) x \<noteq> None" for al off limit x
      by (rule offset_loop_answers [OF late0])
    ultimately show ?thesis
      using True i s by (simp add: handleGetUpdates_def Let_def case_prod_unfold split: option.split)
  qed (auto simp: handleGetUpdates_def)
  then show ?thesis by auto
qed

subsection \<open>Numbers that start over\<close>

text \<open>
  Sequence numbers start over when a session restarts with an empty backlog: its next update gets number 1 again.
  A consumer that goes on with the offset it had reached, anything above 1, acknowledges that update before
  it has seen it: the request that follows deletes the persisted row and answers with no updates.
\<close>

lemma restarted_numbers_lose_updates:
  assumes "\<forall>x\<in>set (mt_queue st). m_alias x \<noteq> alias"
    and "push_queue env u (replay_backlog (QueuePull pull_ok alias 0 5000 st) (NewSession cfg g alias token), st, h) = ((s1, st1, h1), u1, cons)"
    and "pu_marshal_err env = None" "pu_row_ok env" "map_of (sessions st) alias \<noteq> None"
    and "app_store a = st1" "mt_appAuthed r a" "MM_Get alias (ma_mgr a) = Some i" "sess_at i a = Some s1"
    and "mq_body r = BodyObj body" "anyToInt64 (obj_get body ''offset'') = Some off" "1 < off" "int64 off"
    and "gu_turns io = [t]" "gu_start io + 50 \<le> pl_now t" "gu_ack_ok io"
  shows "QueuePullRaw True alias 0 100 st1 = [(1, ObjText (decoded_obj u1))] \<and>
    (\<exists>a'. handleGetUpdates io alias r a = Some (a', empty_result) \<and> QueuePullRaw True alias 0 100 (app_store a') = [])"
proof -
  have none: "filter (\<lambda>x. m_alias x = alias \<and> P x) (mt_queue st) = []" for P using assms(1) by (simp add: filter_empty_conv)
  then have "QueuePull pull_ok alias 0 5000 st = []" by (simp add: QueuePull_def QueuePullRaw_def List.map_filter_def)
  then have s: "replay_backlog (QueuePull pull_ok alias 0 5000 st) (NewSession cfg g alias token) = NewSession cfg g alias token"
    by (simp add: replay_backlog_def)
  have n: "nextSeq (NewSession cfg g alias token) = 0" "ss_alias (NewSession cfg g alias token) = alias"
    by (simp_all add: NewSession_def)
  have one: "wrap64 1 = 1" by (rule wrap64_id) (simp add: int64_def)
  have st1: "mt_queue st1 = mt_queue st @ [\<lparr>m_alias = alias, m_id = 1, m_json = ObjText (decoded_obj u1), m_at = pu_row_at env\<rparr>]"
      "ss_alias s1 = alias"
    using push_queue_row [OF assms(3,4) _ assms(2)] same_push [of "NewSession cfg g alias token" env u st h] assms(2,5)
    unfolding s by (simp_all add: n one same_session_def)
  have w: "wrap64 (off - 1) = off - 1" using assms(12,13) by (intro wrap64_id) (auto simp: int64_def)
  let ?a = "upd_store (\<lambda>st. fst (QueueAck True alias (off - 1) st)) a"
  have "filter (\<lambda>x. m_alias x = alias \<and> n < m_id x) (mt_queue (app_store ?a)) = []" for n
    using assms(1,12) st1(1) by (auto simp: QueueAck_def assms(6) filter_empty_conv)
  then have gone: "QueuePullRaw ok alias n m (app_store ?a) = []" for ok n m by (simp add: QueuePullRaw_def)
  have "handleGetUpdates io alias r a = Some (?a, empty_result)"
    using assms(7-11,14-16) gone [of "pl_ok t"] st1(2) w
    by (auto simp: handleGetUpdates_def Let_def split: option.split)
  moreover have "QueuePullRaw True alias 0 100 st1 = [(1, ObjText (decoded_obj u1))]"
    using st1(1) none [of "\<lambda>x. 0 < m_id x"] by (simp add: QueuePullRaw_def)
  ultimately show ?thesis using gone by blast
qed

subsection \<open>The fan-out\<close>

lemma trySend_other: "trySend ch u cs = Some (cs', b) \<Longrightarrow> map_of cs k = Some (buf, True) \<Longrightarrow> \<exists>buf'. map_of cs' k = Some (buf', True)"
  by (auto simp: trySend_def update_conv' split: option.splits if_splits)

lemma fan_out_closed:
  "c \<in> set cons \<Longrightarrow> map_of cs (c_chan c) = Some (buf, True) \<Longrightarrow> fan_out u cons cs = None"
proof (induction cons arbitrary: cs buf)
  case (Cons x cons)
  show ?case
  proof (cases "trySend (c_chan x) u cs")
    case (Some r)
    obtain cs' b where r: "r = (cs', b)" by (cases r)
    have "x \<noteq> c" using Some Cons.prems(2) by (auto simp: trySend_def)
    with Cons.prems(1) have "c \<in> set cons" by simp
    moreover obtain buf' where "map_of cs' (c_chan c) = Some (buf', True)" using trySend_other [of "c_chan x" u cs] Some r Cons.prems(2) by blast
    ultimately show ?thesis using Cons.IH Some r by simp
  qed simp
qed simp

lemma fan_out_open:
  "\<forall>c\<in>set cons. \<exists>buf. map_of cs (c_chan c) = Some (buf, False) \<Longrightarrow> fan_out u cons cs \<noteq> None"
proof (induction cons arbitrary: cs)
  case (Cons x cons)
  obtain buf where b: "map_of cs (c_chan x) = Some (buf, False)" using Cons.prems by auto
  obtain cs' ok where t: "trySend (c_chan x) u cs = Some (cs', ok)" using b by (cases "length buf < 64") (auto simp: trySend_def)
  then have "\<exists>buf. map_of cs' (c_chan c) = Some (buf, False)" if "c \<in> set cons" for c
    using Cons.prems that by (auto simp: trySend_def update_conv' split: option.splits if_splits)
  with Cons.IH t show ?case by simp
qed simp

text \<open>
  A consumer that disconnects at the wrong moment takes the sidecar down. \<^verbatim>\<open>pushUpdate\<close> sends to a copy of the
  consumer list: as long as the channels of the attached consumers are open it completes, but when one of
  them detaches between the copy and its send, the send hits the channel the detach has closed and panics.
\<close>

lemma detach_during_push_panics:
  assumes "push_queue env u (s, st, h) = (w', u', Some cons)" "c \<in> set (consumers s)"
    and "\<forall>x\<in>set (consumers s). \<exists>buf. map_of (mm_chans m) (c_chan x) = Some (buf, False)"
  shows "pushUpdate env u (s, st, h) (mm_chans m) \<noteq> None \<and> fan_out u' cons (mm_chans (ws_detach (c_ID c) (c_chan c) i m)) = None"
proof -
  have cons: "cons = consumers s"
    using assms(1) by (auto simp: push_queue_def stamp_update_def belt_push_def offer_def Let_def case_prod_unfold split: option.splits if_splits)
  obtain buf where "map_of (mm_chans m) (c_chan c) = Some (buf, False)" using assms(2,3) by blast
  then have "map_of (mm_chans (ws_detach (c_ID c) (c_chan c) i m)) (c_chan c) = Some (buf, True)"
    by (simp add: ws_detach_def update_conv')
  with fan_out_closed assms(2) cons fan_out_open [OF assms(3)] assms(1) show ?thesis
    by (auto simp: pushUpdate_def)
qed

subsection \<open>Witnesses\<close>

definition demo_push :: push_env where
  "demo_push = \<lparr>pu_at = 10, pu_last = 10, pu_marshal_err = None, pu_text = [], pu_dead_at = 0, pu_dead_ok = True, pu_row_at = 10,
     pu_row_ok = True, pu_row_err = []\<rparr>"

definition demo_row_store :: "string mtstore" where
  "demo_row_store = (new_mtstore ''k'')\<lparr>sessions := [(''a'', \<lparr>s_token_enc = ''t'', phone_or_token = ''t'', s_pts = 0, s_qts = 0,
     s_date = 0, s_seq = 0, s_created_at = ''n'', s_paused = False\<rparr>)]\<rparr>"

lemma demo_wf: "sess_wf demo_session"
  by (simp add: sess_wf_def demo_session_def NewSession_def int64_def)

theorem session_stays_well_formed_witness:
  "\<exists>s' st' h'. fold sess_exec [SoPush demo_push [], SoReplay True, SoDrain 1] (demo_session, demo_row_store, NewStorage) = (s', st', h') \<and>
     sess_wf s' \<and> updateCap s' = updateCap demo_session"
proof -
  obtain s' st' h' where "fold sess_exec [SoPush demo_push [], SoReplay True, SoDrain 1] (demo_session, demo_row_store, NewStorage) = (s', st', h')"
    by (metis prod.exhaust)
  moreover have "rows_typed demo_row_store" by (simp add: rows_typed_def demo_row_store_def new_mtstore_def)
  ultimately show ?thesis using session_stays_well_formed [OF demo_wf] by blast
qed

theorem push_persisted_or_counted_witness:
  "\<exists>s1 st1 h1 u1 cons. push_queue demo_push [] (demo_session, demo_row_store, NewStorage) = ((s1, st1, h1), u1, cons) \<and>
     cons = Some [] \<and> nextSeq s1 = 1"
proof -
  obtain s1 st1 h1 u1 cons where p: "push_queue demo_push [] (demo_session, demo_row_store, NewStorage) = ((s1, st1, h1), u1, cons)"
    by (metis prod.exhaust)
  moreover have d: "nextSeq demo_session = 0" "consumers demo_session = []" by (simp_all add: demo_session_def NewSession_def)
  ultimately show ?thesis using push_persisted_or_counted [OF demo_wf _ p] by (simp add: demo_push_def)
qed

definition demo_pull :: "string updates_io" where
  "demo_pull = \<lparr>gu_ack_ok = True, gu_start = 0, gu_turns = [\<lparr>pl_ok = True, pl_now = 60, pl_end = MHungUp\<rparr>]\<rparr>"

definition demo_pull_req :: mt_req where
  "demo_pull_req = \<lparr>mq_auth = mtAppSecret demo_cfg, mq_path = [], mq_body = BodyObj [(''offset'', JInt 42), (''timeout'', JInt 900)]\<rparr>"

theorem getUpdates_answers_witness:
  "\<exists>a' reply. handleGetUpdates demo_pull ''a'' demo_pull_req (demo_key_app False) = Some (a', reply)"
  by (rule getUpdates_answers [where t = "\<lparr>pl_ok = True, pl_now = 60, pl_end = MHungUp\<rparr>"])
    (auto simp: demo_pull_def keeps_session_def demo_key_app_def MM_Get_def sess_at_def deref_def)

lemma restarted_numbers_lose_updates_example:
  "\<exists>st1 a a'. QueuePullRaw True ''a'' 0 100 st1 \<noteq> [] \<and> app_store a = (st1 :: string mtstore) \<and>
     handleGetUpdates demo_pull ''a'' demo_pull_req a = Some (a', empty_result) \<and> QueuePullRaw True ''a'' 0 100 (app_store a') = []"
proof -
  let ?s = "replay_backlog (QueuePull True ''a'' 0 5000 demo_row_store) (NewSession demo_cfg (0, 0, 0, 0) ''a'' ''tok'')"
  obtain s1 st1 h1 u1 cons where p: "push_queue demo_push [] (?s, demo_row_store, NewStorage) = ((s1, st1, h1), u1, cons)"
    by (metis prod.exhaust)
  let ?a = "(demo_key_app False)\<lparr>ma_mgr := (ma_mgr (demo_key_app False))\<lparr>mm_heap := [(0, s1)], mm_store := st1\<rparr>\<rparr>"
  have "mtAppSecret demo_cfg = []" by code_simp
  then have auth: "mt_appAuthed demo_pull_req ?a"
    by (simp add: mt_appAuthed_def mt_bearerOK_def demo_pull_req_def demo_key_app_def demo_boot_def MM_New_def trim_prefix_def Let_def)
  have "QueuePullRaw True ''a'' 0 100 st1 = [(1, ObjText (decoded_obj u1))] \<and>
    (\<exists>a'. handleGetUpdates demo_pull ''a'' demo_pull_req ?a = Some (a', empty_result) \<and> QueuePullRaw True ''a'' 0 100 (app_store a') = [])"
  proof (rule restarted_numbers_lose_updates [OF _ p _ _ _ _ auth])
    show "gu_turns demo_pull = [\<lparr>pl_ok = True, pl_now = 60, pl_end = MHungUp\<rparr>]" by (simp add: demo_pull_def)
    show "mq_body demo_pull_req = BodyObj [(''offset'', JInt 42), (''timeout'', JInt 900)]" by (simp add: demo_pull_req_def)
    show "anyToInt64 (obj_get [(''offset'', JInt 42), (''timeout'', JInt 900)] ''offset'') = Some 42" by (simp add: obj_get_def)
  qed (simp_all add: demo_pull_def demo_push_def demo_row_store_def new_mtstore_def demo_key_app_def MM_Get_def sess_at_def deref_def int64_def)
  then obtain a' where q: "QueuePullRaw True ''a'' 0 100 st1 \<noteq> []"
      "handleGetUpdates demo_pull ''a'' demo_pull_req ?a = Some (a', empty_result)" "QueuePullRaw True ''a'' 0 100 (app_store a') = []"
    by auto
  moreover have "app_store ?a = st1" by simp
  ultimately show ?thesis by blast
qed

lemma detach_during_push_panics_example:
  "\<exists>w' u' cons. push_queue demo_push [] (AddConsumer \<lparr>c_ID = ''w'', c_chan = 3, c_ConnectedAt = 0\<rparr> demo_session, demo_row_store, NewStorage) =
      (w', u', Some cons) \<and>
    fan_out u' cons (mm_chans (ws_detach ''w'' 3 0 (demo_boot\<lparr>mm_chans := [(3, ([], False))]\<rparr>))) = None"
proof -
  let ?c = "\<lparr>c_ID = ''w'', c_chan = 3, c_ConnectedAt = 0\<rparr>"
  let ?w = "(AddConsumer ?c demo_session, demo_row_store, NewStorage)"
  have d: "consumers demo_session = []" by (simp add: demo_session_def NewSession_def)
  obtain w' u' cons where p: "push_queue demo_push [] ?w = (w', u', Some cons)"
    by (simp add: push_queue_def demo_push_def Let_def case_prod_unfold)
  have "fan_out u' cons (mm_chans (ws_detach ''w'' 3 0 (demo_boot\<lparr>mm_chans := [(3, ([], False))]\<rparr>))) = None"
    using detach_during_push_panics [OF p, of ?c "demo_boot\<lparr>mm_chans := [(3, ([], False))]\<rparr>" 0] d by (simp add: AddConsumer_def)
  with p show ?thesis by blast
qed

end
