(* ===== verification/MTLifecycle.thy ===== *)
theory MTLifecycle
  imports MTSafety
begin

text \<open>
  The life of one MTProto session under its supervisor: the quarantine after a terminal error is final for the
  process, and repeated start failures back off exponentially up to five minutes.
\<close>

subsection \<open>Steps that leave a session alone\<close>

text \<open>What decides whether session \<open>i\<close> is ever started again: its flag and attempt counter, its supervisor, its connections.\<close>

definition fate :: "nat \<Rightarrow> 'k mtmgr \<Rightarrow> (bool \<times> int) option" where
  "fate i m = map_option (\<lambda>s. (terminalError s, startAttempts s)) (deref i m)"

definition spares :: "nat \<Rightarrow> 'k mtmgr \<Rightarrow> 'k mtmgr \<Rightarrow> bool" where
  "spares i m m' \<longleftrightarrow> fate i m' = fate i m \<and> map_of (mm_sups m') i = map_of (mm_sups m) i \<and> mm_next m \<le> mm_next m' \<and>
     (\<forall>c. (c, i) \<in> set (mm_conns m') \<longrightarrow> (c, i) \<in> set (mm_conns m))"

definition patient :: "(Session \<Rightarrow> Session) \<Rightarrow> bool" where
  "patient f \<longleftrightarrow> (\<forall>s. terminalError (f s) = terminalError s \<and> startAttempts (f s) = startAttempts s)"

lemma spares_refl [simp]: "spares i m m"
  by (simp add: spares_def)

lemma spares_trans: "spares i m m' \<Longrightarrow> spares i m' m'' \<Longrightarrow> spares i m m''"
  by (auto simp: spares_def)

lemma spares_session: "patient f \<or> i \<noteq> j \<Longrightarrow> spares i m (on_session j f m)"
  by (cases "deref i m") (auto simp: spares_def fate_def patient_def)

lemma spares_frame [simp]:
  "spares i m (m\<lparr>mm_store := st\<rparr>)" "spares i m (m\<lparr>mm_health := hl\<rparr>)" "spares i m (m\<lparr>mm_sessions := ss\<rparr>)"
  "spares i m (disconnect c m)" "i \<noteq> j \<Longrightarrow> spares i m (set_sup j q m)" "spares i m (m\<lparr>mm_next := mm_next m + k\<rparr>)"
  by (auto simp: spares_def fate_def set_sup_def update_conv')

lemma patient_simps [simp]:
  "patient (\<lambda>s. s\<lparr>ss_state := x\<rparr>)" "patient (\<lambda>s. s\<lparr>ss_state := x, stopSupervisor := y\<rparr>)" "patient (\<lambda>s. s\<lparr>sessionLock := z\<rparr>)"
  "patient (\<lambda>s. s\<lparr>nextRetryAt := t\<rparr>)" "patient (\<lambda>s. s\<lparr>SendPaused := y\<rparr>)"
  by (simp_all add: patient_def)

text \<open>Peeling the last update off, for chains of them.\<close>

lemma spares_peel:
  "i \<noteq> j \<Longrightarrow> spares i m (set_sup j q m') = spares i m m'" "i \<noteq> j \<Longrightarrow> spares i m (on_session j f m') = spares i m m'"
  "spares i m m' \<Longrightarrow> spares i m (disconnect c m')" "spares i m (m'\<lparr>mm_store := st\<rparr>) = spares i m m'"
  "i \<noteq> j \<Longrightarrow> spares i m (m'\<lparr>mm_conns := (e, j) # mm_conns m'\<rparr>) = spares i m m'"
  by (auto simp: spares_def fate_def set_sup_def update_conv')

lemma spares_patient: "patient f \<Longrightarrow> spares i m m' \<Longrightarrow> spares i m (on_session j f m')"
  using spares_trans spares_session by blast

lemma spares_release: "releaseLock j (m, h) = (m', h') \<Longrightarrow> spares i m m'"
  by (auto simp: releaseLock_def spares_session split: option.splits)

lemma spares_acquire: "acquireLock pf env ptr j (m, h) = ((m', h'), ok) \<Longrightarrow> spares i m m'"
  by (auto simp: acquireLock_def Let_def spares_session split: option.splits prod.splits if_splits)

lemma spares_stop: "spares i m (fst (mt_shutdown_one e (m, h)))"
proof -
  let ?m1 = "on_session (snd e) (\<lambda>s. s\<lparr>ss_state := StateDraining, stopSupervisor := True\<rparr>) m"
  let ?m2 = "disconnect (case deref (snd e) ?m1 of Some s \<Rightarrow> ss_client s | None \<Rightarrow> None) ?m1"
  have "spares i m ?m2" by (rule spares_trans [of _ _ ?m1]) (simp_all add: spares_session)
  moreover obtain m3 h3 where "releaseLock (snd e) (?m2, h) = (m3, h3)" by (metis prod.exhaust)
  ultimately show ?thesis using spares_trans [OF _ spares_release] by (fastforce simp: mt_shutdown_one_def Let_def)
qed

lemma spares_shutdown: "spares i (fst w) (fst (fold mt_shutdown_one es w))"
proof (induction es arbitrary: w)
  case (Cons e es)
  show ?case using spares_trans [OF spares_stop [of i "fst w" e "snd w"] Cons.IH] by simp
qed simp

lemma spares_unregister: "spares i (fst w) (fst (fst (MM_Unregister ok alias w)))"
proof (cases "MM_Get alias (fst w)")
  case None
  then show ?thesis by (cases w) (simp add: MM_Unregister_def)
next
  case (Some j)
  let ?m = "(fst w)\<lparr>mm_sessions := AList.delete alias (mm_sessions (fst w))\<rparr>"
  have "spares i (fst w) (fst (stop_session j (?m, snd w)))"
    by (rule spares_trans [of _ _ ?m]) (simp_all add: stop_session_def spares_stop)
  with Some show ?thesis
    by (simp add: MM_Unregister_eq case_prod_unfold Let_def) (blast intro: spares_trans spares_frame(1))
qed

lemma spares_register_new:
  assumes "i < mm_next (fst w)" shows "spares i (fst w) (fst (fst (register_new F io alias token w)))"
  using assms
  by (cases w) (auto simp: register_new_def spares_def fate_def deref_def update_conv' Let_def split: prod.splits)

lemma spares_register:
  assumes "i < mm_next (fst w)" shows "spares i (fst w) (fst (fst (MM_Register F io alias token w)))"
proof -
  let ?u = "fst (MM_Unregister (rg_del_ok io) alias w)"
  have u: "spares i (fst w) (fst ?u)" by (rule spares_unregister)
  then have "i < mm_next (fst ?u)" using assms by (simp add: spares_def)
  from spares_trans [OF u spares_register_new [OF this]] spares_register_new [OF assms]
  show ?thesis by (auto simp: MM_Register_def Let_def split: option.splits)
qed

lemma spares_alias: "patient f \<Longrightarrow> spares i m (fst (on_alias a f m))"
  by (simp add: on_alias_def spares_session split: option.split)

lemma spares_restore:
  "i < mm_next (fst w) \<Longrightarrow> spares i (fst w) (fst (fst (restore_sessions F rows w)))"
proof (induction rows arbitrary: w)
  case (Cons x rows)
  obtain row io where x: "x = (row, io)" by (cases x)
  show ?case
  proof (cases "MT_GetToken F (sr_alias row) (mm_store (fst w))")
    case None
    then show ?thesis using Cons.IH [OF Cons.prems] x by simp
  next
    case (Some token)
    obtain w1 r where r: "MM_Register F io (sr_alias row) token w = (w1, r)" by (metis prod.exhaust)
    have s1: "spares i (fst w) (fst w1)" using spares_register [OF Cons.prems, of F io "sr_alias row" token] r by simp
    define w2 where "w2 = (if r \<noteq> None \<and> sr_paused row
      then (fst (on_alias (sr_alias row) (\<lambda>s. s\<lparr>ss_state := StatePaused\<rparr>) (fst w1)), snd w1) else w1)"
    have s2: "spares i (fst w) (fst w2)" using spares_trans [OF s1 spares_alias] s1 by (simp add: w2_def)
    then have "i < mm_next (fst w2)" using Cons.prems by (simp add: spares_def)
    from spares_trans [OF s2 Cons.IH [OF this]] show ?thesis
      using Some r x by (cases r) (auto simp: w2_def Let_def case_prod_unfold)
  qed
qed simp

lemma spares_begin: "i \<noteq> j \<Longrightarrow> spares i m (begin_connect j p m)"
  by (auto simp: begin_connect_def Let_def spares_def fate_def set_sup_def update_conv' split: option.split)

lemma spares_ping: "spares i m (sup_ping io j s m)"
  by (auto simp: sup_ping_def Let_def patient_def intro!: spares_peel(3) spares_patient)

lemma spares_top: "i \<noteq> j \<Longrightarrow> spares i m (fst (sup_top pf io j (m, h)))"
proof -
  assume ij: "i \<noteq> j"
  obtain m1 h1 ok where a: "acquireLock pf (si_lock io) (si_ptr io) j (m, h) = ((m1, h1), ok)" by (metis prod.exhaust)
  have "spares i m m1" by (rule spares_acquire [OF a])
  with a ij show ?thesis
    using spares_trans [OF _ spares_begin] spares_ping
    by (auto simp: sup_top_def case_prod_unfold spares_peel spares_begin split: option.split)
qed

lemma spares_failed: "i \<noteq> j \<Longrightarrow> spares i m (start_failed io err wl j p m)"
  by (simp add: start_failed_def start_done_def Let_def spares_peel split: start_error.split option.split)

lemma spares_connect: "i \<noteq> j \<Longrightarrow> spares i m (fst (sup_connect io j (m, h)))"
proof -
  assume ij: "i \<noteq> j"
  obtain m1 h1 where r: "releaseLock j (m, h) = (m1, h1)" by (metis prod.exhaust)
  have "spares i m m1" by (rule spares_release [OF r])
  with r ij show ?thesis
    using spares_trans [OF _ spares_failed] by (auto simp: sup_connect_def spares_peel split: option.split sup_point.split)
qed

lemma spares_warm: "i \<noteq> j \<Longrightarrow> spares i m (fst (sup_warm ok j (m, h)))"
  by (auto simp: sup_warm_def start_done_def spares_peel split: option.split sup_point.split)

lemma spares_push: "spares i m (fst (MM_push env u j m))"
proof (cases "deref j m")
  case (Some s)
  obtain s1 st1 h1 u1 cons where q: "push_queue env u (s, mm_store m, mm_health m) = ((s1, st1, h1), u1, cons)" by (metis prod.exhaust)
  then have "terminalError s1 = terminalError s \<and> startAttempts s1 = startAttempts s"
    by (auto simp: push_queue_def stamp_update_def belt_push_def offer_def Let_def case_prod_unfold split: option.splits if_splits)
  with Some q show ?thesis by (auto simp: MM_push_def spares_def fate_def)
qed (simp add: MM_push_def)

lemma spares_persist: "spares i m (fold (persist_one ust ok) es m)"
proof (induction es arbitrary: m)
  case (Cons e es)
  have "spares i m (persist_one ust ok e m)" by (auto simp: persist_one_def split: option.split)
  from spares_trans [OF this Cons.IH] show ?case by simp
qed simp

subsection \<open>Quarantine\<close>

definition quarantined :: "nat \<Rightarrow> int \<Rightarrow> 'k mtmgr \<Rightarrow> bool" where
  "quarantined i n m \<longleftrightarrow> fate i m = Some (True, n) \<and> i < mm_next m \<and> (\<forall>c. (c, i) \<notin> set (mm_conns m)) \<and>
     (\<forall>p. map_of (mm_sups m) i = Some p \<longrightarrow> sp_at p = SupTop \<or> sp_at p = SupReturned)"

lemma quarantined_spares: "quarantined i n m \<Longrightarrow> spares i m m' \<Longrightarrow> quarantined i n m'"
  by (auto simp: quarantined_def spares_def)

lemma quarantined_top:
  assumes "quarantined i n m" shows "quarantined i n (fst (sup_top pf io i (m, h)))"
proof -
  obtain s where s: "deref i m = Some s" "terminalError s" using assms by (auto simp: quarantined_def fate_def)
  have "quarantined i n (set_sup i (p\<lparr>sp_at := SupReturned\<rparr>) m)" for p
    using assms by (auto simp: quarantined_def fate_def set_sup_def update_conv')
  with assms s show ?thesis by (auto simp: sup_top_def split: option.split)
qed

lemma quarantined_exec:
  assumes "quarantined i n (fst w)" shows "quarantined i n (fst (mt_op_exec pf F x w))"
proof -
  obtain m h where w: "w = (m, h)" by (cases w)
  have nx: "i < mm_next m" using assms w by (simp add: quarantined_def)
  note step = quarantined_spares [of i n m]
  show ?thesis
  proof (cases x)
    case (OpTop io j)
    then show ?thesis using assms w quarantined_top [of i n m pf io h] step spares_top [of i j m pf io h] by (cases "i = j") auto
  next
    case (OpConnect io j)
    have "fst (sup_connect io i (m, h)) = m"
      using assms w by (auto simp: sup_connect_def quarantined_def split: option.split)
    then show ?thesis using assms w OpConnect step spares_connect [of i j m io h] by (cases "i = j") auto
  next
    case (OpWarm ok j)
    have "fst (sup_warm ok i (m, h)) = m"
      using assms w by (auto simp: sup_warm_def quarantined_def split: option.split)
    then show ?thesis using assms w OpWarm step spares_warm [of i j m ok h] by (cases "i = j") auto
  next
    case (OpRestart a)
    have "spares i m (fst (MM_Restart a m))" by (simp add: MM_Restart_def spares_session split: option.split)
    then show ?thesis using assms w OpRestart step by simp
  next
    case (OpPause ok a)
    have "spares i m (fst (MM_Pause ok a m))"
      by (simp add: MM_Pause_def Let_def spares_session spares_peel(4) split: option.split)
    then show ?thesis using assms w OpPause step by simp
  next
    case (OpResume ok a)
    have "spares i m (fst (MM_Resume ok a m))"
      by (simp add: MM_Resume_def Let_def spares_patient split: option.split)
    then show ?thesis using assms w OpResume step by simp
  qed (use assms w step spares_register [of i w] spares_unregister [of i w] spares_restore [of i w] nx spares_shutdown [of i w]
      in \<open>simp_all add: MM_RestoreAll_def MM_Shutdown_def MM_PersistStates_def MM_Drain_def MM_PauseSending_def MM_ResumeSending_def
        spares_persist spares_push spares_alias\<close>)
qed

text \<open>
  C38. A quarantine is final. When a start fails with a terminal error (the key revoked, duplicated or expired),
  the session is never started again in this process, whatever the operators and the supervisors do
  afterwards, \<^verbatim>\<open>Resume\<close>, \<^verbatim>\<open>Restart\<close>, a second \<^verbatim>\<open>Register\<close> of the alias and the restore of all sessions included: its attempt
  counter stays as it was and no connection is ever opened for it.
\<close>

theorem terminal_quarantine_is_final:
  assumes "deref i m = Some s" "map_of (mm_sups m) i = Some p" "sp_at p = SupConnecting c wl" "i < mm_next m"
    and "\<forall>e. (e, i) \<notin> set (mm_conns m)"
    and "ci_err io = Some err" "ClassifyStartError err = Terminal" "sup_connect io i (m, h) = (m1, h1)"
    and "fold (mt_op_exec pf F) ops (m1, h1) = (m2, h2)"
  shows "\<exists>s2. deref i m2 = Some s2 \<and> terminalError s2 \<and> startAttempts s2 = startAttempts s \<and> (\<forall>e. (e, i) \<notin> set (mm_conns m2))"
proof -
  obtain m0 h0 where r: "releaseLock i (m, h) = (m0, h0)" by (metis prod.exhaust)
  have sp: "spares i m m0" by (rule spares_release [OF r])
  let ?f = "\<lambda>s. s\<lparr>ss_state := StateError, terminalError := True, LastError := ''terminal (quarantined): '' @ err\<rparr>"
  obtain s0 where s0: "deref i m0 = Some s0" "startAttempts s0 = startAttempts s" "i < mm_next m0" "\<forall>e. (e, i) \<notin> set (mm_conns m0)"
    using sp assms(1,4,5) by (auto simp: spares_def fate_def)
  have "m1 = set_sup i (p\<lparr>sp_at := SupTop\<rparr>) (on_session i ?f m0)"
    using assms(2,3,6,7,8) r by (simp add: sup_connect_def start_failed_def)
  then have m1: "quarantined i (startAttempts s) m1" using s0 by (auto simp: quarantined_def fate_def set_sup_def update_conv')
  have run: "quarantined i (startAttempts s) (fst (fold (mt_op_exec pf F) ops w))" if "quarantined i (startAttempts s) (fst w)" for w
    using that by (induction ops arbitrary: w) (simp_all add: quarantined_exec)
  have "quarantined i (startAttempts s) m2" using run [of "(m1, h1)"] m1 assms(9) by simp
  then show ?thesis by (auto simp: quarantined_def fate_def)
qed

subsection \<open>Backing off\<close>

text \<open>A run of start attempts of session \<open>i\<close>: a pass of the supervisor that reaches \<^verbatim>\<open>Connect\<close>, and the answer of the call.\<close>

fun attempts :: "float_parser \<Rightarrow> nat \<Rightarrow> (sup_io \<times> conn_io) list \<Rightarrow> 'k mtworld \<Rightarrow> 'k mtworld" where
  "attempts pf i [] w = w"
| "attempts pf i ((sio, cio) # xs) w = attempts pf i xs (sup_connect cio i (sup_top pf sio i w))"

fun all_failed :: "float_parser \<Rightarrow> nat \<Rightarrow> (sup_io \<times> conn_io) list \<Rightarrow> 'k mtworld \<Rightarrow> bool" where
  "all_failed pf i [] w = True"
| "all_failed pf i ((sio, cio) # xs) w =
     (connecting i (fst (sup_top pf sio i w)) \<and> map_option ClassifyStartError (ci_err cio) = Some Retry \<and>
      all_failed pf i xs (sup_connect cio i (sup_top pf sio i w)))"

definition backing_off :: "nat \<Rightarrow> rat \<Rightarrow> 'k mtmgr \<Rightarrow> bool" where
  "backing_off i b m \<longleftrightarrow> deref i m \<noteq> None \<and> (\<exists>p. map_of (mm_sups m) i = Some p \<and> sp_at p = SupTop \<and> sp_backoff p = b)"

lemma sup_top_connecting:
  assumes "backing_off i b (fst w)" "connecting i (fst (sup_top pf io i w))"
  shows "\<exists>p c wl. map_of (mm_sups (fst (sup_top pf io i w))) i = Some p \<and> sp_at p = SupConnecting c wl \<and> sp_backoff p = b \<and>
    deref i (fst (sup_top pf io i w)) \<noteq> None"
proof -
  obtain m h where w: "w = (m, h)" by (cases w)
  obtain s p where sp: "deref i m = Some s" "map_of (mm_sups m) i = Some p" "sp_at p = SupTop" "sp_backoff p = b"
    using assms(1) w by (auto simp: backing_off_def)
  obtain m1 h1 ok where a: "acquireLock pf (si_lock io) (si_ptr io) i (m, h) = ((m1, h1), ok)" by (metis prod.exhaust)
  have ac: "mm_sups m1 = mm_sups m" "deref i m1 \<noteq> None"
    using a sp(1) by (auto simp: acquireLock_def Let_def split: prod.splits if_splits)
  have idle: "\<not> connecting i m" using sp by (simp add: connecting_def)
  then have idle1: "\<not> connecting i m1" using connecting_cong [OF ac(1)] by blast
  have ping: "\<not> connecting i (sup_ping io i s m)" using idle by (simp add: sup_ping_def Let_def)
  have beg: "\<exists>c wl. map_of (mm_sups (begin_connect i p x)) i = Some (p\<lparr>sp_at := SupConnecting c wl\<rparr>) \<and> deref i (begin_connect i p x) \<noteq> None"
    if "deref i x \<noteq> None" for x :: "'a mtmgr"
    using that by (auto simp: begin_connect_def Let_def set_sup_def update_conv' intro!: exI)
  show ?thesis
    using assms(2) sp a ac idle idle1 ping beg [of m] beg [of m1] unfolding w
    by (auto simp: sup_top_def split: if_splits)
qed

lemma sup_connect_retry:
  assumes "map_of (mm_sups m) i = Some p" "sp_at p = SupConnecting c wl" "deref i m \<noteq> None"
    and "ci_err cio = Some err" "ClassifyStartError err = Retry"
  shows "\<exists>s. deref i (fst (sup_connect cio i (m, h))) = Some s \<and> ss_state s = StateError \<and> nextRetryAt s = ci_mono cio + sp_backoff p \<and>
    backing_off i (min (sp_backoff p * 2) 300) (fst (sup_connect cio i (m, h)))"
proof -
  obtain m0 h0 where r: "releaseLock i (m, h) = (m0, h0)" by (metis prod.exhaust)
  then have "deref i m0 \<noteq> None" using assms(3) by (auto simp: releaseLock_def)
  with assms r show ?thesis
    by (auto simp: sup_connect_def start_failed_def backing_off_def set_sup_def update_conv')
qed

lemma backoff_run:
  "backing_off i (min (2 ^ k) 300) (fst w) \<Longrightarrow> all_failed pf i xs w \<Longrightarrow>
     backing_off i (min (2 ^ (k + length xs)) 300) (fst (attempts pf i xs w)) \<and>
     (xs \<noteq> [] \<longrightarrow> (\<exists>s. deref i (fst (attempts pf i xs w)) = Some s \<and> ss_state s = StateError \<and>
        nextRetryAt s = ci_mono (snd (last xs)) + min (2 ^ (k + length xs - 1)) 300))"
proof (induction xs arbitrary: k w)
  case (Cons x xs)
  obtain sio cio where x: "x = (sio, cio)" by (cases x)
  obtain m h where t: "sup_top pf sio i w = (m, h)" by (metis prod.exhaust)
  obtain p c wl where p: "map_of (mm_sups m) i = Some p" "sp_at p = SupConnecting c wl" "sp_backoff p = min (2 ^ k) 300" "deref i m \<noteq> None"
    using sup_top_connecting [OF Cons.prems(1), of pf sio] Cons.prems(2) x t by auto
  obtain err where e: "ci_err cio = Some err" "ClassifyStartError err = Retry" using Cons.prems(2) x by auto
  have two: "min (min (2 ^ k) 300 * 2) 300 = (min (2 ^ Suc k) 300 :: rat)" by (simp add: min_def)
  obtain s where s: "deref i (fst (sup_connect cio i (m, h))) = Some s" "ss_state s = StateError"
      "nextRetryAt s = ci_mono cio + min (2 ^ k) 300" "backing_off i (min (2 ^ Suc k) 300) (fst (sup_connect cio i (m, h)))"
    using sup_connect_retry [OF p(1,2,4) e, of h] unfolding p(3) two by blast
  show ?case
    using Cons.IH [OF s(4)] Cons.prems(2) s x t by (cases xs) auto
qed simp


subsection \<open>Witnesses\<close>

definition failing :: "string \<Rightarrow> conn_io" where
  "failing err = demo_conn\<lparr>ci_err := Some err\<rparr>"

theorem terminal_quarantine_is_final_witness:
  "\<exists>m h m2 h2 s s2. demo_after demo_start = (m, h) \<and> deref 0 m = Some s \<and>
     fold (mt_op_exec (\<lambda>_. None) tag_fernet) [OpRestart ''a'', OpResume True ''a'', OpTop demo_sup 0]
       (sup_connect (failing ''rpc error: AUTH_KEY_DUPLICATED'') 0 (m, h)) = (m2, h2) \<and>
     deref 0 m2 = Some s2 \<and> terminalError s2 \<and> startAttempts s2 = startAttempts s"
proof -
  obtain m h s where m: "demo_after demo_start = (m, h)" "deref 0 m = Some s" "connecting 0 m" by (rule demo_connecting)
  obtain p c wl where p: "map_of (mm_sups m) 0 = Some p" "sp_at p = SupConnecting c wl" using m(3) by (auto simp: connecting_def)
  have "vol_inv (SessionDir demo_cfg) (solo (demo_after demo_start))" by (rule vol_reach_inv [OF demo_volume_reachable [OF demo_start_ok]])
  then have inv: "proc_inv 1 (SessionDir demo_cfg) (m, h)" using m(1) by (simp add: vol_inv_def solo_def)
  have nx: "0 < mm_next m" "\<forall>e. (e, 0) \<notin> set (mm_conns m)"
    using proc_invD(3) [OF inv, of 0] proc_invD(8) [OF inv m(3)] m(2) by (auto simp: core_def)
  have e: "ClassifyStartError ''rpc error: AUTH_KEY_DUPLICATED'' = Terminal" by code_simp
  let ?io = "failing ''rpc error: AUTH_KEY_DUPLICATED''"
  obtain m1 h1 where c1: "sup_connect ?io 0 (m, h) = (m1, h1)" by (metis prod.exhaust)
  obtain m2 h2 where f: "fold (mt_op_exec (\<lambda>_. None) tag_fernet) [OpRestart ''a'', OpResume True ''a'', OpTop demo_sup 0] (m1, h1) = (m2, h2)"
    by (metis prod.exhaust)
  from terminal_quarantine_is_final [OF m(2) p nx _ e c1 f] m c1 f show ?thesis by (auto simp: failing_def)
qed


end
