(* ===== verification/MTOperator.thy ===== *)
theory MTOperator
  imports MTAdmin MTKeys
begin

text \<open>
  The operator's surface of the MTProto sidecar: it is closed to everybody else, and what the housekeeping loop
  does to persisted updates when the retention is switched off.
\<close>

subsection \<open>Requests to the operator's handlers\<close>

datatype 'k mt_admin_op =
  MaRegister "'k fernet_lib" mt_reg_io string mt_audit_io "(string \<times> string) option"
| MaStatus "string \<Rightarrow> rat \<times> rat \<times> rat"
| MaLifecycle lifecycle bool mt_audit_io string
| MaRestart mt_audit_io string
| MaSafeModeAck "'k mt_restore_io" mt_audit_io
| MaListDead bool string
| MaClearDead bool mt_audit_io string
| MaDelete bool mt_audit_io string
| MaSetPaid mt_audit_io string bool
| MaAudit bool

fun mt_admin_exec :: "'k mt_admin_op \<Rightarrow> mt_req \<Rightarrow> 'k mtapp \<Rightarrow> 'k mtapp \<times> mt_reply" where
  "mt_admin_exec (MaRegister F io err aio body) r = mt_adminRegister F io err aio body r"
| "mt_admin_exec (MaStatus clk) r = mt_adminStatus clk r"
| "mt_admin_exec (MaLifecycle act ok aio alias) r = adminLifecycle act ok aio alias r"
| "mt_admin_exec (MaRestart aio alias) r = adminRestart aio alias r"
| "mt_admin_exec (MaSafeModeAck io aio) r = mt_adminSafeModeAck io aio r"
| "mt_admin_exec (MaListDead ok alias) r = adminListDeadLetters ok alias r"
| "mt_admin_exec (MaClearDead ok aio alias) r = adminClearDeadLetters ok aio alias r"
| "mt_admin_exec (MaDelete ok aio alias) r = mt_adminDelete ok aio alias r"
| "mt_admin_exec (MaSetPaid aio alias b) r = mt_adminSetPaid aio alias b r"
| "mt_admin_exec (MaAudit ok) r = mt_adminAudit ok r"

lemmas mt_admin_defs = mt_adminRegister_def mt_adminStatus_def adminLifecycle_def adminRestart_def mt_adminSafeModeAck_def
  adminListDeadLetters_def adminClearDeadLetters_def mt_adminDelete_def mt_adminSetPaid_def mt_adminAudit_def

definition mt_public_handler :: "mt_handler \<Rightarrow> bool" where
  "mt_public_handler h \<longleftrightarrow> h \<in> {HGetUpdates, HProxyMethod, HProxyByToken, HWSUpdates, HSessionHealth, HDownloadFile, HHealthz, HReadyz}"

lemma mt_bearerOK_iff:
  "mt_bearerOK header secret \<longleftrightarrow> (if has_prefix header ''Bearer '' then header = ''Bearer '' @ secret else header = secret)"
proof -
  have "mt_bearerOK header secret \<longleftrightarrow> trim_prefix header ''Bearer '' = secret" by (auto simp: mt_bearerOK_def Let_def)
  then show ?thesis by (simp only: trim_prefix_eq_iff)
qed

text \<open>
  C40. The operator's surface of the MTProto sidecar is closed: a request whose \<^verbatim>\<open>Authorization\<close> header is neither the
  admin secret nor that secret after \<^verbatim>\<open>Bearer\<close> and a space gets 401 from every handler of the operator and
  changes nothing, and with a configuration that passed validation so does one without the header. Where the
  operator's port is split off, no request to the consumers' listener reaches a handler of the operator.
\<close>

theorem mt_admin_surface_closed:
  assumes "MTProto_Validate (mm_cfg (ma_mgr a)) = None"
    and "mq_auth r \<notin> {mtAdminSecret (mm_cfg (ma_mgr a)), ''Bearer '' @ mtAdminSecret (mm_cfg (ma_mgr a))} \<or> mq_auth r = []"
  shows "mt_admin_exec x r a = (a, MJson 401 (mt_err 401)) \<and>
    (mtAdminPort (mm_cfg (ma_mgr a)) > 0 \<and> dispatch (fst (mt_listeners (mm_cfg (ma_mgr a)))) meth ss = Some (h, b) \<longrightarrow> mt_public_handler h)"
proof (intro conjI impI)
  have "mtAdminSecret (mm_cfg (ma_mgr a)) \<noteq> []" using assms(1) by (simp add: MTProto_Validate_None_iff)
  with assms(2) have "\<not> mt_adminAuthed r a" by (auto simp: mt_adminAuthed_def mt_bearerOK_iff split: if_splits)
  then show "mt_admin_exec x r a = (a, MJson 401 (mt_err 401))"
    by (cases x) (simp_all add: mt_admin_defs mt_with_admin_def)
  assume "mtAdminPort (mm_cfg (ma_mgr a)) > 0 \<and> dispatch (fst (mt_listeners (mm_cfg (ma_mgr a)))) meth ss = Some (h, b)"
  then have "h \<in> snd ` set mt_publicRoutes" using dispatch_handler by (fastforce simp: mt_listeners_def)
  then show "mt_public_handler h" by (auto simp: mt_publicRoutes_def mt_public_handler_def)
qed

definition demo_op_app :: "string mtapp" where
  "demo_op_app = (demo_key_app False)\<lparr>ma_mgr := (ma_mgr (demo_key_app False))\<lparr>mm_cfg :=
     demo_cfg\<lparr>mtAdminSecret := ''s3cret'', mtAppSecret := ''app'', APIID := 1, APIHash := ''h''\<rparr>\<rparr>\<rparr>"

theorem mt_admin_surface_closed_witness:
  "mt_admin_exec (MaDelete True \<lparr>ma_ts = ''t'', ma_ok = True\<rparr> ''a'') demo_req demo_op_app = (demo_op_app, MJson 401 (mt_err 401))"
proof -
  have "MTProto_Validate (mm_cfg (ma_mgr demo_op_app)) = None"
    by (simp add: demo_op_app_def MTProto_Validate_None_iff validatePolicyStorage_None_iff demo_cfg_def config_defs)
  moreover have "mq_auth demo_req = []" by (simp add: demo_req_def)
  ultimately show ?thesis by (blast intro: mt_admin_surface_closed [THEN conjunct1])
qed

subsection \<open>Retention\<close>

lemma mt_queue_house: "set (mt_queue (mm_store (fold (house_one io ttl) es m))) \<subseteq> set (mt_queue (mm_store m))"
proof (induction es arbitrary: m)
  case (Cons e es)
  have "set (mt_queue (mm_store (house_one io ttl e m))) \<subseteq> set (mt_queue (mm_store m))"
    by (auto simp: house_one_def QueueTTLCleanup_def Let_def split: option.splits if_splits)
  with Cons.IH [of "house_one io ttl e m"] show ?case by auto
qed simp

lemma house_session:
  "ttl \<le> 0 \<Longrightarrow> deref j (house_one io ttl e m) = deref j m"
  by (auto simp: house_one_def Let_def PruneExpiredUpdates_def split: option.split)

lemma house_drops:
  assumes "(x, i) \<in> set es" "deref i m = Some s" "ttl \<le> 0" "hk_ttl_ok io"
    and "r \<in> set (mt_queue (mm_store (fold (house_one io ttl) es m)))" "m_alias r = ss_alias s"
  shows "hk_now io - ttl \<le> m_at r"
  using assms(1,2,5)
proof (induction es arbitrary: m)
  case (Cons e es)
  show ?case
  proof (cases "e = (x, i)")
    case True
    then have "r \<in> set (mt_queue (mm_store (house_one io ttl e m)))" using Cons.prems(3) mt_queue_house [of io ttl es] by auto
    then show ?thesis using True Cons.prems(2) assms(4,6) by (auto simp: house_one_def QueueTTLCleanup_def Let_def)
  next
    case False
    then show ?thesis using Cons.IH [of "house_one io ttl e m"] Cons.prems assms(3) by (simp add: house_session)
  qed
qed simp

text \<open>
  Switching the retention off deletes the backlog. With \<^verbatim>\<open>GW_UPDATE_TTL_S\<close> at 0 the belt is left alone, the setting means
  no expiry there, but the same pass of the housekeeping deletes every persisted update older than the pass
  itself, so nothing that waits for a consumer survives a restart.
\<close>

lemma zero_retention_drops_backlog:
  assumes "UpdateTTLS (mtPolicy (mm_cfg (ma_mgr a))) = 0" "(alias, i) \<in> set (mm_sessions (ma_mgr a))" "sess_at i a = Some s"
    and "hk_ttl_ok io" "row \<in> set (mt_queue (app_store (housekeeping io a)))" "m_alias row = ss_alias s"
  shows "hk_now io \<le> m_at row \<and> sess_at i (housekeeping io a) = Some s"
proof -
  let ?m = "ma_mgr (upd_store (IdempotencyCleanup (hk_idem_ok io) (hk_idem_now io)) (upd_mgr (MM_PersistStates (hk_state io) (hk_save_ok io)) a))"
  have pers: "deref j (fold (persist_one u ok) es m) = deref j m \<and> mm_sessions (fold (persist_one u ok) es m) = mm_sessions m \<and>
      mm_cfg (fold (persist_one u ok) es m) = mm_cfg m" for j u ok es and m :: "'a mtmgr"
  proof (induction es arbitrary: m)
    case (Cons e es)
    then show ?case by (auto simp: persist_one_def split: option.split)
  qed simp
  have m: "deref i ?m = Some s" "mm_sessions ?m = mm_sessions (ma_mgr a)" "mm_cfg ?m = mm_cfg (ma_mgr a)"
    using pers assms(3) by (simp_all add: upd_store_def upd_mgr_def MM_PersistStates_def sess_at_def)
  have h: "ma_mgr (housekeeping io a) = fold (house_one io 0) (mm_sessions ?m) ?m"
    using assms(1) m(3) by (simp add: housekeeping_def upd_mgr_def Let_def upd_store_def)
  have "deref i (fold (house_one io 0) es x) = deref i x" for es and x :: "'a mtmgr"
    by (induction es arbitrary: x) (simp_all add: house_session)
  moreover have "hk_now io - 0 \<le> m_at row"
    by (rule house_drops [where s = s and es = "mm_sessions ?m" and m = ?m and ttl = 0]) (use assms m h in simp_all)
  ultimately show ?thesis using m(1) h by (simp add: sess_at_def)
qed

definition demo_house :: house_io where
  "demo_house = \<lparr>hk_state = (\<lambda>_. \<lparr>PTS = 0, QTS = 0, Date = 0, Seq = 0\<rparr>), hk_save_ok = True, hk_idem_ok = True, hk_idem_now = 100, hk_now = 100,
     hk_prune_now = 100, hk_ttl_ok = True\<rparr>"

definition demo_backlog_app :: "string mtapp" where
  "demo_backlog_app = (demo_key_app False)\<lparr>ma_mgr := (ma_mgr (demo_key_app False))\<lparr>
     mm_cfg := demo_cfg\<lparr>mtPolicy := (mtPolicy demo_cfg)\<lparr>UpdateTTLS := 0\<rparr>\<rparr>,
     mm_store := (new_mtstore ''k'')\<lparr>mt_queue := [\<lparr>m_alias = ''a'', m_id = 1, m_json = ObjText [], m_at = 40\<rparr>,
       \<lparr>m_alias = ''a'', m_id = 2, m_json = ObjText [], m_at = 120\<rparr>]\<rparr>\<rparr>\<rparr>"

lemma zero_retention_drops_backlog_example:
  "mt_queue (app_store (housekeeping demo_house demo_backlog_app)) = [\<lparr>m_alias = ''a'', m_id = 2, m_json = ObjText [], m_at = 120\<rparr>] \<and>
   sess_at 0 (housekeeping demo_house demo_backlog_app) = Some demo_session"
proof -
  have q: "mt_queue (app_store (housekeeping demo_house demo_backlog_app)) = [\<lparr>m_alias = ''a'', m_id = 2, m_json = ObjText [], m_at = 120\<rparr>]"
    by code_simp
  moreover have "sess_at 0 demo_backlog_app = Some demo_session"
    by (simp add: demo_backlog_app_def demo_key_app_def sess_at_def deref_def demo_session_def NewSession_def)
  moreover have "ss_alias demo_session = ''a''" by (simp add: demo_session_def NewSession_def)
  ultimately show ?thesis
    using zero_retention_drops_backlog [of demo_backlog_app "''a''" 0 demo_session demo_house "\<lparr>m_alias = ''a'', m_id = 2, m_json = ObjText [], m_at = 120\<rparr>"]
    by (simp add: demo_house_def demo_backlog_app_def demo_key_app_def)
qed

end
