(* ===== verification/Wire.thy ===== *)
theory Wire
  imports MTAdapters
begin

text \<open>
  \<^verbatim>\<open>internal/mtproto/serialize.go\<close> and \<^verbatim>\<open>coerce.go\<close>: what consumers see of Telegram's objects and how the
  keyboards and media of their requests become Telegram objects again. The types of the client library
  (\<^verbatim>\<open>tg.*\<close>) appear with the fields these two files read or write; a constructor the source does not
  name is the last one of its type, and a nil interface is \<open>None\<close>. Integers are those of the wire (int32 and
  int64, never computed with except for the sign of a chat id).
\<close>

subsection \<open>Telegram's objects\<close>

datatype Peer = PeerUser int | PeerChat int | PeerChannel int

datatype InputUser = InputUser int int | InputUserOther

datatype MessageEntity =
  EntityBold int int
| EntityItalic int int
| EntityCode int int
| EntityPre int int string
| EntityTextURL int int string
| EntityURL int int
| EntityMention int int
| EntityMentionName int int int
| EntityHashtag int int
| EntityBotCommand int int
| EntityEmail int int
| EntityPhone int int
| EntityCashtag int int
| EntityUnderline int int
| EntityStrike int int
| EntityBlockquote int int bool
| EntitySpoiler int int
| EntityCustomEmoji int int int
| InputEntityMentionName int int InputUser
| EntityOther string int int

datatype ButtonType =
  InlineButtonTypeURL string
| InlineButtonTypeCallback string
| InlineButtonTypeWebView string
| InlineButtonTypeSwitchInline string bool
| InlineButtonTypeBuy
| InlineButtonTypeOther

record KeyboardInlineButton =
  ib_Text :: string
  ib_Type :: "ButtonType option"

datatype ReplyMarkup =
  ReplyInlineMarkup "KeyboardInlineButton list list"
| ReplyKeyboardMarkup bool bool "string list list"
| ReplyKeyboardHide
| ReplyKeyboardForceReply

datatype PhotoSizeClass = PhotoSize string int int int | PhotoSizeOther

record Photo =
  ph_ID :: int
  ph_AccessHash :: int
  ph_FileReference :: string
  ph_Sizes :: "PhotoSizeClass list"

record Document =
  doc_ID :: int
  doc_AccessHash :: int
  doc_FileReference :: string
  doc_MimeType :: string
  doc_Size :: int

datatype MessageMedia =
  MessageMediaPhoto "Photo option"
| MessageMediaDocument "Document option"
| MessageMediaWebPage
| MessageMediaOther

datatype ReplyTo = MessageReplyHeader int | ReplyToOther

record tgMessage =
  tm_ID :: int
  tm_Out :: bool
  tm_Mentioned :: bool
  tm_Date :: int
  tm_Message :: string
  tm_PeerID :: "Peer option"
  tm_FromID :: "Peer option"
  tm_ReplyTo :: "ReplyTo option"
  tm_ReplyMarkup :: "ReplyMarkup option"
  tm_Entities :: "MessageEntity list"
  tm_Media :: "MessageMedia option"

datatype MessageClass = Message tgMessage | MessageOther

datatype UpdateClass =
  UpdateNewMessage MessageClass int int
| UpdateNewChannelMessage MessageClass int int
| UpdateEditMessage MessageClass int int
| UpdateEditChannelMessage MessageClass int int
| UpdateBotCallbackQuery int int "Peer option" int int string
| UpdateInlineBotCallbackQuery int int int string
| UpdateBotCommands "Peer option" "(string \<times> string) list"
| UpdateOther string

subsection \<open>Serialization\<close>

definition SerializePeer :: "Peer option \<Rightarrow> obj" where
  "SerializePeer p = (case p of
       Some (PeerUser u) \<Rightarrow> [(''_'', JStr ''PeerUser''), (''user_id'', JInt u)]
     | Some (PeerChat c) \<Rightarrow> [(''_'', JStr ''PeerChat''), (''chat_id'', JInt c)]
     | Some (PeerChannel c) \<Rightarrow> [(''_'', JStr ''PeerChannel''), (''channel_id'', JInt c)]
     | None \<Rightarrow> [(''_'', JStr ''PeerEmpty'')])"

definition SerializeChat :: "Peer option \<Rightarrow> obj" where
  "SerializeChat p = (case p of
       Some (PeerUser u) \<Rightarrow> [(''_'', JStr ''Chat''), (''id'', JInt u), (''type'', JStr ''private'')]
     | Some (PeerChat c) \<Rightarrow> [(''_'', JStr ''Chat''), (''id'', JInt (wrap64 (- c))), (''type'', JStr ''chat'')]
     | Some (PeerChannel c) \<Rightarrow> [(''_'', JStr ''Chat''), (''id'', JInt c), (''type'', JStr ''channel'')]
     | None \<Rightarrow> [(''_'', JStr ''Chat''), (''id'', JInt 0), (''type'', JStr ''empty'')])"

definition ent_base :: "string \<Rightarrow> int \<Rightarrow> int \<Rightarrow> obj" where
  "ent_base name off len = [(''_'', JStr name), (''offset'', JInt off), (''length'', JInt len)]"

fun SerializeEntity :: "MessageEntity \<Rightarrow> obj option" where
  "SerializeEntity (EntityBold i n) = Some (ent_base ''MessageEntityBold'' i n)"
| "SerializeEntity (EntityItalic i n) = Some (ent_base ''MessageEntityItalic'' i n)"
| "SerializeEntity (EntityCode i n) = Some (ent_base ''MessageEntityCode'' i n)"
| "SerializeEntity (EntityPre i n lang) = Some (ent_base ''MessageEntityPre'' i n @ [(''language'', JStr lang)])"
| "SerializeEntity (EntityTextURL i n url) = Some (ent_base ''MessageEntityTextUrl'' i n @ [(''url'', JStr url)])"
| "SerializeEntity (EntityURL i n) = Some (ent_base ''MessageEntityUrl'' i n)"
| "SerializeEntity (EntityMention i n) = Some (ent_base ''MessageEntityMention'' i n)"
| "SerializeEntity (EntityMentionName i n u) = Some (ent_base ''MessageEntityMentionName'' i n @ [(''user_id'', JInt u)])"
| "SerializeEntity (EntityHashtag i n) = Some (ent_base ''MessageEntityHashtag'' i n)"
| "SerializeEntity (EntityBotCommand i n) = Some (ent_base ''MessageEntityBotCommand'' i n)"
| "SerializeEntity (EntityEmail i n) = Some (ent_base ''MessageEntityEmail'' i n)"
| "SerializeEntity (EntityPhone i n) = Some (ent_base ''MessageEntityPhone'' i n)"
| "SerializeEntity (EntityCashtag i n) = Some (ent_base ''MessageEntityCashtag'' i n)"
| "SerializeEntity (EntityUnderline i n) = Some (ent_base ''MessageEntityUnderline'' i n)"
| "SerializeEntity (EntityStrike i n) = Some (ent_base ''MessageEntityStrike'' i n)"
| "SerializeEntity (EntityBlockquote i n c) = Some (ent_base ''MessageEntityBlockquote'' i n @ [(''collapsed'', JBool c)])"
| "SerializeEntity (EntitySpoiler i n) = Some (ent_base ''MessageEntitySpoiler'' i n)"
| "SerializeEntity (EntityCustomEmoji i n d) = Some (ent_base ''MessageEntityCustomEmoji'' i n @ [(''document_id'', JInt d)])"
| "SerializeEntity _ = None"

text \<open>\<^verbatim>\<open>strconv.FormatInt(n, 10)\<close>.\<close>

definition FormatInt :: "int \<Rightarrow> string" where
  "FormatInt n = (if n = 0 then ''0'' else if n < 0 then CHR ''-'' # itoa_loop (- n) [] else itoa_loop n [])"

definition formatFileRef :: "string \<Rightarrow> int \<Rightarrow> string" where
  "formatFileRef kind i = kind @ '':'' @ FormatInt i"

fun size_dict :: "PhotoSizeClass \<Rightarrow> json list" where
  "size_dict (PhotoSize t w h n) = [JObj [(''_'', JStr ''PhotoSize''), (''w'', JInt w), (''h'', JInt h), (''size'', JInt n)]]"
| "size_dict PhotoSizeOther = []"

fun SerializeMedia :: "MessageMedia \<Rightarrow> obj option" where
  "SerializeMedia (MessageMediaPhoto (Some p)) = Some [(''_'', JStr ''MessageMediaPhoto''),
     (''photo'', JObj [(''_'', JStr ''Photo''), (''id'', JInt (ph_ID p)), (''sizes'', JArr (concat (map size_dict (ph_Sizes p)))),
        (''file_id'', JStr (formatFileRef ''photo'' (ph_ID p)))])]"
| "SerializeMedia (MessageMediaDocument (Some d)) = Some [(''_'', JStr ''MessageMediaDocument''),
     (''document'', JObj [(''_'', JStr ''Document''), (''id'', JInt (doc_ID d)), (''mime_type'', JStr (doc_MimeType d)),
        (''size'', JInt (doc_Size d)), (''file_id'', JStr (formatFileRef ''document'' (doc_ID d)))])]"
| "SerializeMedia MessageMediaWebPage = Some [(''_'', JStr ''MessageMediaWebPage'')]"
| "SerializeMedia _ = None"

definition serializeInlineButton :: "KeyboardInlineButton \<Rightarrow> obj" where
  "serializeInlineButton b = [(''_'', JStr ''InlineKeyboardButton''), (''text'', JStr (ib_Text b))] @
     (case ib_Type b of
        Some (InlineButtonTypeURL u) \<Rightarrow> [(''url'', JStr u)]
      | Some (InlineButtonTypeCallback d) \<Rightarrow> [(''callback_data'', JStr d)]
      | Some (InlineButtonTypeWebView u) \<Rightarrow> [(''web_app'', JObj [(''url'', JStr u)])]
      | Some (InlineButtonTypeSwitchInline q same) \<Rightarrow> [(''switch_inline_query'', JStr q), (''same_peer'', JBool same)]
      | Some InlineButtonTypeBuy \<Rightarrow> [(''buy'', JBool True)]
      | _ \<Rightarrow> [])"

fun SerializeReplyMarkup :: "ReplyMarkup \<Rightarrow> obj" where
  "SerializeReplyMarkup (ReplyInlineMarkup rows) = [(''_'', JStr ''InlineKeyboardMarkup''),
     (''inline_keyboard'', JArr (map (\<lambda>row. JArr (map (\<lambda>b. JObj (serializeInlineButton b)) row)) rows))]"
| "SerializeReplyMarkup (ReplyKeyboardMarkup resize persistent rows) = [(''_'', JStr ''ReplyKeyboardMarkup''),
     (''keyboard'', JArr (map (\<lambda>row. JArr (map (\<lambda>t. JObj [(''_'', JStr ''KeyboardButton''), (''text'', JStr t)]) row)) rows)),
     (''resize_keyboard'', JBool resize), (''is_persistent'', JBool persistent)]"
| "SerializeReplyMarkup ReplyKeyboardHide = [(''_'', JStr ''ReplyKeyboardRemove''), (''remove_keyboard'', JBool True)]"
| "SerializeReplyMarkup ReplyKeyboardForceReply = [(''_'', JStr ''ForceReply''), (''force_reply'', JBool True)]"

definition entity_dicts :: "MessageEntity list \<Rightarrow> json list" where
  "entity_dicts es = concat (map (\<lambda>e. case SerializeEntity e of Some d \<Rightarrow> [JObj d] | None \<Rightarrow> []) es)"

definition msg_dict :: "tgMessage \<Rightarrow> obj" where
  "msg_dict m =
     [(''_'', JStr ''Message''), (''id'', JInt (tm_ID m)), (''date'', JInt (tm_Date m)), (''message'', JStr (tm_Message m))] @
     (case tm_PeerID m of Some p \<Rightarrow> [(''chat'', JObj (SerializeChat (Some p)))] | None \<Rightarrow> []) @
     (case tm_FromID m of Some (PeerUser u) \<Rightarrow> [(''from_user_id'', JInt u)] | _ \<Rightarrow> []) @
     (case tm_ReplyTo m of Some (MessageReplyHeader i) \<Rightarrow> [(''reply_to_message_id'', JInt i)] | _ \<Rightarrow> []) @
     (case tm_ReplyMarkup m of Some k \<Rightarrow> [(''reply_markup'', JObj (SerializeReplyMarkup k))] | None \<Rightarrow> []) @
     (if tm_Entities m \<noteq> [] then [(''entities'', JArr (entity_dicts (tm_Entities m)))] else []) @
     (case tm_Media m of Some x \<Rightarrow> (case SerializeMedia x of Some d \<Rightarrow> [(''media'', JObj d)] | None \<Rightarrow> []) | None \<Rightarrow> [])"

fun SerializeMessage :: "MessageClass \<Rightarrow> obj option" where
  "SerializeMessage (Message m) = Some (msg_dict m)"
| "SerializeMessage MessageOther = None"

text \<open>\<open>UpdateOther\<close> carries what \<^verbatim>\<open>%T\<close> prints; the part after the last dot is the constructor's name.\<close>

definition constructorName :: "string \<Rightarrow> string" where
  "constructorName s = (if CHR ''.'' \<in> set s then rev (takeWhile (\<lambda>c. c \<noteq> CHR ''.'') (rev s)) else s)"

definition msg_update :: "string \<Rightarrow> MessageClass \<Rightarrow> int \<Rightarrow> int \<Rightarrow> obj option" where
  "msg_update name m pts n = map_option (\<lambda>d. [(''_'', JStr name), (''message'', JObj d), (''pts'', JInt pts), (''pts_count'', JInt n)])
     (SerializeMessage m)"

fun SerializeUpdate :: "UpdateClass \<Rightarrow> obj option" where
  "SerializeUpdate (UpdateNewMessage m pts n) = msg_update ''UpdateNewMessage'' m pts n"
| "SerializeUpdate (UpdateNewChannelMessage m pts n) = msg_update ''UpdateNewChannelMessage'' m pts n"
| "SerializeUpdate (UpdateEditMessage m pts n) = msg_update ''UpdateEditMessage'' m pts n"
| "SerializeUpdate (UpdateEditChannelMessage m pts n) = msg_update ''UpdateEditChannelMessage'' m pts n"
| "SerializeUpdate (UpdateBotCallbackQuery q u p i inst d) = Some [(''_'', JStr ''UpdateBotCallbackQuery''), (''query_id'', JInt q),
     (''user_id'', JInt u), (''peer'', JObj (SerializePeer p)), (''msg_id'', JInt i), (''chat_instance'', JInt inst), (''data'', JStr d)]"
| "SerializeUpdate (UpdateInlineBotCallbackQuery q u inst d) = Some [(''_'', JStr ''UpdateInlineBotCallbackQuery''), (''query_id'', JInt q),
     (''user_id'', JInt u), (''msg_data'', JStr ''inline''), (''chat_instance'', JInt inst), (''data'', JStr d)]"
| "SerializeUpdate (UpdateBotCommands p cs) = Some [(''_'', JStr ''UpdateBotCommands''), (''peer'', JObj (SerializePeer p)),
     (''commands'', JArr (map (\<lambda>(c, d). JObj [(''_'', JStr ''BotCommand''), (''command'', JStr c), (''description'', JStr d)]) cs))]"
| "SerializeUpdate (UpdateOther t) = Some [(''_'', JStr (constructorName t))]"

subsection \<open>Coercion\<close>

definition strOr :: "obj \<Rightarrow> string \<Rightarrow> string" where
  "strOr m k = (case map_of m k of Some (JStr s) \<Rightarrow> s | _ \<Rightarrow> [])"

definition boolOr :: "obj \<Rightarrow> string \<Rightarrow> bool \<Rightarrow> bool" where
  "boolOr m k def = (case map_of m k of Some (JBool b) \<Rightarrow> b | _ \<Rightarrow> def)"

definition intOr :: "obj \<Rightarrow> string \<Rightarrow> int \<Rightarrow> int" where
  "intOr m k def = (case map_of m k of Some (JNum r) \<Rightarrow> int64_of_float r | Some (JInt n) \<Rightarrow> n | _ \<Rightarrow> def)"

definition hasKey :: "obj \<Rightarrow> string \<Rightarrow> bool" where
  "hasKey m k \<longleftrightarrow> map_of m k \<noteq> None"

definition coerce_type :: "obj \<Rightarrow> ButtonType option" where
  "coerce_type b =
     (if strOr b ''url'' \<noteq> [] then Some (InlineButtonTypeURL (strOr b ''url''))
      else if strOr b ''callback_data'' \<noteq> [] then Some (InlineButtonTypeCallback (strOr b ''callback_data''))
      else case map_of b ''web_app'' of
          Some (JObj wa) \<Rightarrow> Some (InlineButtonTypeWebView (strOr wa ''url''))
        | _ \<Rightarrow>
            if hasKey b ''switch_inline_query'' then Some (InlineButtonTypeSwitchInline (strOr b ''switch_inline_query'') False)
            else if hasKey b ''switch_inline_query_current_chat''
              then Some (InlineButtonTypeSwitchInline (strOr b ''switch_inline_query_current_chat'') True)
            else if boolOr b ''buy'' False then Some InlineButtonTypeBuy
            else None)"

definition coerceInlineButton :: "obj \<Rightarrow> KeyboardInlineButton" where
  "coerceInlineButton b = \<lparr>ib_Text = strOr b ''text'', ib_Type = coerce_type b\<rparr>"

text \<open>Rows that are no lists and buttons that are no maps are skipped, in both kinds of keyboard.\<close>

fun coerce_row :: "(obj \<Rightarrow> 'b) \<Rightarrow> json list \<Rightarrow> 'b list" where
  "coerce_row f [] = []"
| "coerce_row f (JObj b # bs) = f b # coerce_row f bs"
| "coerce_row f (_ # bs) = coerce_row f bs"

fun coerce_rows :: "(obj \<Rightarrow> 'b) \<Rightarrow> json list \<Rightarrow> 'b list list" where
  "coerce_rows f [] = []"
| "coerce_rows f (JArr r # rs) = coerce_row f r # coerce_rows f rs"
| "coerce_rows f (_ # rs) = coerce_rows f rs"

definition coerceInlineKeyboard :: "json list \<Rightarrow> ReplyMarkup" where
  "coerceInlineKeyboard rows = ReplyInlineMarkup (coerce_rows coerceInlineButton rows)"

definition coerce_flags :: "obj \<Rightarrow> ReplyMarkup option" where
  "coerce_flags m =
     (if boolOr m ''force_reply'' False then Some ReplyKeyboardForceReply
      else if boolOr m ''remove_keyboard'' False then Some ReplyKeyboardHide
      else None)"

definition coerce_keyboard :: "obj \<Rightarrow> ReplyMarkup option" where
  "coerce_keyboard m = (case map_of m ''keyboard'' of
       Some (JArr rows) \<Rightarrow> Some (ReplyKeyboardMarkup (boolOr m ''resize_keyboard'' True) (boolOr m ''is_persistent'' False)
         (coerce_rows (\<lambda>b. strOr b ''text'') rows))
     | _ \<Rightarrow> coerce_flags m)"

definition CoerceReplyMarkup :: "json \<Rightarrow> ReplyMarkup option" where
  "CoerceReplyMarkup v = (case v of
       JObj m \<Rightarrow> (case map_of m ''inline_keyboard'' of
           Some (JArr rows) \<Rightarrow> Some (coerceInlineKeyboard rows)
         | _ \<Rightarrow> coerce_keyboard m)
     | _ \<Rightarrow> None)"

text \<open>
  Media of a request. \<open>decodeUploadHandle\<close> splits at the first two colons and scans \<^verbatim>\<open>"%d %d"\<close>: the space of the
  format has to meet a space of the input, then a second number.
\<close>

datatype InputFile = InputFileBig int int string

datatype InputPhoto = InputPhotoEmpty

datatype DocumentAttribute =
  DocumentAttributeVideo bool int int int
| DocumentAttributeAudio bool
| DocumentAttributeFilename string

datatype 'f InputMedia =
  InputMediaPhoto InputPhoto int
| InputMediaPhotoExternal string
| InputMediaDocumentExternal string
| InputMediaUploadedPhoto 'f
| InputMediaUploadedDocument "'f option" string "DocumentAttribute list"

fun cut_colon :: "string \<Rightarrow> (string \<times> string) option" where
  "cut_colon [] = None"
| "cut_colon (c # cs) = (if c = CHR '':'' then Some ([], cs) else map_option (\<lambda>(a, b). (c # a, b)) (cut_colon cs))"

definition scan_two :: "string \<Rightarrow> (int \<times> int) option" where
  "scan_two s =
     (let t = dropWhile is_blank s;
          sign = (if t \<noteq> [] \<and> (hd t = CHR ''-'' \<or> hd t = CHR ''+'') then [hd t] else []);
          digits = takeWhile is_digit (drop (length sign) t);
          rest = drop (length sign + length digits) t
      in if digits = [] then None
         else case parse_int (sign @ digits) of
             None \<Rightarrow> None
           | Some a \<Rightarrow>
               if rest \<noteq> [] \<and> is_blank (hd rest) then map_option (Pair a) (scan_int rest) else None)"

definition decodeUploadHandle :: "string \<Rightarrow> InputFile option" where
  "decodeUploadHandle i =
     (case cut_colon i of
        None \<Rightarrow> None
      | Some (a, r) \<Rightarrow>
          (case cut_colon r of
             None \<Rightarrow> None
           | Some (b, name) \<Rightarrow> map_option (\<lambda>(n, k). InputFileBig n k name) (scan_two (a @ '' '' @ b))))"

definition applyUploadedCommon :: "obj \<Rightarrow> InputFile option" where
  "applyUploadedCommon m = (if strOr m ''_gw_upload_id'' \<noteq> [] then decodeUploadHandle (strOr m ''_gw_upload_id'') else None)"

definition inputPhotoOrEmpty :: "string \<Rightarrow> InputPhoto" where
  "inputPhotoOrEmpty ref = InputPhotoEmpty"

definition CoerceInputMedia :: "json \<Rightarrow> InputFile InputMedia option" where
  "CoerceInputMedia v = (case v of
       JObj m \<Rightarrow>
         (let kind = strOr m ''type'' in
          if kind = ''photo'' then Some (InputMediaPhoto (inputPhotoOrEmpty (strOr m ''media'')) (intOr m ''ttl_seconds'' 0))
          else if kind = ''video'' then
            Some (InputMediaUploadedDocument (applyUploadedCommon m) ''video/mp4''
              [DocumentAttributeVideo True (intOr m ''duration'' 0) (intOr m ''width'' 0) (intOr m ''height'' 0)])
          else if kind = ''document'' then
            Some (InputMediaUploadedDocument (applyUploadedCommon m) ''application/octet-stream'' [])
          else None)
     | _ \<Rightarrow> None)"

subsection \<open>Round trips\<close>

definition plain_button :: "KeyboardInlineButton \<Rightarrow> bool" where
  "plain_button b = (case ib_Type b of
       Some (InlineButtonTypeURL u) \<Rightarrow> u \<noteq> []
     | Some (InlineButtonTypeCallback d) \<Rightarrow> d \<noteq> []
     | Some (InlineButtonTypeSwitchInline q same) \<Rightarrow> \<not> same
     | Some InlineButtonTypeOther \<Rightarrow> False
     | _ \<Rightarrow> True)"

definition plain_markup :: "ReplyMarkup \<Rightarrow> bool" where
  "plain_markup m = (case m of ReplyInlineMarkup rows \<Rightarrow> list_all (list_all plain_button) rows | _ \<Rightarrow> True)"

lemma parse_int_FormatInt:
  assumes "int64 n"
  shows "parse_int (FormatInt n) = Some n"
proof -
  consider "n = 0" | "n > 0" | "n < 0" by linarith
  then show ?thesis
  proof cases
    case 1
    then show ?thesis by (simp add: FormatInt_def parse_int_def parse_digits_def is_digit_def digit_val_def int64_def)
  next
    case 2
    then show ?thesis using parse_int_unsigned [OF parse_digits_itoa_loop] assms by (simp add: FormatInt_def)
  next
    case 3
    then show ?thesis using parse_digits_itoa_loop [of "- n"] assms by (simp add: FormatInt_def parse_int_def)
  qed
qed

lemma button_round_trip:
  assumes "plain_button b"
  shows "coerceInlineButton (map (\<lambda>(k, v). (k, decoded v)) (serializeInlineButton b)) = b"
proof (cases "ib_Type b")
  case (Some t)
  then show ?thesis using assms
    by (cases t; cases b) (auto simp: plain_button_def coerceInlineButton_def serializeInlineButton_def coerce_type_def strOr_def hasKey_def boolOr_def)
next
  case None
  then show ?thesis
    by (cases b) (simp add: coerceInlineButton_def serializeInlineButton_def coerce_type_def strOr_def hasKey_def boolOr_def)
qed

lemma coerce_row_map: "(\<And>x. x \<in> set xs \<Longrightarrow> f (g x) = x) \<Longrightarrow> coerce_row f (map (\<lambda>x. JObj (g x)) xs) = xs"
  by (induction xs) auto

lemma coerce_rows_map: "(\<And>r x. r \<in> set rs \<Longrightarrow> x \<in> set r \<Longrightarrow> f (g x) = x) \<Longrightarrow>
    coerce_rows f (map (\<lambda>r. JArr (map (\<lambda>x. JObj (g x)) r)) rs) = rs"
proof (induction rs)
  case (Cons r rs)
  then show ?case using coerce_row_map [of r f g] by auto
qed simp


text \<open>
  The exception is real: a button that opens the inline mode in the same chat comes back as one that asks for a
  chat first, since the serializer writes a key the coercion does not read; a link or callback button with an
  empty payload comes back without a type.
\<close>

lemma same_chat_button_loses_chat:
  "coerceInlineButton (serializeInlineButton \<lparr>ib_Text = t, ib_Type = Some (InlineButtonTypeSwitchInline q True)\<rparr>) =
     \<lparr>ib_Text = t, ib_Type = Some (InlineButtonTypeSwitchInline q False)\<rparr>"
  "coerceInlineButton (serializeInlineButton \<lparr>ib_Text = t, ib_Type = Some (InlineButtonTypeCallback [])\<rparr>) = \<lparr>ib_Text = t, ib_Type = None\<rparr>"
  by (simp_all add: coerceInlineButton_def serializeInlineButton_def coerce_type_def strOr_def hasKey_def boolOr_def)


end
