(* ===== verification/Pyformat.thy ===== *)
theory Pyformat
  imports Wire "HOL-Library.Product_Lexorder"
begin

text \<open>
  \<^verbatim>\<open>internal/mtproto/pyformat/pyformat.go\<close>: the parser behind \<^verbatim>\<open>parse_mode\<close>. Text is a list of code points (those
  below 256), so that Go's rune offsets are positions; every delimiter is ASCII, for which the source's byte
  searches find the same places. The regular expressions are written out as scanners (leftmost match, first
  alternative, shortest repetition where the source has \<^verbatim>\<open>+?\<close>).

  Lower-casing is that of the ASCII letters. Parameters: \<^verbatim>\<open>html.UnescapeString\<close> (a table of more than two thousand names), the client's user resolver, the
  order in which Go ranges over the map of code placeholders, and the entity builder's \<^verbatim>\<open>Complete\<close> of the client library.
\<close>

datatype Mode = ModeCombined | ModeMarkdown | ModeHTML | ModeDisabled

definition is_uspace :: "char \<Rightarrow> bool" where
  "is_uspace c \<longleftrightarrow> is_space c \<or> c = CHR 0x85 \<or> c = CHR 0xA0"

definition TrimSpace :: "string \<Rightarrow> string" where
  "TrimSpace s = rev (dropWhile is_uspace (rev (dropWhile is_uspace s)))"

definition ModeFromName :: "string \<Rightarrow> Mode" where
  "ModeFromName name =
     (let n = to_lower (TrimSpace name) in
      if n = ''markdown'' \<or> n = ''md'' then ModeMarkdown
      else if n = ''html'' then ModeHTML
      else if n = ''disabled'' \<or> n = ''none'' then ModeDisabled
      else ModeCombined)"

datatype Formatter =
  FBold
| FItalic
| FUnderline
| FStrike
| FBlockquote bool
| FCode
| FPre string
| FSpoiler
| FMentionName InputUser
| FTextURL string
| FCustomEmoji int

text \<open>What the parser is given: \<^verbatim>\<open>html.UnescapeString\<close>, the resolver and the order of the placeholders.\<close>

record fmt_env =
  unescape :: "string \<Rightarrow> string"
  resolveUser :: "(int \<Rightarrow> string + InputUser) option"
  visit :: "(string \<times> string) list \<Rightarrow> (string \<times> string) list"

subsection \<open>String helpers\<close>

abbreviation nl :: char where
  "nl \<equiv> CHR 0x0A"

fun str_index :: "string \<Rightarrow> string \<Rightarrow> nat option" where
  "str_index [] p = (if p = [] then Some 0 else None)"
| "str_index (c # cs) p = (if has_prefix (c # cs) p then Some 0 else map_option Suc (str_index cs p))"

definition replaceOnceFrom :: "string \<Rightarrow> string \<Rightarrow> string \<Rightarrow> int \<Rightarrow> string" where
  "replaceOnceFrom s old new start =
     (if start < 0 \<or> start > int (length s) then s
      else case str_index (drop (nat start) s) old of
          None \<Rightarrow> s
        | Some i \<Rightarrow> take (nat start + i) s @ new @ drop (nat start + i + length old) s)"

definition replaceOnce :: "string \<Rightarrow> string \<Rightarrow> string \<Rightarrow> string" where
  "replaceOnce s old new = replaceOnceFrom s old new 0"

text \<open>\<^verbatim>\<open>strings.ReplaceAll\<close> for the one non-empty pattern the source has.\<close>

function replace_all :: "string \<Rightarrow> string \<Rightarrow> string \<Rightarrow> string" where
  "replace_all old new s = (case s of
       [] \<Rightarrow> []
     | c # cs \<Rightarrow>
         if old \<noteq> [] \<and> has_prefix s old then new @ replace_all old new (drop (length old) s)
         else c # replace_all old new cs)"
  by pat_completeness auto
termination
  by (relation "measure (\<lambda>(old, new, s). length s)") auto

declare replace_all.simps [simp del]

definition html_escape :: "string \<Rightarrow> string" where
  "html_escape s = concat (map (\<lambda>c.
     if c = CHR ''&'' then ''&amp;''
     else if c = CHR 0x27 then ''&#39;''
     else if c = CHR ''<'' then ''&lt;''
     else if c = CHR ''>'' then ''&gt;''
     else if c = CHR 0x22 then ''&#34;''
     else [c]) s)"

fun split_nl :: "string \<Rightarrow> string list" where
  "split_nl [] = [[]]"
| "split_nl (c # cs) = (if c = nl then [] # split_nl cs else (case split_nl cs of l # ls \<Rightarrow> (c # l) # ls | [] \<Rightarrow> [[c]]))"

fun join_nl :: "string list \<Rightarrow> string" where
  "join_nl [] = []"
| "join_nl [l] = l"
| "join_nl (l # ls) = l @ nl # join_nl ls"

definition isDigits :: "string \<Rightarrow> bool" where
  "isDigits s \<longleftrightarrow> s \<noteq> [] \<and> list_all is_digit s"

text \<open>\<^verbatim>\<open>%q\<close> (\<^verbatim>\<open>strconv.Quote\<close>): escapes for the quote, the backslash and what is not printable.\<close>

definition hex_digit :: "nat \<Rightarrow> char" where
  "hex_digit n = ''0123456789abcdef'' ! n"

definition quote_char :: "char \<Rightarrow> string" where
  "quote_char c =
     (let n = (of_char c :: nat); b = CHR 0x5C in
      if c = CHR 0x22 \<or> c = b then [b, c]
      else if n = 7 then [b, CHR ''a''] else if n = 8 then [b, CHR ''b''] else if n = 12 then [b, CHR ''f'']
      else if n = 10 then [b, CHR ''n''] else if n = 13 then [b, CHR ''r''] else if n = 9 then [b, CHR ''t'']
      else if n = 11 then [b, CHR ''v'']
      else if n < 32 \<or> n = 127 then [b, CHR ''x'', hex_digit (n div 16), hex_digit (n mod 16)]
      else if (128 \<le> n \<and> n \<le> 160) \<or> n = 173 then [b, CHR ''u'', CHR ''0'', CHR ''0'', hex_digit (n div 16), hex_digit (n mod 16)]
      else [c])"

definition quote :: "string \<Rightarrow> string" where
  "quote s = [CHR 0x22] @ concat (map quote_char s) @ [CHR 0x22]"

subsection \<open>Block quotes\<close>

definition open_quote :: "string \<Rightarrow> string \<Rightarrow> string \<Rightarrow> string" where
  "open_quote mark tag line = TrimSpace (tag @ trim_prefix (trim_prefix line (mark @ '' '')) mark)"

fun quote_loop :: "bool \<Rightarrow> string list \<Rightarrow> string list \<times> bool" where
  "quote_loop q [] = ([], q)"
| "quote_loop q (line # ls) =
     (if has_prefix line ''>'' then
        (let (out, q') = quote_loop True ls in
         ((if q then TrimSpace (drop 1 line) else open_quote ''>'' ''<blockquote>'' line) # out, q'))
      else if has_prefix line ''**>'' then
        (let (out, q') = quote_loop True ls in
         ((if q then TrimSpace (drop 3 line) else open_quote ''**>'' ''<blockquote expandable>'' line) # out, q'))
      else
        (let (out, q') = quote_loop False ls in
         ((if q then ''</blockquote>'' @ line else line) # out, q')))"

definition blockquoteParser :: "string \<Rightarrow> string" where
  "blockquoteParser text =
     (let t1 = replace_all (nl # ''&gt;'') [nl, CHR ''>''] text;
          t2 = (if has_prefix t1 ''&gt;'' then ''>'' @ drop 4 t1 else t1);
          (out, q) = quote_loop False (split_nl t2)
      in join_nl (if q \<and> out \<noteq> [] then butlast out @ [last out @ ''</blockquote>''] else out))"

subsection \<open>Markdown\<close>

definition boldDelim :: string where "boldDelim = ''**''"

definition italicDelim :: string where "italicDelim = ''__''"

definition underlineDelim :: string where "underlineDelim = ''--''"

definition strikeDelim :: string where "strikeDelim = ''~~''"

definition spoilerDelim :: string where "spoilerDelim = ''||''"

definition codeDelim :: string where "codeDelim = [CHR 0x60]"

definition preDelim :: string where "preDelim = [CHR 0x60, CHR 0x60, CHR 0x60]"

lemmas delim_defs = boldDelim_def italicDelim_def underlineDelim_def strikeDelim_def spoilerDelim_def codeDelim_def preDelim_def

definition delim_at :: "string \<Rightarrow> string option" where
  "delim_at s = find (has_prefix s) [preDelim, codeDelim, strikeDelim, underlineDelim, italicDelim, boldDelim, spoilerDelim]"

lemma delim_at_nonempty: "delim_at s = Some d \<Longrightarrow> d \<noteq> [] \<and> has_prefix s d"
  by (auto simp: delim_at_def delim_defs split: if_splits)

function markdownRe_FindAll :: "string \<Rightarrow> string list" where
  "markdownRe_FindAll s = (case s of
       [] \<Rightarrow> []
     | c # cs \<Rightarrow> (case delim_at s of Some d \<Rightarrow> d # markdownRe_FindAll (drop (length d) s) | None \<Rightarrow> markdownRe_FindAll cs))"
  by pat_completeness auto
termination
  by (relation "measure length") (auto dest: delim_at_nonempty)

declare markdownRe_FindAll.simps [simp del]

text \<open>\<^verbatim>\<open><code>.*?</code>\<close>: the shortest match, within a line. The result is its length.\<close>

definition codeTagRe :: "string \<Rightarrow> nat option" where
  "codeTagRe s =
     (if has_prefix s ''<code>'' then
        (case str_index (drop 6 s) ''</code>'' of
           Some i \<Rightarrow> if nl \<in> set (take i (drop 6 s)) then None else Some (6 + i + 7)
         | None \<Rightarrow> None)
      else None)"

lemma codeTagRe_pos: "codeTagRe s = Some k \<Longrightarrow> 0 < k"
  by (auto simp: codeTagRe_def split: if_splits option.splits)

function protect_code :: "nat \<Rightarrow> string \<Rightarrow> string \<times> (string \<times> string) list" where
  "protect_code n s = (case s of
       [] \<Rightarrow> ([], [])
     | c # cs \<Rightarrow>
         (case codeTagRe s of
            Some k \<Rightarrow>
              (let key = ''{CODE_SECTION_'' @ FormatInt (int n) @ ''}'';
                   (t, ps) = protect_code (Suc n) (drop k s)
               in (key @ t, (key, take k s) # ps))
          | None \<Rightarrow> (let (t, ps) = protect_code n cs in (c # t, ps))))"
  by pat_completeness auto
termination
  by (relation "measure (\<lambda>(n, s). length s)") (auto dest: codeTagRe_pos)

declare protect_code.simps [simp del]

definition delim_tag :: "string \<Rightarrow> string" where
  "delim_tag d =
     (if d = boldDelim then ''b'' else if d = italicDelim then ''i'' else if d = underlineDelim then ''u''
      else if d = strikeDelim then ''s'' else if d = codeDelim then ''code'' else if d = preDelim then ''pre'' else ''spoiler'')"

definition pre_opener :: "string \<Rightarrow> string" where
  "pre_opener text = (case str_index text preDelim of
       None \<Rightarrow> preDelim
     | Some i \<Rightarrow> takeWhile (\<lambda>c. c \<noteq> nl) (drop i text))"

record md_state =
  md_text :: string
  md_fixed :: bool
  md_open :: "string list"

definition md_step :: "string \<Rightarrow> md_state \<Rightarrow> md_state" where
  "md_step d s =
     (let fixedw = d = preDelim \<or> d = codeDelim;
          s1 = s\<lparr>md_fixed := (if fixedw then \<not> md_fixed s else md_fixed s)\<rparr>
      in if md_fixed s1 \<and> \<not> fixedw then s1
         else if d \<notin> set (md_open s) then
           (let s2 = s1\<lparr>md_open := d # md_open s\<rparr>;
                opener = pre_opener (md_text s)
            in if d = preDelim then
                 s2\<lparr>md_text := replaceOnceFrom (md_text s) opener (''<pre language='' @ quote (trim_prefix opener preDelim) @ ''>'') 0\<rparr>
               else s2\<lparr>md_text := replaceOnce (md_text s) d (''<'' @ delim_tag d @ ''>'')\<rparr>)
         else s1\<lparr>md_open := removeAll d (md_open s), md_text := replaceOnce (md_text s) d (''</'' @ delim_tag d @ ''>'')\<rparr>)"

text \<open>\<^verbatim>\<open>(!?)\[(.+?)\]\((.+?)\)\<close>: label and link are the shortest non-empty ones on the line that let the rest match.\<close>

record link =
  lk_full :: string
  lk_bang :: bool
  lk_label :: string
  lk_url :: string

fun link_url :: "string \<Rightarrow> string \<Rightarrow> string option" where
  "link_url acc [] = None"
| "link_url acc (c # cs) =
     (if acc \<noteq> [] \<and> c = CHR '')'' then Some acc else if c = nl then None else link_url (acc @ [c]) cs)"

fun link_label :: "string \<Rightarrow> string \<Rightarrow> (string \<times> string) option" where
  "link_label acc [] = None"
| "link_label acc (c # cs) =
     (case (if acc \<noteq> [] \<and> has_prefix (c # cs) ''](''  then link_url [] (drop 1 cs) else None) of
        Some u \<Rightarrow> Some (acc, u)
      | None \<Rightarrow> if c = nl then None else link_label (acc @ [c]) cs)"

definition link_at :: "string \<Rightarrow> link option" where
  "link_at s =
     (let bang = has_prefix s ''!''; r = (if bang then drop 1 s else s) in
      if has_prefix r ''['' then
        map_option (\<lambda>(l, u). \<lparr>lk_full = (if bang then ''!'' else []) @ ''['' @ l @ ''](''  @ u @ '')'', lk_bang = bang, lk_label = l, lk_url = u\<rparr>)
          (link_label [] (drop 1 r))
      else None)"

lemma link_at_nonempty: "link_at s = Some l \<Longrightarrow> lk_full l \<noteq> []"
  by (auto simp: link_at_def Let_def split: if_splits)

function urlRe_FindAll :: "string \<Rightarrow> link list" where
  "urlRe_FindAll s = (case s of
       [] \<Rightarrow> []
     | c # cs \<Rightarrow> (case link_at s of Some l \<Rightarrow> l # urlRe_FindAll (drop (length (lk_full l)) s) | None \<Rightarrow> urlRe_FindAll cs))"
  by pat_completeness auto
termination
  by (relation "measure length") (auto dest: link_at_nonempty)

declare urlRe_FindAll.simps [simp del]

definition url_step :: "link \<Rightarrow> string \<Rightarrow> string" where
  "url_step l text =
     (if \<not> lk_bang l \<and> lk_label l \<noteq> [] then
        replaceOnce text (lk_full l) (''<a href='' @ quote (lk_url l) @ ''>'' @ lk_label l @ ''</a>'')
      else
        (let i = trim_prefix (lk_url l) ''tg://emoji?id='' in
         if lk_bang l \<and> i \<noteq> lk_url l \<and> isDigits i then
           replaceOnce text (lk_full l) (''<emoji id='' @ i @ ''>'' @ lk_label l @ ''</emoji>'')
         else text))"

definition markdownToHTML :: "fmt_env \<Rightarrow> string \<Rightarrow> bool \<Rightarrow> string" where
  "markdownToHTML e text strict =
     (let t1 = blockquoteParser (if strict then html_escape text else text);
          (t2, placeholders) = protect_code 0 t1;
          t3 = md_text (fold md_step (markdownRe_FindAll t2) \<lparr>md_text = t2, md_fixed = False, md_open = []\<rparr>);
          t4 = fold url_step (urlRe_FindAll t3) t3
      in fold (\<lambda>(key, section) t. replaceOnce t key section) (visit e placeholders) t4)"

subsection \<open>Tags\<close>

definition isSpace :: "char \<Rightarrow> bool" where
  "isSpace c \<longleftrightarrow> c \<in> {CHR '' '', CHR 0x09, nl, CHR 0x0D, CHR 0x0B, CHR 0x0C}"

definition is_letter :: "char \<Rightarrow> bool" where
  "is_letter c \<longleftrightarrow> (let n = (of_char c :: nat) in 97 \<le> n \<and> n \<le> 122 \<or> 65 \<le> n \<and> n \<le> 90)"

definition isWordByte :: "char \<Rightarrow> bool" where
  "isWordByte c \<longleftrightarrow> c = CHR ''_'' \<or> is_letter c \<or> is_digit c"

fun lead_tag :: "string \<Rightarrow> nat option" where
  "lead_tag [] = None"
| "lead_tag (c # cs) =
     (if c = CHR ''>'' then Some 1
      else if c \<in> {CHR ''<'', CHR ''='', CHR 0x22, CHR ''_''} \<or> isSpace c \<or> isWordByte c then map_option Suc (lead_tag cs)
      else None)"

text \<open>
  The backward scan for the last closing tag: \<open>j\<close> goes down from \<open>i\<close>, stops behind a \<^verbatim>\<open><\<close> and jumps
  back to \<open>i\<close> on a foreign byte.
\<close>

fun tail_scan :: "string \<Rightarrow> nat \<Rightarrow> nat \<Rightarrow> nat" where
  "tail_scan text i 0 = 0"
| "tail_scan text i (Suc j) =
     (let c = text ! j in
      if c = CHR ''<'' then Suc j
      else if c \<noteq> CHR ''>'' \<and> c \<noteq> CHR ''/'' \<and> \<not> isWordByte c then i
      else tail_scan text i j)"

definition strip_tail :: "string \<Rightarrow> string" where
  "strip_tail text =
     (let i = length (dropWhile isSpace (rev text));
          j = tail_scan text i i
      in if j > 0 \<and> has_prefix (drop j text) ''</'' \<and> j < i then
           rev (dropWhile isSpace (rev (take j text))) @ take (i - j) (drop j text)
         else text)"

definition stripOuterWhitespace :: "string \<Rightarrow> string" where
  "stripOuterWhitespace text =
     (let rest = dropWhile isSpace text in
      if \<not> has_prefix rest ''<'' then rest
      else case lead_tag rest of
          Some e \<Rightarrow> strip_tail (take e rest @ dropWhile isSpace (drop e rest))
        | None \<Rightarrow> strip_tail rest)"

text \<open>Attributes: \<^verbatim>\<open>name\<close>, \<^verbatim>\<open>name=value\<close>, the value quoted or bare; \<^verbatim>\<open>\s\<close> does not include the vertical tab.\<close>

definition re_space :: "char \<Rightarrow> bool" where
  "re_space c \<longleftrightarrow> c \<in> {CHR '' '', CHR 0x09, nl, CHR 0x0D, CHR 0x0C}"

definition name_start :: "char \<Rightarrow> bool" where
  "name_start c \<longleftrightarrow> is_letter c \<or> c = CHR ''_'' \<or> c = CHR '':''"

definition name_char :: "char \<Rightarrow> bool" where
  "name_char c \<longleftrightarrow> name_start c \<or> is_digit c \<or> c = CHR ''-'' \<or> c = CHR ''.''"

definition quoted_value :: "char \<Rightarrow> string \<Rightarrow> (string \<times> string) option" where
  "quoted_value q v =
     (if has_prefix v [q] \<and> q \<in> set (tl v) then
        (let b = takeWhile (\<lambda>c. c \<noteq> q) (tl v) in Some (q # b @ [q], drop (length b + 2) v))
      else None)"

definition bare_value :: "string \<Rightarrow> (string \<times> string) option" where
  "bare_value v =
     (let b = takeWhile (\<lambda>c. \<not> (re_space c \<or> c \<in> {CHR 0x22, CHR 0x27, CHR ''>''})) v in
      if b = [] then None else Some (b, drop (length b) v))"

definition attr_value :: "string \<Rightarrow> (string \<times> string) option" where
  "attr_value v = (case quoted_value (CHR 0x22) v of Some x \<Rightarrow> Some x | None \<Rightarrow>
     (case quoted_value (CHR 0x27) v of Some x \<Rightarrow> Some x | None \<Rightarrow> bare_value v))"

text \<open>A match at the beginning of \<open>s\<close>: name, raw value and what follows the match.\<close>

definition attr_at :: "string \<Rightarrow> (string \<times> string \<times> string) option" where
  "attr_at s =
     (if s \<noteq> [] \<and> name_start (hd s) then
        (let name = takeWhile name_char s;
             r = dropWhile re_space (drop (length name) s)
         in case (if has_prefix r ''='' then attr_value (dropWhile re_space (tl r)) else None) of
             Some (v, r') \<Rightarrow> Some (name, v, r')
           | None \<Rightarrow> Some (name, [], r))
      else None)"

lemma attr_value_shorter: "attr_value v = Some (x, r) \<Longrightarrow> length r \<le> length v"
  by (auto simp: attr_value_def quoted_value_def bare_value_def Let_def split: option.splits if_splits)

lemma attr_at_shorter:
  assumes "attr_at s = Some (n, v, r)"
  shows "length r < length s"
proof -
  from assms obtain c cs where s: "s = c # cs" "name_start c" by (cases s) (auto simp: attr_at_def split: if_splits)
  then have "takeWhile name_char s \<noteq> []" by (simp add: name_char_def)
  then have *: "length (dropWhile re_space (drop (length (takeWhile name_char s)) s)) < length s"
    using length_dropWhile_le [of re_space "drop (length (takeWhile name_char s)) s"] s(1)
    by (metis diff_less length_drop length_greater_0_conv list.distinct(1) order.strict_trans1)
  have "length r \<le> length (dropWhile re_space (drop (length (takeWhile name_char s)) s))"
    using assms s(1) length_dropWhile_le [of re_space "tl (dropWhile re_space (drop (length (takeWhile name_char s)) s))"]
    by (fastforce simp: attr_at_def Let_def split: if_splits option.splits dest!: attr_value_shorter)
  with * show ?thesis by linarith
qed

function attrRe_FindAll :: "string \<Rightarrow> (string \<times> string) list" where
  "attrRe_FindAll s = (case s of
       [] \<Rightarrow> []
     | c # cs \<Rightarrow> (case attr_at s of Some (n, v, r) \<Rightarrow> (n, v) # attrRe_FindAll r | None \<Rightarrow> attrRe_FindAll cs))"
  by pat_completeness auto
termination
  by (relation "measure length") (auto dest: attr_at_shorter)

declare attrRe_FindAll.simps [simp del]

definition unquoted :: "string \<Rightarrow> string" where
  "unquoted v =
     (if length v \<ge> 2 \<and> (hd v = CHR 0x22 \<or> hd v = CHR 0x27) \<and> last v = hd v then butlast (tl v) else v)"

definition parseAttrs :: "fmt_env \<Rightarrow> string \<Rightarrow> (string \<times> string) list" where
  "parseAttrs e s = fold (\<lambda>(n, v) m. AList.update (to_lower n) (if v = [] then [] else unescape e (unquoted v)) m) (attrRe_FindAll s) []"

text \<open>\<open>parseTag\<close> is called on a text that begins with \<^verbatim>\<open><\<close>.\<close>

record tag =
  tg_name :: string
  tg_attrs :: "(string \<times> string) list"
  tg_closing :: bool
  tg_consumed :: nat

definition name_end :: "char \<Rightarrow> bool" where
  "name_end c \<longleftrightarrow> c \<in> {CHR ''>'', CHR '' '', CHR 0x09, nl, CHR ''/''}"

definition parseTag :: "fmt_env \<Rightarrow> string \<Rightarrow> tag option" where
  "parseTag e s =
     (if length s < 2 then None
      else
        (let closing = s ! 1 = CHR ''/'';
             rest = drop (if closing then 2 else 1) s;
             name = takeWhile (\<lambda>c. \<not> name_end c) rest;
             body = drop (length name) rest;
             attrStr = takeWhile (\<lambda>c. c \<noteq> CHR ''>'') body
         in if name = [] then None
            else if CHR ''>'' \<notin> set body then None
            else Some \<lparr>tg_name = to_lower name, tg_attrs = (if closing then [] else parseAttrs e attrStr), tg_closing = closing,
                   tg_consumed = 1 + (if closing then 1 else 0) + length name + length attrStr + 1\<rparr>))"

text \<open>
  \<^verbatim>\<open>fmt.Sscan\<close> into an int64: a base prefix is honoured, a leading zero means octal, underscores separate digits;
  on any error the variable keeps its zero.
\<close>

definition digit_of :: "char \<Rightarrow> nat" where
  "digit_of c = (let n = (of_char c :: nat) in
     if 48 \<le> n \<and> n \<le> 57 then n - 48 else if 97 \<le> n \<and> n \<le> 102 then n - 87 else if 65 \<le> n \<and> n \<le> 70 then n - 55 else 99)"

definition scan_digits :: "nat \<Rightarrow> string \<Rightarrow> string" where
  "scan_digits base s = takeWhile (\<lambda>c. digit_of c < base \<or> c = CHR ''_'') s"

fun underscoreOK :: "bool \<Rightarrow> string \<Rightarrow> bool" where
  "underscoreOK after_digit [] = True"
| "underscoreOK after_digit [c] = (c \<noteq> CHR ''_'')"
| "underscoreOK after_digit (c # d # cs) =
     (if c = CHR ''_'' then after_digit \<and> d \<noteq> CHR ''_'' \<and> underscoreOK False (d # cs) else underscoreOK True (d # cs))"

definition base_val :: "nat \<Rightarrow> string \<Rightarrow> int" where
  "base_val base s = foldl (\<lambda>acc c. if c = CHR ''_'' then acc else acc * int base + int (digit_of c)) 0 s"

definition signed_digits :: "string \<Rightarrow> (nat \<times> bool \<times> string) option" where
  "signed_digits t =
     (case t of
        [] \<Rightarrow> None
      | c # cs \<Rightarrow>
          if c = CHR ''0'' then
            (let p = (if cs = [] then CHR ''0'' else hd cs) in
             if p = CHR ''b'' \<or> p = CHR ''B'' then Some (2, True, scan_digits 2 (tl cs))
             else if p = CHR ''o'' \<or> p = CHR ''O'' then Some (8, True, scan_digits 8 (tl cs))
             else if p = CHR ''x'' \<or> p = CHR ''X'' then Some (16, True, scan_digits 16 (tl cs))
             else Some (8, True, CHR ''0'' # scan_digits 8 cs))
          else Some (10, False, scan_digits 10 t))"

definition Sscan :: "string \<Rightarrow> int" where
  "Sscan s =
     (let t = dropWhile is_uspace s;
          neg = t \<noteq> [] \<and> hd t = CHR ''-'';
          r = (if t \<noteq> [] \<and> (hd t = CHR ''-'' \<or> hd t = CHR ''+'') then tl t else t)
      in case signed_digits r of
          None \<Rightarrow> 0
        | Some (base, prefix, ds) \<Rightarrow>
            (let v = (if neg then - base_val base ds else base_val base ds) in
             if ds = [] \<or> \<not> list_ex (\<lambda>c. c \<noteq> CHR ''_'') ds \<or> \<not> underscoreOK prefix ds \<or> \<not> int64 v then 0 else v))"

definition mention_id :: "string \<Rightarrow> int option" where
  "mention_id url =
     (let d = trim_prefix url ''tg://user?id='' in
      if has_prefix url ''tg://user?id='' \<and> isDigits d then Some (Sscan d) else None)"

definition formatterFor :: "fmt_env \<Rightarrow> string \<Rightarrow> (string \<times> string) list \<Rightarrow> string + Formatter option" where
  "formatterFor e name attrs =
     (let get = (\<lambda>k. case map_of attrs k of Some v \<Rightarrow> v | None \<Rightarrow> []) in
      if name = ''b'' \<or> name = ''strong'' then Inr (Some FBold)
      else if name = ''i'' \<or> name = ''em'' then Inr (Some FItalic)
      else if name = ''u'' then Inr (Some FUnderline)
      else if name = ''s'' \<or> name = ''del'' \<or> name = ''strike'' then Inr (Some FStrike)
      else if name = ''blockquote'' then Inr (Some (FBlockquote (map_of attrs ''expandable'' \<noteq> None)))
      else if name = ''code'' then Inr (Some FCode)
      else if name = ''pre'' then Inr (Some (FPre (get ''language'')))
      else if name = ''spoiler'' then Inr (Some FSpoiler)
      else if name = ''a'' then
        (case mention_id (get ''href'') of
           Some i \<Rightarrow>
             (case resolveUser e of
                Some r \<Rightarrow> (case r i of
                    Inl err \<Rightarrow> Inl (''resolve tg://user?id='' @ FormatInt i @ '': '' @ err)
                  | Inr u \<Rightarrow> Inr (Some (FMentionName u)))
              | None \<Rightarrow> Inr (Some (FMentionName (InputUser i 0))))
         | None \<Rightarrow> Inr (Some (FTextURL (get ''href''))))
      else if name = ''emoji'' then Inr (Some (FCustomEmoji (Sscan (get ''id''))))
      else Inr None)"

subsection \<open>Tokenizing\<close>

text \<open>The open frames are a stack, the most recent one first.\<close>

record span =
  sp_start :: nat
  sp_end :: nat
  sp_formatter :: Formatter

record openFrame =
  of_tag :: string
  of_formatter :: "Formatter option"
  of_start :: nat
  of_end :: nat
  of_sawText :: bool

record tok =
  tk_plain :: string
  tk_open :: "openFrame list"
  tk_closed :: "span list"

definition appendRun :: "string \<Rightarrow> tok \<Rightarrow> tok" where
  "appendRun run t =
     (let base = length (tk_plain t); runes = base + length run in
      t\<lparr>tk_plain := tk_plain t @ run,
        tk_open := map (\<lambda>f. f\<lparr>of_start := (if of_sawText f then of_start f else base), of_sawText := True, of_end := runes\<rparr>) (tk_open t)\<rparr>)"

fun pop_frame :: "string \<Rightarrow> openFrame list \<Rightarrow> (openFrame \<times> openFrame list) option" where
  "pop_frame name [] = None"
| "pop_frame name (f # fs) =
     (if of_tag f = name then Some (f, fs) else map_option (\<lambda>(g, gs). (g, f # gs)) (pop_frame name fs))"

definition close_tag :: "string \<Rightarrow> tok \<Rightarrow> tok" where
  "close_tag name t = (case pop_frame name (tk_open t) of
       None \<Rightarrow> t
     | Some (f, fs) \<Rightarrow>
         t\<lparr>tk_open := fs,
           tk_closed := tk_closed t @ (case of_formatter f of
               Some fm \<Rightarrow> if of_sawText f then [\<lparr>sp_start = of_start f, sp_end = of_end f, sp_formatter = fm\<rparr>] else []
             | None \<Rightarrow> [])\<rparr>)"

definition open_tag :: "string \<Rightarrow> Formatter option \<Rightarrow> tok \<Rightarrow> tok" where
  "open_tag name f t = t\<lparr>tk_open := \<lparr>of_tag = name, of_formatter = f, of_start = 0, of_end = 0, of_sawText = False\<rparr> # tk_open t\<rparr>"

definition text_run :: "fmt_env \<Rightarrow> string \<Rightarrow> tok \<Rightarrow> tok" where
  "text_run e run t = (if run = [] then t else appendRun (unescape e run) t)"

lemma parseTag_consumes: "parseTag e s = Some g \<Longrightarrow> 0 < tg_consumed g"
  by (auto simp: parseTag_def Let_def split: if_splits)

text \<open>\<open>rem\<close> is what lies behind the source's \<open>plainStart\<close>, which equals its \<open>i\<close> in every turn.\<close>

function tok_loop :: "fmt_env \<Rightarrow> string \<Rightarrow> tok \<Rightarrow> string + tok" where
  "tok_loop e rem t =
     (let run = takeWhile (\<lambda>c. c \<noteq> CHR ''<'') rem; r = drop (length run) rem; t1 = text_run e run t in
      if r = [] then Inr t1
      else case parseTag e r of
          None \<Rightarrow> tok_loop e (tl r) (appendRun ''<'' t1)
        | Some g \<Rightarrow>
            if tg_closing g then tok_loop e (drop (tg_consumed g) r) (close_tag (tg_name g) t1)
            else case formatterFor e (tg_name g) (tg_attrs g) of
                Inl err \<Rightarrow> Inl err
              | Inr f \<Rightarrow> tok_loop e (drop (tg_consumed g) r) (open_tag (tg_name g) f t1))"
  by pat_completeness auto
termination
proof (relation "measure (\<lambda>(e, rem, t). length rem)", goal_cases)
  case (2 e rem t x xa xb)
  then have "length (tl xa) < length xa" by (cases xa) auto
  then show ?case using 2(1,2) by simp
next
  case (3 e rem t x xa xb g)
  then show ?case using parseTag_consumes [of e xa g] by (cases xa) auto
next
  case (4 e rem t x xa xb g f)
  then show ?case using parseTag_consumes [of e xa g] by (cases xa) auto
qed simp

declare tok_loop.simps [simp del]

definition tokenizeHTML :: "fmt_env \<Rightarrow> string \<Rightarrow> string + (string \<times> span list)" where
  "tokenizeHTML e text = (case tok_loop e text \<lparr>tk_plain = [], tk_open = [], tk_closed = []\<rparr> of
       Inl err \<Rightarrow> Inl err
     | Inr t \<Rightarrow> Inr (tk_plain t, tk_closed t))"

definition dropZeroLength :: "span list \<Rightarrow> span list" where
  "dropZeroLength spans = filter (\<lambda>sp. sp_end sp > sp_start sp) spans"

text \<open>A token is what \<^verbatim>\<open>Plain\<close> and \<^verbatim>\<open>Format\<close> add to the builder: a segment and its formatters.\<close>

type_synonym token = "string \<times> Formatter list"

definition seg_token :: "string \<Rightarrow> span list \<Rightarrow> nat \<times> nat \<Rightarrow> token list" where
  "seg_token plain spans ft =
     (let (f, t) = ft in
      if t \<le> f \<or> length plain \<le> f then []
      else [(take (t - f) (drop f plain), map sp_formatter (filter (\<lambda>sp. sp_start sp \<le> f \<and> t \<le> sp_end sp) spans))])"

definition cut_points :: "string \<Rightarrow> span list \<Rightarrow> nat list" where
  "cut_points plain spans = sorted_list_of_set (set (0 # length plain # map sp_start spans @ map sp_end spans))"

definition emitTokens :: "string \<Rightarrow> span list \<Rightarrow> token list" where
  "emitTokens plain spans =
     (if plain = [] then []
      else (let ps = cut_points plain spans in concat (map (seg_token plain spans) (zip ps (tl ps)))))"

definition applyHTML :: "fmt_env \<Rightarrow> string \<Rightarrow> string + token list" where
  "applyHTML e text = (case tokenizeHTML e (stripOuterWhitespace text) of
       Inl err \<Rightarrow> Inl err
     | Inr (plain, spans) \<Rightarrow> Inr (emitTokens plain (dropZeroLength spans)))"

definition applyWithOptions :: "fmt_env \<Rightarrow> string \<Rightarrow> Mode \<Rightarrow> string + token list" where
  "applyWithOptions e text mode =
     (if mode = ModeDisabled then Inr [(text, [])]
      else if mode = ModeHTML then applyHTML e text
      else applyHTML e (markdownToHTML e text (mode = ModeMarkdown)))"

subsection \<open>Merging\<close>

fun GetOffset :: "MessageEntity \<Rightarrow> int" where
  "GetOffset (EntityBold i n) = i" | "GetOffset (EntityItalic i n) = i" | "GetOffset (EntityCode i n) = i"
| "GetOffset (EntityPre i n l) = i" | "GetOffset (EntityTextURL i n u) = i" | "GetOffset (EntityURL i n) = i"
| "GetOffset (EntityMention i n) = i" | "GetOffset (EntityMentionName i n u) = i" | "GetOffset (EntityHashtag i n) = i"
| "GetOffset (EntityBotCommand i n) = i" | "GetOffset (EntityEmail i n) = i" | "GetOffset (EntityPhone i n) = i"
| "GetOffset (EntityCashtag i n) = i" | "GetOffset (EntityUnderline i n) = i" | "GetOffset (EntityStrike i n) = i"
| "GetOffset (EntityBlockquote i n c) = i" | "GetOffset (EntitySpoiler i n) = i" | "GetOffset (EntityCustomEmoji i n d) = i"
| "GetOffset (InputEntityMentionName i n u) = i" | "GetOffset (EntityOther t i n) = i"

fun GetLength :: "MessageEntity \<Rightarrow> int" where
  "GetLength (EntityBold i n) = n" | "GetLength (EntityItalic i n) = n" | "GetLength (EntityCode i n) = n"
| "GetLength (EntityPre i n l) = n" | "GetLength (EntityTextURL i n u) = n" | "GetLength (EntityURL i n) = n"
| "GetLength (EntityMention i n) = n" | "GetLength (EntityMentionName i n u) = n" | "GetLength (EntityHashtag i n) = n"
| "GetLength (EntityBotCommand i n) = n" | "GetLength (EntityEmail i n) = n" | "GetLength (EntityPhone i n) = n"
| "GetLength (EntityCashtag i n) = n" | "GetLength (EntityUnderline i n) = n" | "GetLength (EntityStrike i n) = n"
| "GetLength (EntityBlockquote i n c) = n" | "GetLength (EntitySpoiler i n) = n" | "GetLength (EntityCustomEmoji i n d) = n"
| "GetLength (InputEntityMentionName i n u) = n" | "GetLength (EntityOther t i n) = n"

fun setLen :: "MessageEntity \<Rightarrow> int \<Rightarrow> MessageEntity" where
  "setLen (EntityBold i n) m = EntityBold i m"
| "setLen (EntityItalic i n) m = EntityItalic i m"
| "setLen (EntityUnderline i n) m = EntityUnderline i m"
| "setLen (EntityStrike i n) m = EntityStrike i m"
| "setLen (EntityCode i n) m = EntityCode i m"
| "setLen (EntitySpoiler i n) m = EntitySpoiler i m"
| "setLen (EntityPre i n l) m = EntityPre i m l"
| "setLen (EntityBlockquote i n c) m = EntityBlockquote i m c"
| "setLen (EntityTextURL i n u) m = EntityTextURL i m u"
| "setLen (InputEntityMentionName i n u) m = InputEntityMentionName i m u"
| "setLen (EntityCustomEmoji i n d) m = EntityCustomEmoji i m d"
| "setLen x m = x"

fun userIDOf :: "InputUser \<Rightarrow> int" where
  "userIDOf (InputUser i h) = i"
| "userIDOf InputUserOther = -1"

fun shapeKey :: "MessageEntity \<Rightarrow> string" where
  "shapeKey (EntityPre i n l) = ''pre:'' @ l"
| "shapeKey (EntityBlockquote i n c) = ''quote:'' @ (if c then ''true'' else ''false'')"
| "shapeKey (EntityTextURL i n u) = ''url:'' @ u"
| "shapeKey (InputEntityMentionName i n u) = ''mention:'' @ FormatInt (userIDOf u)"
| "shapeKey (EntityCustomEmoji i n d) = ''emoji:'' @ FormatInt d"
| "shapeKey (EntityBold i n) = ''*tg.MessageEntityBold''"
| "shapeKey (EntityItalic i n) = ''*tg.MessageEntityItalic''"
| "shapeKey (EntityCode i n) = ''*tg.MessageEntityCode''"
| "shapeKey (EntityURL i n) = ''*tg.MessageEntityURL''"
| "shapeKey (EntityMention i n) = ''*tg.MessageEntityMention''"
| "shapeKey (EntityMentionName i n u) = ''*tg.MessageEntityMentionName''"
| "shapeKey (EntityHashtag i n) = ''*tg.MessageEntityHashtag''"
| "shapeKey (EntityBotCommand i n) = ''*tg.MessageEntityBotCommand''"
| "shapeKey (EntityEmail i n) = ''*tg.MessageEntityEmail''"
| "shapeKey (EntityPhone i n) = ''*tg.MessageEntityPhone''"
| "shapeKey (EntityCashtag i n) = ''*tg.MessageEntityCashtag''"
| "shapeKey (EntityUnderline i n) = ''*tg.MessageEntityUnderline''"
| "shapeKey (EntityStrike i n) = ''*tg.MessageEntityStrike''"
| "shapeKey (EntitySpoiler i n) = ''*tg.MessageEntitySpoiler''"
| "shapeKey (EntityOther t i n) = t"

text \<open>The keys in order of their first entity, as \<^verbatim>\<open>order\<close> collects them.\<close>

fun key_order :: "string list \<Rightarrow> MessageEntity list \<Rightarrow> string list" where
  "key_order ks [] = ks"
| "key_order ks (x # xs) = key_order (if shapeKey x \<in> set ks then ks else ks @ [shapeKey x]) xs"

definition merge_step :: "string \<Rightarrow> MessageEntity \<Rightarrow> MessageEntity list \<Rightarrow> MessageEntity list" where
  "merge_step key x out =
     (if out \<noteq> [] \<and> shapeKey (last out) = key \<and> GetOffset (last out) + GetLength (last out) = GetOffset x then
        butlast out @ [setLen (last out) (GetLength (last out) + GetLength x)]
      else out @ [x])"

definition merge_group :: "MessageEntity list \<Rightarrow> string \<Rightarrow> MessageEntity list \<Rightarrow> MessageEntity list" where
  "merge_group xs key out = fold (merge_step key) (sort_key GetOffset (filter (\<lambda>x. shapeKey x = key) xs)) out"

definition MergeAdjacent :: "MessageEntity list \<Rightarrow> MessageEntity list" where
  "MergeAdjacent xs =
     (if length xs < 2 then xs
      else sort_key (\<lambda>x. (GetOffset x, GetLength x)) (fold (merge_group xs) (key_order [] xs) []))"

definition Build :: "(token list \<Rightarrow> string \<times> MessageEntity list) \<Rightarrow> fmt_env \<Rightarrow> string \<Rightarrow> Mode \<Rightarrow> string + (string \<times> MessageEntity list)" where
  "Build finish e text mode = (case applyWithOptions e text mode of
       Inl err \<Rightarrow> Inl err
     | Inr toks \<Rightarrow> (let (msg, entities) = finish toks in Inr (msg, MergeAdjacent entities)))"

end
