(* ===== verification/Pyformat_Spans.thy ===== *)
theory Pyformat_Spans
  imports Pyformat
begin

text \<open>
  What \<^verbatim>\<open>pyformat.go\<close> guarantees: the spans of the tokenizer lie inside the text, the tokens given to the entity builder
  carry exactly the text and, at every position, exactly the formats of the spans over it; merging keeps what
  every kind of entity covers; and which part of the outer stripping never happens.
\<close>

subsection \<open>Spans lie inside the text\<close>

definition span_in :: "nat \<Rightarrow> span \<Rightarrow> bool" where
  "span_in n sp \<longleftrightarrow> sp_start sp \<le> sp_end sp \<and> sp_end sp \<le> n"

definition frame_in :: "nat \<Rightarrow> openFrame \<Rightarrow> bool" where
  "frame_in n f \<longleftrightarrow> (of_sawText f \<longrightarrow> of_start f \<le> of_end f \<and> of_end f \<le> n)"

definition tok_ok :: "tok \<Rightarrow> bool" where
  "tok_ok t \<longleftrightarrow> list_all (frame_in (length (tk_plain t))) (tk_open t) \<and> list_all (span_in (length (tk_plain t))) (tk_closed t)"

lemma tok_ok_appendRun: "tok_ok t \<Longrightarrow> tok_ok (appendRun run t)"
  by (auto simp: tok_ok_def appendRun_def Let_def list_all_iff frame_in_def span_in_def)

lemma tok_ok_text_run: "tok_ok t \<Longrightarrow> tok_ok (text_run e run t)"
  by (simp add: text_run_def tok_ok_appendRun)

lemma tok_ok_open: "tok_ok t \<Longrightarrow> tok_ok (open_tag name f t)"
  by (simp add: tok_ok_def open_tag_def frame_in_def)

lemma pop_frame_set: "pop_frame name fs = Some (f, gs) \<Longrightarrow> f \<in> set fs \<and> set gs \<subseteq> set fs"
  by (induction fs arbitrary: gs) (auto split: if_splits)

lemma tok_ok_close:
  assumes "tok_ok t"
  shows "tok_ok (close_tag name t)"
proof (cases "pop_frame name (tk_open t)")
  case (Some p)
  then obtain f gs where p: "pop_frame name (tk_open t) = Some (f, gs)" by (cases p) auto
  from pop_frame_set [OF this] assms show ?thesis
    by (auto simp: close_tag_def p tok_ok_def list_all_iff frame_in_def span_in_def split: option.splits)
qed (simp add: close_tag_def assms)

lemma tok_loop_ok: "tok_ok t \<Longrightarrow> tok_loop e rem t = Inr t' \<Longrightarrow> tok_ok t'"
proof (induction e rem t rule: tok_loop.induct)
  case (1 e rem t)
  let ?run = "takeWhile (\<lambda>c. c \<noteq> CHR ''<'') rem"
  let ?r = "drop (length ?run) rem"
  have t1: "tok_ok (text_run e ?run t)" by (rule tok_ok_text_run [OF "1.prems"(1)])
  show ?case
  proof (cases "?r = []")
    case True
    then show ?thesis using "1.prems"(2) t1 by (simp add: tok_loop.simps [of e rem] Let_def)
  next
    case False
    show ?thesis
    proof (cases "parseTag e ?r")
      case None
      then show ?thesis
        using "1.IH"(1) [OF refl refl refl False None tok_ok_appendRun [OF t1]] "1.prems"(2) False
        by (simp add: tok_loop.simps [of e rem] Let_def)
    next
      case (Some g)
      show ?thesis
      proof (cases "tg_closing g")
        case True
        then show ?thesis
          using "1.IH"(2) [OF refl refl refl False Some True tok_ok_close [OF t1]] "1.prems"(2) False Some
          by (simp add: tok_loop.simps [of e rem] Let_def)
      next
        case c: False
        then show ?thesis
          using "1.IH"(3) [OF refl refl refl False Some c _ tok_ok_open [OF t1]] "1.prems"(2) False Some
          by (simp add: tok_loop.simps [of e rem] Let_def split: sum.splits)
      qed
    qed
  qed
qed

lemma tokenizeHTML_spans:
  assumes "tokenizeHTML e text = Inr (plain, spans)"
  shows "list_all (span_in (length plain)) spans"
proof -
  obtain t where t: "tok_loop e text \<lparr>tk_plain = [], tk_open = [], tk_closed = []\<rparr> = Inr t" "plain = tk_plain t" "spans = tk_closed t"
    using assms by (auto simp: tokenizeHTML_def split: sum.splits)
  have "tok_ok \<lparr>tk_plain = [], tk_open = [], tk_closed = []\<rparr>" by (simp add: tok_ok_def)
  from tok_loop_ok [OF this t(1)] show ?thesis by (simp add: tok_ok_def t)
qed

subsection \<open>The tokens carry the text and its formats\<close>

text \<open>The tokens spread over the code points, and the formats that the spans ask for at a position.\<close>

definition paint :: "token list \<Rightarrow> (char \<times> Formatter list) list" where
  "paint ts = concat (map (\<lambda>(seg, fs). map (\<lambda>c. (c, fs)) seg) ts)"

definition formats_at :: "span list \<Rightarrow> nat \<Rightarrow> Formatter list" where
  "formats_at spans i = map sp_formatter (filter (\<lambda>sp. sp_start sp \<le> i \<and> i < sp_end sp) spans)"

lemma upt_pieces:
  "sorted (p # ps) \<Longrightarrow> concat (map (\<lambda>(f, t). map g [f..<t]) (zip (p # ps) ps)) = map g [p..<last (p # ps)]"
proof (induction ps arbitrary: p)
  case (Cons q ps)
  then have "p \<le> q" "q \<le> last (q # ps)" "sorted (q # ps)" by auto
  moreover have "[p..<last (q # ps)] = [p..<q] @ [q..<last (q # ps)]"
    using \<open>p \<le> q\<close> \<open>q \<le> last (q # ps)\<close> by (metis le_add_diff_inverse upt_add_eq_append)
  ultimately show ?case using Cons.IH [of q] by simp
qed simp

lemma no_point_between:
  "sorted_wrt (<) ps \<Longrightarrow> (f, t) \<in> set (zip ps (tl ps)) \<Longrightarrow> x \<in> set ps \<Longrightarrow> f < t \<and> (x \<le> f \<or> t \<le> (x :: nat))"
proof (induction ps arbitrary: x)
  case (Cons p qs)
  show ?case
  proof (cases qs)
    case Nil
    then show ?thesis using Cons.prems by simp
  next
    case q: (Cons q rs)
    consider "f = p" "t = q" | "(f, t) \<in> set (zip qs (tl qs))" using Cons.prems(2) q by auto
    then show ?thesis
    proof cases
      case 1
      then show ?thesis using Cons.prems(1,3) q by auto
    next
      case 2
      then have "f \<in> set qs" by (rule set_zip_leftD)
      then show ?thesis using Cons.IH [OF _ 2, of f] Cons.IH [OF _ 2, of x] Cons.prems(1,3) by (auto simp: less_imp_le)
    qed
  qed
qed simp

lemma map_upt_drop: "t \<le> length xs \<Longrightarrow> map (\<lambda>i. (xs ! i, c)) [f..<t] = map (\<lambda>x. (x, c)) (take (t - f) (drop f xs))"
  by (rule nth_equalityI) auto

lemma paint_seg:
  assumes "f < t" "t \<le> length plain" "\<And>sp. sp \<in> set spans \<Longrightarrow> (sp_start sp \<le> f \<or> t \<le> sp_start sp) \<and> (sp_end sp \<le> f \<or> t \<le> sp_end sp)"
  shows "paint (seg_token plain spans (f, t)) = map (\<lambda>i. (plain ! i, formats_at spans i)) [f..<t]"
proof -
  have "formats_at spans i = map sp_formatter (filter (\<lambda>sp. sp_start sp \<le> f \<and> t \<le> sp_end sp) spans)" if "f \<le> i" "i < t" for i
    unfolding formats_at_def using assms(3) that by (intro arg_cong [where f = "map sp_formatter"] filter_cong) (auto, fastforce+)
  then have "map (\<lambda>i. (plain ! i, formats_at spans i)) [f..<t] =
      map (\<lambda>i. (plain ! i, map sp_formatter (filter (\<lambda>sp. sp_start sp \<le> f \<and> t \<le> sp_end sp) spans))) [f..<t]"
    by (intro map_cong) auto
  then show ?thesis using assms(1,2) by (simp add: seg_token_def paint_def map_upt_drop)
qed

lemma paint_concat: "paint (concat xss) = concat (map paint xss)"
  by (induction xss) (auto simp: paint_def)

lemma paint_text: "map fst (paint ts) = concat (map fst ts)"
  by (induction ts) (simp_all add: paint_def case_prod_unfold o_def)

lemma sorted_le_last: "sorted xs \<Longrightarrow> x \<in> set xs \<Longrightarrow> x \<le> last (xs :: nat list)"
  by (induction xs) (auto simp: last_in_set)

lemma cut_points_props:
  assumes "list_all (span_in (length plain)) spans"
  shows "sorted_wrt (<) (cut_points plain spans)" "\<exists>ps. cut_points plain spans = 0 # ps" "last (cut_points plain spans) = length plain"
    "set (cut_points plain spans) = set (0 # length plain # map sp_start spans @ map sp_end spans)"
proof -
  let ?S = "set (0 # length plain # map sp_start spans @ map sp_end spans)"
  have s: "sorted_wrt (<) (cut_points plain spans)" "set (cut_points plain spans) = ?S"
    unfolding cut_points_def by (rule strict_sorted_list_of_set, rule set_sorted_list_of_set, rule List.finite_set)
  have le: "x \<le> length plain" if "x \<in> ?S" for x using that assms by (auto simp: list_all_iff span_in_def intro: le_trans)
  have ne: "cut_points plain spans \<noteq> []" using s(2) by force
  then obtain p ps where p: "cut_points plain spans = p # ps" by (cases "cut_points plain spans") auto
  have "0 \<in> set (p # ps)" using s(2) p by simp
  then have "p = 0" using s(1) p by auto
  then show "\<exists>ps. cut_points plain spans = 0 # ps" using p by blast
  have "sorted (cut_points plain spans)" using s(1) strict_sorted_iff by blast
  moreover have "length plain \<in> set (cut_points plain spans)" using s(2) by simp
  ultimately have "length plain \<le> last (cut_points plain spans)"
    by (rule sorted_le_last)
  moreover have "last (cut_points plain spans) \<le> length plain" using le s(2) last_in_set [OF ne] by simp
  ultimately show "last (cut_points plain spans) = length plain" by simp
  show "sorted_wrt (<) (cut_points plain spans)" "set (cut_points plain spans) = ?S" by (rule s)+
qed

lemma emitTokens_paint:
  assumes "list_all (span_in (length plain)) spans"
  shows "paint (emitTokens plain spans) = map (\<lambda>i. (plain ! i, formats_at spans i)) [0..<length plain]"
proof (cases "plain = []")
  case False
  let ?ps = "cut_points plain spans"
  obtain ps where ps: "?ps = 0 # ps" using cut_points_props(2) [OF assms] by blast
  have seg: "paint (seg_token plain spans ft) = (case ft of (f, t) \<Rightarrow> map (\<lambda>i. (plain ! i, formats_at spans i)) [f..<t])"
    if ft: "ft \<in> set (zip ?ps (tl ?ps))" for ft
  proof -
    obtain f t where [simp]: "ft = (f, t)" by (cases ft)
    have b: "f < t \<and> (x \<le> f \<or> t \<le> x)" if "x \<in> set ?ps" for x
      using no_point_between [OF cut_points_props(1) [OF assms] _ that] ft by simp
    have "t \<in> set ?ps" using ft by (auto dest: set_zip_rightD intro: list.set_sel(2) simp: ps)
    then have "t \<le> length plain" using cut_points_props(3) [OF assms] cut_points_props(1) [OF assms]
      cut_points_props(4) [OF assms] assms by (auto simp: list_all_iff span_in_def intro: le_trans)
    moreover have "(sp_start sp \<le> f \<or> t \<le> sp_start sp) \<and> (sp_end sp \<le> f \<or> t \<le> sp_end sp)" if "sp \<in> set spans" for sp
      using b [of "sp_start sp"] b [of "sp_end sp"] cut_points_props(4) [OF assms] that by auto
    moreover have "f < t" using b [of 0] ps by simp
    ultimately show ?thesis by (simp add: paint_seg)
  qed
  have "paint (emitTokens plain spans) = concat (map (\<lambda>(f, t). map (\<lambda>i. (plain ! i, formats_at spans i)) [f..<t]) (zip ?ps (tl ?ps)))"
    using False seg by (simp add: emitTokens_def Let_def paint_concat o_def cong: map_cong)
  also have "\<dots> = map (\<lambda>i. (plain ! i, formats_at spans i)) [0..<length plain]"
    using upt_pieces [of 0 ps] cut_points_props(1,3) [OF assms] ps strict_sorted_iff by fastforce
  finally show ?thesis .
qed (simp add: emitTokens_def paint_def)

lemma formats_at_dropZero: "formats_at (dropZeroLength spans) i = formats_at spans i"
  unfolding formats_at_def dropZeroLength_def filter_filter by (rule arg_cong [where f = "map sp_formatter"], rule filter_cong) auto

text \<open>
  C24. The tokens handed to the entity builder are exactly the text with its formats. Whatever the input, if the HTML pass
  succeeds then it read a plain text and spans that all lie inside it (so that cutting the text at their
  ends never fails), the tokens put together are that text, character by character, and every character carries exactly the
  formats of the spans that cover it, in their order.
\<close>

theorem tokens_refine_spans:
  assumes "applyHTML e text = Inr toks"
  shows "\<exists>plain spans. tokenizeHTML e (stripOuterWhitespace text) = Inr (plain, spans) \<and> list_all (span_in (length plain)) spans \<and>
    paint toks = map (\<lambda>i. (plain ! i, formats_at spans i)) [0..<length plain] \<and> concat (map fst toks) = plain"
proof -
  from assms obtain plain spans where t: "tokenizeHTML e (stripOuterWhitespace text) = Inr (plain, spans)"
      "toks = emitTokens plain (dropZeroLength spans)"
    by (auto simp: applyHTML_def split: sum.splits prod.splits)
  have ok: "list_all (span_in (length plain)) spans" by (rule tokenizeHTML_spans [OF t(1)])
  then have "list_all (span_in (length plain)) (dropZeroLength spans)" by (simp add: dropZeroLength_def list_all_iff)
  from emitTokens_paint [OF this] have p: "paint toks = map (\<lambda>i. (plain ! i, formats_at spans i)) [0..<length plain]"
    by (simp add: t(2) formats_at_dropZero)
  from paint_text [of toks] p have "concat (map fst toks) = plain" by (simp add: o_def map_nth)
  with t(1) ok p show ?thesis by blast
qed

subsection \<open>Merging keeps what is covered\<close>

definition entity_at :: "MessageEntity \<Rightarrow> int \<Rightarrow> bool" where
  "entity_at x p \<longleftrightarrow> GetOffset x \<le> p \<and> p < GetOffset x + GetLength x"

definition covered :: "MessageEntity list \<Rightarrow> string \<Rightarrow> int set" where
  "covered xs key = {p. \<exists>x \<in> set xs. shapeKey x = key \<and> entity_at x p}"

text \<open>The eleven kinds the formatters produce; \<open>setLen\<close> knows these and leaves the others as they are.\<close>

fun formatted :: "MessageEntity \<Rightarrow> bool" where
  "formatted (EntityURL i n) = False"
| "formatted (EntityMention i n) = False"
| "formatted (EntityMentionName i n u) = False"
| "formatted (EntityHashtag i n) = False"
| "formatted (EntityBotCommand i n) = False"
| "formatted (EntityEmail i n) = False"
| "formatted (EntityPhone i n) = False"
| "formatted (EntityCashtag i n) = False"
| "formatted (EntityOther t i n) = False"
| "formatted _ = True"

definition mergeable :: "MessageEntity \<Rightarrow> bool" where
  "mergeable x \<longleftrightarrow> formatted x \<and> 0 \<le> GetLength x"

lemma setLen_simps:
  assumes "formatted x"
  shows "GetOffset (setLen x n) = GetOffset x" "GetLength (setLen x n) = n" "shapeKey (setLen x n) = shapeKey x" "formatted (setLen x n)"
  using assms by (cases x; simp)+

lemma covered_append: "covered (xs @ ys) key = covered xs key \<union> covered ys key"
  by (auto simp: covered_def)

lemma merge_step_covered:
  assumes "list_all mergeable out" "mergeable x" "shapeKey x = key"
  shows "list_all mergeable (merge_step key x out) \<and> covered (merge_step key x out) k = covered (out @ [x]) k"
proof (cases "out \<noteq> [] \<and> shapeKey (last out) = key \<and> GetOffset (last out) + GetLength (last out) = GetOffset x")
  case True
  then obtain ys l where out: "out = ys @ [l]" by (cases out rule: rev_cases) auto
  have l: "mergeable l" "shapeKey l = key" "GetOffset l + GetLength l = GetOffset x" using True assms(1) out by auto
  then have "entity_at (setLen l (GetLength l + GetLength x)) p \<longleftrightarrow> entity_at l p \<or> entity_at x p" for p
    using assms(2) by (auto simp: entity_at_def mergeable_def setLen_simps)
  then show ?thesis using True assms l out
    by (auto simp: merge_step_def covered_def mergeable_def setLen_simps)
qed (use assms in \<open>auto simp: merge_step_def\<close>)

lemma merge_fold_covered:
  assumes "list_all mergeable out" "list_all mergeable g" "\<forall>x \<in> set g. shapeKey x = key"
  shows "list_all mergeable (fold (merge_step key) g out) \<and> covered (fold (merge_step key) g out) k = covered (out @ g) k"
  using assms
proof (induction g arbitrary: out)
  case (Cons x g)
  then have m: "list_all mergeable (merge_step key x out) \<and> covered (merge_step key x out) k = covered (out @ [x]) k"
    by (intro merge_step_covered) auto
  with Cons.IH [of "merge_step key x out"] Cons.prems have
    "list_all mergeable (fold (merge_step key) g (merge_step key x out)) \<and>
     covered (fold (merge_step key) g (merge_step key x out)) k = covered (merge_step key x out @ g) k" by simp
  with m show ?case by (simp add: covered_append covered_append [of "[x]" g, simplified] Un_assoc)
qed simp

lemma merge_groups_covered:
  assumes "list_all mergeable xs" "list_all mergeable out"
  shows "list_all mergeable (fold (merge_group xs) ks out) \<and>
    covered (fold (merge_group xs) ks out) k = covered (out @ filter (\<lambda>x. shapeKey x \<in> set ks) xs) k"
  using assms(2)
proof (induction ks arbitrary: out)
  case (Cons key ks)
  let ?g = "sort_key GetOffset (filter (\<lambda>x. shapeKey x = key) xs)"
  have g: "list_all mergeable ?g" "\<forall>x \<in> set ?g. shapeKey x = key" using assms(1) by (auto simp: list_all_iff)
  from merge_fold_covered [OF Cons.prems g] have
    m: "list_all mergeable (merge_group xs key out)" "covered (merge_group xs key out) k = covered (out @ ?g) k"
    by (simp_all add: merge_group_def)
  with Cons.IH [OF m(1)] show ?case by (auto simp: covered_append covered_def)
qed (simp add: covered_append covered_def)

lemma key_order_set: "set (key_order ks xs) = set ks \<union> shapeKey ` set xs"
  by (induction xs arbitrary: ks) auto

text \<open>
  C25. Merging adjacent entities changes no formatting. For every shape (kind and attributes) the positions
  covered by entities of that shape are the same before and after, for any list of entities of the kinds the
  formatters produce; and the result is ordered by offset, and by length at equal offsets.
\<close>

theorem merge_keeps_coverage:
  assumes "list_all mergeable xs"
  shows "covered (MergeAdjacent xs) key = covered xs key \<and>
    sorted (map (\<lambda>x. (GetOffset x, GetLength x)) (MergeAdjacent xs))"
proof (cases "length xs < 2")
  case True
  then show ?thesis by (cases xs; cases "tl xs") (auto simp: MergeAdjacent_def)
next
  case False
  have all: "filter (\<lambda>x. shapeKey x \<in> set (key_order [] xs)) xs = xs" by (simp add: key_order_set)
  from merge_groups_covered [OF assms, of "[]" "key_order [] xs" key] all
  have "covered (fold (merge_group xs) (key_order [] xs) []) key = covered xs key" by simp
  moreover have "covered (MergeAdjacent xs) key = covered (fold (merge_group xs) (key_order [] xs) []) key"
    using False by (simp add: MergeAdjacent_def covered_def)
  ultimately show ?thesis using False by (simp add: MergeAdjacent_def)
qed

subsection \<open>Verbatim text, and the stripping that does not happen\<close>

text \<open>
  With parsing disabled the builder gets the text as it is, in one token without formats, whatever it contains.
\<close>

lemma disabled_is_verbatim: "applyWithOptions e text (ModeFromName '' Disabled '') = Inr [(text, [])]"
proof -
  have "ModeFromName '' Disabled '' = ModeDisabled" by code_simp
  then show ?thesis by (simp add: applyWithOptions_def)
qed

lemma tail_scan_passed:
  "tail_scan s i k = j \<Longrightarrow> 0 < j \<Longrightarrow> j \<noteq> i \<Longrightarrow> j \<le> k \<and> (\<forall>x. j \<le> x \<and> x < k \<longrightarrow> s ! x \<noteq> CHR ''<'')"
  by (induction s i k rule: tail_scan.induct) (auto simp: Let_def less_Suc_eq split: if_splits)

text \<open>
  The second substitution of the outer stripping is dead: the backward scan stops behind the \<^verbatim>\<open><\<close> it looks for, so that
  what follows never begins with \<^verbatim>\<open></\<close>. White space around the last closing tag stays in the message.
\<close>

lemma strip_tail_identity: "strip_tail text = text"
proof -
  let ?i = "length (dropWhile isSpace (rev text))"
  let ?j = "tail_scan text ?i ?i"
  have "?i \<le> length text" using length_dropWhile_le [of isSpace "rev text"] by simp
  have "\<not> has_prefix (drop ?j text) ''</''" if "0 < ?j" "?j < ?i"
  proof
    assume "has_prefix (drop ?j text) ''</''"
    then have "text ! ?j = CHR ''<''" using that \<open>?i \<le> length text\<close>
      by (metis has_prefix_iff append_Cons nth_Cons_0 nth_drop add.right_neutral less_le_trans order_less_imp_le)
    then show False using tail_scan_passed [of "text" ?i ?i ?j] that by auto
  qed
  then show ?thesis by (auto simp: strip_tail_def Let_def)
qed

lemma leading_space_always_goes:
  "\<not> has_prefix (dropWhile isSpace text) ''<'' \<Longrightarrow> stripOuterWhitespace text = dropWhile isSpace text"
  by (simp add: stripOuterWhitespace_def)

subsection \<open>Witnesses\<close>

definition demo_fmt :: fmt_env where
  "demo_fmt = \<lparr>unescape = id, resolveUser = None, visit = id\<rparr>"

theorem tokens_refine_spans_witness:
  "paint [(''a '', []), (''b'', [FBold]), (''c'', [FItalic, FBold])] =
     map (\<lambda>i. (''a bc'' ! i, formats_at [\<lparr>sp_start = 3, sp_end = 4, sp_formatter = FItalic\<rparr>, \<lparr>sp_start = 2, sp_end = 4, sp_formatter = FBold\<rparr>] i)) [0..<4]"
proof -
  have a: "applyHTML demo_fmt ''a <b>b<i>c</i></b>'' = Inr [(''a '', []), (''b'', [FBold]), (''c'', [FItalic, FBold])]" by code_simp
  have t: "tokenizeHTML demo_fmt (stripOuterWhitespace ''a <b>b<i>c</i></b>'') =
      Inr (''a bc'', [\<lparr>sp_start = 3, sp_end = 4, sp_formatter = FItalic\<rparr>, \<lparr>sp_start = 2, sp_end = 4, sp_formatter = FBold\<rparr>])" by code_simp
  show ?thesis using tokens_refine_spans [OF a] t by (simp add: numeral_eq_Suc)
qed

theorem merge_keeps_coverage_witness:
  "covered (MergeAdjacent [EntityBold 0 6, EntityItalic 6 5, EntityBold 6 5, EntityBold 11 5]) ''*tg.MessageEntityBold'' =
     covered [EntityBold 0 6, EntityItalic 6 5, EntityBold 6 5, EntityBold 11 5] ''*tg.MessageEntityBold'' \<and>
   MergeAdjacent [EntityBold 0 6, EntityItalic 6 5, EntityBold 6 5, EntityBold 11 5] = [EntityBold 0 16, EntityItalic 6 5]"
proof
  show "covered (MergeAdjacent [EntityBold 0 6, EntityItalic 6 5, EntityBold 6 5, EntityBold 11 5]) ''*tg.MessageEntityBold'' =
     covered [EntityBold 0 6, EntityItalic 6 5, EntityBold 6 5, EntityBold 11 5] ''*tg.MessageEntityBold''"
    by (rule merge_keeps_coverage [THEN conjunct1]) (simp add: mergeable_def)
  show "MergeAdjacent [EntityBold 0 6, EntityItalic 6 5, EntityBold 6 5, EntityBold 11 5] = [EntityBold 0 16, EntityItalic 6 5]" by code_simp
qed

end
