(* ===== verification/GotdClient.thy ===== *)
theory GotdClient
  imports Pyformat_Spans MTSession Crypto "HOL-Library.Word"
begin

text \<open>
  \<^verbatim>\<open>internal/mtproto/gotd_client.go\<close>: the production client behind the adapters. Telegram's API as the client library offers it
  is a parameter, a record of what it answers to each call; the requests sent are collected, so that the
  theorems can speak about them. Uploaded files are values of an abstract type \<open>'f\<close>. Requests built with the library's
  message builder appear with what the source gives to the builder.
\<close>

subsection \<open>Session blobs in the database\<close>

datatype load_error = ErrNotFound | LoadDB string | LoadBlob crypto_error

text \<open>The table \<^verbatim>\<open>gotd_sessions\<close>; \<open>cre\<close>, \<open>qry\<close> and \<open>ins\<close> are the errors of the statements.\<close>

type_synonym blob_table = "(string \<times> string) list"

definition LoadSession :: "'k fernet_lib \<Rightarrow> 'k \<Rightarrow> string option \<Rightarrow> string option \<Rightarrow> string \<Rightarrow> blob_table \<Rightarrow> load_error + string" where
  "LoadSession F k cre qry alias t = (case cre of
       Some e \<Rightarrow> Inl (LoadDB e)
     | None \<Rightarrow> (case qry of
           Some e \<Rightarrow> Inl (LoadDB e)
         | None \<Rightarrow> (case map_of t alias of
               None \<Rightarrow> Inl ErrNotFound
             | Some data \<Rightarrow> (case OpenBlob F k data of Inl e \<Rightarrow> Inl (LoadBlob e) | Inr p \<Rightarrow> Inr p))))"

definition StoreSession ::
  "'k fernet_lib \<Rightarrow> nat \<Rightarrow> 'k \<Rightarrow> string option \<Rightarrow> string option \<Rightarrow> string \<Rightarrow> string \<Rightarrow> blob_table \<Rightarrow> blob_table \<times> load_error option" where
  "StoreSession F iv k cre ins alias data t = (case cre of
       Some e \<Rightarrow> (t, Some (LoadDB e))
     | None \<Rightarrow> (case SealBlob F iv k data of
           Inl e \<Rightarrow> (t, Some (LoadBlob e))
         | Inr sealed \<Rightarrow> (case ins of Some e \<Rightarrow> (t, Some (LoadDB e)) | None \<Rightarrow> (AList.update alias sealed t, None))))"

subsection \<open>State\<close>

record 'f gotd =
  gc_uploads :: "(string \<times> 'f) list"
  gc_photoLocs :: "(int \<times> Photo) list"
  gc_docLocs :: "(int \<times> Document) list"
  gc_running :: bool

definition newGotdClient :: "'f gotd" where
  "newGotdClient = \<lparr>gc_uploads = [], gc_photoLocs = [], gc_docLocs = [], gc_running = False\<rparr>"

subsection \<open>Updates\<close>

record shortMessage =
  um_ID :: int
  um_Out :: bool
  um_Mentioned :: bool
  um_Date :: int
  um_UserID :: int
  um_Message :: string
  um_Pts :: int

datatype UpdatesClass =
  Updates "UpdateClass list"
| UpdateShort UpdateClass
| UpdateShortMessage shortMessage
| UpdatesCombined "UpdateClass list"
| UpdatesOther

definition short_message :: "shortMessage \<Rightarrow> tgMessage" where
  "short_message u = \<lparr>tm_ID = um_ID u, tm_Out = um_Out u, tm_Mentioned = um_Mentioned u, tm_Date = um_Date u, tm_Message = um_Message u,
     tm_PeerID = Some (PeerUser (um_UserID u)), tm_FromID = None, tm_ReplyTo = None, tm_ReplyMarkup = None, tm_Entities = [], tm_Media = None\<rparr>"

fun flattenUpdates :: "UpdatesClass \<Rightarrow> UpdateClass list" where
  "flattenUpdates (Updates us) = us"
| "flattenUpdates (UpdateShort u) = [u]"
| "flattenUpdates (UpdateShortMessage u) = [UpdateNewMessage (Message (short_message u)) (um_Pts u) 0]"
| "flattenUpdates (UpdatesCombined us) = us"
| "flattenUpdates UpdatesOther = []"

fun update_message :: "UpdateClass \<Rightarrow> tgMessage option" where
  "update_message (UpdateNewMessage (Message m) pts n) = Some m"
| "update_message (UpdateNewChannelMessage (Message m) pts n) = Some m"
| "update_message (UpdateEditMessage (Message m) pts n) = Some m"
| "update_message (UpdateEditChannelMessage (Message m) pts n) = Some m"
| "update_message _ = None"

definition cacheMediaLocations :: "UpdateClass \<Rightarrow> 'f gotd \<Rightarrow> 'f gotd" where
  "cacheMediaLocations u g = (case Option.bind (update_message u) tm_Media of
       Some (MessageMediaPhoto (Some p)) \<Rightarrow> g\<lparr>gc_photoLocs := AList.update (ph_ID p) p (gc_photoLocs g)\<rparr>
     | Some (MessageMediaDocument (Some d)) \<Rightarrow> g\<lparr>gc_docLocs := AList.update (doc_ID d) d (gc_docLocs g)\<rparr>
     | _ \<Rightarrow> g)"

text \<open>The dictionaries given to the update handler, in order; \<open>h\<close> says whether one is set.\<close>

fun update_loop :: "bool \<Rightarrow> UpdateClass list \<Rightarrow> 'f gotd \<Rightarrow> 'f gotd \<times> obj list" where
  "update_loop h [] g = (g, [])"
| "update_loop h (u # us) g =
     (let (g', ds) = update_loop h us (cacheMediaLocations u g) in
      (g', (if h then (case SerializeUpdate u of Some d \<Rightarrow> [d] | None \<Rightarrow> []) else []) @ ds))"

definition onUpdatesClass :: "bool \<Rightarrow> UpdatesClass \<Rightarrow> 'f gotd \<Rightarrow> 'f gotd \<times> obj list" where
  "onUpdatesClass h batch g = update_loop h (flattenUpdates batch) g"

subsection \<open>Connecting\<close>

text \<open>
  What the library's \<^verbatim>\<open>Run\<close> does: it fails before it calls back, or the callback asks for the authorization status and logs in
  if needed. \<open>cn_late\<close>: the 75 seconds are over first.
\<close>

datatype run_outcome = RunFailed string | RunCallback "string + bool" "string option"

definition Connect :: "run_outcome \<Rightarrow> bool \<Rightarrow> 'f gotd \<Rightarrow> 'f gotd \<times> string option" where
  "Connect outcome cn_late g =
     (let ready = (case outcome of
            RunFailed e \<Rightarrow> None
          | RunCallback (Inl e) auth \<Rightarrow> Some (Some e)
          | RunCallback (Inr True) auth \<Rightarrow> Some None
          | RunCallback (Inr False) (Some e) \<Rightarrow> Some (Some (''bot auth: '' @ e))
          | RunCallback (Inr False) None \<Rightarrow> Some None)
      in case (if cn_late then None else ready) of
          Some None \<Rightarrow> (g\<lparr>gc_running := True\<rparr>, None)
        | Some (Some e) \<Rightarrow> (g\<lparr>gc_running := False\<rparr>, Some e)
        | None \<Rightarrow> (g\<lparr>gc_running := False\<rparr>, Some ''connect timeout''))"

definition Disconnect :: "'f gotd \<Rightarrow> 'f gotd" where
  "Disconnect g = g\<lparr>gc_running := False\<rparr>"

definition IsConnected :: "'f gotd \<Rightarrow> bool" where
  "IsConnected g = gc_running g"

subsection \<open>Requests\<close>

datatype InputPeer = InputPeerUser int | InputPeerChat int | InputPeerChannel int

definition inputPeerOf :: "int \<Rightarrow> InputPeer" where
  "inputPeerOf chatID =
     (if chatID > 0 then InputPeerUser chatID
      else if chatID \<le> -1000000000000 then InputPeerChannel (- (chatID + 1000000000000))
      else InputPeerChat (- chatID))"

text \<open>Go's \<^verbatim>\<open>int\<close> has 64 bits on the platforms the gateway is built for, so \<^verbatim>\<open>intIDs\<close> copies.\<close>

definition intIDs :: "int list \<Rightarrow> int list" where
  "intIDs ids = ids"

datatype ChatAction =
  TypingAction
| UploadPhotoAction
| RecordVideoAction
| UploadVideoAction
| RecordAudioAction
| UploadAudioAction
| UploadDocumentAction
| GeoLocationAction
| CancelAction

definition chatActions :: "(string \<times> ChatAction) list" where
  "chatActions = [(''typing'', TypingAction), (''upload_photo'', UploadPhotoAction), (''record_video'', RecordVideoAction),
     (''upload_video'', UploadVideoAction), (''record_audio'', RecordAudioAction), (''upload_audio'', UploadAudioAction),
     (''upload_document'', UploadDocumentAction), (''find_location'', GeoLocationAction), (''cancel'', CancelAction)]"

record send_req =
  sr_Peer :: InputPeer
  sr_Message :: string
  sr_Entities :: "MessageEntity list"
  sr_RandomID :: "64 word"
  sr_Silent :: bool
  sr_ReplyTo :: "int option"
  sr_ReplyMarkup :: "ReplyMarkup option"

record 'f media_req =
  mr_Peer :: InputPeer
  mr_Markup :: "ReplyMarkup option"
  mr_Reply :: "int option"
  mr_Silent :: bool
  mr_Media :: "'f InputMedia"
  mr_Caption :: "token list"

record edit_req =
  er_Peer :: InputPeer
  er_ID :: int
  er_NoWebpage :: bool
  er_Message :: string
  er_Entities :: "MessageEntity list"
  er_ReplyMarkup :: "ReplyMarkup option"

record forward_req =
  fr_FromPeer :: InputPeer
  fr_ToPeer :: InputPeer
  fr_ID :: "int list"
  fr_RandomID :: "64 word list"
  fr_DropAuthor :: bool

datatype 'f tg_request =
  MessagesSendMessage send_req
| BuilderMedia "'f media_req"
| BuilderAlbum InputPeer bool "'f InputMedia list"
| MessagesEditMessage edit_req
| MessagesSetTyping InputPeer ChatAction
| MessagesDeleteMessages "int list" bool
| ChannelsDeleteMessages int "int list"
| MessagesForwardMessages forward_req

datatype UserClass = User int int string string string | UserOther

datatype ChatClass = Chat int string | Channel int string string | ChatOther

record tgState =
  ts_Pts :: int
  ts_Qts :: int
  ts_Date :: int
  ts_Seq :: int

text \<open>What Telegram answers: updates or an error to a request, and the read-only calls.\<close>

datatype file_location = InputPhotoFileLocation int int string string | InputDocumentFileLocation int int string

record 'f telegram =
  onRequest :: "'f tg_request \<Rightarrow> string + UpdatesClass"
  UsersGetUsers :: "int option \<Rightarrow> string + UserClass list"
  MessagesGetFullChat :: "int \<Rightarrow> string + ChatClass list"
  ChannelsGetChannels :: "int \<Rightarrow> string + ChatClass list option"
  ContactsResolveUsername :: "string \<Rightarrow> string + UserClass list \<times> ChatClass list"
  MessagesSetBotCallbackAnswer :: "int \<Rightarrow> string \<Rightarrow> bool \<Rightarrow> string \<Rightarrow> int \<Rightarrow> string option"
  MessagesGetDialogs :: "string option"
  UpdatesGetState :: "string + tgState"
  Uploader :: "string \<Rightarrow> string \<Rightarrow> string + 'f"
  Downloader :: "file_location \<Rightarrow> string + string"

text \<open>The nonce: a counter of 64 bits that wraps, mixed with the clock.\<close>

definition randomID :: "64 word \<Rightarrow> 64 word \<Rightarrow> 64 word \<times> 64 word" where
  "randomID randomSrc nanos = (let s = randomSrc + 0x9E3779B9 in (s, xor s nanos))"

subsection \<open>Media\<close>

definition mediaMimeTypes :: "string \<Rightarrow> string" where
  "mediaMimeTypes kind =
     (if kind = ''photo'' then ''image/jpeg'' else if kind = ''video'' then ''video/mp4'' else if kind = ''audio'' then ''audio/mpeg''
      else if kind = ''voice'' then ''audio/ogg'' else if kind = ''animation'' then ''video/mp4''
      else if kind = ''document'' then ''application/octet-stream'' else [])"

text \<open>No caller sets \<^verbatim>\<open>MimeType\<close>, so the table decides.\<close>

definition buildInputMedia :: "'f gotd \<Rightarrow> MediaAttach \<Rightarrow> string + 'f InputMedia" where
  "buildInputMedia g m =
     (let kind = ma_Kind m;
          name = (if ma_FileName m = [] then ''upload.'' @ kind else ma_FileName m)
      in if ma_URL m \<noteq> [] then
           Inr (if kind = ''photo'' then InputMediaPhotoExternal (ma_URL m) else InputMediaDocumentExternal (ma_URL m))
         else case map_of (gc_uploads g) (ma_Handle m) of
             None \<Rightarrow> Inl (''unknown upload handle '' @ quote (ma_Handle m) @ '' (uploads live per session; re-POST /upload after a restart)'')
           | Some f \<Rightarrow>
               if kind = ''photo'' then Inr (InputMediaUploadedPhoto f)
               else Inr (InputMediaUploadedDocument (Some f) (mediaMimeTypes kind)
                 (if kind = ''voice'' then [DocumentAttributeAudio True]
                  else [DocumentAttributeFilename name] @
                    (if kind = ''video'' \<or> kind = ''animation'' then [DocumentAttributeVideo True 0 0 0]
                     else if kind = ''audio'' then [DocumentAttributeAudio False] else []))))"

definition gc_UploadMedia :: "'f telegram \<Rightarrow> string \<Rightarrow> string \<Rightarrow> string \<Rightarrow> int \<times> 'f gotd \<Rightarrow> (int \<times> 'f gotd) \<times> (string + string)" where
  "gc_UploadMedia api kind filename data cg =
     (let (uploadCounter, g) = cg;
          name = (if filename = [] then ''upload.'' @ kind else filename)
      in case Uploader api name data of
          Inl e \<Rightarrow> (cg, Inl e)
        | Inr f \<Rightarrow>
            (let n = uploadCounter + 1; handle = ''upload:'' @ FormatInt n in
             ((n, g\<lparr>gc_uploads := AList.update handle f (gc_uploads g)\<rparr>), Inr handle)))"

fun thumb_loop :: "PhotoSizeClass list \<Rightarrow> string \<times> int \<Rightarrow> string" where
  "thumb_loop [] b = fst b"
| "thumb_loop (PhotoSize t w h n # ss) b = thumb_loop ss (if w * h > snd b then (t, w * h) else b)"
| "thumb_loop (PhotoSizeOther # ss) b = thumb_loop ss b"

definition largestThumbSize :: "PhotoSizeClass list \<Rightarrow> string" where
  "largestThumbSize sizes = (let best = thumb_loop sizes ([], -1) in if best = [] then ''m'' else best)"

definition DownloadMedia :: "'f telegram \<Rightarrow> 'f gotd \<Rightarrow> string \<Rightarrow> string + string" where
  "DownloadMedia api g fileID = (case cut_colon fileID of
       None \<Rightarrow> Inl ''file id must be photo:<id> or document:<id>''
     | Some (kind, idStr) \<Rightarrow>
         (case parse_int idStr of
            None \<Rightarrow> Inl (''bad file id '' @ quote fileID)
          | Some i \<Rightarrow>
              if kind = ''photo'' then
                (case map_of (gc_photoLocs g) i of
                   None \<Rightarrow> Inl (''photo '' @ FormatInt i @ '' not seen in this session's updates (no access_hash to download it)'')
                 | Some p \<Rightarrow> Downloader api (InputPhotoFileLocation (ph_ID p) (ph_AccessHash p) (ph_FileReference p) (largestThumbSize (ph_Sizes p))))
              else if kind = ''document'' then
                (case map_of (gc_docLocs g) i of
                   None \<Rightarrow> Inl (''document '' @ FormatInt i @ '' not seen in this session's updates (no access_hash to download it)'')
                 | Some d \<Rightarrow> Downloader api (InputDocumentFileLocation (doc_ID d) (doc_AccessHash d) (doc_FileReference d)))
              else Inl (''unknown media kind '' @ quote kind)))"

subsection \<open>Sending and editing\<close>

definition resolve_user :: "'f telegram \<Rightarrow> int \<Rightarrow> string + InputUser" where
  "resolve_user api i = (case UsersGetUsers api (Some i) of
       Inl e \<Rightarrow> Inl e
     | Inr [] \<Rightarrow> Inl (''user '' @ FormatInt i @ '' not found for mention'')
     | Inr (User u h un f l # us) \<Rightarrow> Inr (InputUser u h)
     | Inr (UserOther # us) \<Rightarrow> Inl (''user '' @ FormatInt i @ '' resolved to a non-user object''))"

text \<open>What formatting needs from outside: the library's \<^verbatim>\<open>Complete\<close>, unescaping and the order of the placeholders.\<close>

record fmt_lib =
  fl_complete :: "token list \<Rightarrow> string \<times> MessageEntity list"
  fl_unescape :: "string \<Rightarrow> string"
  fl_visit :: "(string \<times> string) list \<Rightarrow> (string \<times> string) list"

definition fmt_of :: "fmt_lib \<Rightarrow> 'f telegram \<Rightarrow> fmt_env" where
  "fmt_of L api = \<lparr>unescape = fl_unescape L, resolveUser = Some (resolve_user api), visit = fl_visit L\<rparr>"

fun walkMessages :: "UpdatesClass \<Rightarrow> tgMessage list" where
  "walkMessages (Updates us) = concat (map (\<lambda>u. case u of
       UpdateNewMessage (Message m) pts n \<Rightarrow> [m]
     | UpdateNewChannelMessage (Message m) pts n \<Rightarrow> [m]
     | _ \<Rightarrow> []) us)"
| "walkMessages (UpdateShort (UpdateNewMessage (Message m) pts n)) = [m]"
| "walkMessages _ = []"

definition extractSentMessage :: "UpdatesClass \<Rightarrow> int \<Rightarrow> SentMessage" where
  "extractSentMessage us chatID =
     fold (\<lambda>m r. if sm_ID r = 0 then \<lparr>sm_ID = tm_ID m, sm_ChatID = chatID\<rparr> else r) (walkMessages us) \<lparr>sm_ID = 0, sm_ChatID = 0\<rparr>"

definition sent_messages :: "UpdatesClass \<Rightarrow> int \<Rightarrow> SentMessage list" where
  "sent_messages us chatID = map (\<lambda>m. \<lparr>sm_ID = tm_ID m, sm_ChatID = chatID\<rparr>) (walkMessages us)"

definition captionOption :: "fmt_env \<Rightarrow> SendParams \<Rightarrow> string + token list" where
  "captionOption e p = (if sp_Text p = [] then Inr [] else applyWithOptions e (sp_Text p) (ModeFromName (sp_ParseMode p)))"

definition send_request :: "fmt_lib \<Rightarrow> 'f telegram \<Rightarrow> 64 word \<Rightarrow> SendParams \<Rightarrow> 'f gotd \<Rightarrow> string + 'f tg_request" where
  "send_request L api nonce p g =
     (let markup = Option.bind (sp_ReplyMarkup p) (\<lambda>m. CoerceReplyMarkup (JObj m));
          reply = (if sp_ReplyToMsgID p \<noteq> 0 then Some (sp_ReplyToMsgID p) else None);
          e = fmt_of L api
      in case sp_Media p of
          Some m \<Rightarrow> (case buildInputMedia g m of
              Inl err \<Rightarrow> Inl err
            | Inr im \<Rightarrow> (case captionOption e p of
                  Inl err \<Rightarrow> Inl err
                | Inr toks \<Rightarrow> Inr (BuilderMedia \<lparr>mr_Peer = inputPeerOf (sp_ChatID p), mr_Markup = markup, mr_Reply = reply,
                    mr_Silent = sp_DisableNotify p, mr_Media = im, mr_Caption = toks\<rparr>)))
        | None \<Rightarrow> (case Build (fl_complete L) e (sp_Text p) (ModeFromName (sp_ParseMode p)) of
              Inl err \<Rightarrow> Inl err
            | Inr (msg, entities) \<Rightarrow> Inr (MessagesSendMessage \<lparr>sr_Peer = inputPeerOf (sp_ChatID p), sr_Message = msg, sr_Entities = entities,
                sr_RandomID = nonce, sr_Silent = sp_DisableNotify p, sr_ReplyTo = reply, sr_ReplyMarkup = markup\<rparr>)))"

text \<open>An operation gives the requests it sent and its result.\<close>

type_synonym ('f, 'a) rpc = "'f tg_request list \<times> (string + 'a)"

definition calls :: "'f telegram \<Rightarrow> (UpdatesClass \<Rightarrow> 'a) \<Rightarrow> 'f tg_request \<Rightarrow> ('f, 'a) rpc" where
  "calls api f q = ([q], case onRequest api q of Inl e \<Rightarrow> Inl e | Inr us \<Rightarrow> Inr (f us))"

definition gc_SendMessage :: "fmt_lib \<Rightarrow> 'f telegram \<Rightarrow> 64 word \<Rightarrow> SendParams \<Rightarrow> 'f gotd \<Rightarrow> ('f, SentMessage) rpc" where
  "gc_SendMessage L api nonce p g = (case send_request L api nonce p g of
       Inl err \<Rightarrow> ([], Inl err)
     | Inr q \<Rightarrow> calls api (\<lambda>us. extractSentMessage us (sp_ChatID p)) q)"

definition gc_EditMessageText :: "fmt_lib \<Rightarrow> 'f telegram \<Rightarrow> EditTextParams \<Rightarrow> ('f, bool) rpc" where
  "gc_EditMessageText L api p = (case Build (fl_complete L) (fmt_of L api) (et_Text p) (ModeFromName (et_ParseMode p)) of
       Inl err \<Rightarrow> ([], Inl err)
     | Inr (msg, entities) \<Rightarrow> calls api (\<lambda>_. True) (MessagesEditMessage \<lparr>er_Peer = inputPeerOf (et_ChatID p), er_ID = et_MessageID p,
         er_NoWebpage = et_NoWebpage p, er_Message = msg, er_Entities = entities,
         er_ReplyMarkup = Option.bind (et_ReplyMarkup p) (\<lambda>m. CoerceReplyMarkup (JObj m))\<rparr>))"

definition gc_EditMessageReplyMarkup :: "'f telegram \<Rightarrow> EditMarkupParams \<Rightarrow> ('f, bool) rpc" where
  "gc_EditMessageReplyMarkup api p = calls api (\<lambda>_. True) (MessagesEditMessage \<lparr>er_Peer = inputPeerOf (em_ChatID p), er_ID = em_MessageID p,
     er_NoWebpage = False, er_Message = [], er_Entities = [],
     er_ReplyMarkup = Option.bind (em_ReplyMarkup p) (\<lambda>m. CoerceReplyMarkup (JObj m))\<rparr>)"

definition gc_EditMessageCaption :: "fmt_lib \<Rightarrow> 'f telegram \<Rightarrow> EditTextParams \<Rightarrow> ('f, bool) rpc" where
  "gc_EditMessageCaption L api p = gc_EditMessageText L api p"

definition gc_SendChatAction :: "'f telegram \<Rightarrow> int \<Rightarrow> string \<Rightarrow> ('f, bool) rpc" where
  "gc_SendChatAction api chatID action = calls api (\<lambda>_. True) (MessagesSetTyping (inputPeerOf chatID)
     (case map_of chatActions (to_lower action) of Some a \<Rightarrow> a | None \<Rightarrow> TypingAction))"

definition gc_DeleteMessages :: "'f telegram \<Rightarrow> int \<Rightarrow> int list \<Rightarrow> bool \<Rightarrow> ('f, bool) rpc" where
  "gc_DeleteMessages api chatID ids revoke =
     (if chatID > 0 then calls api (\<lambda>_. True) (MessagesDeleteMessages (intIDs ids) revoke)
      else calls api (\<lambda>_. True) (ChannelsDeleteMessages (wrap64 (- chatID)) (intIDs ids)))"

definition gc_ForwardMessages :: "'f telegram \<Rightarrow> 64 word \<Rightarrow> ForwardParams \<Rightarrow> ('f, SentMessage list) rpc" where
  "gc_ForwardMessages api nonce p = calls api (\<lambda>us. sent_messages us (fp_ToChatID p))
     (MessagesForwardMessages \<lparr>fr_FromPeer = inputPeerOf (fp_FromChatID p), fr_ToPeer = inputPeerOf (fp_ToChatID p),
        fr_ID = intIDs (fp_IDs p), fr_RandomID = [nonce], fr_DropAuthor = fp_NoQuote p\<rparr>)"

fun album_media :: "'f gotd \<Rightarrow> nat \<Rightarrow> MediaAttach list \<Rightarrow> string + 'f InputMedia list" where
  "album_media g i [] = Inr []"
| "album_media g i (m # ms) = (case buildInputMedia g m of
       Inl e \<Rightarrow> Inl (''media['' @ FormatInt (int i) @ '']: '' @ e)
     | Inr im \<Rightarrow> (case album_media g (Suc i) ms of Inl e \<Rightarrow> Inl e | Inr ims \<Rightarrow> Inr (im # ims)))"

definition gc_SendMediaGroup :: "'f telegram \<Rightarrow> int \<Rightarrow> MediaAttach list \<Rightarrow> bool \<Rightarrow> 'f gotd \<Rightarrow> ('f, SentMessage list) rpc" where
  "gc_SendMediaGroup api chatID album silent g = (case album_media g 0 album of
       Inl e \<Rightarrow> ([], Inl e)
     | Inr [] \<Rightarrow> ([], Inl ''empty album'')
     | Inr ims \<Rightarrow> calls api (\<lambda>us. sent_messages us chatID) (BuilderAlbum (inputPeerOf chatID) silent ims))"

subsection \<open>Reading\<close>

definition gc_Me :: "'f telegram \<Rightarrow> string + BotInfo" where
  "gc_Me api = (case UsersGetUsers api None of
       Inl e \<Rightarrow> Inl e
     | Inr [] \<Rightarrow> Inl ''empty self''
     | Inr (User i h un f l # us) \<Rightarrow> Inr \<lparr>bi_Username = un, bi_ID = i\<rparr>
     | Inr (UserOther # us) \<Rightarrow> Inr \<lparr>bi_Username = [], bi_ID = 0\<rparr>)"

definition gc_Ping :: "'f telegram \<Rightarrow> string option" where
  "gc_Ping api = (case UsersGetUsers api None of Inl e \<Rightarrow> Some e | Inr us \<Rightarrow> None)"

definition gc_WarmPeers :: "'f telegram \<Rightarrow> string option" where
  "gc_WarmPeers api = MessagesGetDialogs api"

definition gc_GetChat :: "'f telegram \<Rightarrow> int \<Rightarrow> string + obj" where
  "gc_GetChat api chatID =
     (let lost = Inl (''cannot resolve chat '' @ FormatInt chatID) in
      case inputPeerOf chatID of
        InputPeerUser u \<Rightarrow> (case UsersGetUsers api (Some u) of
            Inl e \<Rightarrow> Inl e
          | Inr [] \<Rightarrow> Inl (''chat not found: '' @ FormatInt chatID)
          | Inr (User i h un f l # us) \<Rightarrow> Inr [(''_'', JStr ''Chat''), (''id'', JInt i), (''type'', JStr ''private''), (''username'', JStr un),
              (''first_name'', JStr f), (''last_name'', JStr l)]
          | Inr (UserOther # us) \<Rightarrow> lost)
      | InputPeerChat c \<Rightarrow> (case MessagesGetFullChat api c of
            Inl e \<Rightarrow> Inl e
          | Inr (Chat i t # cs) \<Rightarrow> Inr [(''_'', JStr ''Chat''), (''id'', JInt i), (''type'', JStr ''chat''), (''title'', JStr t)]
          | Inr cs \<Rightarrow> lost)
      | InputPeerChannel c \<Rightarrow> (case ChannelsGetChannels api c of
            Inl e \<Rightarrow> Inl e
          | Inr (Some (Channel i t un # cs)) \<Rightarrow> Inr [(''_'', JStr ''Chat''), (''id'', JInt i), (''type'', JStr ''channel''), (''title'', JStr t),
              (''username'', JStr un)]
          | Inr cs \<Rightarrow> lost))"

definition gc_ResolveUsername :: "'f telegram \<Rightarrow> string \<Rightarrow> string + int" where
  "gc_ResolveUsername api username = (case ContactsResolveUsername api (trim_prefix username ''@'') of
       Inl e \<Rightarrow> Inl e
     | Inr (User i h un f l # us, cs) \<Rightarrow> Inr i
     | Inr (us, Chat i t # cs) \<Rightarrow> Inr i
     | Inr (us, Channel i t un # cs) \<Rightarrow> Inr i
     | Inr (us, cs) \<Rightarrow> Inl (''username not found: '' @ username))"

definition gc_AnswerCallbackQuery :: "'f telegram \<Rightarrow> string \<Rightarrow> string \<Rightarrow> bool \<Rightarrow> string \<Rightarrow> int \<Rightarrow> string + bool" where
  "gc_AnswerCallbackQuery api i msg showAlert url cacheTime =
     (case MessagesSetBotCallbackAnswer api (case scan_int i of Some q \<Rightarrow> q | None \<Rightarrow> 0) msg showAlert url cacheTime of
        Some e \<Rightarrow> Inl e | None \<Rightarrow> Inr True)"

definition gc_UpdateState :: "'f telegram \<Rightarrow> tgState" where
  "gc_UpdateState api = (case UpdatesGetState api of Inl e \<Rightarrow> \<lparr>ts_Pts = 0, ts_Qts = 0, ts_Date = 0, ts_Seq = 0\<rparr> | Inr st \<Rightarrow> st)"

end
