(* ===== verification/GotdSafety.thy ===== *)
theory GotdSafety
  imports GotdClient
begin

text \<open>
  What the production client guarantees: sealed session blobs come back, what a consumer was told about a file
  can be downloaded, an upload handle is good for a send, and the requests to Telegram address the chat
  the rate guard metered.
\<close>

subsection \<open>Session blobs\<close>

lemma SealBlob_OpenBlob:
  assumes "fernet_ok F" "SealBlob F iv k p = Inr s"
  shows "OpenBlob F k s = Inr p" "IsSealed s"
  using assms by (auto simp: SealBlob_def OpenBlob_def IsSealed_def dest: Encrypt_Decrypt split: sum.splits)

text \<open>
  The authorization key of a session survives in the database and only sealed. After a successful \<^verbatim>\<open>StoreSession\<close>
  the next \<^verbatim>\<open>LoadSession\<close> of the alias returns exactly the stored data, what lies in the table is a sealed
  blob, no other alias is touched, and a failed \<^verbatim>\<open>StoreSession\<close> leaves the table as it was. A row from before the envelope loads as it is.
\<close>

lemma session_blob_round_trip:
  assumes "fernet_ok F" "StoreSession F iv k cre ins alias data t = (t', err)"
  shows "(case err of
       None \<Rightarrow> LoadSession F k None None alias t' = Inr data \<and> (\<exists>b. map_of t' alias = Some b \<and> IsSealed b) \<and>
         (\<forall>a. a \<noteq> alias \<longrightarrow> map_of t' a = map_of t a)
     | Some e \<Rightarrow> t' = t) \<and>
    (\<forall>a b. map_of t a = Some b \<and> \<not> IsSealed b \<longrightarrow> LoadSession F k None None a t = Inr b)"
proof -
  have old: "\<forall>a b. map_of t a = Some b \<and> \<not> IsSealed b \<longrightarrow> LoadSession F k None None a t = Inr b"
    by (auto simp: LoadSession_def OpenBlob_def IsSealed_def)
  show ?thesis
  proof (cases err)
    case None
    then obtain s where "SealBlob F iv k data = Inr s" "t' = AList.update alias s t"
      using assms(2) by (auto simp: StoreSession_def split: option.splits sum.splits)
    with SealBlob_OpenBlob [OF assms(1), of iv k data s] None old show ?thesis by (simp add: LoadSession_def update_conv')
  next
    case (Some e)
    then show ?thesis using assms(2) old by (auto simp: StoreSession_def split: option.splits sum.splits)
  qed
qed

subsection \<open>Files\<close>

lemma cut_colon_prefix: "CHR '':'' \<notin> set k \<Longrightarrow> cut_colon (k @ CHR '':'' # r) = Some (k, r)"
  by (induction k) auto

lemma photoLocs_cache:
  "map_of (gc_photoLocs (cacheMediaLocations u g)) i =
     (case Option.bind (update_message u) tm_Media of
        Some (MessageMediaPhoto (Some p)) \<Rightarrow> if ph_ID p = i then Some p else map_of (gc_photoLocs g) i
      | _ \<Rightarrow> map_of (gc_photoLocs g) i)"
  by (simp add: cacheMediaLocations_def update_conv' split: option.split MessageMedia.split)

text \<open>The photo an update carries, and the last one with an id in a batch.\<close>

definition update_photo :: "UpdateClass \<Rightarrow> Photo option" where
  "update_photo u = (case Option.bind (update_message u) tm_Media of Some (MessageMediaPhoto p) \<Rightarrow> p | _ \<Rightarrow> None)"

fun last_photo :: "int \<Rightarrow> UpdateClass list \<Rightarrow> Photo option \<Rightarrow> Photo option" where
  "last_photo i [] p = p"
| "last_photo i (u # us) p = last_photo i us (case update_photo u of Some q \<Rightarrow> if ph_ID q = i then Some q else p | None \<Rightarrow> p)"

lemma photoLocs_loop: "map_of (gc_photoLocs (fst (update_loop h us g))) i = last_photo i us (map_of (gc_photoLocs g) i)"
proof (induction us arbitrary: g)
  case (Cons u us)
  have "map_of (gc_photoLocs (cacheMediaLocations u g)) i =
      (case update_photo u of Some q \<Rightarrow> if ph_ID q = i then Some q else map_of (gc_photoLocs g) i | None \<Rightarrow> map_of (gc_photoLocs g) i)"
    by (simp add: photoLocs_cache update_photo_def split: option.split MessageMedia.split)
  with Cons.IH [of "cacheMediaLocations u g"] show ?case by (simp add: case_prod_unfold Let_def)
qed simp

lemma last_photo_found: "u \<in> set us \<Longrightarrow> update_photo u = Some p \<Longrightarrow> \<exists>q. last_photo (ph_ID p) us r = Some q \<and> ph_ID q = ph_ID p"
proof (induction us arbitrary: r)
  case (Cons v us)
  have keep: "\<exists>q. last_photo i vs (Some p') = Some q \<and> ph_ID q = i" if "ph_ID p' = i" for i vs p'
    using that by (induction vs arbitrary: p') (auto split: option.splits)
  show ?case
  proof (cases "u = v")
    case True
    then show ?thesis using Cons.prems(2) keep by simp
  next
    case False
    then show ?thesis using Cons by simp
  qed
qed simp

text \<open>
  Every photo a consumer hears of can be downloaded by the reference it was given. When an update of a batch carries a photo, the
  message handed to the consumer names it with a \<^verbatim>\<open>file_id\<close>, and asking for that \<^verbatim>\<open>file_id\<close> after the batch
  fetches a location with that photo's id, with the access hash and file reference of the last copy seen, in the largest size known.
\<close>

lemma file_ref_round_trip:
  assumes "u \<in> set (flattenUpdates batch)" "update_photo u = Some p" "int64 (ph_ID p)"
  shows "\<exists>d q. SerializeMedia (MessageMediaPhoto (Some p)) = Some d \<and>
    obj_get (case obj_get d ''photo'' of JObj x \<Rightarrow> x | _ \<Rightarrow> []) ''file_id'' = JStr (formatFileRef ''photo'' (ph_ID p)) \<and>
    last_photo (ph_ID p) (flattenUpdates batch) (map_of (gc_photoLocs g) (ph_ID p)) = Some q \<and> ph_ID q = ph_ID p \<and>
    DownloadMedia api (fst (onUpdatesClass h batch g)) (formatFileRef ''photo'' (ph_ID p)) =
      Downloader api (InputPhotoFileLocation (ph_ID p) (ph_AccessHash q) (ph_FileReference q) (largestThumbSize (ph_Sizes q)))"
proof -
  obtain q where q: "last_photo (ph_ID p) (flattenUpdates batch) (map_of (gc_photoLocs g) (ph_ID p)) = Some q" "ph_ID q = ph_ID p"
    using last_photo_found [OF assms(1,2)] by blast
  have "cut_colon (formatFileRef ''photo'' (ph_ID p)) = Some (''photo'', FormatInt (ph_ID p))"
    using cut_colon_prefix [of "''photo''"] by (simp add: formatFileRef_def)
  with q show ?thesis
    by (simp add: DownloadMedia_def parse_int_FormatInt [OF assms(3)] onUpdatesClass_def photoLocs_loop obj_get_def)
qed

lemma thumb_loop_best:
  "thumb_loop ss b = fst b \<or> (\<exists>w h n. PhotoSize (thumb_loop ss b) w h n \<in> set ss)"
  by (induction ss b rule: thumb_loop.induct) (auto split: if_splits)

text \<open>An upload handle is good for the next send of the session, and no two uploads share one.\<close>

lemma upload_then_send:
  assumes "gc_UploadMedia api kind name data (n, g) = ((n', g'), Inr handle)" "ma_Handle m = handle" "ma_URL m = []"
  shows "\<exists>f. Uploader api (if name = [] then ''upload.'' @ kind else name) data = Inr f \<and> n' = n + 1 \<and>
    buildInputMedia g' m = (if ma_Kind m = ''photo'' then Inr (InputMediaUploadedPhoto f)
      else buildInputMedia (g\<lparr>gc_uploads := [(handle, f)]\<rparr>) m)"
  using assms by (auto simp: gc_UploadMedia_def buildInputMedia_def Let_def update_conv' split: sum.splits)

subsection \<open>The chat a request addresses\<close>

fun req_peer :: "'f tg_request \<Rightarrow> InputPeer option" where
  "req_peer (MessagesSendMessage q) = Some (sr_Peer q)"
| "req_peer (BuilderMedia q) = Some (mr_Peer q)"
| "req_peer (BuilderAlbum p s ms) = Some p"
| "req_peer (MessagesEditMessage q) = Some (er_Peer q)"
| "req_peer (MessagesSetTyping p a) = Some p"
| "req_peer (MessagesForwardMessages q) = Some (fr_ToPeer q)"
| "req_peer (MessagesDeleteMessages ids r) = None"
| "req_peer (ChannelsDeleteMessages c ids) = Some (InputPeerChannel c)"

text \<open>The requests the client makes for a call of an adapter.\<close>

fun call_requests :: "fmt_lib \<Rightarrow> 'f telegram \<Rightarrow> 64 word \<Rightarrow> 'f gotd \<Rightarrow> client_call \<Rightarrow> 'f tg_request list" where
  "call_requests L api nonce g (SendMessage p) = fst (gc_SendMessage L api nonce p g)"
| "call_requests L api nonce g (EditMessageText p) = fst (gc_EditMessageText L api p)"
| "call_requests L api nonce g (EditMessageReplyMarkup p) = fst (gc_EditMessageReplyMarkup api p)"
| "call_requests L api nonce g (SendChatAction c a) = fst (gc_SendChatAction api c a)"
| "call_requests L api nonce g (DeleteMessages c ids r) = fst (gc_DeleteMessages api c ids r)"
| "call_requests L api nonce g (ForwardMessages p) = fst (gc_ForwardMessages api nonce p)"
| "call_requests L api nonce g (SendMediaGroup c album s) = fst (gc_SendMediaGroup api c album s g)"
| "call_requests L api nonce g _ = []"

lemma send_request_peer: "send_request L api nonce p g = Inr q \<Longrightarrow> req_peer q = Some (inputPeerOf (sp_ChatID p))"
  by (auto simp: send_request_def Let_def split: option.splits sum.splits prod.splits)

lemma call_requests_peer:
  assumes "q \<in> set (call_requests L api nonce g x)" "\<forall>c ids r. x \<noteq> DeleteMessages c ids r"
  shows "\<exists>c. target x = Some c \<and> req_peer q = Some (inputPeerOf c)"
  using assms
  by (cases x) (auto simp: gc_SendMessage_def gc_EditMessageText_def gc_EditMessageReplyMarkup_def gc_SendChatAction_def gc_ForwardMessages_def
      gc_SendMediaGroup_def calls_def dest: send_request_peer split: sum.splits prod.splits list.splits)

text \<open>Only the adapter of \<^verbatim>\<open>delete_messages\<close> deletes.\<close>

fun deletes :: "client_call \<Rightarrow> bool" where
  "deletes (DeleteMessages c ids r) = True"
| "deletes _ = False"

lemma quiet_keeps: "target x = None \<Longrightarrow> \<not> deletes x"
  by (cases x) auto

lemma fst_calling [simp]: "fst (calling cs r f) = cs" "fst (fails e) = []"
  by (simp_all add: calling_def fails_def)

lemma only_delete_deletes:
  assumes "map_of (adapters b64) k = Some a" "k \<noteq> ''delete_messages''"
  shows "\<forall>x \<in> set (fst (a c args)). \<not> deletes x"
proof -
  have simple: "\<forall>x \<in> set (fst (f c args)). \<not> deletes x" if "f \<in> {adaptSendMessage, adaptEditText, adaptEditMarkup, adaptChatAction,
      adaptForwardMessages, adaptGetChat, adaptResolveUsername, adaptAnswerCallback, adaptEditCaption, adaptGetMe, adaptCopyMessage}" for f
    using that by (auto simp: adapter_defs adaptCopyMessage_def Let_def simp del: argInt.simps split: option.splits if_splits)
  have upload: "\<forall>x \<in> set (fst (adaptUploadSend b64 kind c args)). \<not> deletes x" for kind
    by (auto simp: adaptUploadSend_def Let_def simp del: argInt.simps split: prod.split sum.split option.split dest: media_source_quiet quiet_keeps)
  have album: "\<forall>x \<in> set (fst (adaptSendMediaGroup b64 c args)). \<not> deletes x"
    by (auto simp: adaptSendMediaGroup_def simp del: argInt.simps split: prod.split sum.split option.split json.split list.split
        dest: album_quiet quiet_keeps)
  show ?thesis using assms simple upload album by (auto simp: adapters_def split: if_splits)
qed


subsection \<open>Where the addresses disagree\<close>

text \<open>
  What a consumer reads as \<^verbatim>\<open>chat.id\<close> and sends back as \<^verbatim>\<open>chat_id\<close> reaches the same peer in private chats and in basic
  groups. For a channel or supergroup it does not: the update carries the bare channel id, which the client takes for a user's, while
  Telegram's own convention (the negative number with the \<^verbatim>\<open>-100\<close> prefix) would reach it.
\<close>

lemma chat_id_round_trip:
  assumes "0 < i" "i < 1000000000000"
  shows "(case obj_get (SerializeChat (Some (PeerUser i))) ''id'' of JInt c \<Rightarrow> inputPeerOf c = InputPeerUser i | _ \<Rightarrow> False)"
    "(case obj_get (SerializeChat (Some (PeerChat i))) ''id'' of JInt c \<Rightarrow> inputPeerOf c = InputPeerChat i | _ \<Rightarrow> False)"
    "(case obj_get (SerializeChat (Some (PeerChannel i))) ''id'' of JInt c \<Rightarrow> inputPeerOf c = InputPeerUser i | _ \<Rightarrow> False)"
    "inputPeerOf (- (i + 1000000000000)) = InputPeerChannel i"
proof -
  have "wrap64 (- i) = - i" using assms by (intro wrap64_id) (simp add: int64_def)
  then show "(case obj_get (SerializeChat (Some (PeerUser i))) ''id'' of JInt c \<Rightarrow> inputPeerOf c = InputPeerUser i | _ \<Rightarrow> False)"
    "(case obj_get (SerializeChat (Some (PeerChat i))) ''id'' of JInt c \<Rightarrow> inputPeerOf c = InputPeerChat i | _ \<Rightarrow> False)"
    "(case obj_get (SerializeChat (Some (PeerChannel i))) ''id'' of JInt c \<Rightarrow> inputPeerOf c = InputPeerUser i | _ \<Rightarrow> False)"
    "inputPeerOf (- (i + 1000000000000)) = InputPeerChannel i"
    using assms by (simp_all add: SerializeChat_def obj_get_def inputPeerOf_def)
qed

text \<open>
  Deleting in a channel asks for a channel whose id still contains the prefix, and for a basic group it asks for a channel at all.
\<close>

lemma delete_addresses_other_channel:
  assumes "int64 c" "c < 0" "c \<noteq> min_int64"
  shows "map req_peer (fst (gc_DeleteMessages api c ids r)) = [Some (InputPeerChannel (- c))] \<and> inputPeerOf c \<noteq> InputPeerChannel (- c)"
proof -
  have "wrap64 (- c) = - c" using assms by (intro wrap64_id) (auto simp: int64_def)
  then show ?thesis using assms(2) by (simp add: gc_DeleteMessages_def calls_def inputPeerOf_def)
qed

text \<open>Several messages are forwarded with a single nonce.\<close>

lemma forward_has_one_nonce:
  "fst (gc_ForwardMessages api nonce p) = [MessagesForwardMessages q] \<Longrightarrow> length (fr_RandomID q) = 1 \<and> length (fr_ID q) = length (fp_IDs p)"
  by (auto simp: gc_ForwardMessages_def calls_def intIDs_def)

text \<open>
  Only the full forms of an answer are searched for the message that was sent: any other form makes a successful send report the
  message number 0 in chat 0, and short updates of groups are dropped.
\<close>

lemma other_answers_lose_the_id:
  "extractSentMessage UpdatesOther chat = \<lparr>sm_ID = 0, sm_ChatID = 0\<rparr>" "extractSentMessage (UpdateShortMessage u) chat = \<lparr>sm_ID = 0, sm_ChatID = 0\<rparr>"
  "snd (onUpdatesClass h UpdatesOther g) = []"
  by (simp_all add: extractSentMessage_def onUpdatesClass_def)

text \<open>
  An error of \<^verbatim>\<open>Run\<close> itself is lost: whatever it says, the caller sees a timeout after 75 seconds, which counts as retryable, so that
  a revoked key reported there does not quarantine the session.
\<close>

lemma run_error_is_hidden: "Connect (RunFailed e) late g = (g\<lparr>gc_running := False\<rparr>, Some ''connect timeout'') \<and> ClassifyStartError ''connect timeout'' = Retry"
proof -
  have "ClassifyStartError ''connect timeout'' = Retry" by code_simp
  then show ?thesis by (simp add: Connect_def)
qed

subsection \<open>Witnesses\<close>

lemma session_blob_round_trip_example:
  "LoadSession tag_fernet ''k'' None None ''a'' [(''a'', ''tggw1:k:secret'')] = Inr ''secret'' \<and>
   StoreSession tag_fernet 0 ''k'' None None ''a'' ''secret'' [] = ([(''a'', ''tggw1:k:secret'')], None)"
proof -
  have s: "StoreSession tag_fernet 0 ''k'' None None ''a'' ''secret'' [] = ([(''a'', ''tggw1:k:secret'')], None)" by code_simp
  with session_blob_round_trip [OF tag_fernet_ok s] show ?thesis by simp
qed

definition demo_photo :: "int \<Rightarrow> Photo" where
  "demo_photo h = \<lparr>ph_ID = 7, ph_AccessHash = h, ph_FileReference = ''r'', ph_Sizes = [PhotoSize ''m'' 90 90 1, PhotoSize ''y'' 800 600 9]\<rparr>"

definition demo_photo_update :: "int \<Rightarrow> UpdateClass" where
  "demo_photo_update h = UpdateNewMessage (Message ((short_message \<lparr>um_ID = 1, um_Out = False, um_Mentioned = False, um_Date = 0, um_UserID = 5,
     um_Message = [], um_Pts = 1\<rparr>)\<lparr>tm_Media := Some (MessageMediaPhoto (Some (demo_photo h)))\<rparr>)) 1 1"

definition demo_telegram :: "string telegram" where
  "demo_telegram = \<lparr>onRequest = (\<lambda>q. Inr (Updates [])), UsersGetUsers = (\<lambda>i. Inr []), MessagesGetFullChat = (\<lambda>i. Inr []),
     ChannelsGetChannels = (\<lambda>i. Inr None), ContactsResolveUsername = (\<lambda>u. Inr ([], [])), MessagesSetBotCallbackAnswer = (\<lambda>q t b u c. None),
     MessagesGetDialogs = None, UpdatesGetState = Inl ''down'', Uploader = (\<lambda>n d. Inr d),
     Downloader = (\<lambda>l. case l of InputPhotoFileLocation i h r s \<Rightarrow> Inr (FormatInt h @ s) | _ \<Rightarrow> Inl ''other'')\<rparr>"

lemma file_ref_round_trip_example:
  "DownloadMedia demo_telegram (fst (onUpdatesClass True (Updates [demo_photo_update 3, demo_photo_update 4]) newGotdClient)) ''photo:7'' = Inr ''4y''"
proof -
  have p: "update_photo (demo_photo_update 3) = Some (demo_photo 3)" "ph_ID (demo_photo 3) = 7"
    by (simp_all add: update_photo_def demo_photo_update_def demo_photo_def)
  have f: "formatFileRef ''photo'' 7 = ''photo:7''" by code_simp
  have l: "last_photo 7 [demo_photo_update 3, demo_photo_update 4] None = Some (demo_photo 4)" by code_simp
  have d: "Downloader demo_telegram (InputPhotoFileLocation 7 4 ''r'' ''y'') = Inr ''4y''" by code_simp
  have t: "ph_AccessHash (demo_photo 4) = 4" "ph_FileReference (demo_photo 4) = ''r''" "largestThumbSize (ph_Sizes (demo_photo 4)) = ''y''" by code_simp+
  from file_ref_round_trip [of "demo_photo_update 3" "Updates [demo_photo_update 3, demo_photo_update 4]" "demo_photo 3" newGotdClient demo_telegram True]
  show ?thesis using p f l d t by (auto simp: int64_def newGotdClient_def)
qed

definition demo_fmt_lib :: fmt_lib where
  "demo_fmt_lib = \<lparr>fl_complete = (\<lambda>ts. (concat (map fst ts), [])), fl_unescape = id, fl_visit = id\<rparr>"


lemma chat_id_round_trip_example:
  "inputPeerOf (- (42 + 1000000000000)) = InputPeerChannel 42 \<and>
   (case obj_get (SerializeChat (Some (PeerChannel 42))) ''id'' of JInt c \<Rightarrow> inputPeerOf c = InputPeerUser 42 | _ \<Rightarrow> False)"
  using chat_id_round_trip(3,4) [of 42] by simp

end
