(* ===== verification/Migrate.thy ===== *)
theory Migrate
  imports GotdSafety
begin

text \<open>
  \<^verbatim>\<open>internal/migrate/migrate.go\<close>: the cutover that turns the session files of the former sidecar into session blobs of the client.
  A session file is what opening and reading it gives. The library's key fingerprint and its serialization of session data are
  parameters (\<open>gotd_session\<close>); statements of the database fail as \<open>mig_io\<close> says.
\<close>

subsection \<open>Data\<close>

datatype mig_error = MigText string | MigCrypto crypto_error

record SessionReport =
  rp_Alias :: string
  rp_DC :: int
  rp_UserID :: int
  rp_IsBot :: bool
  rp_TestMode :: bool
  rp_AuthKeyID :: string
  rp_Action :: string
  rp_Err :: "mig_error option"

record Report =
  rep_Sessions :: "SessionReport list"
  rep_Migrated :: nat
  rep_Skipped :: nat
  rep_Reencrypted :: nat
  rep_Errors :: nat
  rep_NeedsNewLogin :: nat
  rep_LoginsRequired :: nat

record pyroforkSession =
  py_DCID :: int
  py_APIID :: int
  py_TestMode :: bool
  py_AuthKey :: string
  py_UserID :: int
  py_IsBot :: bool

text \<open>A row of the file's table, as scanned: the flags are integers and the user may be null.\<close>

record pyro_row =
  pr_dc :: int
  pr_api :: int
  pr_test :: int
  pr_auth_key :: string
  pr_user :: "int option"
  pr_bot :: int

record session_file =
  sf_stat :: "string option"
  sf_open :: "string option"
  sf_row :: "string + pyro_row"

definition readPyroforkSession :: "session_file \<Rightarrow> string + pyroforkSession" where
  "readPyroforkSession f = (case sf_stat f of
       Some e \<Rightarrow> Inl (''session file: '' @ e)
     | None \<Rightarrow> (case sf_open f of
           Some e \<Rightarrow> Inl e
         | None \<Rightarrow> (case sf_row f of
               Inl e \<Rightarrow> Inl (''read sessions row: '' @ e)
             | Inr r \<Rightarrow>
                 if length (pr_auth_key r) \<noteq> 256 then
                   Inl (''auth_key has '' @ FormatInt (int (length (pr_auth_key r))) @ '' bytes, want 256'')
                 else Inr \<lparr>py_DCID = pr_dc r, py_APIID = pr_api r, py_TestMode = (pr_test r \<noteq> 0), py_AuthKey = pr_auth_key r,
                   py_UserID = (case pr_user r of Some u \<Rightarrow> u | None \<Rightarrow> 0), py_IsBot = (pr_bot r \<noteq> 0)\<rparr>)))"

record session_data =
  sd_DC :: int
  sd_AuthKey :: string
  sd_AuthKeyID :: string
  sd_TestMode :: bool

record gotd_session =
  key_id :: "string \<Rightarrow> string"
  loader_save :: "session_data \<Rightarrow> string + string"

text \<open>\<^verbatim>\<open>%x\<close> of the fingerprint.\<close>

definition hex :: "string \<Rightarrow> string" where
  "hex s = concat (map (\<lambda>c. [hex_digit (of_char c div 16), hex_digit (of_char c mod 16)]) s)"

definition buildGotdBlob :: "gotd_session \<Rightarrow> pyroforkSession \<Rightarrow> string + (string \<times> string)" where
  "buildGotdBlob G s =
     (let i = key_id G (py_AuthKey s) in
      case loader_save G \<lparr>sd_DC = py_DCID s, sd_AuthKey = py_AuthKey s, sd_AuthKeyID = i, sd_TestMode = py_TestMode s\<rparr> of
        Inl e \<Rightarrow> Inl e
      | Inr blob \<Rightarrow> Inr (blob, hex i))"

subsection \<open>One run\<close>

record mig_io =
  mi_files :: "string + (string \<times> session_file) list"
  mi_open :: "string option"
  mi_create :: "string option"
  mi_iv :: "string \<Rightarrow> nat"
  mi_query :: "string \<Rightarrow> bool"
  mi_insert :: "string \<Rightarrow> string option"
  mi_rows :: "string option"
  mi_scan :: "string \<Rightarrow> bool"
  mi_update :: "string \<Rightarrow> bool"
  mi_registered :: "string list option"

type_synonym mig_state = "blob_table \<times> Report \<times> string list"

definition new_report :: Report where
  "new_report = \<lparr>rep_Sessions = [], rep_Migrated = 0, rep_Skipped = 0, rep_Reencrypted = 0, rep_Errors = 0, rep_NeedsNewLogin = 0,
     rep_LoginsRequired = 0\<rparr>"

definition rep_error :: "SessionReport \<Rightarrow> mig_error \<Rightarrow> Report \<Rightarrow> Report" where
  "rep_error r e rep = rep\<lparr>rep_Errors := rep_Errors rep + 1, rep_Sessions := rep_Sessions rep @ [r\<lparr>rp_Action := ''error'', rp_Err := Some e\<rparr>]\<rparr>"

definition rep_skipped :: "SessionReport \<Rightarrow> Report \<Rightarrow> Report" where
  "rep_skipped r rep = rep\<lparr>rep_Skipped := rep_Skipped rep + 1,
     rep_Sessions := rep_Sessions rep @ [r\<lparr>rp_Action := ''skipped (already migrated)''\<rparr>]\<rparr>"

definition rep_migrated :: "SessionReport \<Rightarrow> string \<Rightarrow> Report \<Rightarrow> Report" where
  "rep_migrated r act rep = rep\<lparr>rep_Migrated := rep_Migrated rep + 1, rep_Sessions := rep_Sessions rep @ [r\<lparr>rp_Action := act\<rparr>]\<rparr>"

definition mig_write ::
  "'k fernet_lib \<Rightarrow> 'k \<Rightarrow> mig_io \<Rightarrow> bool \<Rightarrow> string \<Rightarrow> string \<Rightarrow> SessionReport \<Rightarrow> blob_table \<times> Report \<Rightarrow> blob_table \<times> Report" where
  "mig_write F k io dryRun alias blob r tr =
     (let (t, rep) = tr in
      if dryRun then (t, rep_migrated r ''would migrate'' rep)
      else case SealBlob F (mi_iv io alias) k blob of
          Inl e \<Rightarrow> (t, rep_error r (MigCrypto e) rep)
        | Inr sealed \<Rightarrow> (case mi_insert io alias of
              Some e \<Rightarrow> (t, rep_error r (MigText e) rep)
            | None \<Rightarrow> (AList.update alias sealed t, rep_migrated r ''migrated'' rep)))"

definition mig_blob ::
  "'k fernet_lib \<Rightarrow> 'k \<Rightarrow> mig_io \<Rightarrow> bool \<Rightarrow> string \<Rightarrow> string \<Rightarrow> SessionReport \<Rightarrow> blob_table \<times> Report \<Rightarrow> blob_table \<times> Report" where
  "mig_blob F k io dryRun alias blob r tr =
     (case (if mi_query io alias then map_of (fst tr) alias else None) of
        Some existing \<Rightarrow> (case OpenBlob F k existing of
            Inl e \<Rightarrow> (fst tr, rep_error r (MigCrypto e) (snd tr))
          | Inr p \<Rightarrow> if p = blob then (fst tr, rep_skipped r (snd tr)) else mig_write F k io dryRun alias blob r tr)
      | None \<Rightarrow> mig_write F k io dryRun alias blob r tr)"

definition mig_file ::
  "gotd_session \<Rightarrow> 'k fernet_lib \<Rightarrow> 'k \<Rightarrow> mig_io \<Rightarrow> bool \<Rightarrow> string \<times> session_file \<Rightarrow> mig_state \<Rightarrow> mig_state" where
  "mig_file G F k io dryRun af st =
     (let (alias, f) = af; (t, rep, byFile) = st;
          r = \<lparr>rp_Alias = alias, rp_DC = 0, rp_UserID = 0, rp_IsBot = False, rp_TestMode = False, rp_AuthKeyID = [], rp_Action = [], rp_Err = None\<rparr>
      in case readPyroforkSession f of
          Inl e \<Rightarrow> (t, rep_error r (MigText e) rep, byFile)
        | Inr ps \<Rightarrow>
            (let r1 = r\<lparr>rp_DC := py_DCID ps, rp_UserID := py_UserID ps, rp_IsBot := py_IsBot ps, rp_TestMode := py_TestMode ps\<rparr> in
             case buildGotdBlob G ps of
               Inl e \<Rightarrow> (t, rep_error r1 (MigText e) rep, byFile)
             | Inr (blob, keyID) \<Rightarrow>
                 (let (t', rep') = mig_blob F k io dryRun alias blob (r1\<lparr>rp_AuthKeyID := keyID\<rparr>) (t, rep) in (t', rep', alias # byFile))))"

text \<open>The second pass: rows that are not sealed are sealed in place.\<close>

definition reseal_one :: "'k fernet_lib \<Rightarrow> 'k \<Rightarrow> mig_io \<Rightarrow> bool \<Rightarrow> string \<times> string \<Rightarrow> blob_table \<times> Report \<Rightarrow> blob_table \<times> Report" where
  "reseal_one F k io dryRun row tr =
     (let (alias, blob) = row; (t, rep) = tr in
      if dryRun then (t, rep\<lparr>rep_Reencrypted := rep_Reencrypted rep + 1\<rparr>)
      else case SealBlob F (mi_iv io alias) k blob of
          Inl e \<Rightarrow> (t, rep\<lparr>rep_Errors := rep_Errors rep + 1\<rparr>)
        | Inr sealed \<Rightarrow>
            if mi_update io alias then
              (map (\<lambda>(a, b). if a = alias then (a, sealed) else (a, b)) t, rep\<lparr>rep_Reencrypted := rep_Reencrypted rep + 1\<rparr>)
            else (t, rep\<lparr>rep_Errors := rep_Errors rep + 1\<rparr>))"

definition legacy_rows :: "mig_io \<Rightarrow> blob_table \<Rightarrow> blob_table" where
  "legacy_rows io t = filter (\<lambda>(a, b). mi_scan io a \<and> \<not> IsSealed b) t"

definition mig_finish :: "mig_io \<Rightarrow> string list \<Rightarrow> Report \<Rightarrow> Report" where
  "mig_finish io byFile rep =
     (let n = (case mi_registered io of Some as \<Rightarrow> length (filter (\<lambda>a. a \<notin> set byFile) as) | None \<Rightarrow> 0);
          rep1 = rep\<lparr>rep_NeedsNewLogin := rep_NeedsNewLogin rep + n\<rparr>
      in rep1\<lparr>rep_LoginsRequired := rep_Errors rep1 + rep_NeedsNewLogin rep1\<rparr>)"

text \<open>
  \<open>Run\<close> on the key file and the table. The key is generated and written when there is none. The table is the state of
  \<^verbatim>\<open>gotd_sessions\<close>, empty when it has yet to be created.
\<close>

definition Run ::
  "gotd_session \<Rightarrow> 'k fernet_lib \<Rightarrow> mig_io \<Rightarrow> string \<Rightarrow> 'k option \<Rightarrow> bool \<Rightarrow> bool \<Rightarrow> string option \<times> blob_table \<Rightarrow>
   (string option \<times> blob_table) \<times> (mig_error + Report)" where
  "Run G F io fernetKey generated write_ok dryRun ft =
     (let (keyfile, t) = ft; (box, keyfile1) = LoadKey F fernetKey keyfile generated write_ok in
      case box of
        Inl e \<Rightarrow> ((keyfile1, t), Inl (MigCrypto e))
      | Inr k \<Rightarrow> (case mi_files io of
            Inl e \<Rightarrow> ((keyfile1, t), Inl (MigText e))
          | Inr entries \<Rightarrow> (case mi_open io of
                Some e \<Rightarrow> ((keyfile1, t), Inl (MigText e))
              | None \<Rightarrow> (case mi_create io of
                    Some e \<Rightarrow> ((keyfile1, t), Inl (MigText e))
                  | None \<Rightarrow>
                      (let (t1, rep1, byFile) = fold (mig_file G F k io dryRun) entries (t, new_report, []) in
                       case mi_rows io of
                         Some e \<Rightarrow> ((keyfile1, t1), Inl (MigText e))
                       | None \<Rightarrow>
                           (let (t2, rep2) = fold (reseal_one F k io dryRun) (legacy_rows io t1) (t1, rep1) in
                            ((keyfile1, t2), Inr (mig_finish io byFile rep2))))))))"

subsection \<open>What a run leaves behind\<close>

text \<open>Runs in which no statement of the database fails and encryption succeeds.\<close>

definition io_ok :: "mig_io \<Rightarrow> bool" where
  "io_ok io \<longleftrightarrow> mi_open io = None \<and> mi_create io = None \<and> mi_rows io = None \<and>
     (\<forall>a. mi_query io a \<and> mi_insert io a = None \<and> mi_scan io a \<and> mi_update io a)"

definition seals :: "'k fernet_lib \<Rightarrow> bool" where
  "seals F \<longleftrightarrow> (\<forall>iv p k. EncryptAndSign F iv p k \<noteq> None)"

definition sealed_of :: "'k fernet_lib \<Rightarrow> 'k \<Rightarrow> mig_io \<Rightarrow> string \<Rightarrow> string \<Rightarrow> string" where
  "sealed_of F k io a b = projr (SealBlob F (mi_iv io a) k b)"

lemma SealBlob_sealed_of: "seals F \<Longrightarrow> SealBlob F (mi_iv io a) k b = Inr (sealed_of F k io a b)"
  by (auto simp: seals_def sealed_of_def SealBlob_def Encrypt_def split: option.split)

lemma sealed_of_opens:
  assumes "fernet_ok F" "seals F"
  shows "OpenBlob F k (sealed_of F k io a b) = Inr b" "IsSealed (sealed_of F k io a b)"
  using SealBlob_OpenBlob [OF assms(1) SealBlob_sealed_of [OF assms(2)]] by blast+

text \<open>The row of an alias opens to the blob of its file, or cannot be opened under this key.\<close>

definition settled :: "'k fernet_lib \<Rightarrow> 'k \<Rightarrow> blob_table \<Rightarrow> string \<Rightarrow> string \<Rightarrow> bool" where
  "settled F k t a blob \<longleftrightarrow> (\<exists>b. map_of t a = Some b \<and> (OpenBlob F k b = Inr blob \<or> (\<exists>e. OpenBlob F k b = Inl e)))"

definition file_blob :: "gotd_session \<Rightarrow> session_file \<Rightarrow> string option" where
  "file_blob G f = (case readPyroforkSession f of Inl e \<Rightarrow> None | Inr ps \<Rightarrow>
     (case buildGotdBlob G ps of Inl e \<Rightarrow> None | Inr (blob, i) \<Rightarrow> Some blob))"

lemmas mig_defs = mig_file_def mig_blob_def mig_write_def rep_error_def rep_skipped_def rep_migrated_def

lemma mig_file_table:
  assumes "io_ok io" "seals F" "mig_file G F k io False (a, f) (t, rep, found) = (t', rep', found')"
  shows "t' = (case file_blob G f of
       Some blob \<Rightarrow> if settled F k t a blob then t else AList.update a (sealed_of F k io a blob) t
     | None \<Rightarrow> t)"
  using assms
  by (auto simp: mig_defs file_blob_def settled_def io_ok_def SealBlob_sealed_of Let_def split: sum.splits option.splits prod.splits if_splits)

lemma mig_file_distinct:
  assumes "io_ok io" "seals F" "distinct (map fst t)" "mig_file G F k io False (a, f) (t, rep, found) = (t', rep', found')"
  shows "distinct (map fst t')"
  using mig_file_table [OF assms(1,2,4)] assms(3) by (simp add: distinct_update split: option.splits if_splits)

lemma mig_files_distinct:
  assumes "io_ok io" "seals F"
  shows "distinct (map fst t) \<Longrightarrow> fold (mig_file G F k io False) xs (t, rep, found) = (t', rep', found') \<Longrightarrow> distinct (map fst t')"
proof (induction xs arbitrary: t rep found)
  case (Cons x xs)
  obtain a f where x: "x = (a, f)" by (cases x)
  obtain t1 rep1 found1 where m: "mig_file G F k io False (a, f) (t, rep, found) = (t1, rep1, found1)" by (metis prod.exhaust)
  show ?case using Cons.IH [OF mig_file_distinct [OF assms Cons.prems(1) m]] Cons.prems(2) x m by simp
qed simp

text \<open>What the first pass makes of the row of a file, seen from the table it started from.\<close>

definition row_done :: "'k fernet_lib \<Rightarrow> 'k \<Rightarrow> blob_table \<Rightarrow> blob_table \<Rightarrow> string \<Rightarrow> string \<Rightarrow> bool" where
  "row_done F k t t' a blob \<longleftrightarrow> settled F k t' a blob \<and> (\<forall>b e. map_of t' a = Some b \<and> OpenBlob F k b = Inl e \<longrightarrow> map_of t a = Some b)"

lemma mig_file_settles:
  assumes "fernet_ok F" "io_ok io" "seals F" "mig_file G F k io False (a, f) (t, rep, found) = (t', rep', found')"
  shows "\<And>c. c \<noteq> a \<Longrightarrow> map_of t' c = map_of t c" "file_blob G f = Some blob \<Longrightarrow> row_done F k t t' a blob"
  using mig_file_table [OF assms(2,3,4)] sealed_of_opens [OF assms(1,3), of k io a]
  by (auto simp: row_done_def settled_def update_conv' split: option.splits if_splits)

lemma mig_files_settle:
  assumes "fernet_ok F" "io_ok io" "seals F"
  shows "distinct (map fst xs) \<Longrightarrow> fold (mig_file G F k io False) xs (t, rep, found) = (t', rep', found') \<Longrightarrow>
    (\<forall>c. c \<notin> fst ` set xs \<longrightarrow> map_of t' c = map_of t c) \<and>
    (\<forall>a f blob. (a, f) \<in> set xs \<longrightarrow> file_blob G f = Some blob \<longrightarrow> row_done F k t t' a blob)"
proof (induction xs arbitrary: t rep found)
  case (Cons x xs)
  obtain a f where x: "x = (a, f)" by (cases x)
  obtain t1 rep1 found1 where m: "mig_file G F k io False (a, f) (t, rep, found) = (t1, rep1, found1)" by (metis prod.exhaust)
  note s = mig_file_settles [OF assms m]
  have f: "fold (mig_file G F k io False) xs (t1, rep1, found1) = (t', rep', found')" using Cons.prems(2) x m by simp
  have a: "a \<notin> fst ` set xs" "distinct (map fst xs)" using Cons.prems(1) x by auto
  note IH = Cons.IH [OF a(2) f]
  have ta: "map_of t' a = map_of t1 a" using IH a(1) by blast
  have "row_done F k t t' c blob" if c: "(c, g) \<in> set (x # xs)" "file_blob G g = Some blob" for c g blob
  proof (cases "(c, g) \<in> set xs")
    case True
    then have "c \<noteq> a" using a(1) by force
    moreover have "row_done F k t1 t' c blob" using IH True c(2) by blast
    ultimately show ?thesis using s(1) [of c] by (simp add: row_done_def)
  next
    case False
    then have "c = a" "g = f" using c(1) x by auto
    then show ?thesis using s(2) c(2) ta by (simp add: row_done_def settled_def)
  qed
  moreover have "map_of t' c = map_of t c" if "c \<notin> fst ` set (x # xs)" for c using that IH s(1) [of c] x by auto
  ultimately show ?case by blast
qed simp

lemma reseal_fold:
  assumes "seals F" "io_ok io"
  shows "distinct (map fst rs) \<Longrightarrow> fold (reseal_one F k io False) rs (t, rep) =
    (map (\<lambda>(a, b). (a, case map_of rs a of Some b' \<Rightarrow> sealed_of F k io a b' | None \<Rightarrow> b)) t, rep\<lparr>rep_Reencrypted := rep_Reencrypted rep + length rs\<rparr>)"
proof (induction rs arbitrary: t rep)
  case (Cons r rs)
  obtain a b where r: "r = (a, b)" by (cases r)
  have n: "map_of rs a = None" using Cons.prems r by (simp add: map_of_eq_None_iff)
  have step: "reseal_one F k io False r (t, rep) =
      (map (\<lambda>(c, d). if c = a then (c, sealed_of F k io a b) else (c, d)) t, rep\<lparr>rep_Reencrypted := rep_Reencrypted rep + 1\<rparr>)"
    using assms by (simp add: reseal_one_def r SealBlob_sealed_of io_ok_def)
  show ?case unfolding fold_simps step using Cons.IH Cons.prems n
    by (auto simp: r case_prod_unfold split: option.split)
qed (simp add: case_prod_unfold)

lemma legacy_lookup:
  assumes "distinct (map fst t)" "io_ok io" "(a, b) \<in> set t"
  shows "map_of (legacy_rows io t) a = (if IsSealed b then None else Some b)"
proof -
  have d: "distinct (map fst (legacy_rows io t))" using assms(1) by (simp add: legacy_rows_def distinct_map_filter)
  show ?thesis
  proof (cases "IsSealed b")
    case True
    then have "a \<notin> fst ` set (legacy_rows io t)"
      using assms(1,3) by (auto simp: legacy_rows_def dest: map_of_is_SomeI [OF assms(1)])
    then show ?thesis using True by (simp add: map_of_eq_None_iff)
  next
    case False
    then have "(a, b) \<in> set (legacy_rows io t)" using assms(2,3) by (simp add: legacy_rows_def io_ok_def)
    then show ?thesis using False d by simp
  qed
qed

text \<open>The table after the second pass.\<close>

lemma reseal_all:
  assumes "fernet_ok F" "seals F" "io_ok io" "distinct (map fst t)" "fold (reseal_one F k io False) (legacy_rows io t) (t, rep) = (t', rep')"
  shows "(\<forall>b \<in> snd ` set t'. IsSealed b) \<and> distinct (map fst t') \<and> (\<forall>a. map_option (OpenBlob F k) (map_of t' a) = map_option (OpenBlob F k) (map_of t a))"
proof -
  let ?f = "\<lambda>(a, b). (a, if IsSealed b then b else sealed_of F k io a b)"
  have "distinct (map fst (legacy_rows io t))" using assms(4) by (simp add: legacy_rows_def distinct_map_filter)
  from reseal_fold [OF assms(2,3) this, of k t rep] assms(5)
  have "t' = map (\<lambda>(a, b). (a, case map_of (legacy_rows io t) a of Some b' \<Rightarrow> sealed_of F k io a b' | None \<Rightarrow> b)) t" by simp
  also have "\<dots> = map ?f t" using legacy_lookup [OF assms(4,3)] by (intro map_cong) auto
  finally have t': "t' = map ?f t" .
  have "map_of (map ?f xs) a = map_option (\<lambda>b. if IsSealed b then b else sealed_of F k io a b) (map_of xs a)" for xs a
    by (induction xs) auto
  then have "map_option (OpenBlob F k) (map_of t' a) = map_option (OpenBlob F k) (map_of t a)" for a
    using t' by (cases "map_of t a") (auto simp: sealed_of_opens [OF assms(1,2)], simp add: OpenBlob_def IsSealed_def)
  then show ?thesis using t' assms(4) by (auto simp: sealed_of_opens [OF assms(1,2)] o_def case_prod_unfold)
qed

lemma Run_parts:
  assumes "Run G F io fk gen w dryRun (kf, t) = ((kf1, t1), Inr rep)"
  obtains k xs tm repm found rep2 where "LoadKey F fk kf gen w = (Inr k, kf1)" "mi_files io = Inr xs"
    "fold (mig_file G F k io dryRun) xs (t, new_report, []) = (tm, repm, found)"
    "fold (reseal_one F k io dryRun) (legacy_rows io tm) (tm, repm) = (t1, rep2)" "rep = mig_finish io found rep2"
  using assms by (auto simp: Run_def Let_def split: prod.splits sum.splits option.splits)

text \<open>
  C22. After a migration the client opens every migrated session without a login. Let a run in which no statement fails end with a
  report. Then every row of the table is sealed, and for every session file that was read and converted the client's \<^verbatim>\<open>LoadSession\<close> returns
  exactly the converted session, unless the table already had a row for the alias that does not open under the key, which then is still there.
\<close>

theorem migrated_sessions_load:
  assumes "fernet_ok F" "seals F" "io_ok io" "distinct (map fst t)" "mi_files io = Inr xs" "distinct (map fst xs)"
    and "Run G F io fk gen w False (kf, t) = ((kf1, t1), Inr rep)" "(a, f) \<in> set xs" "file_blob G f = Some blob"
  shows "(\<forall>b \<in> snd ` set t1. IsSealed b) \<and> (\<exists>k. LoadKey F fk kf gen w = (Inr k, kf1) \<and>
    (LoadSession F k None None a t1 = Inr blob \<or>
     (\<exists>b e. map_of t a = Some b \<and> OpenBlob F k b = Inl e \<and> LoadSession F k None None a t1 = Inl (LoadBlob e))))"
proof -
  obtain k tm repm found rep2 where r: "LoadKey F fk kf gen w = (Inr k, kf1)"
    "fold (mig_file G F k io False) xs (t, new_report, []) = (tm, repm, found)"
    "fold (reseal_one F k io False) (legacy_rows io tm) (tm, repm) = (t1, rep2)"
    using assms(7,5) by (auto elim!: Run_parts)
  note s = reseal_all [OF assms(1,2,3) mig_files_distinct [OF assms(3,2,4) r(2)] r(3)]
  have "row_done F k t tm a blob" using mig_files_settle [OF assms(1,3,2,6) r(2)] assms(8,9) by blast
  then have "settled F k tm a blob" and old: "\<And>b e. map_of tm a = Some b \<Longrightarrow> OpenBlob F k b = Inl e \<Longrightarrow> map_of t a = Some b"
    by (simp_all add: row_done_def)
  then obtain b where b: "map_of tm a = Some b" "OpenBlob F k b = Inr blob \<or> (\<exists>e. OpenBlob F k b = Inl e)" by (auto simp: settled_def)
  obtain b1 where b1: "map_of t1 a = Some b1" "OpenBlob F k b1 = OpenBlob F k b"
    using s b(1) by (metis (no_types, lifting) map_option_eq_Some option.simps(9))
  have "LoadSession F k None None a t1 = Inr blob \<or>
     (\<exists>b e. map_of t a = Some b \<and> OpenBlob F k b = Inl e \<and> LoadSession F k None None a t1 = Inl (LoadBlob e))"
    using b(2)
  proof
    assume "OpenBlob F k b = Inr blob"
    then show ?thesis using b1 by (simp add: LoadSession_def)
  next
    assume "\<exists>e. OpenBlob F k b = Inl e"
    then obtain e where "OpenBlob F k b = Inl e" by blast
    then show ?thesis using b1 old [OF b(1)] by (auto simp: LoadSession_def)
  qed
  with r(1) s show ?thesis by blast
qed

subsection \<open>Running it again\<close>

lemma mig_file_noop:
  assumes "\<And>blob. file_blob G f = Some blob \<Longrightarrow> settled F k t a blob" "mi_query io a"
    and "mig_file G F k io dryRun (a, f) (t, rep, found) = (t', rep', found')"
  shows "t' = t \<and> rep_Migrated rep' = rep_Migrated rep \<and> rep_Reencrypted rep' = rep_Reencrypted rep"
  using assms by (auto simp: mig_defs file_blob_def settled_def Let_def split: sum.splits option.splits prod.splits if_splits)

lemma mig_files_noop:
  assumes "\<And>a f blob. (a, f) \<in> set xs \<Longrightarrow> file_blob G f = Some blob \<Longrightarrow> settled F k t a blob" "\<And>a. mi_query io a"
    and "fold (mig_file G F k io dryRun) xs (t, rep, found) = (t', rep', found')"
  shows "t' = t \<and> rep_Migrated rep' = rep_Migrated rep \<and> rep_Reencrypted rep' = rep_Reencrypted rep"
  using assms(1,3)
proof (induction xs arbitrary: rep found)
  case (Cons x xs)
  obtain a f where x: "x = (a, f)" by (cases x)
  obtain t1 rep1 found1 where m: "mig_file G F k io dryRun (a, f) (t, rep, found) = (t1, rep1, found1)" by (metis prod.exhaust)
  have n: "t1 = t \<and> rep_Migrated rep1 = rep_Migrated rep \<and> rep_Reencrypted rep1 = rep_Reencrypted rep"
    by (rule mig_file_noop [OF _ assms(2) m]) (use Cons.prems(1) x in auto)
  have "fold (mig_file G F k io dryRun) xs (t, rep1, found1) = (t', rep', found')" using Cons.prems(2) x m n by simp
  from Cons.IH [OF _ this] Cons.prems(1) n show ?case by (metis list.set_intros(2))
qed simp

lemma LoadKey_again:
  assumes "fernet_ok F" "LoadKey F fk kf gen w = (Inr k, kf1)"
  shows "LoadKey F fk kf1 gen' w' = (Inr k, kf1)"
  using assms by (auto simp: LoadKey_def fernet_ok_def split: option.splits if_splits)

lemma settled_view:
  assumes "map_option (OpenBlob F k) (map_of t' a) = map_option (OpenBlob F k) (map_of t a)" "settled F k t a blob"
  shows "settled F k t' a blob"
  using assms by (cases "map_of t' a") (auto simp: settled_def)

text \<open>
  C23. A migration can be repeated. After a run in which no statement failed, a second run over the same files, for real or as a dry run, under
  the key the first one left, migrates nothing, seals nothing again and leaves key file and table exactly as they are.
\<close>

theorem migration_is_idempotent:
  assumes "fernet_ok F" "seals F" "io_ok io" "distinct (map fst t)" "mi_files io = Inr xs" "distinct (map fst xs)"
    and "Run G F io fk gen w False (kf, t) = ((kf1, t1), Inr rep)" "io_ok io2" "mi_files io2 = Inr xs"
  shows "\<exists>rep2. Run G F io2 fk gen2 w2 dryRun (kf1, t1) = ((kf1, t1), Inr rep2) \<and> rep_Migrated rep2 = 0 \<and> rep_Reencrypted rep2 = 0"
proof -
  obtain k tm repm found rep1 where r: "LoadKey F fk kf gen w = (Inr k, kf1)"
    "fold (mig_file G F k io False) xs (t, new_report, []) = (tm, repm, found)"
    "fold (reseal_one F k io False) (legacy_rows io tm) (tm, repm) = (t1, rep1)"
    using assms(7,5) by (auto elim!: Run_parts)
  note s = reseal_all [OF assms(1,2,3) mig_files_distinct [OF assms(3,2,4) r(2)] r(3)]
  have set1: "settled F k t1 a blob" if "(a, f) \<in> set xs" "file_blob G f = Some blob" for a f blob
  proof (rule settled_view)
    show "map_option (OpenBlob F k) (map_of t1 a) = map_option (OpenBlob F k) (map_of tm a)" using s by blast
    have "row_done F k t tm a blob" using mig_files_settle [OF assms(1,3,2,6) r(2)] that by blast
    then show "settled F k tm a blob" by (simp add: row_done_def)
  qed
  obtain t' rep' found' where f: "fold (mig_file G F k io2 dryRun) xs (t1, new_report, []) = (t', rep', found')" by (metis prod.exhaust)
  have n: "t' = t1" "rep_Migrated rep' = 0" "rep_Reencrypted rep' = 0"
    using mig_files_noop [OF set1 _ f] assms(8) by (simp_all add: io_ok_def new_report_def)
  have l: "legacy_rows io2 t1 = []" using s by (auto simp: legacy_rows_def filter_empty_conv)
  have "Run G F io2 fk gen2 w2 dryRun (kf1, t1) = ((kf1, t1), Inr (mig_finish io2 found' rep'))"
    using LoadKey_again [OF assms(1) r(1), of gen2 w2] assms(8,9) f n l by (simp add: Run_def io_ok_def)
  then show ?thesis using n by (simp add: mig_finish_def Let_def)
qed

text \<open>A dry run writes no row, whatever fails, but it does write a key file where there is none.\<close>

lemma dry_run_keeps_table:
  assumes "Run G F io fk gen w True (kf, t) = ((kf1, t1), r)"
  shows "t1 = t"
proof -
  have one: "fst (mig_file G F k io True x st) = fst st" for k x st
    by (auto simp: mig_defs Let_def split: prod.splits sum.splits option.splits)
  have files: "fst (fold (mig_file G F k io True) xs st) = fst st" for k xs st by (induction xs arbitrary: st) (simp_all add: one)
  have reseals: "fst (fold (reseal_one F k io True) rs tr) = fst tr" for k rs tr
    by (induction rs arbitrary: tr) (simp_all add: reseal_one_def case_prod_unfold Let_def)
  show ?thesis using assms files reseals
    by (auto simp: Run_def case_prod_unfold Let_def split: sum.splits option.splits dest!: arg_cong [where f = fst])
qed

lemma dry_run_writes_key:
  "LoadKey F [] None (Some k) True = (Inr k, Some (EncodeKey F k)) \<Longrightarrow>
   fst (fst (Run G F io [] (Some k) True True (None, t))) = Some (EncodeKey F k)"
  by (auto simp: Run_def case_prod_unfold Let_def split: sum.splits option.splits)

text \<open>
  A rerun after the sidecar has connected undoes it: when the client has stored newer session data for an alias, the old file's session
  takes its place.
\<close>

lemma rerun_overwrites_live_session:
  assumes "fernet_ok F" "io_ok io" "seals F" "file_blob G f = Some blob" "map_of t a = Some b" "OpenBlob F k b = Inr live" "live \<noteq> blob"
    and "mig_file G F k io False (a, f) (t, rep, found) = (t', rep', found')"
  shows "LoadSession F k None None a t' = Inr blob"
  using mig_file_table [OF assms(2,3,8)] assms(4-7) sealed_of_opens [OF assms(1,3), of k io a blob]
  by (simp add: settled_def LoadSession_def update_conv')

subsection \<open>Witnesses\<close>

definition demo_gotd :: gotd_session where
  "demo_gotd = \<lparr>key_id = take 8, loader_save = (\<lambda>d. Inr (sd_AuthKeyID d))\<rparr>"

definition demo_file :: session_file where
  "demo_file = \<lparr>sf_stat = None, sf_open = None, sf_row = Inr \<lparr>pr_dc = 2, pr_api = 1, pr_test = 0, pr_auth_key = replicate 256 CHR ''k'', pr_user = Some 5, pr_bot = 1\<rparr>\<rparr>"

definition demo_mig :: mig_io where
  "demo_mig = \<lparr>mi_files = Inr [(''a'', demo_file)], mi_open = None, mi_create = None, mi_iv = (\<lambda>a. 0), mi_query = (\<lambda>a. True), mi_insert = (\<lambda>a. None),
     mi_rows = None, mi_scan = (\<lambda>a. True), mi_update = (\<lambda>a. True), mi_registered = Some [''a'']\<rparr>"

lemma demo_mig_ok: "io_ok demo_mig" "seals tag_fernet" "mi_files demo_mig = Inr [(''a'', demo_file)]"
  by (simp_all add: io_ok_def demo_mig_def seals_def tag_fernet_def)

lemma demo_blob: "file_blob demo_gotd demo_file = Some ''kkkkkkkk''"
  by code_simp

lemma demo_run:
  obtains rep where "Run demo_gotd tag_fernet demo_mig ''ksk'' None False False (None, [(''old'', ''plain'')]) =
    ((None, [(''old'', ''tggw1:s:plain''), (''a'', ''tggw1:s:kkkkkkkk'')]), Inr rep)"
proof -
  let ?r = "Run demo_gotd tag_fernet demo_mig ''ksk'' None False False (None, [(''old'', ''plain'')])"
  have "fst ?r = (None, [(''old'', ''tggw1:s:plain''), (''a'', ''tggw1:s:kkkkkkkk'')])" "isl (snd ?r) = False" by code_simp+
  then show thesis using that by (cases ?r; cases "snd ?r") auto
qed

theorem migrated_sessions_load_witness:
  "LoadSession tag_fernet ''s'' None None ''a'' [(''old'', ''tggw1:s:plain''), (''a'', ''tggw1:s:kkkkkkkk'')] = Inr ''kkkkkkkk'' \<and>
   IsSealed ''tggw1:s:plain''"
proof -
  obtain rep where r: "Run demo_gotd tag_fernet demo_mig ''ksk'' None False False (None, [(''old'', ''plain'')]) =
    ((None, [(''old'', ''tggw1:s:plain''), (''a'', ''tggw1:s:kkkkkkkk'')]), Inr rep)" by (rule demo_run)
  have k: "LoadKey tag_fernet ''ksk'' None None False = (Inr ''s'', None)" by code_simp
  show ?thesis
    using migrated_sessions_load [OF tag_fernet_ok demo_mig_ok(2,1) _ demo_mig_ok(3) _ r _ demo_blob, of "''a''"] k by simp
qed

theorem migration_is_idempotent_witness:
  "\<exists>rep2. Run demo_gotd tag_fernet demo_mig ''ksk'' None False True (None, [(''old'', ''tggw1:s:plain''), (''a'', ''tggw1:s:kkkkkkkk'')]) =
     ((None, [(''old'', ''tggw1:s:plain''), (''a'', ''tggw1:s:kkkkkkkk'')]), Inr rep2) \<and> rep_Migrated rep2 = 0 \<and> rep_Reencrypted rep2 = 0"
proof -
  obtain rep where r: "Run demo_gotd tag_fernet demo_mig ''ksk'' None False False (None, [(''old'', ''plain'')]) =
    ((None, [(''old'', ''tggw1:s:plain''), (''a'', ''tggw1:s:kkkkkkkk'')]), Inr rep)" by (rule demo_run)
  show ?thesis
    by (rule migration_is_idempotent [OF tag_fernet_ok demo_mig_ok(2,1) _ demo_mig_ok(3) _ r demo_mig_ok(1,3)]) simp_all
qed

end
