(* ===== verification/Sdk.thy ===== *)
theory Sdk
  imports Proxy_Pacing Queue_Consumer Pyformat
begin

text \<open>
  \<^verbatim>\<open>pkg/client/client.go\<close>: the consumer SDK. A call is a request and what the transport makes of it (\<open>transport\<close>): no connection, an
  unreadable body, or a status with the body as JSON, \<open>None\<close> when it is no JSON (a body over the limit of one
  MiB is cut and ends up there). Then the SDK's \<^verbatim>\<open>PullUpdates\<close> is put on top of the gateway's own handler of \<^verbatim>\<open>getUpdates\<close>, over a
  transport that may lose requests and answers.
\<close>

subsection \<open>The client\<close>

record Client =
  cl_base :: string
  cl_appSecret :: string
  cl_botToken :: string
  cl_alias :: string
  cl_offset :: int

definition trim_slashes :: "string \<Rightarrow> string" where
  "trim_slashes s = rev (dropWhile (\<lambda>c. c = CHR ''/'') (rev s))"

definition NewBotAPI :: "string \<Rightarrow> string \<Rightarrow> string \<Rightarrow> Client" where
  "NewBotAPI base appSecret botToken =
     \<lparr>cl_base = trim_slashes base, cl_appSecret = appSecret, cl_botToken = botToken, cl_alias = [], cl_offset = 0\<rparr>"

definition NewMTProto :: "string \<Rightarrow> string \<Rightarrow> string \<Rightarrow> Client" where
  "NewMTProto base appSecret alias =
     \<lparr>cl_base = trim_slashes base, cl_appSecret = appSecret, cl_botToken = [], cl_alias = alias, cl_offset = 0\<rparr>"

datatype sdk_error =
  APIError int string rat
| ErrReplayed
| CallFailed string
| ReadFailed string
| BadEnvelope int
| DecodeFailed string

fun IsRateLimited :: "sdk_error \<Rightarrow> rat \<times> bool" where
  "IsRateLimited (APIError code d r) = (if code = 429 then (r, True) else (0, False))"
| "IsRateLimited _ = (0, False)"

fun IsForbidden :: "sdk_error \<Rightarrow> bool" where
  "IsForbidden (APIError code d r) = (code = 403)"
| "IsForbidden _ = False"

fun IsUnsupported :: "sdk_error \<Rightarrow> bool" where
  "IsUnsupported (APIError code d r) = (code = 501)"
| "IsUnsupported _ = False"

subsection \<open>One round trip\<close>

record sdk_request =
  rq_url :: string
  rq_auth :: string
  rq_idem :: "string option"
  rq_body :: obj

definition methodURL :: "string \<Rightarrow> Client \<Rightarrow> string" where
  "methodURL m c =
     (if cl_botToken c \<noteq> [] then cl_base c @ ''/tgapi/bot'' @ cl_botToken c @ ''/'' @ m
      else cl_base c @ ''/v1/sessions/'' @ cl_alias c @ ''/'' @ m)"

definition request :: "string \<Rightarrow> obj \<Rightarrow> string \<Rightarrow> Client \<Rightarrow> sdk_request" where
  "request m body idemKey c = \<lparr>rq_url = methodURL m c, rq_auth = ''Bearer '' @ cl_appSecret c,
     rq_idem = (if idemKey \<noteq> [] then Some idemKey else None), rq_body = body\<rparr>"

datatype transport = NoAnswer string | Unread string | Answer int "obj option"

text \<open>
  Decoding into typed fields: a missing or null field keeps its zero, a value of another type is an error. An integer field
  takes a number that is integral and in range. The result is kept raw, \<open>None\<close> when there is none.
\<close>

definition bool_field :: "obj \<Rightarrow> string \<Rightarrow> bool option" where
  "bool_field m k = (case obj_get m k of JNull \<Rightarrow> Some False | JBool b \<Rightarrow> Some b | _ \<Rightarrow> None)"

definition str_field :: "obj \<Rightarrow> string \<Rightarrow> string option" where
  "str_field m k = (case obj_get m k of JNull \<Rightarrow> Some [] | JStr s \<Rightarrow> Some s | _ \<Rightarrow> None)"

definition int_field :: "obj \<Rightarrow> string \<Rightarrow> int option" where
  "int_field m k = (case obj_get m k of
       JNull \<Rightarrow> Some 0
     | JInt n \<Rightarrow> if int64 n then Some n else None
     | JNum r \<Rightarrow> if r = of_int \<lfloor>r\<rfloor> \<and> int64 \<lfloor>r\<rfloor> then Some \<lfloor>r\<rfloor> else None
     | _ \<Rightarrow> None)"

definition num_field :: "obj \<Rightarrow> string \<Rightarrow> rat option" where
  "num_field m k = (case obj_get m k of JNull \<Rightarrow> Some 0 | JInt n \<Rightarrow> Some (of_int n) | JNum r \<Rightarrow> Some r | _ \<Rightarrow> None)"

definition retry_field :: "obj \<Rightarrow> rat option" where
  "retry_field m = (case obj_get m ''parameters'' of JNull \<Rightarrow> Some 0 | JObj p \<Rightarrow> num_field p ''retry_after'' | _ \<Rightarrow> None)"

definition read_envelope :: "int \<Rightarrow> obj \<Rightarrow> sdk_error + (json option \<times> bool)" where
  "read_envelope status m =
     (case (bool_field m ''ok'', int_field m ''error_code'', str_field m ''description'', bool_field m ''idempotent_replay'', retry_field m) of
        (Some ok, Some code, Some desc, Some replay, Some retry) \<Rightarrow>
          if ok then Inr (map_of m ''result'', replay) else Inl (APIError (if code \<noteq> 0 then code else status) desc retry)
      | _ \<Rightarrow> Inl (BadEnvelope status))"

definition do_call :: "transport \<Rightarrow> sdk_error + (json option \<times> bool)" where
  "do_call t = (case t of
       NoAnswer e \<Rightarrow> Inl (CallFailed e)
     | Unread e \<Rightarrow> Inl (ReadFailed e)
     | Answer status None \<Rightarrow> Inl (BadEnvelope status)
     | Answer status (Some m) \<Rightarrow> read_envelope status m)"

definition SDK_Call :: "(sdk_request \<Rightarrow> transport) \<Rightarrow> string \<Rightarrow> obj \<Rightarrow> Client \<Rightarrow> sdk_error + json option" where
  "SDK_Call net m body c = (case do_call (net (request m body [] c)) of Inl e \<Rightarrow> Inl e | Inr (raw, replay) \<Rightarrow> Inr raw)"

text \<open>The message of a send: its number and the raw result.\<close>

definition SendMessageIdempotent :: "(sdk_request \<Rightarrow> transport) \<Rightarrow> string \<Rightarrow> int \<Rightarrow> string \<Rightarrow> obj \<Rightarrow> Client \<Rightarrow> sdk_error + (int \<times> json)" where
  "SendMessageIdempotent net idemKey chatID msg extra c =
     (let body = fold (\<lambda>(k, v) m. obj_put k v m) extra [(''chat_id'', JInt chatID), (''text'', JStr msg)] in
      case do_call (net (request ''sendMessage'' body idemKey c)) of
        Inl e \<Rightarrow> Inl e
      | Inr (raw, replay) \<Rightarrow>
          if replay then Inl ErrReplayed
          else (case raw of
              Some (JObj m) \<Rightarrow> (case int_field m ''message_id'' of Some i \<Rightarrow> Inr (i, JObj m) | None \<Rightarrow> Inl (DecodeFailed ''message''))
            | Some JNull \<Rightarrow> Inr (0, JNull)
            | _ \<Rightarrow> Inl (DecodeFailed ''message'')))"

text \<open>The key is random bytes in hexadecimal, or the clock when there are none.\<close>

definition newIdemKey :: "string option \<Rightarrow> int \<Rightarrow> string" where
  "newIdemKey bytes16 nanos = (case bytes16 of
       Some b \<Rightarrow> concat (map (\<lambda>c. [hex_digit (of_char c div 16), hex_digit (of_char c mod 16)]) b)
     | None \<Rightarrow> ''tggw-'' @ FormatInt nanos)"

definition SDK_SendMessage ::
  "(sdk_request \<Rightarrow> transport) \<Rightarrow> string option \<Rightarrow> int \<Rightarrow> int \<Rightarrow> string \<Rightarrow> obj \<Rightarrow> Client \<Rightarrow> sdk_error + (int \<times> json)" where
  "SDK_SendMessage net bytes16 nanos chatID msg extra c = SendMessageIdempotent net (newIdemKey bytes16 nanos) chatID msg extra c"

subsection \<open>Pulling updates\<close>

definition pull_body :: "int \<Rightarrow> int \<Rightarrow> int \<Rightarrow> obj" where
  "pull_body wait limit off =
     [(''timeout'', JInt wait), (''limit'', JInt limit)] @ (if off > 0 then [(''offset'', JInt (wrap64 (off + 1)))] else [])"

fun read_update :: "json \<Rightarrow> int option" where
  "read_update (JObj m) = int_field m ''update_id''"
| "read_update JNull = Some 0"
| "read_update _ = None"

fun read_updates :: "int \<Rightarrow> json list \<Rightarrow> (int \<times> (int \<times> json) list) option" where
  "read_updates off [] = Some (off, [])"
| "read_updates off (u # us) = (case read_update u of
       None \<Rightarrow> None
     | Some i \<Rightarrow> map_option (\<lambda>(o', out). (o', (i, u) # out)) (read_updates (if i > off then i else off) us))"

definition PullUpdates :: "(sdk_request \<Rightarrow> transport) \<Rightarrow> int \<Rightarrow> int \<Rightarrow> Client \<Rightarrow> Client \<times> (sdk_error + (int \<times> json) list)" where
  "PullUpdates net wait limit c =
     (case do_call (net (request ''getUpdates'' (pull_body wait limit (cl_offset c)) [] c)) of
        Inl e \<Rightarrow> (c, Inl e)
      | Inr (raw, replay) \<Rightarrow>
          (case (case raw of Some (JArr us) \<Rightarrow> Some us | Some JNull \<Rightarrow> Some [] | _ \<Rightarrow> None) of
             None \<Rightarrow> (c, Inl (DecodeFailed ''updates''))
           | Some us \<Rightarrow> (case read_updates (cl_offset c) us of
                 None \<Rightarrow> (c, Inl (DecodeFailed ''update_id''))
               | Some (off, out) \<Rightarrow> (c\<lparr>cl_offset := off\<rparr>, Inr out))))"

definition Offset :: "Client \<Rightarrow> int" where
  "Offset c = cl_offset c"

definition SetOffset :: "int \<Rightarrow> Client \<Rightarrow> Client" where
  "SetOffset i c = c\<lparr>cl_offset := i\<rparr>"

subsection \<open>On top of the gateway\<close>

text \<open>
  What can happen to a pull on the way: it does not arrive, the answer is lost or unreadable after the gateway has served it,
  or all is well. A poll carries the outcome of the gateway's acknowledgement, the wait and the limit.
\<close>

datatype fate = Delivered | RequestLost string | ReplyLost string | ReplyCut

definition sdk_poll ::
  "(string \<Rightarrow> rat option) \<Rightarrow> ack_io \<times> int \<times> int \<times> fate \<Rightarrow> 'k px \<times> Client \<Rightarrow> ('k px \<times> Client) \<times> obj list" where
  "sdk_poll sg p s =
     (let (io, wait, limit, way) = p; (x, c) = s;
          served = internalGetUpdates sg (io, [Timeout]) (decoded_obj (pull_body wait limit (cl_offset c))) x;
          (x', t) = (case way of
              RequestLost e \<Rightarrow> (x, NoAnswer e)
            | _ \<Rightarrow> (case served of
                  None \<Rightarrow> (x, NoAnswer [])
                | Some (x1, resp) \<Rightarrow> (x1, case way of
                      ReplyLost e \<Rightarrow> Unread e
                    | ReplyCut \<Rightarrow> Answer (gw_status resp) None
                    | _ \<Rightarrow> Answer (gw_status resp) (Some (decoded_obj (jsonBody resp))))));
          (c', r) = PullUpdates (\<lambda>_. t) wait limit c
      in ((x', c'), case r of Inl e \<Rightarrow> [] | Inr us \<Rightarrow> concat (map (\<lambda>(i, u). case u of JObj m \<Rightarrow> [m] | _ \<Rightarrow> []) us)))"

definition sdk_view :: "'k px \<times> Client \<Rightarrow> bus_state" where
  "sdk_view s = (squeue (x_sess (fst s)), if cl_offset (snd s) > 0 then Some (cl_offset (snd s) + 1) else None)"

definition sdk_unseen :: "'k px \<times> Client \<Rightarrow> obj list" where
  "sdk_unseen s = map decoded_obj (unseen (sdk_view s))"

definition sdk_feed :: "push_io \<times> (int \<times> obj) list \<Rightarrow> 'k px \<times> Client \<Rightarrow> 'k px \<times> Client" where
  "sdk_feed f s = ((fst s)\<lparr>x_sess := (x_sess (fst s))\<lparr>squeue := fst (feed f (sdk_view s))\<rparr>\<rparr>, snd s)"

text \<open>Telegram's numbers: positive integers below the largest int64, written as such.\<close>

definition exact_id :: "obj \<Rightarrow> bool" where
  "exact_id u = (case obj_get u ''update_id'' of
       JInt n \<Rightarrow> 0 < n \<and> n < max_int64
     | JNum r \<Rightarrow> r = of_int \<lfloor>r\<rfloor> \<and> 0 < \<lfloor>r\<rfloor> \<and> \<lfloor>r\<rfloor> < max_int64
     | _ \<Rightarrow> False)"

definition sdk_inv :: "'k px \<times> Client \<Rightarrow> bool" where
  "sdk_inv s \<longleftrightarrow> bus_inv (sdk_view s) \<and> cl_offset (snd s) < max_int64 \<and> list_all (\<lambda>e. exact_id (Update e)) (items (fst (sdk_view s)))"

definition sdk_feed_ok :: "push_io \<times> (int \<times> obj) list \<Rightarrow> 'k px \<times> Client \<Rightarrow> bool" where
  "sdk_feed_ok f s \<longleftrightarrow> feed_ok f (sdk_view s) \<and> list_all (exact_id \<circ> snd) (snd f)"

subsection \<open>The laws of a lossy bus\<close>

lemma exact_named:
  assumes "exact_id u" "named_by i u"
  shows "read_update (JObj (decoded_obj u)) = Some i" "0 < i" "i < max_int64"
proof -
  have "(\<exists>n. (obj_get u ''update_id'' = JInt n \<or> obj_get u ''update_id'' = JNum (of_int n)) \<and> 0 < n \<and> n < max_int64)"
    using assms(1) by (auto simp: exact_id_def split: json.splits)
  then obtain n where n: "obj_get u ''update_id'' = JInt n \<or> obj_get u ''update_id'' = JNum (of_int n)" "0 < n" "n < max_int64" by blast
  then have "int64 n" by (simp add: int64_def)
  with n(1) assms(2) have "n = i" by (auto simp: named_by_def)
  with n \<open>int64 n\<close> show "read_update (JObj (decoded_obj u)) = Some i" "0 < i" "i < max_int64"
    by (auto simp: int_field_def obj_get_decoded)
qed

definition raise_to :: "int \<Rightarrow> int \<Rightarrow> int" where
  "raise_to i off = (if i > off then i else off)"

lemma read_updates_ids:
  assumes "\<And>e. e \<in> set es \<Longrightarrow> read_update (JObj (decoded_obj (Update e))) = Some (UpdateID e)"
  shows "read_updates off (map (\<lambda>e. JObj (decoded_obj (Update e))) es) =
    Some (fold raise_to (map UpdateID es) off, map (\<lambda>e. (UpdateID e, JObj (decoded_obj (Update e)))) es)"
  using assms by (induction es arbitrary: off) (simp_all add: raise_to_def del: read_update.simps)

lemma raise_to_last:
  "sorted_wrt (<) (off # map UpdateID es) \<Longrightarrow> fold raise_to (map UpdateID es) off = (if es = [] then off else UpdateID (last es))"
  by (induction es arbitrary: off) (auto simp: raise_to_def)

lemma Pull_timeout: "\<exists>r. Pull io off limit [Timeout] q = Some r"
  by (simp add: Pull_def Let_def)

lemma items_Ack: "set (items (Ack io n q)) \<subseteq> set (items q)"
  by (auto simp: Ack_def ack_mem_def Let_def dest: set_dropWhileD)

text \<open>The queue after the gateway has noted the cursor and nothing reached the consumer.\<close>

lemma acked_view:
  assumes "bus_inv (q, off)" "q1 = (case off of None \<Rightarrow> q | Some n \<Rightarrow> Ack io (wrap64 (n - 1)) q)"
  shows "bus_inv (q1, off)" "unseen (q1, off) = unseen (q, off)" "set (items q1) \<subseteq> set (items q)"
proof -
  note a = consumer_ack [OF assms]
  have "bound (q1, off) = bound (q, off)" using a(3) by (auto simp: bound_def split: option.splits)
  then show "unseen (q1, off) = unseen (q, off)" using a(4) by (simp add: unseen_def)
  show "bus_inv (q1, off)" using assms(1) a by (simp add: bus_inv_def)
  show "set (items q1) \<subseteq> set (items q)" using assms(2) items_Ack by (auto split: option.splits)
qed

text \<open>What the gateway does for a pull.\<close>

lemma pull_served:
  assumes "sdk_inv (x, c)"
  obtains q1 vis n l where "0 < n" "vis = filter (\<lambda>e. UpdateID e > bound (sdk_view (x, c))) (items (squeue (x_sess x)))"
    "internalGetUpdates sg (io, [Timeout]) (decoded_obj (pull_body wait limit (cl_offset c))) x =
       Some (x\<lparr>x_sess := (x_sess x)\<lparr>squeue := q1\<rparr>\<rparr>, jsonResp 200 (ok_body (JArr (map JObj (map Update (take n vis))))))"
    "q1 = (case snd (sdk_view (x, c)) of None \<Rightarrow> squeue (x_sess x) | Some n \<Rightarrow> Ack io (wrap64 (n - 1)) (squeue (x_sess x)))"
    "poll (io, l) (sdk_view (x, c)) =
       ((q1, if vis = [] then snd (sdk_view (x, c)) else Some (UpdateID (last (take n vis)) + 1)), map Update (take n vis))"
proof -
  let ?q = "squeue (x_sess x)" and ?body = "decoded_obj (pull_body wait limit (cl_offset c))"
  define off where "off = snd (sdk_view (x, c))"
  have view: "sdk_view (x, c) = (?q, off)" by (simp add: sdk_view_def off_def)
  have inv: "bus_inv (?q, off)" using assms view by (simp add: sdk_inv_def)
  define m where "m = int64_of_float (numberOf sg (obj_get ?body ''limit''))"
  define l where "l = (if m = 0 then 100 else m)"
  define q1 where "q1 = (case off of None \<Rightarrow> ?q | Some n \<Rightarrow> Ack io (wrap64 (n - 1)) ?q)"
  define vis where "vis = filter (\<lambda>e. UpdateID e > bound (?q, off)) (items ?q)"
  define n where "n = nat (if l \<le> 0 then 100 else l)"
  have int: "int64 (cl_offset c + 1)" if "cl_offset c > 0" using assms that by (simp add: sdk_inv_def int64_def)
  then have po: "pull_offset (obj_get ?body ''offset'') = off"
    by (simp add: off_def pull_body_def sdk_view_def obj_get_def pull_offset_def decoded_obj_def del: of_int_add)
  have p: "poll (io, l) (?q, off) = ((q1, if vis = [] then off else Some (UpdateID (last (take n vis)) + 1)), map Update (take n vis))"
    by (rule poll_unfold [OF inv _ vis_def]) (simp_all add: q1_def n_def split: option.split)
  obtain q' out where pull: "Pull io off l [Timeout] ?q = Some (q', out)" using Pull_timeout by (metis prod.exhaust)
  have "q' = q1" "out = map Update (take n vis)" using p pull by (simp_all add: poll_def)
  then have "internalGetUpdates sg (io, [Timeout]) ?body x =
       Some (x\<lparr>x_sess := (x_sess x)\<lparr>squeue := q1\<rparr>\<rparr>, jsonResp 200 (ok_body (JArr (map JObj (map Update (take n vis))))))"
    using pull po by (simp add: internalGetUpdates_def Let_def flip: m_def l_def)
  moreover have "0 < n" by (auto simp: n_def)
  ultimately show thesis using that [of n vis q1 l] p by (simp add: view q1_def vis_def)
qed

lemma envelope_of_updates:
  "do_call (Answer 200 (Some (decoded_obj (ok_body (JArr (map JObj us)))))) = Inr (Some (JArr (map (\<lambda>u. JObj (decoded_obj u)) us)), False)"
  by (simp add: do_call_def read_envelope_def ok_body_def decoded_obj_def obj_get_def bool_field_def int_field_def str_field_def retry_field_def
      o_def int64_def)

text \<open>A pull whose answer arrives: the cursor is the last id, and what was handed over is no longer unseen.\<close>

lemma delivered_poll:
  assumes inv: "sdk_inv (x, c)"
  shows "sdk_inv (fst (sdk_poll sg (io, wait, limit, Delivered) (x, c))) \<and>
    sdk_unseen (x, c) = snd (sdk_poll sg (io, wait, limit, Delivered) (x, c)) @ sdk_unseen (fst (sdk_poll sg (io, wait, limit, Delivered) (x, c)))"
proof -
  obtain q1 vis n l where v: "0 < n" "vis = filter (\<lambda>e. UpdateID e > bound (sdk_view (x, c))) (items (squeue (x_sess x)))"
    "internalGetUpdates sg (io, [Timeout]) (decoded_obj (pull_body wait limit (cl_offset c))) x =
       Some (x\<lparr>x_sess := (x_sess x)\<lparr>squeue := q1\<rparr>\<rparr>, jsonResp 200 (ok_body (JArr (map JObj (map Update (take n vis))))))"
    "q1 = (case snd (sdk_view (x, c)) of None \<Rightarrow> squeue (x_sess x) | Some n \<Rightarrow> Ack io (wrap64 (n - 1)) (squeue (x_sess x)))"
    "poll (io, l) (sdk_view (x, c)) =
       ((q1, if vis = [] then snd (sdk_view (x, c)) else Some (UpdateID (last (take n vis)) + 1)), map Update (take n vis))"
    by (rule pull_served [OF inv, of sg io wait limit])
  let ?x1 = "x\<lparr>x_sess := (x_sess x)\<lparr>squeue := q1\<rparr>\<rparr>"
  have b: "bus_inv (squeue (x_sess x), snd (sdk_view (x, c)))" using inv by (simp add: sdk_inv_def sdk_view_def)
  note a = acked_view [OF b v(4)]
  let ?es = "take n vis"
  have sub: "set ?es \<subseteq> set (items (squeue (x_sess x)))" using v(2) by (auto dest: in_set_takeD)
  have nb: "named_by (UpdateID e) (Update e)" "exact_id (Update e)" if "e \<in> set ?es" for e
    using that sub inv by (auto simp: sdk_inv_def sdk_view_def bus_inv_def queue_inv_def list_all_iff)
  have above: "cl_offset c < UpdateID e" if "e \<in> set ?es" for e
  proof -
    have "0 < UpdateID e" using exact_named [OF nb(2,1)] that by blast
    moreover have "bound (sdk_view (x, c)) < UpdateID e" using that v(2) by (auto dest: in_set_takeD)
    ultimately show ?thesis by (auto simp: bound_def sdk_view_def split: if_splits)
  qed
  have srt: "sorted_wrt (<) (map UpdateID ?es)"
    using b v(2) by (auto simp: bus_inv_def sorted_wrt_map intro!: sorted_wrt_take sorted_wrt_filter)
  let ?c = "if vis = [] then c else c\<lparr>cl_offset := UpdateID (last ?es)\<rparr>"
  have "read_updates (cl_offset c) (map (\<lambda>e. JObj (decoded_obj (Update e))) ?es) =
      Some (cl_offset ?c, map (\<lambda>e. (UpdateID e, JObj (decoded_obj (Update e)))) ?es)"
    using read_updates_ids [of ?es "cl_offset c"] raise_to_last [of "cl_offset c" ?es] exact_named(1) [OF nb(2,1)] srt above v(1) by auto
  then have r: "sdk_poll sg (io, wait, limit, Delivered) (x, c) = ((?x1, ?c), map decoded_obj (map Update ?es))"
    using v(3) envelope_of_updates [of "map Update ?es"]
    by (simp add: sdk_poll_def jsonResp_def PullUpdates_def o_def concat_map_singleton)
  have pos: "0 < UpdateID (last ?es)" "UpdateID (last ?es) < max_int64" if "vis \<noteq> []"
    using exact_named(2,3) [OF nb(2,1), of "last ?es"] that v(1) by auto
  have view: "sdk_view (?x1, ?c) = fst (poll (io, l) (sdk_view (x, c)))"
    using v(5) pos by (auto simp: sdk_view_def)
  have "bus_inv (sdk_view (x, c))" using inv by (simp add: sdk_inv_def)
  from poll_law(1) [OF this, of "(io, l)"] v(5) have "bus_inv (sdk_view (?x1, ?c))" "unseen (sdk_view (x, c)) = map Update ?es @ unseen (sdk_view (?x1, ?c))"
    using view by simp_all
  moreover have "cl_offset ?c < max_int64" using pos inv by (auto simp: sdk_inv_def)
  moreover have "list_all (\<lambda>e. exact_id (Update e)) (items q1)" using inv a(3) by (auto simp: sdk_inv_def sdk_view_def list_all_iff)
  ultimately show ?thesis by (simp add: r sdk_inv_def sdk_unseen_def) (simp add: sdk_view_def)
qed

lemma sdk_poll_law:
  assumes inv: "sdk_inv s"
  shows "sdk_inv (fst (sdk_poll sg p s)) \<and> sdk_unseen s = snd (sdk_poll sg p s) @ sdk_unseen (fst (sdk_poll sg p s))"
proof -
  obtain x c where s: "s = (x, c)" by (cases s)
  obtain io wait limit way where p: "p = (io, wait, limit, way)" by (cases p) auto
  obtain q1 vis n l where v: "0 < n" "vis = filter (\<lambda>e. UpdateID e > bound (sdk_view (x, c))) (items (squeue (x_sess x)))"
    "internalGetUpdates sg (io, [Timeout]) (decoded_obj (pull_body wait limit (cl_offset c))) x =
       Some (x\<lparr>x_sess := (x_sess x)\<lparr>squeue := q1\<rparr>\<rparr>, jsonResp 200 (ok_body (JArr (map JObj (map Update (take n vis))))))"
    "q1 = (case snd (sdk_view (x, c)) of None \<Rightarrow> squeue (x_sess x) | Some n \<Rightarrow> Ack io (wrap64 (n - 1)) (squeue (x_sess x)))"
    "poll (io, l) (sdk_view (x, c)) =
       ((q1, if vis = [] then snd (sdk_view (x, c)) else Some (UpdateID (last (take n vis)) + 1)), map Update (take n vis))"
    by (rule pull_served [OF inv [unfolded s], of sg io wait limit])
  let ?x1 = "x\<lparr>x_sess := (x_sess x)\<lparr>squeue := q1\<rparr>\<rparr>"
  have b: "bus_inv (squeue (x_sess x), snd (sdk_view (x, c)))" using inv s by (simp add: sdk_inv_def sdk_view_def)
  note a = acked_view [OF b v(4)]
  have ack: "sdk_inv (?x1, c) \<and> sdk_unseen (?x1, c) = sdk_unseen (x, c)"
    using a inv s by (auto simp: sdk_inv_def sdk_view_def sdk_unseen_def list_all_iff)
  show ?thesis
  proof (cases way)
    case Delivered
    then show ?thesis using delivered_poll [OF inv [unfolded s]] s p by simp
  next
    case (RequestLost e)
    then show ?thesis using inv s p by (simp add: sdk_poll_def PullUpdates_def do_call_def)
  next
    case (ReplyLost e)
    then show ?thesis using ack s p v(3) by (simp add: sdk_poll_def PullUpdates_def do_call_def)
  next
    case ReplyCut
    then show ?thesis using ack s p v(3) by (simp add: sdk_poll_def PullUpdates_def do_call_def)
  qed
qed

lemma feed_items:
  assumes inv: "bus_inv s" and ok: "feed_ok f s"
  shows "set (map Update (items (fst (feed f s)))) = set (map Update (items (fst s))) \<union> snd ` set (snd f)"
proof -
  obtain q off where s: "s = (q, off)" by (cases s)
  obtain q' where push: "PushAll (fst f) (snd f) q = Some (q', PushOk)" "loss_count q' = loss_count q"
    and asc: "ascending_from (high s) (snd f)"
    using ok s by (auto simp: feed_ok_def split: option.splits prod.splits)
  have qi: "queue_inv q" "sorted_wrt (<) (map UpdateID (items q))" using inv s by (auto simp: bus_inv_def)
  have "\<forall>e\<in>set (items q). UpdateID e \<le> high s" using high_bounds(3) [of _ s] s by auto
  from PushAll_lossless [OF qi asc this push] obtain new where n: "items q' = items q @ new" "map Update new = map snd (snd f)" by metis
  then have "set (map Update new) = snd ` set (snd f)" by (simp only: set_map)
  then show ?thesis using n(1) push(1) s by (simp add: feed_def)
qed

lemma sdk_feed_law:
  assumes inv: "sdk_inv s" and ok: "sdk_feed_ok f s"
  shows "sdk_inv (sdk_feed f s) \<and> sdk_unseen (sdk_feed f s) = sdk_unseen s @ map (decoded_obj \<circ> snd) (snd f)"
proof -
  have "snd (feed f (sdk_view s)) = snd (sdk_view s)" by (simp add: feed_def split: option.split)
  then have view: "sdk_view (sdk_feed f s) = feed f (sdk_view s)"
    by (cases "feed f (sdk_view s)") (simp add: sdk_feed_def sdk_view_def)
  have b: "bus_inv (sdk_view s)" "feed_ok f (sdk_view s)" using inv ok by (simp_all add: sdk_inv_def sdk_feed_ok_def)
  have "exact_id u" if "u \<in> set (map Update (items (fst (feed f (sdk_view s)))))" for u
    using that inv ok unfolding feed_items [OF b] by (auto simp: sdk_inv_def sdk_feed_ok_def list_all_iff)
  then have "list_all (\<lambda>e. exact_id (Update e)) (items (fst (feed f (sdk_view s))))" by (simp add: list_all_iff)
  then show ?thesis using feed_law [OF b] view inv by (simp add: sdk_inv_def sdk_unseen_def sdk_feed_def)
qed

interpretation sdk: lossy_bus sdk_inv sdk_unseen sdk_feed "\<lambda>f. map (decoded_obj \<circ> snd) (snd f)" sdk_feed_ok "sdk_poll sg"
  by unfold_locales (rule sdk_feed_law, assumption+, rule sdk_poll_law)

text \<open>
  C7. The SDK delivers exactly once over an unreliable network. Take any session in which the gateway's poller pushes updates and a
  program calls \<^verbatim>\<open>PullUpdates\<close>, where any of the calls may fail before it reaches the gateway, lose its answer after the gateway has
  served it, or get an unreadable one. As long as the queue drops nothing, what the calls returned, in order, followed by
  what is still to come is what was to come at the start followed by everything pushed: a failed call loses nothing and
  nothing is handed over twice.
\<close>

theorem sdk_exactly_once:
  assumes "sdk_inv s" "sdk.session_ok sg es s"
  shows "snd (sdk.session sg es s) @ sdk_unseen (fst (sdk.session sg es s)) = sdk_unseen s @ sdk.fed es"
  using sdk.exactly_once [OF assms] by blast

text \<open>
  On the other plane updates carry no \<^verbatim>\<open>update_id\<close>, so that the cursor stays where it was and no offset is ever sent.
\<close>

lemma cursor_stays_without_ids:
  assumes "\<forall>u \<in> set us. \<exists>m. u = JObj m \<and> obj_get m ''update_id'' = JNull" "0 \<le> off"
  shows "\<exists>out. read_updates off us = Some (off, out)"
  using assms by (induction us) (auto simp: int_field_def)

text \<open>An answer over the limit is cut and cannot be read; the cursor stays, and the next call asks for the same batch again.\<close>

lemma cut_reply_keeps_cursor: "PullUpdates (\<lambda>_. Answer st None) wait limit c = (c, Inl (BadEnvelope st))"
  by (simp add: PullUpdates_def do_call_def)

subsection \<open>Witnesses\<close>

definition demo_sdk :: "string px \<times> Client" where
  "demo_sdk = (demo_px\<lparr>x_sess := (x_sess demo_px)\<lparr>squeue := small_queue\<rparr>\<rparr>, NewBotAPI ''http://tggw:8080/'' ''s'' ''t'')"

definition demo_events :: "(push_io \<times> (int \<times> obj) list, ack_io \<times> int \<times> int \<times> fate) bus_event list" where
  "demo_events = [Feed (calm_push, [(0, upd 1), (0, upd 2)]), Poll (calm_ack, 30, 1, ReplyLost ''eof''), Poll (calm_ack, 30, 1, Delivered),
     Poll (calm_ack, 30, 5, RequestLost ''refused'')]"

theorem sdk_exactly_once_witness:
  "snd (sdk.session (\<lambda>_. None) demo_events demo_sdk) @ sdk_unseen (fst (sdk.session (\<lambda>_. None) demo_events demo_sdk)) =
     [decoded_obj (upd 1), decoded_obj (upd 2)]"
proof -
  have v: "sdk_view demo_sdk = (small_queue, None)" by (simp add: demo_sdk_def sdk_view_def NewBotAPI_def)
  have e: "items small_queue = []" "cl_offset (snd demo_sdk) = 0" by (simp_all add: small_queue_def demo_sdk_def NewBotAPI_def)
  have "bus_inv (small_queue, None)" using small_queue_inv by (simp add: bus_inv_def small_queue_def)
  then have i: "sdk_inv demo_sdk" by (simp add: sdk_inv_def v e)
  have "feed_ok (calm_push, [(0, upd 1), (0, upd 2)]) (small_queue, None)"
    by (simp add: feed_ok_def high_def bound_def PushAll_def pruneExpired_def small_queue_def
        identify_def int64_of_float_def trunc_rat_def int64_def append_item_def signal_def
        persist_batch_def loss_count_def)
  then have "sdk_feed_ok (calm_push, [(0, upd 1), (0, upd 2)]) demo_sdk"
    by (simp add: sdk_feed_ok_def v exact_id_def obj_get_def upd_def)
  then have "sdk.session_ok (\<lambda>_. None) demo_events demo_sdk" by (simp add: demo_events_def)
  from sdk_exactly_once [OF i this] show ?thesis by (simp add: demo_events_def sdk_unseen_def v unseen_def e)
qed

end
