(* ===== verification/Tggw.thy ===== *)
theory Tggw
  imports BotAdmin MTAdmin Migrate
begin

text \<open>
  The binary: \<^verbatim>\<open>cmd/tggw\<close> (the commands and the preflight that guards both planes), \<^verbatim>\<open>RunServe\<close> of the
  two planes, and the HTTP client the Bot API plane is started with (\<^verbatim>\<open>internal/botapi/client.go\<close>).

  A volume is what \<^verbatim>\<open>os.Stat\<close> answers: the device of every path that exists. An absolute clean path is the
  list of its components, innermost first: \<open>render\<close> prints it, and its \<^verbatim>\<open>filepath.Dir\<close> is its tail.
\<close>

subsection \<open>The upstream client\<close>

record httpRequest =
  rq_Method :: string
  rq_URL :: string
  rq_Body :: "obj option"
  rq_RawBody :: "string option"
  rq_Reader :: "string option"
  rq_ContentLength :: int
  rq_Header :: "(string \<times> string) list"

text \<open>
  What goes out. \<^verbatim>\<open>http.NewRequest\<close> takes the length of a \<^verbatim>\<open>bytes.Reader\<close>; that of any other reader
  stays unknown, which is 0 there.
\<close>

record wire_request =
  wr_Method :: string
  wr_URL :: string
  wr_Body :: "string option"
  wr_ContentLength :: int
  wr_ContentType :: "string option"

definition body_limit :: nat where
  "body_limit = 64 * 2 ^ 20"

definition request_body :: "(obj \<Rightarrow> string + string) \<Rightarrow> httpRequest \<Rightarrow> string + (string option \<times> int)" where
  "request_body marshal req =
     (case rq_Reader req of
        Some s \<Rightarrow> Inr (Some s, 0)
      | None \<Rightarrow>
          (case rq_RawBody req of
             Some b \<Rightarrow> Inr (Some b, int (length b))
           | None \<Rightarrow>
               (case rq_Body req of
                  Some m \<Rightarrow> map_sum id (\<lambda>b. (Some b, int (length b))) (marshal m)
                | None \<Rightarrow> Inr (if rq_Method req = ''POST'' then (Some ''{}'', 2) else (None, 0)))))"

definition content_type :: "httpRequest \<Rightarrow> string option" where
  "content_type req =
     (case map_of (rq_Header req) ''Content-Type'' of
        Some (c # cs) \<Rightarrow> Some (c # cs)
      | _ \<Rightarrow> if rq_Body req \<noteq> None \<or> rq_RawBody req \<noteq> None \<or> rq_Reader req \<noteq> None then Some ''application/json'' else None)"

text \<open>
  An answer is a status, the bytes of the body up to the point where reading them fails, and that failure.
  \<^verbatim>\<open>io.LimitReader\<close> ends the body at the limit and reads no further.
\<close>

definition read_limited :: "string \<times> string option \<Rightarrow> string + string" where
  "read_limited b =
     (if body_limit \<le> length (fst b) then Inr (take body_limit (fst b))
      else case snd b of Some e \<Rightarrow> Inl e | None \<Rightarrow> Inr (fst b))"

definition Do ::
  "(obj \<Rightarrow> string + string) \<Rightarrow> (wire_request \<Rightarrow> string option) \<Rightarrow> (wire_request \<Rightarrow> string + (int \<times> string \<times> string option)) \<Rightarrow>
   string \<Rightarrow> httpRequest \<Rightarrow> wire_request option \<times> (string + (int \<times> string))"
where
  "Do marshal invalid net base req =
     (let url = (if has_prefix (rq_URL req) ''http'' then rq_URL req else base @ rq_URL req) in
      case request_body marshal req of
        Inl e \<Rightarrow> (None, Inl e)
      | Inr (b, n) \<Rightarrow>
          let w = \<lparr>wr_Method = rq_Method req, wr_URL = url, wr_Body = b,
                   wr_ContentLength = (if rq_Reader req \<noteq> None then rq_ContentLength req else n), wr_ContentType = content_type req\<rparr>
          in case invalid w of
               Some e \<Rightarrow> (None, Inl e)
             | None \<Rightarrow>
                 (case net w of
                    Inl e \<Rightarrow> (Some w, Inl e)
                  | Inr (status, body) \<Rightarrow> (Some w, map_sum id (Pair status) (read_limited body))))"

subsection \<open>The data volume\<close>

type_synonym rpath = "string list"
type_synonym volume = "(string \<times> int) list"

definition render :: "rpath \<Rightarrow> string" where
  "render p = (if p = [] then ''/'' else concat (map (\<lambda>c. CHR ''/'' # c) (rev p)))"

definition clean_step :: "string \<Rightarrow> rpath \<Rightarrow> rpath" where
  "clean_step c p = (if c = [] \<or> c = ''.'' then p else if c = ''..'' then tl p else c # p)"

text \<open>\<^verbatim>\<open>filepath.Clean\<close> of a rooted path, and \<^verbatim>\<open>filepath.Abs\<close>.\<close>

definition clean :: "string \<Rightarrow> rpath" where
  "clean s = fold clean_step (split_at (CHR ''/'') s) []"

definition abs_path :: "string option \<Rightarrow> string \<Rightarrow> rpath option" where
  "abs_path wd path =
     (if has_prefix path ''/'' then Some (clean path) else map_option (\<lambda>w. clean (w @ CHR ''/'' # path)) wd)"

fun dir_from :: "string \<Rightarrow> nat \<Rightarrow> string" where
  "dir_from p 0 = ''/''"
| "dir_from p (Suc i) = (if p ! Suc i = CHR ''/'' then take (Suc i) p else dir_from p i)"

definition filepathDir :: "string \<Rightarrow> string" where
  "filepathDir p = (if p = [] then ''/'' else dir_from p (length p - 1))"

definition sameDevice :: "int \<Rightarrow> int \<Rightarrow> bool" where
  "sameDevice a b \<longleftrightarrow> a = b"

definition isRootMount :: "volume \<Rightarrow> string \<Rightarrow> bool" where
  "isRootMount v path =
     (case map_of v path of
        None \<Rightarrow> False
      | Some st \<Rightarrow> (case map_of v (filepathDir path) of None \<Rightarrow> False | Some pst \<Rightarrow> \<not> sameDevice st pst))"

fun isMount_from :: "volume \<Rightarrow> rpath \<Rightarrow> bool" where
  "isMount_from v [] = (map_of v (render []) \<noteq> None \<and> isRootMount v (render []))"
| "isMount_from v (c # p) =
     (if map_of v (render (c # p)) \<noteq> None then isRootMount v (render (c # p)) else isMount_from v p)"

definition isMount :: "string option \<Rightarrow> volume \<Rightarrow> string \<Rightarrow> bool" where
  "isMount wd v path = (case abs_path wd path of None \<Rightarrow> False | Some p \<Rightarrow> isMount_from v p)"

text \<open>\<^verbatim>\<open>os.MkdirAll\<close>, with which opening the stores creates the data directory: a new directory is on its parent's device.\<close>

fun mkdir_all :: "rpath \<Rightarrow> volume \<Rightarrow> volume" where
  "mkdir_all [] v = v"
| "mkdir_all (c # p) v =
     (if map_of v (render (c # p)) \<noteq> None then v
      else let v1 = mkdir_all p v in
        case map_of v1 (render p) of None \<Rightarrow> v1 | Some d \<Rightarrow> (render (c # p), d) # v1)"

subsection \<open>Preflight\<close>

datatype tggw_error =
  KeyRequired
| NotAMount string
| ConfigError config_error
| AppError open_error
| RunError string
| MigrateError mig_error
| CryptoError crypto_error

definition preflight :: "environ \<Rightarrow> string option \<Rightarrow> volume \<Rightarrow> string \<Rightarrow> string \<Rightarrow> tggw_error option" where
  "preflight env wd v fernetKey dataDir =
     (if fernetKey = [] then Some KeyRequired
      else if env ''GW_ALLOW_EPHEMERAL_DATA'' \<noteq> Some ''1'' \<and> \<not> isMount wd v dataDir then Some (NotAMount dataDir)
      else None)"

subsection \<open>Serving\<close>

text \<open>What ends the wait: a signal, or the listener's return. The requests served until then are \<open>served\<close>.\<close>

datatype serve_end = Signal | ListenerReturned "string option"

definition ErrServerClosed :: string where
  "ErrServerClosed = ''http: Server closed''"

definition run_serve :: "('a \<Rightarrow> 'a) \<Rightarrow> string option \<Rightarrow> ('a \<Rightarrow> 'a) \<Rightarrow> serve_end \<Rightarrow> 'a \<Rightarrow> 'a \<times> string option" where
  "run_serve close tracing served fin a =
     (case tracing of
        Some e \<Rightarrow> (a, Some e)
      | None \<Rightarrow>
          (case fin of
             ListenerReturned (Some e) \<Rightarrow>
               if e \<noteq> ErrServerClosed then (served a, Some e) else (close (served a), None)
           | _ \<Rightarrow> (close (served a), None)))"

definition BotAPI_RunServe :: "string option \<Rightarrow> ('k app \<Rightarrow> 'k app) \<Rightarrow> serve_end \<Rightarrow> 'k app \<Rightarrow> 'k app \<times> string option" where
  "BotAPI_RunServe = run_serve App_Close"

definition MT_RunServe ::
  "(nat \<Rightarrow> MTState) \<Rightarrow> bool \<Rightarrow> string option \<Rightarrow> ('k mtapp \<Rightarrow> 'k mtapp) \<Rightarrow> serve_end \<Rightarrow> 'k mtapp \<Rightarrow> 'k mtapp \<times> string option" where
  "MT_RunServe ust ok = run_serve (mt_Close ust ok)"

subsection \<open>The commands\<close>

definition runBotAPI ::
  "float_parser \<Rightarrow> environ \<Rightarrow> string option \<Rightarrow> volume \<Rightarrow> (BotAPI \<Rightarrow> open_error + ('k app \<times> string list)) \<Rightarrow>
   ('k app \<Rightarrow> 'k app \<times> string option) \<Rightarrow> 'k app option \<times> tggw_error option" where
  "runBotAPI pf env wd v new serve =
     (let cfg = BotAPIFromEnv pf env in
      case BotAPI_Validate cfg of
        Some e \<Rightarrow> (None, Some (ConfigError e))
      | None \<Rightarrow>
          (case preflight env wd v (baFernetKey cfg) (baDataDir cfg) of
             Some e \<Rightarrow> (None, Some e)
           | None \<Rightarrow>
               (case new cfg of
                  Inl e \<Rightarrow> (None, Some (AppError e))
                | Inr (a, bad) \<Rightarrow> let (a', r) = serve a in (Some a', map_option RunError r))))"

definition runMTProto ::
  "float_parser \<Rightarrow> environ \<Rightarrow> string option \<Rightarrow> volume \<Rightarrow> (MTProto \<Rightarrow> open_error + ('k mtapp \<times> string list)) \<Rightarrow>
   ('k mtapp \<Rightarrow> 'k mtapp \<times> string option) \<Rightarrow> 'k mtapp option \<times> tggw_error option" where
  "runMTProto pf env wd v new serve =
     (let cfg = MTProtoFromEnv pf env in
      case MTProto_Validate cfg of
        Some e \<Rightarrow> (None, Some (ConfigError e))
      | None \<Rightarrow>
          (case preflight env wd v (mtFernetKey cfg) (mtDataDir cfg) of
             Some e \<Rightarrow> (None, Some e)
           | None \<Rightarrow>
               (case new cfg of
                  Inl e \<Rightarrow> (None, Some (AppError e))
                | Inr (a, bad) \<Rightarrow> let (a', r) = serve a in (Some a', map_option RunError r))))"

definition runHealthcheck :: "(string \<Rightarrow> string + int) \<Rightarrow> string list \<Rightarrow> tggw_error option" where
  "runHealthcheck get args =
     (let addr = (case args of (c # cs) # _ \<Rightarrow> c # cs | _ \<Rightarrow> ''http://127.0.0.1:8080'') in
      case get (addr @ ''/healthz'') of
        Inl e \<Rightarrow> Some (RunError e)
      | Inr status \<Rightarrow> if status \<noteq> 200 then Some (RunError (''healthz status '' @ itoa status)) else None)"

definition runTerminate :: "string option \<Rightarrow> tggw_error option" where
  "runTerminate kill = map_option (\<lambda>e. RunError (''terminate: '' @ e)) kill"

text \<open>
  \<^verbatim>\<open>migrate\<close>: the flags as the \<^verbatim>\<open>flag\<close> package reads them (directory, dry run, JSON), the report, and the
  command itself, which calls \<^verbatim>\<open>migrate.Run\<close> (\<open>mrun\<close>) on directory, key and mode. \<open>err\<close> gives the text of an error.
\<close>

definition parse_bool :: "string \<Rightarrow> bool option" where
  "parse_bool s =
     (if s \<in> {''1'', ''t'', ''T'', ''TRUE'', ''true'', ''True''} then Some True
      else if s \<in> {''0'', ''f'', ''F'', ''FALSE'', ''false'', ''False''} then Some False else None)"

definition flag_name :: "string \<Rightarrow> string" where
  "flag_name a = (if take 2 a = ''--'' then drop 2 a else tl a)"

text \<open>The name before the first equals sign, which is never the first character, and the value after it.\<close>

definition flag_value :: "string \<Rightarrow> string \<times> string option" where
  "flag_value n =
     (let k = takeWhile (\<lambda>c. c \<noteq> CHR ''='') n in (k, if k = n then None else Some (drop (length k + 1) n)))"

definition flag_bool :: "string \<Rightarrow> string option \<Rightarrow> string + bool" where
  "flag_bool name v =
     (case v of
        None \<Rightarrow> Inr True
      | Some t \<Rightarrow> (case parse_bool t of Some b \<Rightarrow> Inr b | None \<Rightarrow> Inl (''invalid boolean value for -'' @ name)))"

fun parse_flags :: "string list \<Rightarrow> string \<times> bool \<times> bool \<Rightarrow> string + (string \<times> bool \<times> bool)" where
  "parse_flags [] f = Inr f"
| "parse_flags (a # args) (from, dry, js) =
     (if length a < 2 \<or> hd a \<noteq> CHR ''-'' \<or> a = ''--'' then Inr (from, dry, js)
      else if flag_name a = [] \<or> hd (flag_name a) \<in> {CHR ''-'', CHR ''=''} then Inl (''bad flag syntax: '' @ a)
      else
        let (name, v) = flag_value (flag_name a) in
        if name = ''dry-run'' then (case flag_bool name v of Inl e \<Rightarrow> Inl e | Inr b \<Rightarrow> parse_flags args (from, b, js))
        else if name = ''json'' then (case flag_bool name v of Inl e \<Rightarrow> Inl e | Inr b \<Rightarrow> parse_flags args (from, dry, b))
        else if name = ''from'' then
          (case v of
             Some d \<Rightarrow> parse_flags args (d, dry, js)
           | None \<Rightarrow>
               (case args of
                  [] \<Rightarrow> Inl ''flag needs an argument: -from''
                | d # args' \<Rightarrow> parse_flags args' (d, dry, js)))
        else if name = ''help'' \<or> name = ''h'' then Inl ''flag: help requested''
        else Inl (''flag provided but not defined: -'' @ name))"

definition arrow :: string where
  "arrow = '' '' @ map char_of [226, 134, 146 :: nat] @ '' ''"

definition login_warning :: string where
  "login_warning = ''WARNING: some sessions have no migrated auth key '' @ map char_of [226, 128, 148 :: nat] @
     '' they would login from scratch.''"

datatype mig_output = JsonReport Report | TextReport "string list"

definition pad20 :: "string \<Rightarrow> string" where
  "pad20 s = s @ replicate (20 - length s) (CHR '' '')"

definition session_line :: "(mig_error \<Rightarrow> string) \<Rightarrow> SessionReport \<Rightarrow> string" where
  "session_line err s =
     ''  '' @ pad20 (rp_Alias s) @ '' dc='' @ itoa (rp_DC s) @ '' user='' @ itoa (rp_UserID s) @ '' bot='' @
     (if rp_IsBot s then ''true'' else ''false'') @ '' key='' @ rp_AuthKeyID s @ arrow @ rp_Action s @
     (case rp_Err s of None \<Rightarrow> [] | Some e \<Rightarrow> if err e = [] then [] else '' ('' @ err e @ '')'')"

definition report_lines :: "(mig_error \<Rightarrow> string) \<Rightarrow> bool \<Rightarrow> Report \<Rightarrow> string list" where
  "report_lines err dryRun rep =
     map (session_line err) (rep_Sessions rep) @
     [''migrated='' @ itoa (int (rep_Migrated rep)) @ '' skipped='' @ itoa (int (rep_Skipped rep)) @
      '' errors='' @ itoa (int (rep_Errors rep)) @ '' needs_new_login='' @ itoa (int (rep_NeedsNewLogin rep)),
      ''Telegram logins required: '' @ itoa (int (rep_LoginsRequired rep))] @
     (if dryRun then [''(dry-run: nothing was written)''] else []) @
     (if 0 < rep_LoginsRequired rep then [login_warning] else [])"

definition runMigrate ::
  "float_parser \<Rightarrow> environ \<Rightarrow> (string \<Rightarrow> string \<Rightarrow> bool \<Rightarrow> 's \<Rightarrow> 's \<times> (mig_error + Report)) \<Rightarrow>
   (mig_error \<Rightarrow> string) \<Rightarrow> string option \<Rightarrow> string list \<Rightarrow> 's \<Rightarrow>
   's \<times> mig_output option \<times> tggw_error option"
where
  "runMigrate pf env mrun err enc args s =
     (case parse_flags args ([], False, False) of
        Inl e \<Rightarrow> (s, None, Some (RunError e))
      | Inr (from, dryRun, asJSON) \<Rightarrow>
          let dataDir = (if from = [] then mtDataDir (MTProtoFromEnv pf env) else from) in
          if dataDir = [] then (s, None, Some (RunError ''--from or GW_DATA_DIR is required''))
          else
            (case mrun dataDir (mtFernetKey (MTProtoFromEnv pf env)) dryRun s of
               (s', Inl e) \<Rightarrow> (s', None, Some (MigrateError e))
             | (s', Inr rep) \<Rightarrow>
                 if asJSON then (s', Some (JsonReport rep), map_option RunError enc)
                 else (s', Some (TextReport (report_lines err dryRun rep)), None)))"

text \<open>\<open>main\<close>: the exit status and what \<^verbatim>\<open>genkey\<close> or \<^verbatim>\<open>version\<close> prints; a command is run only when it is named.\<close>

record commands =
  cmd_botapi :: "tggw_error option"
  cmd_mtproto :: "tggw_error option"
  cmd_genkey :: "crypto_error + string"
  cmd_migrate :: "string list \<Rightarrow> tggw_error option"
  cmd_healthcheck :: "string list \<Rightarrow> tggw_error option"
  cmd_terminate :: "tggw_error option"

definition tggw_main :: "commands \<Rightarrow> string list \<Rightarrow> int \<times> string option" where
  "tggw_main C args =
     (let code = (\<lambda>e. if e = None then 0 else 1) in
      case args of
        _ # cmd # rest \<Rightarrow>
          if cmd = ''botapi'' then (code (cmd_botapi C), None)
          else if cmd = ''mtproto'' then (code (cmd_mtproto C), None)
          else if cmd = ''genkey'' then (case cmd_genkey C of Inl e \<Rightarrow> (1, None) | Inr key \<Rightarrow> (0, Some key))
          else if cmd = ''migrate'' then (code (cmd_migrate C rest), None)
          else if cmd = ''healthcheck'' then (code (cmd_healthcheck C rest), None)
          else if cmd = ''terminate'' then (code (cmd_terminate C), None)
          else if cmd = ''version'' then (0, Some Version)
          else (2, None)
      | _ \<Rightarrow> (2, None))"

subsection \<open>The upstream client keeps what it is given\<close>

text \<open>A body below the limit comes back as it is; a longer one is cut there, and no error says so.\<close>

lemma body_verbatim_below_limit: "length b < body_limit \<Longrightarrow> read_limited (b, None) = Inr b"
  by (simp add: read_limited_def)

lemma long_body_cut_silently:
  assumes "body_limit < length b"
  shows "\<exists>b'. read_limited (b, e) = Inr b' \<and> length b' < length b"
  using assms by (simp add: read_limited_def)

text \<open>A streamed upload goes out with its own length and bytes, whatever else the request carries.\<close>

lemma streamed_length_kept:
  assumes "rq_Reader req = Some s" "Do marshal invalid net base req = (Some w, r)"
  shows "wr_Body w = Some s \<and> wr_ContentLength w = rq_ContentLength req"
  using assms by (auto simp: Do_def request_body_def Let_def split: option.splits sum.splits)

subsection \<open>The mount check\<close>

definition components :: "rpath \<Rightarrow> bool" where
  "components p \<longleftrightarrow> (\<forall>c\<in>set p. c \<noteq> [] \<and> CHR ''/'' \<notin> set c)"

lemma split_at_sound: "x \<in> set (split_at d s) \<Longrightarrow> d \<notin> set x"
  by (induction d s arbitrary: x rule: split_at.induct) (fastforce split: if_splits list.splits)+

lemma clean_components: "components (clean s)"
proof -
  have step: "components p \<Longrightarrow> \<forall>x\<in>set xs. CHR ''/'' \<notin> set x \<Longrightarrow> components (fold clean_step xs p)" for xs p
  proof (induction xs arbitrary: p)
    case (Cons x xs)
    from Cons.prems have "components (clean_step x p)"
      by (cases p) (auto simp: components_def clean_step_def)
    with Cons.IH Cons.prems show ?case by simp
  qed simp
  have "\<forall>x\<in>set (split_at (CHR ''/'') s). CHR ''/'' \<notin> set x" using split_at_sound by blast
  then show ?thesis unfolding clean_def by (intro step) (simp add: components_def)
qed

lemma dir_from_append:
  assumes "CHR ''/'' \<notin> set c" "i < length c" "s \<noteq> []"
  shows "dir_from (s @ CHR ''/'' # c) (length s + Suc i) = s"
  using assms(2)
proof (induction i)
  case 0
  have "c ! 0 \<noteq> CHR ''/''" using assms(1) 0 by (metis nth_mem)
  moreover obtain n where "length s = Suc n" using assms(3) by (cases s) auto
  ultimately show ?case by (simp add: nth_append)
next
  case (Suc i)
  have "c ! Suc i \<noteq> CHR ''/''" using assms(1) Suc.prems by (metis nth_mem)
  then show ?case using Suc by (simp add: nth_append)
qed

lemma dir_from_first:
  assumes "CHR ''/'' \<notin> set c" "i \<le> length c"
  shows "dir_from (CHR ''/'' # c) i = ''/''"
  using assms(2)
proof (induction i)
  case (Suc i)
  then have "c ! i \<noteq> CHR ''/''" using assms(1) by (metis Suc_le_eq nth_mem)
  then show ?case using Suc by simp
qed simp

lemma render_Cons: "render (c # p) = (if p = [] then [] else render p) @ CHR ''/'' # c"
  by (simp add: render_def)

text \<open>The program's own \<^verbatim>\<open>filepathDir\<close> is the library's on clean paths.\<close>

lemma filepathDir_render:
  assumes "components (c # p)"
  shows "filepathDir (render (c # p)) = render p"
proof (cases "p = []")
  case True
  then show ?thesis using assms dir_from_first [of c "length c"]
    by (simp add: filepathDir_def render_def components_def)
next
  case False
  obtain i where i: "length c = Suc i" using assms by (cases c) (auto simp: components_def)
  have "render p \<noteq> []" by (simp add: render_def)
  then show ?thesis
    using assms False dir_from_append [of c i "render p"] i by (simp add: filepathDir_def render_Cons components_def)
qed

lemma filepathDir_root [simp]: "filepathDir (render []) = render []"
  by (simp add: filepathDir_def render_def)

text \<open>
  The check accepts exactly the directories whose innermost existing ancestor is a mountpoint: it exists on
  another device than its parent. The root is never one.
\<close>

fun ancestors :: "rpath \<Rightarrow> rpath list" where
  "ancestors [] = [[]]"
| "ancestors (c # p) = (c # p) # ancestors p"

definition mountpoint :: "volume \<Rightarrow> rpath \<Rightarrow> bool" where
  "mountpoint v q \<longleftrightarrow> q \<noteq> [] \<and> map_of v (render (tl q)) \<noteq> None \<and> map_of v (render q) \<noteq> map_of v (render (tl q))"

lemma isMount_from_iff:
  assumes "components p"
  shows "isMount_from v p \<longleftrightarrow>
    (\<exists>q. find (\<lambda>q. map_of v (render q) \<noteq> None) (ancestors p) = Some q \<and> mountpoint v q)"
  using assms
proof (induction p)
  case Nil
  then show ?case by (auto simp: isRootMount_def sameDevice_def mountpoint_def split: option.splits)
next
  case (Cons c p)
  then have "filepathDir (render (c # p)) = render p" "components p"
    using filepathDir_render by (auto simp: components_def)
  then show ?case using Cons.IH
    by (auto simp: isRootMount_def sameDevice_def mountpoint_def split: option.splits)
qed

text \<open>
  A data directory below the mountpoint of the volume passes on the first start, when it does not exist yet.
  Opening the stores creates it, on the volume's device, and every later start refuses it.
\<close>

lemma subdirectory_refused_after_first_start:
  assumes "components (c # p)" "map_of v (render (c # p)) = None" "map_of v (render p) = Some d" "isMount_from v p"
  shows "isMount_from v (c # p) \<and> \<not> isMount_from (mkdir_all (c # p) v) (c # p)"
proof
  show "isMount_from v (c # p)" using assms by simp
  have "mkdir_all p v = v" using assms(3) by (cases p) auto
  then have "mkdir_all (c # p) v = (render (c # p), d) # v" using assms(2, 3) by simp
  moreover have "render p \<noteq> render (c # p)" using assms(1) by (auto simp: render_Cons components_def) (simp add: render_def)
  ultimately show "\<not> isMount_from (mkdir_all (c # p) v) (c # p)"
    using assms(3) filepathDir_render [OF assms(1)] by (simp add: isRootMount_def sameDevice_def)
qed

lemma subdirectory_refused_example:
  "let v = [(''/'', 1), (''/data'', 2)]; p = clean ''/data/tg'' in
     isMount None v ''/data/tg'' \<and> \<not> isMount None (mkdir_all p v) ''/data/tg''"
  by code_simp

subsection \<open>What the commands guarantee\<close>

text \<open>A plane serves only with both secrets, an encryption key and, unless waived, a mounted data volume.\<close>

lemma botapi_behind_preflight:
  assumes "runBotAPI pf env wd v new serve = (Some a, r)"
  shows "BotAPI_Validate (BotAPIFromEnv pf env) = None \<and> baFernetKey (BotAPIFromEnv pf env) \<noteq> [] \<and>
    (env ''GW_ALLOW_EPHEMERAL_DATA'' = Some ''1'' \<or> isMount wd v (baDataDir (BotAPIFromEnv pf env)))"
  using assms by (auto simp: runBotAPI_def preflight_def Let_def split: option.splits sum.splits if_splits)

lemma mtproto_behind_preflight:
  assumes "runMTProto pf env wd v new serve = (Some a, r)"
  shows "MTProto_Validate (MTProtoFromEnv pf env) = None \<and> mtFernetKey (MTProtoFromEnv pf env) \<noteq> [] \<and>
    (env ''GW_ALLOW_EPHEMERAL_DATA'' = Some ''1'' \<or> isMount wd v (mtDataDir (MTProtoFromEnv pf env)))"
  using assms by (auto simp: runMTProto_def preflight_def Let_def split: option.splits sum.splits if_splits)

text \<open>A signal drains the app; a listener that fails ends the process without draining it.\<close>

lemma signal_closes:
  "fst (BotAPI_RunServe None served Signal a) = App_Close (served a) \<and>
   fst (MT_RunServe ust ok None served' Signal a') = mt_Close ust ok (served' a')"
  by (simp add: BotAPI_RunServe_def MT_RunServe_def run_serve_def)

lemma failed_listener_skips_close:
  assumes "e \<noteq> ErrServerClosed"
  shows "MT_RunServe ust ok None served (ListenerReturned (Some e)) a = (served a, Some e)"
  using assms by (simp add: MT_RunServe_def run_serve_def)

text \<open>
  The container's health check looks at the status alone, and the liveness probe answers 200 with
  \<^verbatim>\<open>"ok": false\<close> when the heartbeat has stopped: a stalled gateway is reported alive.
\<close>

lemma healthcheck_passes_stalled:
  "runHealthcheck (\<lambda>_. Inr (mt_status (mt_handleHealthz now1 now2 a))) args = None"
  by (simp add: runHealthcheck_def mt_handleHealthz_def mt_status_def Let_def)

text \<open>
  Without a key in the environment no plane starts, but the migration makes one up, leaves it in the data
  directory and works with it: a plane started with any other key cannot open what it sealed.
\<close>

lemma migrate_invents_key:
  assumes "env ''GW_FERNET_KEY'' = None"
  shows "preflight env wd v (mtFernetKey (MTProtoFromEnv pf env)) dir = Some KeyRequired \<and>
    LoadKey F (mtFernetKey (MTProtoFromEnv pf env)) None (Some k) True = (Inr k, Some (EncodeKey F k))"
  using assms by (simp add: preflight_def LoadKey_def MTProtoFromEnv_def envStr_def Let_def)

text \<open>The report of a run that fails is not printed, and an error of a single session does not fail the command.\<close>

lemma migrate_reports_session_errors_as_success:
  assumes "parse_flags args ([], False, False) = Inr (d, dry, False)" "d \<noteq> []"
    "mrun d (mtFernetKey (MTProtoFromEnv pf env)) dry s = (s', Inr rep)"
  shows "runMigrate pf env mrun err enc args s = (s', Some (TextReport (report_lines err dry rep)), None)"
  using assms by (simp add: runMigrate_def Let_def)

end
