(* ===== verification/Spec2Isabelle.thy ===== *)
theory Spec2Isabelle
  imports Guard_Pacing MTGuard Queue_Recovery MTStore App_Safety MTSafety MTAdapters MTAdmin MTKeys MTBelt MTLifecycle MTOperator GotdSafety Migrate Sdk Tggw
begin

text \<open>
  Verification library of the Telegram Session Gateway, a Go program that keeps Telegram sessions alive on
  behalf of consumers which come and go.

  \<^bold>\<open>The program.\<close> One binary (\<^verbatim>\<open>cmd/tggw\<close>) runs one of two planes. Both own their sessions, so that a consumer
  that restarts neither logs in again nor loses updates, and both put a rate guard between consumers and Telegram.

  \<^item> The Bot API plane (\<^verbatim>\<open>internal/botapi\<close>). A manager keeps a session per bot; a poller per session calls
    \<^verbatim>\<open>getUpdates\<close> upstream and pushes what it gets into a durable queue (\<^verbatim>\<open>store/queue.go\<close>) before the
    offset moves on. Consumers pull from the queue or are pushed to; their calls go through the proxy, which
    claims the idempotency key of a keyed send in the store (\<^verbatim>\<open>store/gateway.go\<close>), asks the guard
    (\<^verbatim>\<open>rateguard/rateguard.go\<close>) and teaches it from Telegram's 429 answers. A typing indicator runs beside it.
  \<^item> The MTProto plane (\<^verbatim>\<open>internal/mtproto\<close>). A supervisor per session takes a file lock
    (\<^verbatim>\<open>internal/lock\<close>), connects, pings and backs off; updates go onto a belt in memory and into
    \<^verbatim>\<open>store/mt.go\<close>. Calls go through method adapters and a production client (\<^verbatim>\<open>gotd_client.go\<close>) with its
    text formatting (\<^verbatim>\<open>pyformat\<close>), and through a guard of their own (\<^verbatim>\<open>rateguard/mt.go\<close>).
  \<^item> Shared: \<^verbatim>\<open>internal/config\<close>, \<^verbatim>\<open>internal/health\<close>, \<^verbatim>\<open>store/db.go\<close>, \<^verbatim>\<open>internal/cryptoutil\<close>. At the edges: the
    migration of old session files (\<^verbatim>\<open>internal/migrate\<close>) and the consumers' SDK (\<^verbatim>\<open>pkg/client\<close>).

  \<^bold>\<open>Theories and code.\<close> A theory of definitions has the names of the code where Isabelle allows them (\<open>MT_\<close>, \<open>mt_\<close>
  and \<open>MM_\<close> mark the MTProto plane's copy of a name that both planes use); a theory of properties follows it.

  \<^item> \<open>Prelude\<close>, \<open>Json\<close>, \<open>Routes\<close>: machine integers, strings, decimal numbers, dynamic values, the request multiplexer.
  \<^item> \<open>Config\<close>, \<open>Health\<close>, \<open>Crypto\<close>, \<open>Db\<close>: \<^verbatim>\<open>config.go\<close>; \<^verbatim>\<open>health.go\<close> (\<open>Beat\<close>, \<open>BootTracker\<close>, \<open>Storage\<close>); \<^verbatim>\<open>fernet.go\<close>;
    \<^verbatim>\<open>db.go\<close> (integrity gate, quarantine, backups, migrations) on a file system that is an association list.
  \<^item> \<open>Bucket\<close>, \<open>Guard\<close>, \<open>Guard_Pacing\<close>: \<^verbatim>\<open>rateguard.go\<close> and its pacing bounds. \<open>FloodParse\<close>, \<open>MTGuard\<close>: \<^verbatim>\<open>rateguard/mt.go\<close>;
    the MTProto guard extends the record of the other as the code embeds it.
  \<^item> \<open>Queue\<close>, \<open>Queue_Delivery\<close>, \<open>Queue_Consumer\<close>, \<open>Queue_Recovery\<close>: \<^verbatim>\<open>queue.go\<close>, a deque with its duplicate index and its table.
  \<^item> \<open>Idempotency\<close>, \<open>GatewayStore\<close>, \<open>MTStore\<close>: the key table both stores have, \<^verbatim>\<open>gateway.go\<close> and \<^verbatim>\<open>store/mt.go\<close>.
  \<^item> \<open>BotSession\<close>, \<open>Typing\<close>, \<open>Manager\<close>, \<open>Manager_Lifecycle\<close>, \<open>Proxy\<close>, \<open>Proxy_Pacing\<close>, \<open>Proxy_Keys\<close>, \<open>BotApp\<close>, \<open>BotAdmin\<close>, \<open>App_Safety\<close>:
    \<^verbatim>\<open>botapi/session.go\<close>, \<^verbatim>\<open>typing.go\<close>, \<^verbatim>\<open>proxy.go\<close> and \<^verbatim>\<open>app.go\<close>.
  \<^item> \<open>Lock\<close>, \<open>MTSession\<close>, \<open>MTManager\<close>, \<open>MTSafety\<close>, \<open>MTLifecycle\<close>: \<^verbatim>\<open>lock.go\<close> on a model of the kernel's locks, \<^verbatim>\<open>sessions.go\<close>.
  \<^item> \<open>MTAdapters\<close>, \<open>MTApp\<close>, \<open>MTKeys\<close>, \<open>MTBelt\<close>, \<open>MTAdmin\<close>, \<open>MTOperator\<close>: \<^verbatim>\<open>mtproto/client.go\<close> and \<^verbatim>\<open>mtproto/app.go\<close>.
  \<^item> \<open>Wire\<close>, \<open>Pyformat\<close>, \<open>Pyformat_Spans\<close>, \<open>GotdClient\<close>, \<open>GotdSafety\<close>: \<^verbatim>\<open>serialize.go\<close>, \<^verbatim>\<open>coerce.go\<close>, \<^verbatim>\<open>pyformat.go\<close>, \<^verbatim>\<open>gotd_client.go\<close>.
  \<^item> \<open>Migrate\<close>, \<open>Sdk\<close>, \<open>Tggw\<close>: \<^verbatim>\<open>migrate.go\<close>, \<^verbatim>\<open>pkg/client/client.go\<close>, \<^verbatim>\<open>cmd/tggw\<close> with \<^verbatim>\<open>RunServe\<close> and \<^verbatim>\<open>botapi/client.go\<close>.

  State is passed explicitly: a record per struct, an association list per map or table, sessions as pointers into a heap
  where several goroutines share them. A handler is one function from the state and the outcomes of its I/O (a record
  \<open>..._io\<close>: clock readings, statements that fail, answers of Telegram) to the state and the reply, with every early return.
  Goroutines are cut at the points where they block; a property over interleavings quantifies over sequences of such
  pieces or is a rule induction over a step relation (\<open>MTSafety.vol_step\<close>, \<open>Lock\<close>).

  \<^bold>\<open>Interfaces.\<close> Contracts that several components rely on are locales, interpreted on the model's own definitions.

  \<^item> \<open>metered\<close> (\<open>Bucket\<close>): a step relation with a potential bounds how much is admitted in a window. Interpreted on the
    token bucket (\<open>bk\<close>), the bot-wide lane (\<open>gl\<close>) and the lane of a chat (\<open>ch\<close>) of the guard.
  \<^item> \<open>send_guard\<close> (\<open>Idempotency\<close>): claim, finish and fail of a keyed send; at most one grant per key. Interpreted on
    the gateway store (\<open>gs\<close>) and the MTProto store (\<open>ms\<close>); \<open>planes_agree\<close> below compares the two.
  \<^item> \<open>lossy_bus\<close> and \<open>update_bus\<close> (\<open>Queue_Consumer\<close>): exactly-once, in-order delivery to a polling consumer over a bus
    whose answers may get lost, and, with progress of every poll, that the consumer drains it. Interpreted on the
    update queue (\<open>uq\<close>), the MTProto queue (\<open>mq\<close>), and \<open>lossy_bus\<close> on the SDK talking to the gateway over a network
    that loses requests and answers (\<open>sdk\<close>).

  \<^bold>\<open>What the theorems show.\<close> Rates: the writes admitted in any window are bounded, and a 429 or a flood wait silences its
  chat until it is over (\<open>Guard_Pacing\<close>, \<open>MTGuard\<close>, \<open>Proxy_Pacing\<close>); consumer traffic goes upstream only through the guard
  (\<open>App_Safety\<close>) and addresses the chat it was metered for (\<open>GotdSafety\<close>). Updates: the queue's invariant, exactly-once
  delivery, recovery after a restart, no acknowledged update twice, every loss counted (\<open>Queue_*\<close>, \<open>MTStore\<close>, \<open>MTBelt\<close>,
  \<open>Manager_Lifecycle\<close>, \<open>Sdk\<close>). Sends: at most once per key (\<open>GatewayStore\<close>, \<open>Proxy_Keys\<close>, \<open>MTKeys\<close>). Sessions: the lock
  is exclusive and never stale, one connection per auth key over all processes, a terminal error is final, failed
  starts back off (\<open>Lock\<close>, \<open>MTSafety\<close>, \<open>MTLifecycle\<close>). Operation: the admin surfaces are closed, a crash loop connects
  nothing, a corrupt database is quarantined and restored, migrations resume (\<open>App_Safety\<close>, \<open>MTOperator\<close>, \<open>Db\<close>, \<open>Migrate\<close>).
  Formats: error texts, keyboards, entities and tokens round-trip or refine their specification (\<open>FloodParse\<close>, \<open>Wire\<close>,
  \<open>Pyformat_Spans\<close>). Some lemmas show behaviour the comments or documents do not promise; their text says so.

  \<^bold>\<open>Bounds and fuel.\<close> Loops that wait take a script of what wakes them and answer \<open>None\<close> when the script ends first;
  that they return is proved where it is claimed (\<open>MTBelt.getUpdates_answers\<close>: at the latest in the turn that reads the
  clock 50 seconds after the start; \<open>Queue_Consumer.consumer_drains_queue\<close>: one poll per queued update is enough). All
  other loops are total functions. An \<^verbatim>\<open>int64\<close> is an \<open>int\<close> with the wrap-around written out.

  \<^bold>\<open>Parameters.\<close> Code outside the repository is an argument: the Fernet library (\<open>fernet_lib\<close>, with its documented round
  trip \<open>fernet_ok\<close> as a hypothesis where a property needs it), the parser of floating-point settings (\<open>float_parser\<close>),
  number formatting and scanning, SQLite's integrity verdicts and the success of every statement, Telegram's answers and
  the client library's methods, the entity builder's final pass, the session loader. The order in which Go ranges over
  a map is the order of the list, which the properties leave arbitrary.

  \<^bold>\<open>Not modelled.\<close> Rounding of \<^verbatim>\<open>float64\<close> (exact rationals stand for it); JSON text (values are modelled, not their
  spelling); in \<open>Pyformat\<close> characters beyond the first 256 code points; logging and metrics text formatting; \<^verbatim>\<open>net/http\<close>'s
  listeners and graceful draining, WebSocket framing and the cancellation of contexts; \<^verbatim>\<open>internal/tracing\<close>, which only
  configures a library; the Windows variants of the lock, mount and terminate files, which the unix build replaces; the
  usage texts of \<^verbatim>\<open>cmd/tggw\<close>; \<^verbatim>\<open>examples\<close>. Data races inside one critical section are excluded by the code's mutexes and
  not represented; races between sections are, as interleavings of the pieces.
\<close>

section \<open>The two planes side by side\<close>

lemma planes_claim:
  assumes "mt_keys m = idempotency_keys g"
  shows "mt_keys (fst (MT_IdempotencyClaim io now a k m)) = idempotency_keys (fst (IdempotencyClaim io now a k g)) \<and>
    snd (MT_IdempotencyClaim io now a k m) = snd (IdempotencyClaim io now a k g)"
    "mt_keys (MT_IdempotencyFinish b now a k m) = idempotency_keys (IdempotencyFinish b now a k g)"
    "mt_keys (MT_IdempotencyFail b a k m) = idempotency_keys (IdempotencyFail b a k g)"
  using assms
  by (simp_all add: MT_IdempotencyClaim_def MT_IdempotencyFinish_def MT_IdempotencyFail_def IdempotencyClaim_def
      IdempotencyFinish_def IdempotencyFail_def case_prod_unfold Let_def)

lemma planes_step:
  assumes "mt_keys m = idempotency_keys g"
  shows "mt_keys (ms.op_exec x m) = idempotency_keys (gs.op_exec x g) \<and> (ms.op_granted x m \<longleftrightarrow> gs.op_granted x g)"
  using planes_claim [OF assms] by (cases x) auto



end
